(* ===== verification/Prelude.thy ===== *)
theory Prelude
  imports Main "HOL-Library.Char_ord" "HOL-Library.List_Lexorder"
begin

text \<open>
  Shared material of the development: the reachability predicate that every concurrent component
  uses, the interface locales for inductive invariants and for simulations, ordered dictionaries
  (Python's \<open>dict\<close> keeps insertion order), and the generic lemmas on lists, options and counting
  that the component theories rely on.

  A concurrent component is a state record together with an executable step function
  \<open>'e \<Rightarrow> 's \<Rightarrow> 's option\<close>: one event per atomic section of the source (the code between two
  suspension points of a coroutine), \<open>None\<close> where the section is not enabled.
\<close>

named_theorems dict_simps \<open>rewriting of dictionary operations\<close>
named_theorems count_simps \<open>counting list elements after an update\<close>

section \<open>Ordered dictionaries\<close>

type_synonym ('k, 'v) dict = "('k \<times> 'v) list"

text \<open>\<open>d[k] = v\<close>: an existing key keeps its position, a new key goes last.\<close>

fun dict_put :: "'k \<Rightarrow> 'v \<Rightarrow> ('k, 'v) dict \<Rightarrow> ('k, 'v) dict" where
  "dict_put k v [] = [(k, v)]"
| "dict_put k v ((k', v') # d) = (if k = k' then (k, v) # d else (k', v') # dict_put k v d)"

text \<open>\<open>d.get(k)\<close> and \<open>d.pop(k, None)\<close> (the remaining dictionary).\<close>

definition dict_get :: "('k, 'v) dict \<Rightarrow> 'k \<Rightarrow> 'v option" where
  "dict_get d k = map_of d k"

definition dict_pop :: "'k \<Rightarrow> ('k, 'v) dict \<Rightarrow> ('k, 'v) dict" where
  "dict_pop k d = filter (\<lambda>kv. fst kv \<noteq> k) d"

definition dict_has :: "('k, 'v) dict \<Rightarrow> 'k \<Rightarrow> bool" where
  "dict_has d k = (k \<in> set (map fst d))"

section \<open>Reachable states\<close>

inductive reach :: "('s \<Rightarrow> bool) \<Rightarrow> ('e \<Rightarrow> 's \<Rightarrow> 's option) \<Rightarrow> 's \<Rightarrow> bool" for init step where
  reach_init: "init s \<Longrightarrow> reach init step s"
| reach_step: "reach init step s \<Longrightarrow> step e s = Some t \<Longrightarrow> reach init step t"

fun run :: "('e \<Rightarrow> 's \<Rightarrow> 's option) \<Rightarrow> 'e list \<Rightarrow> 's \<Rightarrow> 's option" where
  "run step [] s = Some s"
| "run step (e # es) s = (case step e s of None \<Rightarrow> None | Some t \<Rightarrow> run step es t)"

text \<open>Steps whose event is admitted by \<open>ok\<close> in the current state.\<close>

definition restrict_step ::
  "('e \<Rightarrow> 's \<Rightarrow> bool) \<Rightarrow> ('e \<Rightarrow> 's \<Rightarrow> 's option) \<Rightarrow> 'e \<Rightarrow> 's \<Rightarrow> 's option" where
  "restrict_step ok step e s = (if ok e s then step e s else None)"

text \<open>The number of list elements with a property, as Python's \<open>sum(1 for x in xs if P(x))\<close>.\<close>

definition count_if :: "('a \<Rightarrow> bool) \<Rightarrow> 'a list \<Rightarrow> int" where
  "count_if P xs = int (length (filter P xs))"

text \<open>
  A sequence of guards that raise: the error of the first one that fires. The second function is
  the same over a loop.
\<close>

fun first_error :: "(bool \<times> 'e) list \<Rightarrow> 'e option" where
  "first_error [] = None"
| "first_error ((bad, e) # gs) = (if bad then Some e else first_error gs)"

fun find_error :: "('a \<Rightarrow> 'e option) \<Rightarrow> 'a list \<Rightarrow> 'e option" where
  "find_error f [] = None"
| "find_error f (x # xs) = (case f x of None \<Rightarrow> find_error f xs | Some e \<Rightarrow> Some e)"

text \<open>Running one validation after another.\<close>

definition or_error :: "'e option \<Rightarrow> 'e option \<Rightarrow> 'e option" where
  "or_error a b = (case a of None \<Rightarrow> b | Some e \<Rightarrow> Some e)"

text \<open>Continuing after a call that may raise.\<close>

definition bind_result :: "'e + 'a \<Rightarrow> ('a \<Rightarrow> 'e + 'b) \<Rightarrow> 'e + 'b" where
  "bind_result m f = (case m of Inl e \<Rightarrow> Inl e | Inr x \<Rightarrow> f x)"

text \<open>\<open>min(xs, key=k)\<close>: the first element with the least key.\<close>

fun py_min_from :: "('a \<Rightarrow> 'k :: linorder) \<Rightarrow> 'a \<Rightarrow> 'a list \<Rightarrow> 'a" where
  "py_min_from k b [] = b"
| "py_min_from k b (x # xs) = py_min_from k (if k x < k b then x else b) xs"

definition py_min :: "('a \<Rightarrow> 'k :: linorder) \<Rightarrow> 'a list \<Rightarrow> 'a option" where
  "py_min k xs = (case xs of [] \<Rightarrow> None | x # ys \<Rightarrow> Some (py_min_from k x ys))"

section \<open>Generic lemmas\<close>

lemma py_min_from_least:
  "py_min_from k b xs \<in> insert b (set xs) \<and> (\<forall>y \<in> insert b (set xs). k (py_min_from k b xs) \<le> k y)"
proof (induction xs arbitrary: b)
  case (Cons x xs)
  show ?case using Cons.IH [of "if k x < k b then x else b"] by (auto split: if_splits)
qed simp

lemma py_min_Some: "py_min k xs = Some m \<Longrightarrow> m \<in> set xs \<and> (\<forall>y \<in> set xs. k m \<le> k y)"
proof (cases xs)
  case (Cons x ys)
  assume "py_min k xs = Some m"
  then have "m = py_min_from k x ys" using Cons by (simp add: py_min_def)
  then show ?thesis using py_min_from_least [of k x ys] Cons by simp
qed (simp add: py_min_def)

lemma py_min_None [simp]: "py_min k xs = None \<longleftrightarrow> xs = []"
  by (simp add: py_min_def split: list.splits)

lemma first_error_None: "first_error gs = None \<longleftrightarrow> (\<forall>g \<in> set gs. \<not> fst g)"
  by (induction gs rule: first_error.induct) auto

lemma find_error_None: "find_error f xs = None \<longleftrightarrow> (\<forall>x \<in> set xs. f x = None)"
  by (induction xs) (auto split: option.splits)

lemma or_error_None [simp]: "or_error a b = None \<longleftrightarrow> a = None \<and> b = None"
  by (simp add: or_error_def split: option.splits)

lemma bind_result_Inr [simp]: "bind_result m f = Inr y \<longleftrightarrow> (\<exists>x. m = Inr x \<and> f x = Inr y)"
  by (simp add: bind_result_def split: sum.splits)

lemma bind_result_simps [simp]: "bind_result (Inr x) f = f x" "bind_result (Inl e) f = Inl e"
  by (simp_all add: bind_result_def)

lemma dict_get_put [simp, dict_simps]:
  "dict_get (dict_put k v d) k' = (if k' = k then Some v else dict_get d k')"
  by (induction d) (auto simp: dict_get_def)

lemma dict_get_pop [simp, dict_simps]:
  "dict_get (dict_pop k d) k' = (if k' = k then None else dict_get d k')"
  by (induction d) (auto simp: dict_get_def dict_pop_def)

lemma dict_get_Nil [simp, dict_simps]: "dict_get [] k = None"
  by (simp add: dict_get_def)

lemma dict_get_Cons [dict_simps]:
  "dict_get ((k', v) # d) k = (if k = k' then Some v else dict_get d k)"
  by (simp add: dict_get_def)

lemma dict_get_None_iff: "dict_get d k = None \<longleftrightarrow> \<not> dict_has d k"
  by (simp add: dict_get_def dict_has_def map_of_eq_None_iff)

lemma dict_put_keys: "fst ` set (dict_put k v d) = insert k (fst ` set d)"
proof (induction d)
  case (Cons a d)
  then show ?case by (cases a) auto
qed simp

lemma dict_put_distinct: "distinct (map fst d) \<Longrightarrow> distinct (map fst (dict_put k v d))"
proof (induction d)
  case (Cons a d)
  then show ?case using dict_put_keys [of k v d] by (cases a) auto
qed simp

lemma dict_put_fresh: "\<not> dict_has d k \<Longrightarrow> dict_put k v d = d @ [(k, v)]"
  by (induction d) (auto simp: dict_has_def)

lemma dict_pop_distinct: "distinct (map fst d) \<Longrightarrow> distinct (map fst (dict_pop k d))"
  by (induction d) (auto simp: dict_pop_def)

lemma dict_get_in: "dict_get d k = Some v \<Longrightarrow> (k, v) \<in> set d"
  by (simp add: dict_get_def map_of_SomeD)

lemma dict_get_iff: "distinct (map fst d) \<Longrightarrow> dict_get d k = Some v \<longleftrightarrow> (k, v) \<in> set d"
  by (simp add: dict_get_def)

subsection \<open>Counting\<close>

lemma count_if_simps [simp, count_simps]:
  "count_if P [] = 0"
  "count_if P (x # xs) = (if P x then 1 else 0) + count_if P xs"
  "count_if P (xs @ ys) = count_if P xs + count_if P ys"
  by (simp_all add: count_if_def)

lemma count_if_ge_0 [simp]: "0 \<le> count_if P xs"
  by (simp add: count_if_def)

lemma count_if_update [count_simps]:
  "i < length xs \<Longrightarrow>
     count_if P (xs[i := y]) = count_if P xs - (if P (xs ! i) then 1 else 0) + (if P y then 1 else 0)"
proof (induction xs arbitrary: i)
  case (Cons a xs)
  then show ?case by (cases i) auto
qed simp

lemma count_if_0_iff: "count_if P xs = 0 \<longleftrightarrow> (\<forall>x \<in> set xs. \<not> P x)"
  by (simp add: count_if_def filter_empty_conv)

lemma count_if_0_nth: "count_if P xs = 0 \<Longrightarrow> i < length xs \<Longrightarrow> \<not> P (xs ! i)"
  by (simp add: count_if_0_iff)

lemma count_if_cong: "(\<And>x. x \<in> set xs \<Longrightarrow> P x = Q x) \<Longrightarrow> count_if P xs = count_if Q xs"
  by (induction xs) auto

lemma count_if_mono: "(\<And>x. x \<in> set xs \<Longrightarrow> P x \<Longrightarrow> Q x) \<Longrightarrow> count_if P xs \<le> count_if Q xs"
  by (induction xs) auto

lemma count_if_pos_nth: "i < length xs \<Longrightarrow> P (xs ! i) \<Longrightarrow> 1 \<le> count_if P xs"
  using count_if_0_nth [of P xs i] count_if_ge_0 [of P xs] by linarith

subsection \<open>Runs and reachability\<close>

lemma reach_run: "reach init step s \<Longrightarrow> run step es s = Some t \<Longrightarrow> reach init step t"
  by (induction es arbitrary: s) (auto split: option.splits intro: reach_step)

lemma run_append: "run step (es @ fs) s = (case run step es s of None \<Rightarrow> None | Some t \<Rightarrow> run step fs t)"
  by (induction es arbitrary: s) (auto split: option.splits)

lemma reach_restrict: "reach init (restrict_step ok step) s \<Longrightarrow> reach init step s"
  by (induction rule: reach.induct)
    (auto intro: reach.intros simp: restrict_step_def split: if_splits)

section \<open>Interface locales\<close>

text \<open>
  What a component has to provide for an invariant: it holds initially and every enabled step
  keeps it. The client of the interface gets it in every reachable state and along every run.
\<close>

locale inductive_invariant =
  fixes init :: "'s \<Rightarrow> bool" and step :: "'e \<Rightarrow> 's \<Rightarrow> 's option" and inv :: "'s \<Rightarrow> bool"
  assumes inv_init: "init s \<Longrightarrow> inv s"
    and inv_step: "inv s \<Longrightarrow> step e s = Some t \<Longrightarrow> inv t"
begin

lemma inv_reach: "reach init step s \<Longrightarrow> inv s"
  by (induction rule: reach.induct) (auto intro: inv_init inv_step)

lemma inv_run: "inv s \<Longrightarrow> run step es s = Some t \<Longrightarrow> inv t"
  by (induction es arbitrary: s) (auto split: option.splits intro: inv_step)

end

end
