(* ===== verification/Py_Values.thy ===== *)
theory Py_Values
  imports Prelude Complex_Main
begin

text \<open>
  The pieces of Python's standard types that the sources rely on. Strings are lists of characters,
  that is, of code points below 256; \<open>py_lower\<close>, \<open>py_isspace\<close> and \<open>py_isalpha\<close> follow Python's
  tables on that range. \<open>py_int\<close> is \<open>int(s)\<close> and \<open>py_int16\<close> is \<open>int(s, 16)\<close> with CPython's grammar:
  surrounding white space, a sign, a \<open>0x\<close> prefix for base sixteen, single underscores between
  digits, and at most 4300 digits in base ten. Binary floating-point numbers are the rationals they
  denote; \<open>fl\<close> rounds a rational to the nearest double (53 significant bits, ties to even, gradual
  underflow below \<open>2 ^ -1022\<close>); a result of \<open>2 ^ 1024\<close> or more is an overflow, which the callers
  that can reach it test for.
\<close>

section \<open>Strings\<close>

definition py_isspace :: "char \<Rightarrow> bool" where
  "py_isspace c =
     (let n = (of_char c :: nat)
      in (9 \<le> n \<and> n \<le> 13) \<or> (28 \<le> n \<and> n \<le> 32) \<or> n = 133 \<or> n = 160)"

definition py_strip :: "string \<Rightarrow> string" where
  "py_strip s = rev (dropWhile py_isspace (rev (dropWhile py_isspace s)))"

definition py_lower_char :: "char \<Rightarrow> char" where
  "py_lower_char c =
     (let n = (of_char c :: nat)
      in if (65 \<le> n \<and> n \<le> 90) \<or> (192 \<le> n \<and> n \<le> 222 \<and> n \<noteq> 215) then char_of (n + 32) else c)"

definition py_lower :: "string \<Rightarrow> string" where
  "py_lower s = map py_lower_char s"

definition py_isalpha :: "char \<Rightarrow> bool" where
  "py_isalpha c =
     (let n = (of_char c :: nat)
      in (65 \<le> n \<and> n \<le> 90) \<or> (97 \<le> n \<and> n \<le> 122) \<or> n = 170 \<or> n = 181 \<or> n = 186
         \<or> (192 \<le> n \<and> n \<noteq> 215 \<and> n \<noteq> 247))"

definition py_startswith :: "string \<Rightarrow> string \<Rightarrow> bool" where
  "py_startswith s p = (take (length p) s = p)"

definition py_removeprefix :: "string \<Rightarrow> string \<Rightarrow> string" where
  "py_removeprefix p s = (if py_startswith s p then drop (length p) s else s)"

text \<open>\<open>s.split(c)\<close> for a one-character separator: always at least one segment.\<close>

fun py_split :: "char \<Rightarrow> string \<Rightarrow> string list" where
  "py_split sep [] = [[]]"
| "py_split sep (c # cs) =
     (if c = sep then [] # py_split sep cs
      else case py_split sep cs of [] \<Rightarrow> [[c]] | seg # segs \<Rightarrow> (c # seg) # segs)"

text \<open>\<open>sorted(set(xs))\<close>.\<close>

definition py_sorted_set :: "string list \<Rightarrow> string list" where
  "py_sorted_set xs = sort (remdups xs)"

text \<open>\<open>str.encode("utf-8")\<close> on code points below 256.\<close>

definition utf8_char :: "char \<Rightarrow> string" where
  "utf8_char c =
     (let n = (of_char c :: nat)
      in if n < 128 then [c] else [char_of (192 + n div 64), char_of (128 + n mod 64)])"

definition utf8 :: "string \<Rightarrow> string" where
  "utf8 s = concat (map utf8_char s)"

section \<open>Integer parsing\<close>

definition digit_value :: "char \<Rightarrow> int option" where
  "digit_value c =
     (let n = (of_char c :: nat)
      in if 48 \<le> n \<and> n \<le> 57 then Some (int n - 48)
         else if 97 \<le> n \<and> n \<le> 122 then Some (int n - 87)
         else if 65 \<le> n \<and> n \<le> 90 then Some (int n - 55)
         else None)"

text \<open>The digits after sign and prefix; \<open>need\<close>: the next character has to be a digit.\<close>

fun parse_digits :: "int \<Rightarrow> int \<Rightarrow> bool \<Rightarrow> string \<Rightarrow> int option" where
  "parse_digits base acc need [] = (if need then None else Some acc)"
| "parse_digits base acc need (c # cs) =
     (if c = CHR ''_'' then (if need then None else parse_digits base acc True cs)
      else case digit_value c of
             None \<Rightarrow> None
           | Some d \<Rightarrow> if d < base then parse_digits base (acc * base + d) False cs else None)"

definition drop_hex_prefix :: "string \<Rightarrow> string" where
  "drop_hex_prefix s =
     (case s of
        z # x # cs \<Rightarrow>
          if z = CHR ''0'' \<and> (x = CHR ''x'' \<or> x = CHR ''X'') then
            (case cs of u # ds \<Rightarrow> if u = CHR ''_'' then ds else cs | [] \<Rightarrow> cs)
          else s
      | _ \<Rightarrow> s)"

definition split_sign :: "string \<Rightarrow> int \<times> string" where
  "split_sign s =
     (case s of
        c # cs \<Rightarrow> if c = CHR ''-'' then (-1, cs) else if c = CHR ''+'' then (1, cs) else (1, s)
      | [] \<Rightarrow> (1, s))"

definition py_int16 :: "string \<Rightarrow> int option" where
  "py_int16 s =
     (case split_sign (py_strip s) of
        (sg, ds) \<Rightarrow> map_option (\<lambda>v. sg * v) (parse_digits 16 0 True (drop_hex_prefix ds)))"

definition py_int :: "string \<Rightarrow> int option" where
  "py_int s =
     (case split_sign (py_strip s) of
        (sg, ds) \<Rightarrow>
          if 4300 < length (filter (\<lambda>c. c \<noteq> CHR ''_'') ds) then None
          else map_option (\<lambda>v. sg * v) (parse_digits 10 0 True ds))"

section \<open>Floating point\<close>

definition round_half_even :: "rat \<Rightarrow> int" where
  "round_half_even x =
     (let f = \<lfloor>x\<rfloor>; r = x - of_int f
      in if r < 1 / 2 then f else if 1 / 2 < r then f + 1 else if even f then f else f + 1)"

fun bit_len :: "nat \<Rightarrow> nat" where
  "bit_len n = (if n = 0 then 0 else Suc (bit_len (n div 2)))"

declare bit_len.simps [simp del]

text \<open>The exponent of a positive rational: the greatest \<open>e\<close> with \<open>2 ^ e \<le> x\<close>.\<close>

definition ilog2 :: "rat \<Rightarrow> int" where
  "ilog2 x =
     (case quotient_of x of
        (p, q) \<Rightarrow>
          let e = int (bit_len (nat p)) - int (bit_len (nat q))
          in if 2 powi e \<le> x then e else e - 1)"

definition fl :: "rat \<Rightarrow> rat" where
  "fl x =
     (if x = 0 then 0
      else let u = 2 powi (max (ilog2 \<bar>x\<bar> - 52) (-1074)) in of_int (round_half_even (x / u)) * u)"

datatype pyfloat = Fin rat | PInf | NInf | NaN

definition to_double :: "rat \<Rightarrow> pyfloat" where
  "to_double x =
     (let r = fl x in if \<bar>r\<bar> < 2 ^ 1024 then Fin r else if 0 < r then PInf else NInf)"

text \<open>
  \<open>float(s)\<close>: surrounding white space, underscores between digits, a sign, \<open>inf\<close>, \<open>infinity\<close> or \<open>nan\<close>
  in any case, or a decimal number with optional fraction and exponent.
\<close>

definition is_digit :: "char \<Rightarrow> bool" where
  "is_digit c = (let n = (of_char c :: nat) in 48 \<le> n \<and> n \<le> 57)"

fun strip_underscores :: "char \<Rightarrow> string \<Rightarrow> string option" where
  "strip_underscores prev [] = (if prev = CHR ''_'' then None else Some [])"
| "strip_underscores prev (c # cs) =
     (if c = CHR ''_'' then (if is_digit prev then strip_underscores c cs else None)
      else if prev = CHR ''_'' \<and> \<not> is_digit c then None
      else map_option (\<lambda>ds. c # ds) (strip_underscores c cs))"

definition digits_int :: "string \<Rightarrow> int" where
  "digits_int ds = foldl (\<lambda>a c. a * 10 + (int (of_char c) - 48)) 0 ds"

definition parse_exponent :: "string \<Rightarrow> int option" where
  "parse_exponent s =
     (case s of
        [] \<Rightarrow> Some 0
      | e # r \<Rightarrow>
          if e = CHR ''e'' \<or> e = CHR ''E'' then
            (case split_sign r of
               (sg, ds) \<Rightarrow> if ds \<noteq> [] \<and> list_all is_digit ds then Some (sg * digits_int ds) else None)
          else None)"

definition parse_decimal :: "string \<Rightarrow> rat option" where
  "parse_decimal s =
     (let ip = takeWhile is_digit s; r1 = dropWhile is_digit s;
          (fp, r2) = (case r1 of
                        p # r \<Rightarrow> if p = CHR ''.'' then (takeWhile is_digit r, dropWhile is_digit r)
                                 else ([], r1)
                      | [] \<Rightarrow> ([], r1))
      in if ip = [] \<and> fp = [] then None
         else map_option
                (\<lambda>e. of_int (digits_int (ip @ fp)) * 10 powi (e - int (length fp)))
                (parse_exponent r2))"

definition py_float :: "string \<Rightarrow> pyfloat option" where
  "py_float s =
     (case strip_underscores (char_of (0::nat)) (py_strip s) of
        None \<Rightarrow> None
      | Some t \<Rightarrow>
          (case split_sign t of
             (sg, r) \<Rightarrow>
               let w = py_lower r in
               if w = ''inf'' \<or> w = ''infinity'' then Some (if 0 < sg then PInf else NInf)
               else if w = ''nan'' then Some NaN
               else map_option (\<lambda>x. to_double (of_int sg * x)) (parse_decimal r)))"

text \<open>\<open>int(x)\<close> of a finite double truncates towards zero.\<close>

definition py_trunc :: "rat \<Rightarrow> int" where
  "py_trunc x = (if x < 0 then - \<lfloor>- x\<rfloor> else \<lfloor>x\<rfloor>)"

text \<open>\<open>round(x, 6)\<close>, and \<open>math.isclose(a, b, rel_tol=0, abs_tol=tol)\<close> on finite doubles.\<close>

definition py_round6 :: "rat \<Rightarrow> rat" where
  "py_round6 x = fl (of_int (round_half_even (x * 1000000)) / 1000000)"

definition py_isclose :: "rat \<Rightarrow> rat \<Rightarrow> rat \<Rightarrow> bool" where
  "py_isclose a b tol = (a = b \<or> fl \<bar>b - a\<bar> \<le> 0 \<or> fl \<bar>b - a\<bar> \<le> tol)"

section \<open>Lemmas on strings\<close>

lemma length_py_lower [simp]: "length (py_lower s) = length s"
  by (simp add: py_lower_def)

lemma py_lower_append [simp]: "py_lower (s @ t) = py_lower s @ py_lower t"
  by (simp add: py_lower_def)

lemma py_lower_fixed_iff: "py_lower s = s \<longleftrightarrow> (\<forall>c \<in> set s. py_lower_char c = c)"
  by (simp add: py_lower_def map_idI) (metis map_eq_conv map_ident)

lemma py_startswith_append [simp]: "py_startswith (p @ s) p"
  by (simp add: py_startswith_def)

lemma py_startswith_iff: "py_startswith s p \<longleftrightarrow> (\<exists>t. s = p @ t)"
  unfolding py_startswith_def by (metis append_eq_conv_conj append_take_drop_id)

lemma py_split_nonempty [simp]: "py_split sep s \<noteq> []"
  by (cases s) (auto split: list.splits)

lemma utf8_char_inj: "utf8_char c @ s = utf8_char d @ t \<Longrightarrow> c = d \<and> s = t"
proof -
  define n m where "n = (of_char c :: nat)" and "m = (of_char d :: nat)"
  have b: "n < 256" "m < 256" by (simp_all add: n_def m_def)
  have c: "c = char_of n" and d: "d = char_of m" by (simp_all add: n_def m_def)
  have ofc: "(of_char (char_of k) :: nat) = k" if "k < 256" for k using that by simp
  assume eq: "utf8_char c @ s = utf8_char d @ t"
  have "n = m \<and> s = t"
  proof -
    have h: "(of_char (hd (utf8_char (char_of k))) :: nat) = (if k < 128 then k else 192 + k div 64)"
      if "k < 256" for k using that by (auto simp: utf8_char_def Let_def)
    have "hd (utf8_char c) = hd (utf8_char d)" using eq by (auto simp: utf8_char_def Let_def split: if_splits)
    then have hd: "(if n < 128 then n else 192 + n div 64) = (if m < 128 then m else 192 + m div 64)"
      using h [OF b(1)] h [OF b(2)] c d by simp
    show ?thesis
    proof (cases "n < 128")
      case True
      then have "m = n" using hd by (simp split: if_splits)
      with eq c d show ?thesis by simp
    next
      case False
      then have m: "\<not> m < 128" and q: "n div 64 = m div 64" using hd by (auto split: if_splits)
      have "char_of (128 + n mod 64) = (char_of (128 + m mod 64) :: char)" and st: "s = t"
        using eq c d False m b by (auto simp: utf8_char_def Let_def)
      then have "(of_char (char_of (128 + n mod 64) :: char) :: nat) = of_char (char_of (128 + m mod 64) :: char)"
        by simp
      then have "n mod 64 = m mod 64" by simp
      with q have "n = m" by (metis div_mult_mod_eq)
      with st show ?thesis by simp
    qed
  qed
  with c d show ?thesis by simp
qed

lemma utf8_inj: "utf8 s = utf8 t \<Longrightarrow> s = t"
proof (induction s arbitrary: t)
  case Nil
  then show ?case by (cases t) (auto simp: utf8_def utf8_char_def Let_def split: if_splits)
next
  case (Cons c s)
  then obtain d t' where t: "t = d # t'"
    by (cases t) (auto simp: utf8_def utf8_char_def Let_def split: if_splits)
  then have "utf8_char c @ utf8 s = utf8_char d @ utf8 t'" using Cons.prems by (simp add: utf8_def)
  from utf8_char_inj [OF this] show ?case using Cons.IH t by simp
qed

lemma sorted_py_sorted_set [simp]: "sorted (py_sorted_set xs)"
  by (simp add: py_sorted_set_def)

lemma set_py_sorted_set [simp]: "set (py_sorted_set xs) = set xs"
  by (simp add: py_sorted_set_def)

lemma distinct_py_sorted_set [simp]: "distinct (py_sorted_set xs)"
  by (simp add: py_sorted_set_def)

lemma py_sorted_set_id: "sorted xs \<Longrightarrow> distinct xs \<Longrightarrow> py_sorted_set xs = xs"
  by (simp add: py_sorted_set_def sorted_sort_id distinct_remdups_id)

lemma py_sorted_set_idem [simp]: "py_sorted_set (py_sorted_set xs) = py_sorted_set xs"
  by (rule py_sorted_set_id) simp_all

lemma py_strip_id:
  assumes "\<forall>c \<in> set s. \<not> py_isspace c"
  shows "py_strip s = s"
proof -
  have d: "dropWhile py_isspace t = t" if "\<forall>c \<in> set t. \<not> py_isspace c" for t
    using that by (cases t) auto
  show ?thesis using assms by (simp add: py_strip_def d)
qed

section \<open>Lemmas on floating point\<close>

lemma round_half_even_error: "\<bar>of_int (round_half_even x) - x\<bar> \<le> 1 / 2"
proof -
  have "of_int \<lfloor>x\<rfloor> \<le> x" and "x < of_int \<lfloor>x\<rfloor> + 1" by linarith+
  then show ?thesis by (auto simp: round_half_even_def Let_def abs_le_iff)
qed

lemma round_half_even_int [simp]: "round_half_even (of_int n) = n"
  by (simp add: round_half_even_def)

lemma bit_len_bounds: "0 < n \<Longrightarrow> 2 ^ (bit_len n - 1) \<le> n \<and> n < 2 ^ bit_len n \<and> 0 < bit_len n"
proof (induction n rule: bit_len.induct)
  case (1 n)
  show ?case
  proof (cases "n = 1")
    case True
    then show ?thesis by (simp add: bit_len.simps)
  next
    case False
    with 1 have "2 ^ (bit_len (n div 2) - 1) \<le> n div 2" and "n div 2 < 2 ^ bit_len (n div 2)"
      and "0 < bit_len (n div 2)" by auto
    moreover have "bit_len n = Suc (bit_len (n div 2))" using 1(2) by (simp add: bit_len.simps)
    ultimately show ?thesis by (cases "bit_len (n div 2)") auto
  qed
qed

lemma ilog2_bounds:
  assumes "0 < x"
  shows "2 powi (ilog2 x) \<le> x" and "x < 2 powi (ilog2 x + 1)"
proof -
  obtain p q where pq: "quotient_of x = (p, q)" by (cases "quotient_of x")
  have q0: "0 < q" using quotient_of_denom_pos [OF pq] .
  have x: "x = of_int p / of_int q" using quotient_of_div [OF pq] .
  with assms q0 have p0: "0 < p" by (simp add: zero_less_divide_iff)
  define a b where "a = bit_len (nat p)" and "b = bit_len (nat q)"
  have bp: "2 ^ (a - 1) \<le> nat p" "nat p < 2 ^ a" "0 < a"
    and bq: "2 ^ (b - 1) \<le> nat q" "nat q < 2 ^ b" "0 < b"
    using bit_len_bounds [of "nat p"] bit_len_bounds [of "nat q"] p0 q0 by (simp_all add: a_def b_def)
  have "(2 ^ (a - 1) :: rat) \<le> of_nat (nat p)" using bp(1) by (metis of_nat_le_iff of_nat_numeral of_nat_power)
  moreover have "of_nat (nat p) < (2 ^ a :: rat)" using bp(2) by (metis of_nat_less_iff of_nat_numeral of_nat_power)
  moreover have "(2 ^ (b - 1) :: rat) \<le> of_nat (nat q)" using bq(1) by (metis of_nat_le_iff of_nat_numeral of_nat_power)
  moreover have "of_nat (nat q) < (2 ^ b :: rat)" using bq(2) by (metis of_nat_less_iff of_nat_numeral of_nat_power)
  ultimately have P: "(2::rat) powi (int a - 1) \<le> of_int p" "of_int p < (2::rat) powi (int a)"
    and Q: "(2::rat) powi (int b - 1) \<le> of_int q" "of_int q < (2::rat) powi (int b)"
    using p0 q0 bp(3) bq(3) by (simp_all add: power_int_def nat_diff_distrib of_nat_diff)
  have up: "x < 2 powi (int a - int b + 1)"
  proof -
    have "x < 2 powi (int a) / 2 powi (int b - 1)"
      unfolding x using P(2) Q(1) p0 q0 by (intro frac_less) auto
    also have "\<dots> = 2 powi (int a - (int b - 1))" by (subst power_int_diff) simp_all
    also have "int a - (int b - 1) = int a - int b + 1" by simp
    finally show ?thesis .
  qed
  have lo: "2 powi (int a - int b - 1) \<le> x"
  proof -
    have "int a - int b - 1 = (int a - 1) - int b" by simp
    then have "2 powi (int a - int b - 1) = (2::rat) powi (int a - 1) / 2 powi (int b)"
      by (simp only:) (subst power_int_diff, simp_all)
    also have "\<dots> \<le> x" unfolding x using P(1) Q(2) p0 q0 by (intro frac_le) auto
    finally show ?thesis .
  qed
  have i: "ilog2 x = (if 2 powi (int a - int b) \<le> x then int a - int b else int a - int b - 1)"
    by (simp add: ilog2_def pq Let_def a_def b_def)
  show "2 powi (ilog2 x) \<le> x" using lo by (simp add: i)
  show "x < 2 powi (ilog2 x + 1)" using up by (simp add: i)
qed

lemma fl_0 [simp]: "fl 0 = 0"
  by (simp add: fl_def)

lemma fl_error: "\<bar>fl x - x\<bar> \<le> \<bar>x\<bar> / 2 ^ 53 + 2 powi (-1075)"
proof (cases "x = 0")
  case False
  define e where "e = ilog2 \<bar>x\<bar>"
  define u where "u = (2::rat) powi (max (e - 52) (-1074))"
  have u0: "0 < u" by (simp add: u_def)
  have ex: "2 powi e \<le> \<bar>x\<bar>" unfolding e_def using False by (intro ilog2_bounds) simp
  have half: "u / 2 \<le> \<bar>x\<bar> / 2 ^ 53 + 2 powi (-1075)"
  proof (cases "-1074 \<le> e - 52")
    case True
    then have "u = 2 powi (e - 52)" by (simp add: u_def)
    then have "u * 2 ^ 52 = 2 powi e" by (simp add: power_int_diff)
    with ex have "u / 2 \<le> \<bar>x\<bar> / 2 ^ 53" by (simp add: field_simps)
    moreover have "(0::rat) \<le> 2 powi (-1075)" by simp
    ultimately show ?thesis by linarith
  next
    case False
    then have "u = 2 powi (-1074)" by (simp add: u_def max_def)
    also have "\<dots> / 2 = (2::rat) powi (-1074 - 1)" by (subst power_int_diff) simp_all
    finally have "u / 2 = 2 powi (-1075)" by simp
    moreover have "0 \<le> \<bar>x\<bar> / 2 ^ 53" by simp
    ultimately show ?thesis by linarith
  qed
  have "fl x - x = (of_int (round_half_even (x / u)) - x / u) * u"
    using False u0 by (simp add: fl_def u_def [symmetric] e_def [symmetric] Let_def algebra_simps)
  then have "\<bar>fl x - x\<bar> = \<bar>of_int (round_half_even (x / u)) - x / u\<bar> * u"
    using u0 by (simp add: abs_mult)
  also have "\<dots> \<le> 1 / 2 * u" using round_half_even_error u0 by (intro mult_right_mono) auto
  finally show ?thesis using half by simp
qed simp

lemma tiny: "(2::rat) powi (-1075) \<le> 1 / 10 ^ 12"
proof -
  have "(2::rat) powi (-1075) \<le> 2 powi (-40)" by (rule power_int_increasing) simp_all
  also have "\<dots> = 1 / 2 ^ 40" by (simp only: power_int_minus power_int_numeral inverse_eq_divide)
  also have "\<dots> \<le> 1 / 10 ^ 12" by simp
  finally show ?thesis .
qed

lemma round_half_even_nonneg: "0 \<le> x \<Longrightarrow> 0 \<le> round_half_even x"
  by (simp add: round_half_even_def Let_def)

lemma fl_nonneg: "0 \<le> x \<Longrightarrow> 0 \<le> fl x"
  by (simp add: fl_def Let_def round_half_even_nonneg)

lemma fl_exact:
  assumes "x = of_int n * 2 powi k" and "-1074 \<le> k" and "\<bar>n\<bar> < 2 ^ 53"
  shows "fl x = x"
proof (cases "x = 0")
  case False
  define e where "e = ilog2 \<bar>x\<bar>"
  define m where "m = max (e - 52) (-1074)"
  have "2 powi e \<le> \<bar>x\<bar>" unfolding e_def using False by (intro ilog2_bounds) simp
  also have "\<bar>x\<bar> < 2 powi (53 + k)"
  proof -
    have "(of_int \<bar>n\<bar> :: rat) < 2 ^ 53" using assms(3) by (metis of_int_less_iff of_int_numeral of_int_power)
    then have "(of_int \<bar>n\<bar> :: rat) * 2 powi k < 2 ^ 53 * 2 powi k" by (intro mult_strict_right_mono) simp_all
    then show ?thesis by (simp add: assms(1) abs_mult power_int_add)
  qed
  finally have lt: "(2::rat) powi e < 2 powi (53 + k)" .
  have "e < 53 + k"
  proof (rule ccontr)
    assume "\<not> e < 53 + k"
    then have "(2::rat) powi (53 + k) \<le> 2 powi e" by (intro power_int_increasing) simp_all
    with lt show False by simp
  qed
  then have "m \<le> k" using assms(2) by (simp add: m_def)
  then have "(2::rat) ^ nat (k - m) = 2 powi (k - m)" by (simp add: power_int_def)
  then have "2 powi k = (2::rat) ^ nat (k - m) * 2 powi m" by (simp add: power_int_diff)
  then have "x / 2 powi m = of_int (n * 2 ^ nat (k - m))" by (simp add: assms(1))
  then have "round_half_even (x / 2 powi m) = n * 2 ^ nat (k - m)" by (simp only: round_half_even_int)
  then have "fl x = of_int (n * 2 ^ nat (k - m)) * 2 powi m"
    using False by (simp add: fl_def Let_def e_def [symmetric] m_def [symmetric])
  also have "\<dots> = x / 2 powi m * 2 powi m" using \<open>x / 2 powi m = _\<close> by simp
  finally show ?thesis by simp
qed simp

lemma fl_int: "\<bar>n\<bar> < 2 ^ 53 \<Longrightarrow> fl (of_int n) = of_int n"
  by (rule fl_exact [of _ n 0]) simp_all

lemma fl_numeral [simp]: "(numeral n :: int) < 2 ^ 53 \<Longrightarrow> fl (numeral n) = numeral n"
  using fl_int [of "numeral n"] by simp

lemma fl_1 [simp]: "fl 1 = 1"
  using fl_int [of 1] by simp

text \<open>Rounding to six decimals moves a double of moderate size by less than the tolerance \<open>1e-6\<close>.\<close>

lemma fl_error_small:
  assumes "\<bar>x\<bar> \<le> 3000000"
  shows "\<bar>fl x - x\<bar> \<le> 1 / 1000000000"
proof -
  have "\<bar>x\<bar> / 2 ^ 53 \<le> 3000000 / 2 ^ 53" using assms by (intro divide_right_mono) simp_all
  also have "\<dots> \<le> 1 / 2000000000" by simp
  finally have "\<bar>x\<bar> / 2 ^ 53 + 2 powi (-1075) \<le> 1 / 1000000000" using tiny by simp
  with fl_error [of x] show ?thesis by linarith
qed

lemma round6_close:
  assumes "0 \<le> x" and "x \<le> 2000000"
  shows "py_isclose (py_round6 x) x (fl (1 / 1000000))"
proof -
  define r :: rat where "r = of_int (round_half_even (x * 1000000)) / 1000000"
  have r: "\<bar>r - x\<bar> \<le> 1 / 2000000"
    using round_half_even_error [of "x * 1000000"] unfolding r_def by (simp add: abs_le_iff field_simps)
  have "\<bar>fl r - r\<bar> \<le> 1 / 1000000000" using r assms by (intro fl_error_small) linarith
  with r have d: "\<bar>x - fl r\<bar> \<le> 501 / 1000000000" by linarith
  then have "\<bar>fl \<bar>x - fl r\<bar> - \<bar>x - fl r\<bar>\<bar> \<le> 1 / 1000000000" by (intro fl_error_small) simp
  with d have "fl \<bar>x - fl r\<bar> \<le> 502 / 1000000000" by linarith
  moreover have "\<bar>fl (1 / 1000000) - 1 / 1000000\<bar> \<le> 1 / 1000000000" by (intro fl_error_small) simp
  ultimately have "fl \<bar>x - fl r\<bar> \<le> fl (1 / 1000000)" by linarith
  then show ?thesis by (simp add: py_isclose_def py_round6_def r_def)
qed

end
