(* ===== verification/Py_Regex.thy ===== *)
theory Py_Regex
  imports Py_Values
begin

text \<open>
  The part of Python's \<open>re\<close> that the sources use: character classes, sequences, alternatives, greedy
  repetition, the anchors \<open>^\<close> and \<open>$\<close>, and one capture group. A match state is the rest of the input
  together with whether it is the beginning of the string. \<open>rx_ends r st\<close> lists the states after a
  match of \<open>r\<close> at \<open>st\<close> in the order in which a backtracking matcher tries them, so the first one that
  lets the remainder of the pattern match is the one that Python reports.
\<close>

datatype rx =
    RxClass "char \<Rightarrow> bool"
  | RxEmpty
  | RxStart
  | RxEnd
  | RxSeq rx rx
  | RxAlt rx rx
  | RxStar rx

type_synonym rx_state = "bool \<times> string"

text \<open>\<open>$\<close> also matches before a final newline.\<close>

definition at_end :: "string \<Rightarrow> bool" where
  "at_end s = (s = [] \<or> s = [CHR 0x0A])"

function rx_ends :: "rx \<Rightarrow> rx_state \<Rightarrow> rx_state list" where
  "rx_ends (RxClass p) st = (case snd st of [] \<Rightarrow> [] | c # cs \<Rightarrow> if p c then [(False, cs)] else [])"
| "rx_ends RxEmpty st = [st]"
| "rx_ends RxStart st = (if fst st then [st] else [])"
| "rx_ends RxEnd st = (if at_end (snd st) then [st] else [])"
| "rx_ends (RxSeq r s) st =
     concat (map (\<lambda>st'. if length (snd st') \<le> length (snd st) then rx_ends s st' else []) (rx_ends r st))"
| "rx_ends (RxAlt r s) st = rx_ends r st @ rx_ends s st"
| "rx_ends (RxStar r) st =
     concat (map (\<lambda>st'. if length (snd st') < length (snd st) then rx_ends (RxStar r) st' else [])
       (rx_ends r st)) @ [st]"
  by pat_completeness auto
termination
  by (relation "measures [\<lambda>(r, st). length (snd st), \<lambda>(r, st). size r]") auto

declare rx_ends.simps(5,7) [simp del]

text \<open>The usual abbreviations: \<open>r+\<close>, \<open>r?\<close>, \<open>r{n}\<close>, literal text and \<open>(?:\<dots>|\<dots>|\<dots>)\<close>.\<close>

definition rx_plus :: "rx \<Rightarrow> rx" where
  "rx_plus r = RxSeq r (RxStar r)"

definition rx_opt :: "rx \<Rightarrow> rx" where
  "rx_opt r = RxAlt r RxEmpty"

fun rx_all :: "rx list \<Rightarrow> rx" where
  "rx_all [] = RxEmpty"
| "rx_all [r] = r"
| "rx_all (r # s # rs) = RxSeq r (rx_all (s # rs))"

fun rx_any :: "rx list \<Rightarrow> rx" where
  "rx_any [] = RxClass (\<lambda>_. False)"
| "rx_any [r] = r"
| "rx_any (r # s # rs) = RxAlt r (rx_any (s # rs))"

definition rx_text :: "string \<Rightarrow> rx" where
  "rx_text s = rx_all (map (\<lambda>c. RxClass (\<lambda>d. d = c)) s)"

text \<open>Literal text and classes under \<open>re.IGNORECASE\<close>.\<close>

definition rx_itext :: "string \<Rightarrow> rx" where
  "rx_itext s = rx_all (map (\<lambda>c. RxClass (\<lambda>d. py_lower_char d = py_lower_char c)) s)"

definition in_range :: "char \<Rightarrow> char \<Rightarrow> char \<Rightarrow> bool" where
  "in_range a b c = ((of_char a :: nat) \<le> of_char c \<and> (of_char c :: nat) \<le> of_char b)"

definition ascii_alnum :: "char \<Rightarrow> bool" where
  "ascii_alnum c = (in_range (CHR ''0'') (CHR ''9'') c \<or> in_range (CHR ''A'') (CHR ''Z'') c
     \<or> in_range (CHR ''a'') (CHR ''z'') c)"

section \<open>Matching\<close>

text \<open>\<open>r.fullmatch(s)\<close> and \<open>r.match(s)\<close>, as truth values.\<close>

definition rx_fullmatch :: "rx \<Rightarrow> string \<Rightarrow> bool" where
  "rx_fullmatch r s = list_ex (\<lambda>st. snd st = []) (rx_ends r (True, s))"

definition rx_match :: "rx \<Rightarrow> string \<Rightarrow> bool" where
  "rx_match r s = (rx_ends r (True, s) \<noteq> [])"

text \<open>
  \<open>re.search\<close> for a pattern \<open>pre (group) post\<close>: at the leftmost position where it matches, the text
  of the group.
\<close>

definition group_at :: "rx \<Rightarrow> rx \<Rightarrow> rx \<Rightarrow> rx_state \<Rightarrow> string option" where
  "group_at pre grp post st =
     (case concat (map (\<lambda>a. concat (map (\<lambda>b. if rx_ends post b \<noteq> [] then [(a, b)] else []) (rx_ends grp a)))
             (rx_ends pre st)) of
        [] \<Rightarrow> None
      | (a, b) # _ \<Rightarrow> Some (take (length (snd a) - length (snd b)) (snd a)))"

fun search_from :: "rx \<Rightarrow> rx \<Rightarrow> rx \<Rightarrow> bool \<Rightarrow> string \<Rightarrow> string option" where
  "search_from pre grp post start [] = group_at pre grp post (start, [])"
| "search_from pre grp post start (c # cs) =
     (case group_at pre grp post (start, c # cs) of
        Some g \<Rightarrow> Some g
      | None \<Rightarrow> search_from pre grp post False cs)"

definition rx_search_group :: "rx \<Rightarrow> rx \<Rightarrow> rx \<Rightarrow> string \<Rightarrow> string option" where
  "rx_search_group pre grp post s = search_from pre grp post True s"

section \<open>What the matcher computes\<close>

text \<open>The words of a pattern without anchors; the matcher finds exactly the ways to split one off.\<close>

fun anchor_free :: "rx \<Rightarrow> bool" where
  "anchor_free RxStart = False"
| "anchor_free RxEnd = False"
| "anchor_free (RxSeq r s) = (anchor_free r \<and> anchor_free s)"
| "anchor_free (RxAlt r s) = (anchor_free r \<and> anchor_free s)"
| "anchor_free (RxStar r) = anchor_free r"
| "anchor_free _ = True"

inductive rx_word :: "rx \<Rightarrow> string \<Rightarrow> bool" where
  word_class: "p c \<Longrightarrow> rx_word (RxClass p) [c]"
| word_empty: "rx_word RxEmpty []"
| word_seq: "rx_word r u \<Longrightarrow> rx_word s v \<Longrightarrow> rx_word (RxSeq r s) (u @ v)"
| word_left: "rx_word r u \<Longrightarrow> rx_word (RxAlt r s) u"
| word_right: "rx_word s u \<Longrightarrow> rx_word (RxAlt r s) u"
| word_done: "rx_word (RxStar r) []"
| word_more: "rx_word r u \<Longrightarrow> rx_word (RxStar r) v \<Longrightarrow> rx_word (RxStar r) (u @ v)"

inductive_simps rx_word_simps [simp]:
  "rx_word (RxClass p) u" "rx_word RxEmpty u" "rx_word RxStart u" "rx_word RxEnd u"
  "rx_word (RxSeq r s) u" "rx_word (RxAlt r s) u"

text \<open>Every state the matcher reaches is a suffix of the input, with a word of the pattern before it.\<close>

lemma rx_ends_Star:
  "set (rx_ends (RxStar r) st) = insert st
     (\<Union>st' \<in> {st' \<in> set (rx_ends r st). length (snd st') < length (snd st)}. set (rx_ends (RxStar r) st'))"
  by (subst rx_ends.simps(7)) (simp, blast)

lemma rx_ends_suffix: "st' \<in> set (rx_ends r st) \<Longrightarrow> \<exists>u. snd st = u @ snd st'"
proof (induction r st arbitrary: st' rule: rx_ends.induct)
  case (1 p st)
  then show ?case by (cases "snd st") (auto split: if_splits)
next
  case (5 r s st)
  obtain st1 where 1: "st1 \<in> set (rx_ends r st)" "length (snd st1) \<le> length (snd st)"
    and 2: "st' \<in> set (rx_ends s st1)"
    using 5(3) by (auto simp: rx_ends.simps(5) split: if_splits)
  from 5(1) [OF 1(1)] 5(2) [OF 1 2] show ?case by (metis append.assoc)
next
  case (7 r st)
  show ?case
  proof (cases "st' = st")
    case False
    then obtain st1 where 1: "st1 \<in> set (rx_ends r st)" "length (snd st1) < length (snd st)"
      and 2: "st' \<in> set (rx_ends (RxStar r) st1)"
      using 7(3) by (subst (asm) rx_ends_Star) blast
    from 7(1) [OF 1(1)] 7(2) [OF 1 2] show ?thesis by (metis append.assoc)
  qed simp
next
  case (6 r s st)
  have "st' \<in> set (rx_ends r st) \<or> st' \<in> set (rx_ends s st)" using 6(3) by simp
  then show ?case using 6(1,2) by blast
qed (auto split: if_splits)

lemma rx_ends_shorter: "st' \<in> set (rx_ends r st) \<Longrightarrow> length (snd st') \<le> length (snd st)"
  using rx_ends_suffix [of st' r st] by (metis length_append le_add2)

lemma rx_ends_Seq: "set (rx_ends (RxSeq r s) st) = (\<Union>st' \<in> set (rx_ends r st). set (rx_ends s st'))"
  by (auto simp: rx_ends.simps(5) dest: rx_ends_shorter split: if_splits)

lemma rx_ends_word:
  "anchor_free r \<Longrightarrow> st' \<in> set (rx_ends r st) \<Longrightarrow> \<exists>u. rx_word r u \<and> snd st = u @ snd st'"
proof (induction r st arbitrary: st' rule: rx_ends.induct)
  case (1 p st)
  then show ?case by (cases "snd st") (auto split: if_splits)
next
  case (5 r s st)
  have af: "anchor_free r" "anchor_free s" using 5(3) by simp_all
  obtain st1 where 1: "st1 \<in> set (rx_ends r st)" and 2: "st' \<in> set (rx_ends s st1)"
    using 5(4) by (auto simp: rx_ends_Seq)
  obtain u where u: "rx_word r u" "snd st = u @ snd st1" using 5(1) [OF af(1) 1] by blast
  obtain v where v: "rx_word s v" "snd st1 = v @ snd st'"
    using 5(2) [OF 1 rx_ends_shorter [OF 1] af(2) 2] by blast
  show ?case using u v by (intro exI [of _ "u @ v"]) auto
next
  case (7 r st)
  have af: "anchor_free r" using 7(3) by simp
  show ?case
  proof (cases "st' = st")
    case False
    then obtain st1 where 1: "st1 \<in> set (rx_ends r st)" "length (snd st1) < length (snd st)"
      and 2: "st' \<in> set (rx_ends (RxStar r) st1)"
      using 7(4) by (subst (asm) rx_ends_Star) blast
    obtain u where u: "rx_word r u" "snd st = u @ snd st1" using 7(1) [OF af 1(1)] by blast
    obtain v where v: "rx_word (RxStar r) v" "snd st1 = v @ snd st'" using 7(2) [OF 1 7(3) 2] by blast
    show ?thesis using u v by (intro exI [of _ "u @ v"]) (auto intro: word_more)
  qed (auto intro: word_done)
next
  case (6 r s st)
  have af: "anchor_free r" "anchor_free s" using 6(3) by simp_all
  have "st' \<in> set (rx_ends r st) \<or> st' \<in> set (rx_ends s st)" using 6(4) by simp
  then show ?case using 6(1) [OF af(1)] 6(2) [OF af(2)] by (meson word_left word_right)
qed (auto split: if_splits)

text \<open>Conversely, every word of the pattern that starts the input is found.\<close>

lemma rx_word_ends: "rx_word r u \<Longrightarrow> \<exists>b'. (b', t) \<in> set (rx_ends r (b, u @ t))"
proof (induction r u arbitrary: b t rule: rx_word.induct)
  case (word_seq r u s v)
  obtain b1 where 1: "(b1, v @ t) \<in> set (rx_ends r (b, u @ v @ t))" using word_seq.IH(1) by blast
  obtain b2 where 2: "(b2, t) \<in> set (rx_ends s (b1, v @ t))" using word_seq.IH(2) by blast
  show ?case using 1 2 by (auto simp: rx_ends_Seq)
next
  case (word_more r u v)
  show ?case
  proof (cases "u = []")
    case True
    then show ?thesis using word_more.IH(2) by simp
  next
    case False
    obtain b1 where 1: "(b1, v @ t) \<in> set (rx_ends r (b, u @ v @ t))" using word_more.IH(1) by blast
    obtain b2 where 2: "(b2, t) \<in> set (rx_ends (RxStar r) (b1, v @ t))" using word_more.IH(2) by blast
    have "(b1, v @ t) \<in> {st' \<in> set (rx_ends r (b, (u @ v) @ t)). length (snd st') < length ((u @ v) @ t)}"
      using 1 False by simp
    with 2 have "(b2, t) \<in> set (rx_ends (RxStar r) (b, (u @ v) @ t))"
      by (subst rx_ends_Star) (simp only: snd_conv, blast)
    then show ?thesis by blast
  qed
next
  case (word_left r u s)
  obtain b1 where "(b1, t) \<in> set (rx_ends r (b, u @ t))" using word_left.IH by blast
  then show ?case by auto
next
  case (word_right s u r)
  obtain b1 where "(b1, t) \<in> set (rx_ends s (b, u @ t))" using word_right.IH by blast
  then show ?case by auto
next
  case (word_done r)
  show ?case by (subst rx_ends_Star) auto
qed auto

theorem rx_fullmatch_word: "anchor_free r \<Longrightarrow> rx_fullmatch r s \<longleftrightarrow> rx_word r s"
proof
  assume af: "anchor_free r" and "rx_fullmatch r s"
  then obtain st where "st \<in> set (rx_ends r (True, s))" "snd st = []"
    by (auto simp: rx_fullmatch_def list_ex_iff)
  with rx_ends_word [OF af] show "rx_word r s" by fastforce
next
  assume "rx_word r s"
  from rx_word_ends [OF this, of "[]" True] show "rx_fullmatch r s"
    by (force simp: rx_fullmatch_def list_ex_iff)
qed

text \<open>Repetitions of a character class.\<close>

lemma rx_word_star_class: "rx_word (RxStar (RxClass p)) u \<longleftrightarrow> list_all p u"
proof
  assume "rx_word (RxStar (RxClass p)) u"
  then show "list_all p u" by (induction "RxStar (RxClass p)" u rule: rx_word.induct) auto
next
  assume "list_all p u"
  then show "rx_word (RxStar (RxClass p)) u"
  proof (induction u)
    case (Cons c u)
    then have "rx_word (RxStar (RxClass p)) ([c] @ u)" by (intro word_more) auto
    then show ?case by simp
  qed (rule word_done)
qed

lemma rx_word_plus_class: "rx_word (rx_plus (RxClass p)) u \<longleftrightarrow> u \<noteq> [] \<and> list_all p u"
proof (cases u)
  case (Cons c cs)
  have "rx_word (rx_plus (RxClass p)) u" if "p c" "list_all p cs"
  proof -
    have "rx_word (rx_plus (RxClass p)) ([c] @ cs)"
      unfolding rx_plus_def by (intro word_seq word_class that(1)) (simp add: rx_word_star_class that(2))
    with Cons show ?thesis by simp
  qed
  then show ?thesis using Cons by (auto simp: rx_plus_def rx_word_star_class)
qed (auto simp: rx_plus_def)

end
