(* ===== verification/Json_Canonical.thy ===== *)
theory Json_Canonical
  imports Py_Values
begin

text \<open>
  Python's \<open>json.dumps(value, sort_keys=True, separators=(",", ":"), ensure_ascii=False)\<close>, the
  canonical text that both the nodes and the gateway hash into a deployment identity; and that it
  determines a document without floating-point numbers. \<open>float_repr\<close> is \<open>repr\<close> of a finite double:
  the shortest decimal that rounds to it (the sign of zero is not represented).
\<close>

datatype json =
    JNull
  | JBool bool
  | JInt int
  | JFloat pyfloat
  | JStr string
  | JArr "json list"
  | JObj "(string \<times> json) list"

section \<open>Printing\<close>

fun nat_str :: "nat \<Rightarrow> string" where
  "nat_str n =
     (if n < 10 then [char_of (48 + n)] else nat_str (n div 10) @ [char_of (48 + n mod 10)])"

declare nat_str.simps [simp del]

definition int_str :: "int \<Rightarrow> string" where
  "int_str i = (if i < 0 then CHR ''-'' # nat_str (nat (- i)) else nat_str (nat i))"

text \<open>The position of the decimal point of a positive number: \<open>10 ^ (k - 1) \<le> x < 10 ^ k\<close>.\<close>

fun leading_zeros :: "nat \<Rightarrow> rat \<Rightarrow> nat" where
  "leading_zeros 0 x = 0"
| "leading_zeros (Suc n) x = (if x * 10 < 1 then Suc (leading_zeros n (x * 10)) else 0)"

definition decimal_point :: "rat \<Rightarrow> int" where
  "decimal_point x =
     (if 1 \<le> x then int (length (nat_str (nat \<lfloor>x\<rfloor>))) else - int (leading_zeros 330 x))"

text \<open>The nearest decimal with \<open>n\<close> significant digits among those that read back as \<open>x\<close>.\<close>

definition decimal_digits :: "rat \<Rightarrow> int \<Rightarrow> nat \<Rightarrow> int option" where
  "decimal_digits x k n =
     (let u = 10 powi (k - int n); lo = \<lfloor>x / u\<rfloor>; near = round_half_even (x / u);
          ok = (\<lambda>m. fl (of_int m * u) = x)
      in if ok near then Some near
         else if ok lo then Some lo else if ok (lo + 1) then Some (lo + 1) else None)"

fun first_some :: "('a \<Rightarrow> 'b option) \<Rightarrow> 'a list \<Rightarrow> ('a \<times> 'b) option" where
  "first_some f [] = None"
| "first_some f (x # xs) = (case f x of Some y \<Rightarrow> Some (x, y) | None \<Rightarrow> first_some f xs)"

definition decimal_format :: "string \<Rightarrow> int \<Rightarrow> string" where
  "decimal_format ds k =
     (if k \<le> -4 \<or> 16 < k then
        [hd ds] @ (if tl ds = [] then [] else CHR ''.'' # tl ds) @ CHR ''e''
          # (if k - 1 < 0 then CHR ''-'' else CHR ''+'')
          # (let e = nat_str (nat \<bar>k - 1\<bar>) in if length e < 2 then CHR ''0'' # e else e)
      else if k \<le> 0 then ''0.'' @ replicate (nat (- k)) (CHR ''0'') @ ds
      else if int (length ds) \<le> k then ds @ replicate (nat k - length ds) (CHR ''0'') @ ''.0''
      else take (nat k) ds @ CHR ''.'' # drop (nat k) ds)"

definition positive_repr :: "rat \<Rightarrow> string" where
  "positive_repr x =
     (let k = decimal_point x
      in case first_some (decimal_digits x k) [1..<18] of
           None \<Rightarrow> []
         | Some (n, m) \<Rightarrow>
             let ds = nat_str (nat m)
             in decimal_format (rev (dropWhile (\<lambda>c. c = CHR ''0'') (rev ds))) (k + int (length ds) - int n))"

fun float_repr :: "pyfloat \<Rightarrow> string" where
  "float_repr (Fin x) =
     (if x = 0 then ''0.0'' else if x < 0 then CHR ''-'' # positive_repr (- x) else positive_repr x)"
| "float_repr PInf = ''Infinity''"
| "float_repr NInf = ''-Infinity''"
| "float_repr NaN = ''NaN''"

definition hex_digit :: "nat \<Rightarrow> char" where
  "hex_digit n = (if n < 10 then char_of (48 + n) else char_of (87 + n))"

definition esc_char :: "char \<Rightarrow> string" where
  "esc_char c =
     (let n = (of_char c :: nat) in
      if n = 34 then [CHR 0x5C, c]
      else if n = 92 then [c, c]
      else if n = 10 then [CHR 0x5C, CHR ''n'']
      else if n = 13 then [CHR 0x5C, CHR ''r'']
      else if n = 9 then [CHR 0x5C, CHR ''t'']
      else if n = 12 then [CHR 0x5C, CHR ''f'']
      else if n = 8 then [CHR 0x5C, CHR ''b'']
      else if n < 32 then
        [CHR 0x5C, CHR ''u'', CHR ''0'', CHR ''0'', hex_digit (n div 16), hex_digit (n mod 16)]
      else [c])"

definition quoted :: "string \<Rightarrow> string" where
  "quoted s = CHR 0x22 # concat (map esc_char s) @ [CHR 0x22]"

fun join_comma :: "string list \<Rightarrow> string" where
  "join_comma [] = []"
| "join_comma [x] = x"
| "join_comma (x # y # zs) = x @ CHR '','' # join_comma (y # zs)"

definition json_item :: "string \<times> string \<Rightarrow> string" where
  "json_item kv = quoted (fst kv) @ CHR '':'' # snd kv"

fun canonical_json :: "json \<Rightarrow> string" where
  "canonical_json JNull = ''null''"
| "canonical_json (JBool b) = (if b then ''true'' else ''false'')"
| "canonical_json (JInt i) = int_str i"
| "canonical_json (JFloat x) = float_repr x"
| "canonical_json (JStr s) = quoted s"
| "canonical_json (JArr xs) = CHR ''['' # join_comma (map canonical_json xs) @ '']''"
| "canonical_json (JObj kvs) =
     CHR 0x7B # join_comma (map json_item
       (sort_key fst (map (\<lambda>kv. (fst kv, canonical_json (snd kv))) kvs))) @ [CHR 0x7D]"

text \<open>Documents without floats whose objects list their keys in order and without repetition.\<close>

fun json_sorted :: "json \<Rightarrow> bool" where
  "json_sorted (JArr xs) = list_all json_sorted xs"
| "json_sorted (JObj kvs) =
     (sorted (map fst kvs) \<and> distinct (map fst kvs) \<and> list_all (\<lambda>kv. json_sorted (snd kv)) kvs)"
| "json_sorted (JFloat x) = False"
| "json_sorted _ = True"

section \<open>Reading back\<close>

text \<open>What may follow a printed value: nothing, a comma or a closing bracket.\<close>

definition stop :: "string \<Rightarrow> bool" where
  "stop r = (r = [] \<or> hd r \<in> {CHR '','', CHR '']'', CHR 0x7D})"

text \<open>The characters and the value of a printed number, and the first character of an escaped string.\<close>

definition num_char :: "char \<Rightarrow> bool" where
  "num_char c = (c = CHR ''-'' \<or> (48 \<le> (of_char c :: nat) \<and> (of_char c :: nat) \<le> 57))"

definition digits_value :: "string \<Rightarrow> nat" where
  "digits_value s = foldl (\<lambda>a c. a * 10 + (of_char c - 48)) 0 s"

definition hex_value :: "char \<Rightarrow> nat" where
  "hex_value c = (let n = of_char c in if n < 58 then n - 48 else n - 87)"

definition unescape :: "string \<Rightarrow> (char \<times> string) option" where
  "unescape s =
     (case s of
        [] \<Rightarrow> None
      | x # xs \<Rightarrow>
          if (of_char x :: nat) \<noteq> 92 then Some (x, xs)
          else case xs of
                 [] \<Rightarrow> None
               | y # ys \<Rightarrow>
                   if y = CHR ''n'' then Some (char_of (10::nat), ys)
                   else if y = CHR ''r'' then Some (char_of (13::nat), ys)
                   else if y = CHR ''t'' then Some (char_of (9::nat), ys)
                   else if y = CHR ''f'' then Some (char_of (12::nat), ys)
                   else if y = CHR ''b'' then Some (char_of (8::nat), ys)
                   else if y = CHR ''u'' then
                     Some (char_of (hex_value (ys ! 2) * 16 + hex_value (ys ! 3)), drop 4 ys)
                   else Some (y, ys))"

section \<open>The text determines the document\<close>

lemma stop_simps [simp]:
  "stop []" "stop (CHR '','' # r)" "stop (CHR '']'' # r)" "stop (CHR 0x7D # r)"
  by (simp_all add: stop_def)

subsection \<open>Numbers\<close>

lemma digits_value_snoc [simp]: "digits_value (s @ [c]) = digits_value s * 10 + (of_char c - 48)"
  by (simp add: digits_value_def)

lemma nat_str_value [simp]: "digits_value (nat_str n) = n"
proof (induction n rule: nat_str.induct)
  case (1 n)
  show ?case
  proof (cases "n < 10")
    case True
    then show ?thesis by (subst nat_str.simps) (simp add: digits_value_def)
  next
    case False
    then show ?thesis using 1 by (subst nat_str.simps) simp
  qed
qed

lemma digit_char: "m < 10 \<Longrightarrow> num_char (char_of (48 + m)) \<and> char_of (48 + m) \<noteq> CHR ''-''" for m :: nat
proof -
  assume m: "m < 10"
  then have o: "(of_char (char_of (48 + m)) :: nat) = 48 + m" by simp
  have "char_of (48 + m) \<noteq> CHR ''-''"
  proof
    assume "char_of (48 + m) = CHR ''-''"
    then have "(of_char (char_of (48 + m)) :: nat) = of_char (CHR ''-'')" by (simp only:)
    with o show False by simp
  qed
  with m o show ?thesis by (simp add: num_char_def)
qed

lemma nat_str_chars: "c \<in> set (nat_str n) \<Longrightarrow> num_char c \<and> c \<noteq> CHR ''-''"
proof (induction n arbitrary: c rule: nat_str.induct)
  case (1 n)
  show ?case
  proof (cases "n < 10")
    case True
    then show ?thesis using 1(2) digit_char [of n] by (subst (asm) nat_str.simps) simp
  next
    case False
    then show ?thesis using 1 digit_char [of "n mod 10"] by (subst (asm) (2) nat_str.simps) auto
  qed
qed

lemma nat_str_nonempty [simp]: "nat_str n \<noteq> []"
  by (subst nat_str.simps) simp

lemma nat_str_inj: "nat_str n = nat_str m \<longleftrightarrow> n = m"
  by (metis nat_str_value)

lemma int_str_inj: "int_str i = int_str j \<Longrightarrow> i = j"
proof -
  have neq: "CHR ''-'' # s \<noteq> nat_str n" for s n
    using nat_str_chars [of "CHR ''-''" n] by (metis list.set_intros(1))
  assume "int_str i = int_str j"
  then show "i = j"
    using neq neq [symmetric] by (auto simp: int_str_def nat_str_inj split: if_splits)
qed

lemma int_str_chars: "c \<in> set (int_str i) \<Longrightarrow> num_char c"
  using nat_str_chars by (auto simp: int_str_def num_char_def split: if_splits)

lemma int_str_nonempty [simp]: "int_str i \<noteq> []"
  by (simp add: int_str_def)

lemma stop_not_num: "stop r \<Longrightarrow> takeWhile num_char r = []"
  by (cases r) (auto simp: stop_def num_char_def)

lemma int_str_append_inj:
  assumes "int_str i @ r = int_str j @ r'" and "stop r" and "stop r'"
  shows "i = j \<and> r = r'"
proof -
  have t: "takeWhile num_char (int_str k @ s) = int_str k" if "stop s" for k s
    using int_str_chars stop_not_num [OF that] by (subst takeWhile_append2) auto
  have "int_str i = int_str j" using assms(1) t [OF assms(2)] t [OF assms(3)] by metis
  with assms(1) show ?thesis by (auto dest: int_str_inj)
qed

subsection \<open>Strings\<close>

lemma hex_value_digit [simp]: "k < 16 \<Longrightarrow> hex_value (hex_digit k) = k"
  by (simp add: hex_value_def hex_digit_def Let_def)

lemma char_eq_of: "(of_char c :: nat) = n \<Longrightarrow> char_of n = c"
  by (metis char_of_char)

lemma unescape_esc: "unescape (esc_char c @ u) = Some (c, u)"
proof -
  have h: "(of_char c div 16) * 16 + of_char c mod 16 = (of_char c :: nat)" by simp
  have c: "char_of (of_char c :: nat) = c" by (rule char_of_char)
  show ?thesis by (auto simp: unescape_def esc_char_def Let_def h c intro: char_eq_of)
qed

lemma esc_char_inj: "esc_char c @ u = esc_char d @ v \<Longrightarrow> c = d \<and> u = v"
  by (drule arg_cong [where f = unescape]) (simp add: unescape_esc)

lemma esc_char_not_quote: "esc_char c @ u \<noteq> CHR 0x22 # v"
proof
  assume a: "esc_char c @ u = CHR 0x22 # v"
  have "unescape (CHR 0x22 # v) = Some (CHR 0x22, v)" by (simp add: unescape_def)
  then have "c = CHR 0x22" using unescape_esc [of c u] unfolding a by simp
  with a show False by (simp add: esc_char_def)
qed

lemma esc_append_inj:
  "concat (map esc_char s) @ CHR 0x22 # r = concat (map esc_char t) @ CHR 0x22 # r' \<Longrightarrow>
     s = t \<and> r = r'"
proof (induction s arbitrary: t)
  case Nil
  then show ?case using esc_char_not_quote by (cases t) (auto, metis append.assoc)
next
  case (Cons c s)
  show ?case
  proof (cases t)
    case Nil
    then show ?thesis using Cons.prems esc_char_not_quote [of c] by auto
  next
    case (Cons d t')
    then show ?thesis using Cons.prems Cons.IH [of t'] by (auto dest!: esc_char_inj)
  qed
qed

lemma quoted_append_inj: "quoted s @ r = quoted t @ r' \<Longrightarrow> s = t \<and> r = r'"
  by (rule esc_append_inj) (simp add: quoted_def)

subsection \<open>Lists and documents\<close>

lemma join_comma_Cons: "join_comma (x # xs) = x @ (if xs = [] then [] else CHR '','' # join_comma xs)"
  by (cases xs) auto

lemma join_inj:
  assumes "\<forall>x \<in> set xs. \<forall>y \<in> set ys. \<forall>r r'. stop r \<longrightarrow> stop r' \<longrightarrow> f x @ r = f y @ r' \<longrightarrow> x = y \<and> r = r'"
    and "\<forall>x \<in> set xs \<union> set ys. \<forall>r. f x @ r \<noteq> e # t \<and> f x @ r \<noteq> e # t'"
    and "stop (e # t)" and "stop (e # t')" and "e \<noteq> CHR '',''"
    and "join_comma (map f xs) @ e # t = join_comma (map f ys) @ e # t'"
  shows "xs = ys \<and> t = t'"
  using assms
proof (induction xs arbitrary: ys)
  case Nil
  show ?case
  proof (cases ys)
    case Nil
    then show ?thesis using \<open>join_comma (map f []) @ e # t = _\<close> by simp
  next
    case (Cons y ys')
    then have "f y @ (if ys' = [] then [] else CHR '','' # join_comma (map f ys')) @ e # t' = e # t"
      using Nil.prems(6) by (simp add: join_comma_Cons split: if_splits)
    moreover have "\<forall>r. f y @ r \<noteq> e # t" using Nil.prems(2) Cons by simp
    ultimately show ?thesis by blast
  qed
next
  case (Cons x xs)
  show ?case
  proof (cases ys)
    case Nil
    then show ?thesis using Cons.prems(2,6) by (auto simp: join_comma_Cons)
  next
    case ys: (Cons y ys')
    define r where "r = (if xs = [] then [] else CHR '','' # join_comma (map f xs)) @ e # t"
    define r' where "r' = (if ys' = [] then [] else CHR '','' # join_comma (map f ys')) @ e # t'"
    have "f x @ r = f y @ r'"
      using Cons.prems(6) unfolding ys r_def r'_def by (simp add: join_comma_Cons split: if_splits)
    moreover have "stop r" "stop r'" using Cons.prems(3,4) by (auto simp: r_def r'_def)
    ultimately have xy: "x = y" and rr: "r = r'" using Cons.prems(1) ys by auto
    have "(xs = []) = (ys' = [])" and "join_comma (map f xs) @ e # t = join_comma (map f ys') @ e # t'"
      using rr Cons.prems(5) by (auto simp: r_def r'_def split: if_splits)
    then have "xs = ys' \<and> t = t'"
      using Cons.IH [of ys'] Cons.prems ys by auto
    with xy ys show ?thesis by simp
  qed
qed

text \<open>The first character of a printed value tells its constructor.\<close>

lemma int_str_first:
  "int_str i @ r \<noteq> c # t" if "\<not> num_char c"
  using int_str_chars [of "hd (int_str i)" i] that by (cases "int_str i") auto

lemma int_str_first':
  "c # t \<noteq> int_str i @ r" if "\<not> num_char c"
  using int_str_first [OF that, of i r t] by metis

lemmas number_first = int_str_first int_str_first' num_char_def quoted_def

lemma canonical_not_close:
  assumes "json_sorted v"
  shows "canonical_json v @ r \<noteq> CHR '']'' # t" and "canonical_json v @ r \<noteq> CHR 0x7D # t"
  using assms by (cases v; simp add: number_first)+

lemma json_item_inj:
  assumes "json_item (k, s) @ r = json_item (k', s') @ r'"
  shows "k = k' \<and> s @ r = s' @ r'"
  using quoted_append_inj [of k "CHR '':'' # s @ r" k' "CHR '':'' # s' @ r'"] assms
  by (simp add: json_item_def)

lemma canonical_sorted_obj:
  assumes "json_sorted (JObj kvs)"
  shows "canonical_json (JObj kvs) =
    CHR 0x7B # join_comma (map (\<lambda>kv. json_item (fst kv, canonical_json (snd kv))) kvs) @ [CHR 0x7D]"
proof -
  have "sort_key fst (map (\<lambda>kv. (fst kv, canonical_json (snd kv))) kvs)
      = map (\<lambda>kv. (fst kv, canonical_json (snd kv))) kvs"
    using assms by (intro sort_key_id_if_sorted) (simp add: comp_def)
  then show ?thesis by (simp add: comp_def)
qed

lemma canonical_append_inj:
  "json_sorted v \<Longrightarrow> json_sorted w \<Longrightarrow> stop r \<Longrightarrow> stop r' \<Longrightarrow>
     canonical_json v @ r = canonical_json w @ r' \<Longrightarrow> v = w \<and> r = r'"
proof (induction v arbitrary: w r r')
  case (JInt i)
  then obtain j where "w = JInt j" by (cases w) (auto simp: number_first split: if_splits)
  then show ?case using JInt int_str_append_inj by auto
next
  case (JArr xs)
  then obtain ys where w: "w = JArr ys" by (cases w) (auto simp: number_first split: if_splits)
  have "xs = ys \<and> r = r'"
    by (rule join_inj [where f = canonical_json and e = "CHR '']''"])
      (use JArr w canonical_not_close in \<open>auto simp: list_all_iff\<close>)
  then show ?case using w by simp
next
  case (JObj kvs)
  then obtain ys where w: "w = JObj ys" by (cases w) (auto simp: number_first split: if_splits)
  let ?f = "\<lambda>kv. json_item (fst kv, canonical_json (snd kv))"
  have eq: "join_comma (map ?f kvs) @ CHR 0x7D # r = join_comma (map ?f ys) @ CHR 0x7D # r'"
    using JObj.prems(5) canonical_sorted_obj [OF JObj.prems(1)] canonical_sorted_obj [of ys] JObj.prems(2)
    unfolding w by (simp del: canonical_json.simps)
  have inj: "x = y \<and> s = s'"
    if "x \<in> set kvs" "y \<in> set ys" "stop s" "stop s'" "?f x @ s = ?f y @ s'" for x y s s'
  proof -
    have "json_sorted (snd x)" and "json_sorted (snd y)"
      using JObj.prems(1,2) that(1,2) by (simp_all add: w list_all_iff)
    with json_item_inj [OF that(5)] JObj.IH [of x "snd x" "snd y" s s'] that
    show ?thesis by (cases x; cases y) auto
  qed
  have "kvs = ys \<and> r = r'"
    by (rule join_inj [where f = ?f and e = "CHR 0x7D"])
      (use inj eq in \<open>auto simp: json_item_def quoted_def\<close>)
  then show ?case using w by simp
next
  case JNull
  then show ?case by (cases w) (auto simp: number_first split: if_splits)
next
  case (JBool b)
  then show ?case by (cases w; cases b) (auto simp: number_first split: if_splits)
next
  case (JStr t)
  then obtain u where "w = JStr u" by (cases w) (auto simp: number_first split: if_splits)
  then show ?case using JStr.prems(5) quoted_append_inj [of t r u r'] by simp
qed simp

theorem canonical_json_inj:
  assumes "json_sorted v" and "json_sorted w" and "canonical_json v = canonical_json w"
  shows "v = w"
  using canonical_append_inj [of v w "[]" "[]"] assms by simp

end
