(* ===== verification/Py_Text.thy ===== *)
theory Py_Text
  imports Py_Regex Json_Canonical
begin

text \<open>
  Further string methods of Python and \<open>re.search\<close> with the position of the match, for the parsers of
  text protocols. Byte strings are lists of characters too.
\<close>

text \<open>\<open>str.splitlines()\<close>: a final line break does not start another line.\<close>

definition line_break :: "char \<Rightarrow> bool" where
  "line_break c = (let n = (of_char c :: nat) in (10 \<le> n \<and> n \<le> 13) \<or> (28 \<le> n \<and> n \<le> 30) \<or> n = 133)"

fun py_splitlines :: "string \<Rightarrow> string list" where
  "py_splitlines [] = []"
| "py_splitlines (c # cs) =
     (if line_break c then
        [] # py_splitlines (if c = CHR 0x0D \<and> py_startswith cs [CHR 0x0A] then drop 1 cs else cs)
      else case py_splitlines cs of
             [] \<Rightarrow> [[c]]
           | l # ls \<Rightarrow> (c # l) # ls)"

text \<open>\<open>s.rstrip(chars)\<close>, \<open>s.lstrip()\<close>, \<open>s.rsplit(sep, 1)[-1]\<close> and \<open>sep.join(xs)\<close>.\<close>

definition py_rstrip_of :: "char \<Rightarrow> string \<Rightarrow> string" where
  "py_rstrip_of c s = rev (dropWhile (\<lambda>d. d = c) (rev s))"

definition py_lstrip :: "string \<Rightarrow> string" where
  "py_lstrip s = dropWhile py_isspace s"

definition last_segment :: "char \<Rightarrow> string \<Rightarrow> string" where
  "last_segment sep s = rev (takeWhile (\<lambda>d. d \<noteq> sep) (rev s))"

fun py_join :: "string \<Rightarrow> string list \<Rightarrow> string" where
  "py_join sep [] = []"
| "py_join sep [x] = x"
| "py_join sep (x # y # zs) = x @ sep @ py_join sep (y # zs)"

text \<open>
  \<open>r.search(s)\<close>: the text before the leftmost match and the text after it. \<open>start\<close>: \<open>s\<close> is the
  beginning of the string.
\<close>

fun rx_search :: "rx \<Rightarrow> bool \<Rightarrow> string \<Rightarrow> (string \<times> string) option" where
  "rx_search r start [] =
     (case rx_ends r (start, []) of [] \<Rightarrow> None | st # _ \<Rightarrow> Some ([], snd st))"
| "rx_search r start (c # cs) =
     (case rx_ends r (start, c # cs) of
        st # _ \<Rightarrow> Some ([], snd st)
      | [] \<Rightarrow> map_option (\<lambda>(b, a). (c # b, a)) (rx_search r False cs))"

text \<open>
  \<open>json.dumps(value, separators=(",", ":"))\<close>: keys in insertion order, and by default everything outside
  printable ASCII escaped. \<open>q\<close> prints a string: \<open>quoted\<close> with \<open>ensure_ascii=False\<close>.
\<close>

definition ascii_esc_char :: "char \<Rightarrow> string" where
  "ascii_esc_char c =
     (let n = (of_char c :: nat)
      in if n < 127 then esc_char c
         else [CHR 0x5C, CHR ''u'', CHR ''0'', CHR ''0'', hex_digit (n div 16), hex_digit (n mod 16)])"

definition ascii_quoted :: "string \<Rightarrow> string" where
  "ascii_quoted s = CHR 0x22 # concat (map ascii_esc_char s) @ [CHR 0x22]"

fun json_text :: "(string \<Rightarrow> string) \<Rightarrow> json \<Rightarrow> string" where
  "json_text q JNull = ''null''"
| "json_text q (JBool b) = (if b then ''true'' else ''false'')"
| "json_text q (JInt i) = int_str i"
| "json_text q (JFloat x) = float_repr x"
| "json_text q (JStr s) = q s"
| "json_text q (JArr xs) = CHR ''['' # join_comma (map (json_text q) xs) @ '']''"
| "json_text q (JObj kvs) =
     CHR 0x7B # join_comma (map (\<lambda>kv. q (fst kv) @ CHR '':'' # json_text q (snd kv)) kvs) @ [CHR 0x7D]"

text \<open>The mapping in a decoded document, and \<open>bool(value)\<close> of one.\<close>

type_synonym mapping_json = "(string \<times> json) list"

fun as_mapping :: "json option \<Rightarrow> mapping_json option" where
  "as_mapping (Some (JObj kvs)) = Some kvs"
| "as_mapping _ = None"

fun json_truthy :: "json \<Rightarrow> bool" where
  "json_truthy JNull = False"
| "json_truthy (JBool b) = b"
| "json_truthy (JInt i) = (i \<noteq> 0)"
| "json_truthy (JFloat x) = (x \<noteq> Fin 0)"
| "json_truthy (JStr s) = (s \<noteq> [])"
| "json_truthy (JArr xs) = (xs \<noteq> [])"
| "json_truthy (JObj kvs) = (kvs \<noteq> [])"

lemma rx_search_parts: "rx_search r start s = Some (b, a) \<Longrightarrow> \<exists>u. s = b @ u @ a"
proof (induction s arbitrary: start b)
  case Nil
  then obtain st sts where "rx_ends r (start, []) = st # sts" "b = []" "a = snd st" by (auto split: list.splits)
  moreover from this have "st \<in> set (rx_ends r (start, []))" by simp
  ultimately show ?case using rx_ends_suffix [of st r "(start, [])"] by auto
next
  case (Cons c cs)
  show ?case
  proof (cases "rx_ends r (start, c # cs)")
    case Nil
    then show ?thesis using Cons by auto
  next
    case st: (Cons st sts)
    then have "st \<in> set (rx_ends r (start, c # cs))" by simp
    then show ?thesis using rx_ends_suffix [of st r "(start, c # cs)"] Cons.prems st by auto
  qed
qed

end
