(* ===== verification/Node_Config.thy ===== *)
theory Node_Config
  imports Py_Text
begin

text \<open>
  The CUDA manager's declarative configuration, \<open>src/config.py\<close>: the pydantic models as records with
  the source's fields and defaults, their validators in the order in which they run, the runtime
  checks against the visible GPUs and the file system, and the \<open>.env\<close> loader. Pydantic's decoding
  of the YAML document into typed fields is a parameter; validation starts from the typed fields.
  A rejected value is the constant part of the \<open>ValueError\<close>'s message (the name of the field where
  pydantic's own constraint fails).
\<close>

section \<open>Data\<close>

datatype gpu_plan = GpuAll | GpuList "int list"

record node_server =
  ns_inference_port :: int
  ns_admin_port :: int
  ns_inference_bind :: string
  ns_admin_bind :: string
  ns_idle_unload_seconds :: "int option"
  ns_startup_timeout_seconds :: int
  ns_swap_queue_timeout_seconds :: int
  ns_max_concurrency :: "int option"
  ns_max_queue_depth :: int
  ns_image_request_timeout_seconds :: int
  ns_image_max_pixels :: int

record storage_location =
  sl_name :: string
  sl_path :: string

record storage =
  so_default :: string
  so_locations :: "storage_location list"

record node_defaults =
  df_gpu_memory_utilization :: pyfloat
  df_trust_remote_code :: bool
  df_max_model_len :: "int option"

record image_defaults =
  im_width :: int
  im_height :: int
  im_num_inference_steps :: int
  im_guidance_scale :: pyfloat
  im_guidance_parameter :: string

record model_profile =
  mp_alias :: string
  mp_model :: string
  mp_quantization :: "string option"
  mp_gpus :: gpu_plan
  mp_max_model_len :: "int option"
  mp_storage :: "string option"
  mp_extra_args :: "string list"
  mp_revision :: string
  mp_backend :: string
  mp_kind :: string
  mp_image :: "image_defaults option"
  mp_gguf_filename :: "string option"
  mp_projector_filename :: "string option"
  mp_capabilities :: "string list option"

record token_sidecar =
  ts_enabled :: bool
  ts_node_id :: string
  ts_flush_interval_seconds :: int
  ts_batch_size :: int
  ts_max_outbox_rows :: int
  ts_connect_timeout_seconds :: pyfloat

record manager_config =
  cf_server :: node_server
  cf_storage :: storage
  cf_defaults :: node_defaults
  cf_models :: "model_profile list"
  cf_token_sidecar :: token_sidecar
  cf_fleet_node_id :: string

definition default_server :: node_server where
  "default_server =
     \<lparr>ns_inference_port = 8000, ns_admin_port = 8001, ns_inference_bind = ''0.0.0.0'',
      ns_admin_bind = ''0.0.0.0'', ns_idle_unload_seconds = Some 900, ns_startup_timeout_seconds = 600,
      ns_swap_queue_timeout_seconds = 300, ns_max_concurrency = None, ns_max_queue_depth = 128,
      ns_image_request_timeout_seconds = 1800, ns_image_max_pixels = 4194304\<rparr>"

definition default_node_defaults :: node_defaults where
  "default_node_defaults =
     \<lparr>df_gpu_memory_utilization = Fin (fl (9 / 10)), df_trust_remote_code = True, df_max_model_len = None\<rparr>"

definition default_image :: image_defaults where
  "default_image =
     \<lparr>im_width = 1024, im_height = 1024, im_num_inference_steps = 30, im_guidance_scale = Fin 4,
      im_guidance_parameter = ''guidance_scale''\<rparr>"

definition default_sidecar :: token_sidecar where
  "default_sidecar =
     \<lparr>ts_enabled = False, ts_node_id = [], ts_flush_interval_seconds = 30, ts_batch_size = 500,
      ts_max_outbox_rows = 100000, ts_connect_timeout_seconds = Fin 5\<rparr>"

section \<open>Server, storage and image defaults\<close>

definition ports_distinct :: "node_server \<Rightarrow> string option" where
  "ports_distinct s = first_error
     [(ns_inference_port s = ns_admin_port s, ''server.inference_port and server.admin_port must differ''),
      (ns_image_request_timeout_seconds s \<le> 0, ''server.image_request_timeout_seconds must be positive''),
      (ns_image_max_pixels s < 4096, ''server.image_max_pixels must be at least 4096'')]"

definition node_server_error :: "node_server \<Rightarrow> string option" where
  "node_server_error s = or_error
     (first_error
       [(case ns_max_concurrency s of None \<Rightarrow> False | Some m \<Rightarrow> m < 1, ''max_concurrency''),
        (ns_max_queue_depth s < 1 \<or> 100000 < ns_max_queue_depth s, ''max_queue_depth'')])
     (ports_distinct s)"

definition storage_error :: "storage \<Rightarrow> string option" where
  "storage_error s =
     (let names = map sl_name (so_locations s)
      in first_error
           [(so_locations s = [], ''storage.locations must have at least one entry''),
            (\<not> distinct names, ''duplicate storage location names''),
            (so_default s \<notin> set names, ''storage.default is not a declared location'')])"

definition float_between :: "rat \<Rightarrow> rat \<Rightarrow> pyfloat \<Rightarrow> bool" where
  "float_between lo hi x = (case x of Fin r \<Rightarrow> lo \<le> r \<and> r \<le> hi | _ \<Rightarrow> False)"

definition image_error :: "image_defaults \<Rightarrow> string option" where
  "image_error i = first_error
     [(im_width i < 64 \<or> 4096 < im_width i, ''width''),
      (im_height i < 64 \<or> 4096 < im_height i, ''height''),
      (im_num_inference_steps i < 1 \<or> 200 < im_num_inference_steps i, ''num_inference_steps''),
      (\<not> float_between 0 50 (im_guidance_scale i), ''guidance_scale''),
      (im_guidance_parameter i \<notin> {''guidance_scale'', ''true_cfg_scale''}, ''guidance_parameter''),
      (im_width i mod 16 \<noteq> 0 \<or> im_height i mod 16 \<noteq> 0, ''image width and height must be multiples of 16'')]"

section \<open>Model profiles\<close>

definition CAPABILITY_ALIASES_dotted :: "(string, string) dict" where
  "CAPABILITY_ALIASES_dotted =
     [(''chat.completions'', ''chat.completions''), (''chat/completions'', ''chat.completions''),
      (''completions'', ''completions''), (''embeddings'', ''embeddings''),
      (''images.generations'', ''images.generations''), (''images/generations'', ''images.generations''),
      (''messages'', ''messages''), (''rerank'', ''rerank''), (''responses'', ''responses'')]"

definition SUPPORTED_MODEL_CAPABILITIES :: "string list" where
  "SUPPORTED_MODEL_CAPABILITIES = remdups (map snd CAPABILITY_ALIASES_dotted)"

definition default_model_capabilities :: "string \<Rightarrow> string \<Rightarrow> string list" where
  "default_model_capabilities backend kind =
     (if kind = ''image'' \<or> backend = ''sglang-diffusion'' then [''images.generations'']
      else if backend = ''llama.cpp'' then [''chat.completions'', ''completions'', ''responses'']
      else [''chat.completions'', ''completions'', ''embeddings'', ''responses''])"

text \<open>
  The value of \<open>capabilities\<close> before decoding is a YAML value. The text of an item that is not a
  string is no capability name, so it is rejected like an unknown one.
\<close>

definition capability_of :: "json \<Rightarrow> string option" where
  "capability_of raw =
     (case raw of
        JStr s \<Rightarrow> dict_get CAPABILITY_ALIASES_dotted (py_removeprefix ''/v1/'' (py_lower (py_strip s)))
      | _ \<Rightarrow> None)"

definition capabilities_shape :: "json \<Rightarrow> string + string list option" where
  "capabilities_shape value =
     (case value of
        JNull \<Rightarrow> Inr None
      | JArr raws \<Rightarrow>
          (case find_error (\<lambda>raw. if capability_of raw = None then Some ''unsupported model capability'' else None) raws of
             Some e \<Rightarrow> Inl e
           | None \<Rightarrow>
               if raws = [] then Inl ''capabilities must contain at least one endpoint''
               else Inr (Some (py_sorted_set (List.map_filter capability_of raws))))
      | _ \<Rightarrow> Inl ''capabilities must be a non-empty list'')"

definition py_endswith :: "string \<Rightarrow> string \<Rightarrow> bool" where
  "py_endswith s t = (rev (take (length t) (rev s)) = t)"

definition projector_filename_shape :: "string option \<Rightarrow> string option" where
  "projector_filename_shape v =
     (case v of
        None \<Rightarrow> None
      | Some value \<Rightarrow>
          if value = [] \<or> \<not> py_endswith value ''.gguf'' \<or> py_startswith value ''/''
             \<or> CHR 0x5C \<in> set value
             \<or> list_ex (\<lambda>part. part \<in> {'''', ''.'', ''..''}) (py_split (CHR ''/'') value)
          then Some ''projector_filename must be a repository-relative .gguf file'' else None)"

text \<open>\<open>^[a-z0-9][a-z0-9-]*$\<close>, used with \<open>match\<close>.\<close>

definition alias_char :: "char \<Rightarrow> bool" where
  "alias_char c = (in_range (CHR ''a'') (CHR ''z'') c \<or> in_range (CHR ''0'') (CHR ''9'') c)"

definition ALIAS_RE :: rx where
  "ALIAS_RE = rx_all
     [RxStart, RxClass alias_char, RxStar (RxClass (\<lambda>c. alias_char c \<or> c = CHR ''-'')), RxEnd]"

definition alias_shape :: "string \<Rightarrow> string option" where
  "alias_shape v = first_error
     [(py_startswith v ''__cache__:'' \<or> py_startswith v ''__cache__/'', ''alias uses reserved prefix''),
      (\<not> rx_match ALIAS_RE v, ''alias must match the alias pattern'')]"

definition gpus_shape :: "gpu_plan \<Rightarrow> string option" where
  "gpus_shape v =
     (case v of
        GpuAll \<Rightarrow> None
      | GpuList idxs \<Rightarrow> first_error
          [(idxs = [], ''gpus list must not be empty''),
           (list_ex (\<lambda>i. i < 0) idxs, ''gpus list contains invalid index'')])"

text \<open>A string option in a Boolean context.\<close>

definition truthy :: "string option \<Rightarrow> bool" where
  "truthy x = (case x of None \<Rightarrow> False | Some s \<Rightarrow> s \<noteq> [])"

text \<open>The checks of \<open>_backend_consistency\<close>, in order, for the capabilities after the default.\<close>

definition backend_guards :: "string list \<Rightarrow> model_profile \<Rightarrow> (bool \<times> string) list" where
  "backend_guards caps m =
     (let generation = set caps \<inter> {''chat.completions'', ''completions'', ''responses'', ''messages''};
          specialized = set caps \<inter> {''embeddings'', ''rerank''}
      in [(mp_backend m = ''llama.cpp'' \<and> \<not> truthy (mp_gguf_filename m), ''backend llama.cpp but no gguf_filename''),
       (mp_backend m \<noteq> ''llama.cpp'' \<and> truthy (mp_gguf_filename m), ''gguf_filename set but backend is not llama.cpp''),
       (mp_backend m \<noteq> ''llama.cpp'' \<and> truthy (mp_projector_filename m),
          ''projector_filename set but backend is not llama.cpp''),
       (mp_projector_filename m \<noteq> None \<and> mp_projector_filename m = mp_gguf_filename m,
          ''projector_filename must differ from gguf_filename''),
       (mp_kind m = ''image'' \<and> mp_backend m \<noteq> ''sglang-diffusion'', ''image model requires backend sglang-diffusion''),
       (mp_backend m = ''sglang-diffusion'' \<and> mp_kind m \<noteq> ''image'', ''uses sglang-diffusion but kind is not image''),
       (mp_kind m \<noteq> ''image'' \<and> mp_image m \<noteq> None, ''has image defaults but kind is not image''),
       (mp_kind m = ''image'' \<and> set caps \<noteq> {''images.generations''},
          ''image model may only advertise images/generations''),
       (mp_kind m \<noteq> ''image'' \<and> ''images.generations'' \<in> set caps,
          ''language model cannot advertise images/generations''),
       (mp_backend m = ''llama.cpp'' \<and> generation \<noteq> {} \<and> specialized \<noteq> {},
          ''llama.cpp generation model cannot also advertise embeddings or rerank''),
       (mp_backend m = ''llama.cpp'' \<and> ''rerank'' \<in> set caps \<and> set caps \<noteq> {''rerank''},
          ''llama.cpp rerank model may only advertise rerank''),
       (mp_backend m = ''llama.cpp'' \<and> truthy (mp_projector_filename m) \<and> generation = {},
          ''llama.cpp projector requires a generation-capable profile'')])"

text \<open>\<open>_backend_consistency\<close>: fills in defaults, so it returns the profile.\<close>

definition backend_consistency :: "model_profile \<Rightarrow> string + model_profile" where
  "backend_consistency m =
     (let caps = (case mp_capabilities m of
                    None \<Rightarrow> default_model_capabilities (mp_backend m) (mp_kind m) | Some cs \<Rightarrow> cs);
          m1 = m\<lparr>mp_capabilities := Some caps\<rparr>
      in case first_error (backend_guards caps m) of
           Some e \<Rightarrow> Inl e
         | None \<Rightarrow> Inr (if mp_kind m = ''image'' \<and> mp_image m = None
                        then m1\<lparr>mp_image := Some default_image\<rparr> else m1))"

text \<open>\<open>ModelProfile.model_validate\<close> from the typed fields and the raw value of \<open>capabilities\<close>.\<close>

definition validate_model_profile :: "json \<Rightarrow> model_profile \<Rightarrow> string + model_profile" where
  "validate_model_profile raw_caps m =
     (case or_error (alias_shape (mp_alias m))
         (or_error (gpus_shape (mp_gpus m))
           (or_error
             (first_error
               [(mp_backend m \<notin> {''vllm'', ''llama.cpp'', ''sglang-diffusion''}, ''backend''),
                (mp_kind m \<notin> {''language'', ''image''}, ''kind'')])
             (or_error (case mp_image m of None \<Rightarrow> None | Some i \<Rightarrow> image_error i)
               (projector_filename_shape (mp_projector_filename m))))) of
        Some e \<Rightarrow> Inl e
      | None \<Rightarrow>
          (case capabilities_shape raw_caps of
             Inl e \<Rightarrow> Inl e
           | Inr caps \<Rightarrow> backend_consistency (m\<lparr>mp_capabilities := caps\<rparr>)))"

section \<open>The whole configuration\<close>

definition sidecar_error :: "token_sidecar \<Rightarrow> string option" where
  "sidecar_error t = first_error
     [(ts_enabled t \<and> py_strip (ts_node_id t) = [], ''token_sidecar.node_id is required'')]"

text \<open>The fleet node's identifier: at most 128 characters as given, then stripped.\<close>

definition fleet_node_id :: "string \<Rightarrow> string + string" where
  "fleet_node_id raw =
     (let value = py_strip raw
      in if 128 < length raw then Inl ''node_id''
         else if value \<noteq> [] \<and> list_ex (\<lambda>c. (of_char c :: nat) < 32) value
         then Inl ''fleet.node_id must not contain control characters'' else Inr value)"

definition cross_refs :: "manager_config \<Rightarrow> string option" where
  "cross_refs c = or_error
     (first_error [(\<not> distinct (map mp_alias (cf_models c)), ''duplicate model aliases'')])
     (or_error
       (find_error (\<lambda>m. first_error
          [(case mp_storage m of
              None \<Rightarrow> False | Some n \<Rightarrow> n \<notin> set (map sl_name (so_locations (cf_storage c))),
              ''model references unknown storage''),
           (case mp_image m of
              None \<Rightarrow> False
            | Some i \<Rightarrow> ns_image_max_pixels (cf_server c) < im_width i * im_height i,
              ''image defaults exceed server.image_max_pixels'')]) (cf_models c))
       (first_error
         [(ts_enabled (cf_token_sidecar c) \<and> cf_fleet_node_id c \<noteq> []
             \<and> cf_fleet_node_id c \<noteq> ts_node_id (cf_token_sidecar c),
           ''fleet.node_id must match token_sidecar.node_id'')]))"

fun validate_models :: "(json \<times> model_profile) list \<Rightarrow> string + model_profile list" where
  "validate_models [] = Inr []"
| "validate_models ((raw, m) # ms) =
     (case validate_model_profile raw m of
        Inl e \<Rightarrow> Inl e
      | Inr m' \<Rightarrow> (case validate_models ms of Inl e \<Rightarrow> Inl e | Inr ms' \<Rightarrow> Inr (m' # ms')))"

text \<open>
  \<open>Config.model_validate\<close>. The typed document carries the raw capability values beside the models,
  and its \<open>cf_models\<close> is not read.
\<close>

definition validate_config :: "(json \<times> model_profile) list \<Rightarrow> manager_config \<Rightarrow> string + manager_config" where
  "validate_config models c =
     (case or_error (node_server_error (cf_server c)) (storage_error (cf_storage c)) of
        Some e \<Rightarrow> Inl e
      | None \<Rightarrow>
          (case validate_models models of
             Inl e \<Rightarrow> Inl e
           | Inr ms \<Rightarrow>
               (case sidecar_error (cf_token_sidecar c) of
                  Some e \<Rightarrow> Inl e
                | None \<Rightarrow>
                    (case fleet_node_id (cf_fleet_node_id c) of
                       Inl e \<Rightarrow> Inl e
                     | Inr nid \<Rightarrow>
                         let c' = c\<lparr>cf_models := ms, cf_fleet_node_id := nid\<rparr>
                         in case cross_refs c' of Some e \<Rightarrow> Inl e | None \<Rightarrow> Inr c'))))"

section \<open>Runtime checks and loading\<close>

record config_diagnostics =
  cd_gpu_warnings :: "string list"
  cd_storage_warnings :: "string list"

text \<open>\<open>re.match(r"GPU (\d+):", line)\<close> on every line of \<open>nvidia-smi -L\<close>; \<open>None\<close> where the probe fails.\<close>

definition gpu_line :: "string \<Rightarrow> int option" where
  "gpu_line line =
     (if py_startswith line ''GPU '' then
        let r = drop 4 line; ds = takeWhile is_digit r
        in if ds \<noteq> [] \<and> py_startswith (drop (length ds) r) '':'' then Some (digits_int ds) else None
      else None)"

definition gpu_indices_or_none :: "(int \<times> string list) option \<Rightarrow> int list option" where
  "gpu_indices_or_none proc =
     (case proc of
        None \<Rightarrow> None
      | Some (returncode, lines) \<Rightarrow> if returncode \<noteq> 0 then None else Some (List.map_filter gpu_line lines))"

definition storage_warning :: "(string \<Rightarrow> bool) \<Rightarrow> (string \<Rightarrow> bool) \<Rightarrow> storage_location \<Rightarrow> string list" where
  "storage_warning isdir writable loc =
     (if \<not> isdir (sl_path loc) then [''storage '' @ sl_name loc @ '' does not exist'']
      else if \<not> writable (sl_path loc) then [''storage '' @ sl_name loc @ '' is not writable''] else [])"

definition validate_runtime ::
  "int list option \<Rightarrow> (string \<Rightarrow> bool) \<Rightarrow> (string \<Rightarrow> bool) \<Rightarrow> manager_config \<Rightarrow> string + config_diagnostics" where
  "validate_runtime gpus isdir writable c =
     (let bad = (case gpus of
                   None \<Rightarrow> False
                 | Some present \<Rightarrow>
                     list_ex (\<lambda>m. case mp_gpus m of GpuAll \<Rightarrow> False
                                  | GpuList idxs \<Rightarrow> list_ex (\<lambda>i. i \<notin> set present) idxs) (cf_models c))
      in if bad then Inl ''model references a GPU that is not visible''
         else Inr \<lparr>cd_gpu_warnings = (if gpus = None
                      then [''nvidia-smi unavailable; skipping GPU index validation''] else []),
                   cd_storage_warnings = concat (map (storage_warning isdir writable) (so_locations (cf_storage c)))\<rparr>)"

text \<open>
  \<open>load_config\<close> after the file has been read: \<open>None\<close> for a missing file, then the outcome of the YAML
  parser, and \<open>decode\<close> for pydantic's typed fields.
\<close>

definition load_node_config ::
  "('y \<Rightarrow> ((json \<times> model_profile) list \<times> manager_config) option) \<Rightarrow> ('y \<Rightarrow> bool) \<Rightarrow> int list option
   \<Rightarrow> (string \<Rightarrow> bool) \<Rightarrow> (string \<Rightarrow> bool) \<Rightarrow> 'y option option \<Rightarrow> string + manager_config" where
  "load_node_config decode is_mapping gpus isdir writable contents =
     (case contents of
        None \<Rightarrow> Inl ''config file not found''
      | Some None \<Rightarrow> Inl ''malformed YAML''
      | Some (Some raw) \<Rightarrow>
          if \<not> is_mapping raw then Inl ''config file must contain a mapping at the top level''
          else (case decode raw of
                  None \<Rightarrow> Inl ''invalid config''
                | Some (models, c) \<Rightarrow>
                    (case validate_config models c of
                       Inl e \<Rightarrow> Inl ''invalid config''
                     | Inr cfg \<Rightarrow>
                         (case validate_runtime gpus isdir writable cfg of Inl e \<Rightarrow> Inl e | Inr _ \<Rightarrow> Inr cfg))))"

subsection \<open>The environment file\<close>

text \<open>The key and the value on a line, quotes removed; \<open>None\<close> for blank lines, comments and the like.\<close>

definition unquote :: "string \<Rightarrow> string" where
  "unquote v =
     (if 2 \<le> length v \<and> hd v = last v \<and> (hd v = CHR 0x22 \<or> hd v = CHR 0x27) then butlast (tl v) else v)"

definition env_line :: "string \<Rightarrow> (string \<times> string) option" where
  "env_line raw_line =
     (let line = py_strip raw_line
      in if line = [] \<or> py_startswith line ''#'' then None
         else if CHR ''='' \<notin> set line then None
         else Some (py_strip (takeWhile (\<lambda>c. c \<noteq> CHR ''='') line),
                    unquote (py_strip (tl (dropWhile (\<lambda>c. c \<noteq> CHR ''='') line)))))"

text \<open>\<open>os.environ[key] = value\<close> fails on an empty name and on embedded null characters.\<close>

definition putenv_ok :: "string \<Rightarrow> string \<Rightarrow> bool" where
  "putenv_ok key value = (key \<noteq> [] \<and> CHR 0x00 \<notin> set key \<and> CHR 0x00 \<notin> set value)"

fun load_env_lines ::
  "bool \<Rightarrow> string list \<Rightarrow> (string, string) dict \<Rightarrow> (string, string) dict
   \<Rightarrow> string + (string, string) dict \<times> (string, string) dict" where
  "load_env_lines override [] parsed environ = Inr (parsed, environ)"
| "load_env_lines override (l # ls) parsed environ =
     (case env_line l of
        None \<Rightarrow> load_env_lines override ls parsed environ
      | Some (key, value) \<Rightarrow>
          if override \<or> \<not> dict_has environ key then
            (if putenv_ok key value
             then load_env_lines override ls (dict_put key value parsed) (dict_put key value environ)
             else Inl ''putenv'')
          else load_env_lines override ls (dict_put key value parsed) environ)"

text \<open>\<open>load_env\<close>: the parsed entries and the resulting process environment; \<open>None\<close> for a missing file.\<close>

definition load_env ::
  "bool \<Rightarrow> string option \<Rightarrow> (string, string) dict
   \<Rightarrow> string + (string, string) dict \<times> (string, string) dict" where
  "load_env override contents environ =
     (case contents of
        None \<Rightarrow> Inr ([], environ)
      | Some text \<Rightarrow> load_env_lines override (py_splitlines text) [] environ)"

section \<open>Lemmas\<close>

lemma rx_star_class_ends:
  "(\<exists>b'. (b', t) \<in> set (rx_ends (RxStar (RxClass p)) (b, s))) \<longleftrightarrow> (\<exists>u. s = u @ t \<and> list_all p u)"
proof
  assume "\<exists>b'. (b', t) \<in> set (rx_ends (RxStar (RxClass p)) (b, s))"
  then obtain b' where "(b', t) \<in> set (rx_ends (RxStar (RxClass p)) (b, s))" by blast
  from rx_ends_word [OF _ this] show "\<exists>u. s = u @ t \<and> list_all p u"
    by (auto simp: rx_word_star_class)
next
  assume "\<exists>u. s = u @ t \<and> list_all p u"
  then obtain u where u: "s = u @ t" "rx_word (RxStar (RxClass p)) u" by (auto simp: rx_word_star_class)
  show "\<exists>b'. (b', t) \<in> set (rx_ends (RxStar (RxClass p)) (b, s))"
    unfolding u(1) by (rule rx_word_ends [OF u(2)])
qed

lemma alias_re_match:
  "rx_match ALIAS_RE v \<longleftrightarrow> (\<exists>c u t. v = c # u @ t \<and> alias_char c
     \<and> list_all (\<lambda>c. alias_char c \<or> c = CHR ''-'') u \<and> at_end t)"
proof -
  let ?p = "\<lambda>c. alias_char c \<or> c = CHR ''-''"
  have e: "(\<exists>st \<in> set (rx_ends (RxStar (RxClass ?p)) (b, s)). at_end (snd st))
      \<longleftrightarrow> (\<exists>u t. s = u @ t \<and> list_all ?p u \<and> at_end t)" for b s
  proof -
    have "(\<exists>st \<in> set (rx_ends (RxStar (RxClass ?p)) (b, s)). at_end (snd st))
        \<longleftrightarrow> (\<exists>t. (\<exists>b'. (b', t) \<in> set (rx_ends (RxStar (RxClass ?p)) (b, s))) \<and> at_end t)" by force
    then show ?thesis unfolding rx_star_class_ends by blast
  qed
  have "rx_match ALIAS_RE v \<longleftrightarrow> (\<exists>c s. v = c # s \<and> alias_char c
      \<and> (\<exists>st \<in> set (rx_ends (RxStar (RxClass ?p)) (False, s)). at_end (snd st)))"
    unfolding rx_match_def set_empty [symmetric] ALIAS_RE_def
    by (cases v) (simp_all add: rx_ends_Seq)
  then show ?thesis unfolding e by blast
qed

lemma reserved_not_alias: "py_startswith v ''__cache__:'' \<or> py_startswith v ''__cache__/'' \<Longrightarrow> \<not> rx_match ALIAS_RE v"
  by (auto simp: alias_re_match py_startswith_iff alias_char_def in_range_def)

lemma capability_of_supported: "capability_of raw = Some c \<Longrightarrow> c \<in> set SUPPORTED_MODEL_CAPABILITIES"
  by (auto simp: capability_of_def SUPPORTED_MODEL_CAPABILITIES_def dest!: dict_get_in split: json.splits)
    (force simp: image_iff)

lemma capabilities_shape_ok:
  assumes "capabilities_shape raw = Inr (Some caps)"
  shows "caps \<noteq> []" and "sorted caps" and "distinct caps" and "set caps \<subseteq> set SUPPORTED_MODEL_CAPABILITIES"
proof -
  obtain raws where raws: "raw = JArr raws" "raws \<noteq> []" "\<forall>r \<in> set raws. capability_of r \<noteq> None"
    and caps: "caps = py_sorted_set (List.map_filter capability_of raws)"
    using assms by (auto simp: capabilities_shape_def find_error_None split: json.splits option.splits if_splits)
  have "set caps = {c. \<exists>r \<in> set raws. capability_of r = Some c}"
    unfolding caps set_py_sorted_set by (force simp: List.map_filter_def image_iff)
  then show "set caps \<subseteq> set SUPPORTED_MODEL_CAPABILITIES" and "caps \<noteq> []"
    using capability_of_supported raws(2,3) by (auto simp: neq_Nil_conv [of raws])
  show "sorted caps" and "distinct caps" by (simp_all add: caps)
qed

lemma default_capabilities_ok:
  "default_model_capabilities b k \<noteq> []" "sorted (default_model_capabilities b k)"
  "distinct (default_model_capabilities b k)"
  "set (default_model_capabilities b k) \<subseteq> set SUPPORTED_MODEL_CAPABILITIES"
  by (simp_all add: default_model_capabilities_def SUPPORTED_MODEL_CAPABILITIES_def CAPABILITY_ALIASES_dotted_def)

lemma supported_cases:
  "c \<in> set SUPPORTED_MODEL_CAPABILITIES \<longleftrightarrow> c \<in> {''chat.completions'', ''completions'', ''responses'', ''messages''}
     \<or> c \<in> {''embeddings'', ''rerank''} \<or> c = ''images.generations''"
  by (auto simp: SUPPORTED_MODEL_CAPABILITIES_def CAPABILITY_ALIASES_dotted_def)

text \<open>What the whole-model validator guarantees of the profile it returns.\<close>

definition profile_ok :: "model_profile \<Rightarrow> bool" where
  "profile_ok m =
     (case mp_capabilities m of
        None \<Rightarrow> False
      | Some caps \<Rightarrow>
          caps \<noteq> [] \<and> sorted caps \<and> distinct caps \<and> set caps \<subseteq> set SUPPORTED_MODEL_CAPABILITIES
          \<and> (mp_backend m = ''llama.cpp'' \<longleftrightarrow> truthy (mp_gguf_filename m))
          \<and> (mp_kind m = ''image'' \<longleftrightarrow> mp_backend m = ''sglang-diffusion'')
          \<and> (mp_kind m = ''image'' \<longleftrightarrow> caps = [''images.generations''])
          \<and> (mp_kind m = ''image'' \<longleftrightarrow> mp_image m \<noteq> None)
          \<and> (mp_backend m = ''llama.cpp'' \<longrightarrow> caps = [''embeddings''] \<or> caps = [''rerank'']
               \<or> set caps \<subseteq> {''chat.completions'', ''completions'', ''responses'', ''messages''}))"

lemma distinct_singleton: "distinct xs \<Longrightarrow> set xs = {x} \<longleftrightarrow> xs = [x]"
  by (cases xs) (auto simp: subset_singleton_iff)

lemma first_error_Cons_None: "first_error ((b, e) # gs) = None \<longleftrightarrow> \<not> b \<and> first_error gs = None"
  by simp

lemma backend_guards_ok:
  assumes "first_error (backend_guards caps m) = None"
    and "caps \<noteq> []" and "distinct caps" and "set caps \<subseteq> set SUPPORTED_MODEL_CAPABILITIES"
  shows "mp_backend m = ''llama.cpp'' \<longleftrightarrow> truthy (mp_gguf_filename m)"
    and "mp_kind m = ''image'' \<longleftrightarrow> mp_backend m = ''sglang-diffusion''"
    and "mp_kind m \<noteq> ''image'' \<Longrightarrow> mp_image m = None"
    and "mp_kind m = ''image'' \<longleftrightarrow> caps = [''images.generations'']"
    and "mp_backend m = ''llama.cpp'' \<Longrightarrow> caps = [''embeddings''] \<or> caps = [''rerank'']
           \<or> set caps \<subseteq> {''chat.completions'', ''completions'', ''responses'', ''messages''}"
proof -
  define gen where "gen = {''chat.completions'', ''completions'', ''responses'', ''messages''}"
  define spec where "spec = {''embeddings'', ''rerank''}"
  have g: "\<not> (mp_backend m = ''llama.cpp'' \<and> \<not> truthy (mp_gguf_filename m))"
    "\<not> (mp_backend m \<noteq> ''llama.cpp'' \<and> truthy (mp_gguf_filename m))"
    "\<not> (mp_kind m = ''image'' \<and> mp_backend m \<noteq> ''sglang-diffusion'')"
    "\<not> (mp_backend m = ''sglang-diffusion'' \<and> mp_kind m \<noteq> ''image'')"
    "\<not> (mp_kind m \<noteq> ''image'' \<and> mp_image m \<noteq> None)"
    "\<not> (mp_kind m = ''image'' \<and> set caps \<noteq> {''images.generations''})"
    "\<not> (mp_kind m \<noteq> ''image'' \<and> ''images.generations'' \<in> set caps)"
    "\<not> (mp_backend m = ''llama.cpp'' \<and> set caps \<inter> gen \<noteq> {} \<and> set caps \<inter> spec \<noteq> {})"
    "\<not> (mp_backend m = ''llama.cpp'' \<and> ''rerank'' \<in> set caps \<and> set caps \<noteq> {''rerank''})"
    using assms(1) unfolding backend_guards_def Let_def first_error_Cons_None gen_def [symmetric] spec_def [symmetric]
    by - (elim conjE, assumption)+
  have one: "set caps = {x} \<longleftrightarrow> caps = [x]" for x by (rule distinct_singleton [OF assms(3)])
  show "mp_backend m = ''llama.cpp'' \<longleftrightarrow> truthy (mp_gguf_filename m)" using g(1,2) by blast
  show k: "mp_kind m = ''image'' \<longleftrightarrow> mp_backend m = ''sglang-diffusion''" using g(3,4) by blast
  show "mp_kind m \<noteq> ''image'' \<Longrightarrow> mp_image m = None" using g(5) by blast
  show "mp_kind m = ''image'' \<longleftrightarrow> caps = [''images.generations'']" using g(6,7) one by auto
  assume b: "mp_backend m = ''llama.cpp''"
  then have "mp_kind m \<noteq> ''image''" using k by simp
  then have "''images.generations'' \<notin> set caps" using g(7) by blast
  then have sub: "set caps \<subseteq> gen \<union> spec"
    using assms(4) supported_cases [THEN iffD1] unfolding gen_def [symmetric] spec_def [symmetric] by blast
  have "caps = [''embeddings''] \<or> caps = [''rerank''] \<or> set caps \<subseteq> gen"
  proof (cases "set caps \<inter> spec = {}")
    case False
    then have "set caps \<subseteq> spec" using g(8) b sub by blast
    moreover have "''rerank'' \<in> set caps \<longrightarrow> set caps = {''rerank''}" using g(9) b by blast
    ultimately have "set caps = {''embeddings''} \<or> set caps = {''rerank''}" using assms(2) by (cases caps) (auto simp: spec_def)
    then show ?thesis unfolding one by blast
  qed (use sub in blast)
  then show "caps = [''embeddings''] \<or> caps = [''rerank'']
      \<or> set caps \<subseteq> {''chat.completions'', ''completions'', ''responses'', ''messages''}" unfolding gen_def .
qed

lemma backend_consistency_ok:
  assumes "backend_consistency m = Inr m'"
    and "\<And>cs. mp_capabilities m = Some cs \<Longrightarrow>
      cs \<noteq> [] \<and> sorted cs \<and> distinct cs \<and> set cs \<subseteq> set SUPPORTED_MODEL_CAPABILITIES"
  shows "profile_ok m'"
proof -
  define caps where "caps = (case mp_capabilities m of
      None \<Rightarrow> default_model_capabilities (mp_backend m) (mp_kind m) | Some cs \<Rightarrow> cs)"
  have c: "caps \<noteq> []" "sorted caps" "distinct caps" "set caps \<subseteq> set SUPPORTED_MODEL_CAPABILITIES"
    using assms(2) default_capabilities_ok by (auto simp: caps_def split: option.splits)
  have ok: "first_error (backend_guards caps m) = None"
    and m': "m' = (let m1 = m\<lparr>mp_capabilities := Some caps\<rparr>
        in if mp_kind m = ''image'' \<and> mp_image m = None then m1\<lparr>mp_image := Some default_image\<rparr> else m1)"
    using assms(1) unfolding backend_consistency_def caps_def [symmetric] Let_def
    by (auto split: option.splits)
  note g = backend_guards_ok [OF ok c(1,3,4)]
  have f: "mp_capabilities m' = Some caps" "mp_backend m' = mp_backend m" "mp_kind m' = mp_kind m"
    "mp_gguf_filename m' = mp_gguf_filename m"
    "mp_image m' = (if mp_kind m = ''image'' \<and> mp_image m = None then Some default_image else mp_image m)"
    by (simp_all add: m' Let_def)
  have "mp_kind m = ''image'' \<longleftrightarrow> mp_image m' \<noteq> None"
    using g(3) unfolding f(5) by (cases "mp_kind m = ''image''") auto
  then show ?thesis unfolding profile_ok_def f(1-4) option.case using c g(1,2,4,5) by blast
qed

lemma validate_model_profile_ok:
  assumes "validate_model_profile raw m = Inr m'"
  shows "profile_ok m'"
proof -
  obtain caps where c: "capabilities_shape raw = Inr caps" and b: "backend_consistency (m\<lparr>mp_capabilities := caps\<rparr>) = Inr m'"
    using assms by (auto simp: validate_model_profile_def split: option.splits sum.splits)
  have "cs \<noteq> [] \<and> sorted cs \<and> distinct cs \<and> set cs \<subseteq> set SUPPORTED_MODEL_CAPABILITIES"
    if "mp_capabilities (m\<lparr>mp_capabilities := caps\<rparr>) = Some cs" for cs
    using that c capabilities_shape_ok [of raw cs] by simp
  from backend_consistency_ok [OF b this] show ?thesis .
qed

lemma option_guards:
  "first_error [(case a of None \<Rightarrow> False | Some n \<Rightarrow> P n, x), (case b of None \<Rightarrow> False | Some i \<Rightarrow> Q i, y)] = None
     \<longleftrightarrow> (\<forall>n. a = Some n \<longrightarrow> \<not> P n) \<and> (\<forall>i. b = Some i \<longrightarrow> \<not> Q i)"
  by (cases a; cases b) simp_all

lemma validate_models_ok:
  "validate_models ms = Inr ms' \<Longrightarrow> \<forall>m \<in> set ms'. profile_ok m"
  by (induction ms arbitrary: ms' rule: validate_models.induct)
    (auto split: sum.splits dest: validate_model_profile_ok)

subsection \<open>The environment file\<close>

lemma load_env_lines_get:
  "load_env_lines ov ls parsed environ = Inr (p, e) \<Longrightarrow>
     dict_get p k = (case map_of (rev (List.map_filter env_line ls)) k of Some v \<Rightarrow> Some v | None \<Rightarrow> dict_get parsed k)
     \<and> dict_get e k =
         (if ov then (case map_of (rev (List.map_filter env_line ls)) k of Some v \<Rightarrow> Some v | None \<Rightarrow> dict_get environ k)
          else (case dict_get environ k of Some v \<Rightarrow> Some v | None \<Rightarrow> map_of (List.map_filter env_line ls) k))"
proof (induction ls arbitrary: parsed environ)
  case Nil
  then show ?case by (simp add: List.map_filter_simps split: option.split)
next
  case (Cons l ls)
  show ?case
  proof (cases "env_line l")
    case None
    then have mf: "List.map_filter env_line (l # ls) = List.map_filter env_line ls" by (simp add: List.map_filter_simps)
    show ?thesis unfolding mf using None Cons by simp
  next
    case (Some kv)
    obtain key v where kv: "kv = (key, v)" by (cases kv)
    show ?thesis
    proof (cases "ov \<or> \<not> dict_has environ key")
      case True
      then have "load_env_lines ov ls (dict_put key v parsed) (dict_put key v environ) = Inr (p, e)"
        using Cons.prems Some kv by (auto split: if_splits)
      from Cons.IH [OF this] show ?thesis using True Some kv
        by (auto simp: List.map_filter_simps map_add_def dict_get_None_iff [symmetric] split: option.split)
    next
      case False
      then have "load_env_lines ov ls (dict_put key v parsed) environ = Inr (p, e)"
        using Cons.prems Some kv by auto
      from Cons.IH [OF this] show ?thesis using False Some kv
        by (auto simp: List.map_filter_simps map_add_def dict_get_None_iff [symmetric] split: option.split)
    qed
  qed
qed

section \<open>Properties\<close>

text \<open>
  An accepted configuration is consistent: every model's capabilities are a non-empty sorted
  set of supported endpoints that fits its backend and kind (llama.cpp with a GGUF file, and either
  generation only, embeddings only or rerank only; images exactly for sglang-diffusion, with their
  defaults filled in and within the pixel budget), aliases and storage names are unique, every
  storage reference is declared, the ports differ and the queue depth is between 1 and 100000.
\<close>

theorem accepted_config_consistent:
  assumes "validate_config models c = Inr cfg"
  shows "(\<forall>m \<in> set (cf_models cfg). profile_ok m
       \<and> (\<forall>n. mp_storage m = Some n \<longrightarrow> n \<in> sl_name ` set (so_locations (cf_storage cfg)))
       \<and> (\<forall>i. mp_image m = Some i \<longrightarrow> im_width i * im_height i \<le> ns_image_max_pixels (cf_server cfg)))
    \<and> distinct (map mp_alias (cf_models cfg))
    \<and> distinct (map sl_name (so_locations (cf_storage cfg)))
    \<and> so_default (cf_storage cfg) \<in> sl_name ` set (so_locations (cf_storage cfg))
    \<and> ns_inference_port (cf_server cfg) \<noteq> ns_admin_port (cf_server cfg)
    \<and> 1 \<le> ns_max_queue_depth (cf_server cfg) \<and> ns_max_queue_depth (cf_server cfg) \<le> 100000
    \<and> (\<forall>m. ns_max_concurrency (cf_server cfg) = Some m \<longrightarrow> 1 \<le> m)"
proof -
  obtain ms nid where ms: "validate_models models = Inr ms" and cfg: "cfg = c\<lparr>cf_models := ms, cf_fleet_node_id := nid\<rparr>"
    and sv: "node_server_error (cf_server c) = None" and st: "storage_error (cf_storage c) = None"
    and cr: "cross_refs cfg = None"
    using assms by (auto simp: validate_config_def Let_def split: option.splits sum.splits)
  have "\<forall>m \<in> set ms. profile_ok m" by (rule validate_models_ok [OF ms])
  moreover have "distinct (map mp_alias ms)"
    "\<forall>m \<in> set ms. (\<forall>n. mp_storage m = Some n \<longrightarrow> n \<in> sl_name ` set (so_locations (cf_storage c)))
       \<and> (\<forall>i. mp_image m = Some i \<longrightarrow> im_width i * im_height i \<le> ns_image_max_pixels (cf_server c))"
    using cr unfolding cfg cross_refs_def or_error_None find_error_None option_guards
    by (auto simp: not_less split: if_splits)
  moreover have "distinct (map sl_name (so_locations (cf_storage c)))"
    "so_default (cf_storage c) \<in> sl_name ` set (so_locations (cf_storage c))"
    using st by (auto simp: storage_error_def Let_def split: if_splits)
  moreover have "ns_inference_port (cf_server c) \<noteq> ns_admin_port (cf_server c)"
    "1 \<le> ns_max_queue_depth (cf_server c)" "ns_max_queue_depth (cf_server c) \<le> 100000"
    "\<forall>m. ns_max_concurrency (cf_server c) = Some m \<longrightarrow> 1 \<le> m"
    using sv by (auto simp: node_server_error_def ports_distinct_def split: if_splits option.splits)
  ultimately show ?thesis by (simp add: cfg)
qed

definition demo_profile :: model_profile where
  "demo_profile =
     \<lparr>mp_alias = ''m'', mp_model = ''org/model'', mp_quantization = None, mp_gpus = GpuAll,
      mp_max_model_len = None, mp_storage = None, mp_extra_args = [''--max-num-seqs'', ''4''],
      mp_revision = ''main'', mp_backend = ''vllm'', mp_kind = ''language'', mp_image = None,
      mp_gguf_filename = None, mp_projector_filename = None, mp_capabilities = None\<rparr>"

definition demo_node_config :: manager_config where
  "demo_node_config =
     \<lparr>cf_server = default_server,
      cf_storage = \<lparr>so_default = ''nvme'', so_locations = [\<lparr>sl_name = ''nvme'', sl_path = ''/models''\<rparr>]\<rparr>,
      cf_defaults = default_node_defaults, cf_models = [],
      cf_token_sidecar = default_sidecar, cf_fleet_node_id = ''n1''\<rparr>"

definition demo_accepted :: manager_config where
  "demo_accepted = demo_node_config\<lparr>cf_models :=
     [demo_profile\<lparr>mp_capabilities := Some [''chat.completions'', ''completions'', ''embeddings'', ''responses'']\<rparr>]\<rparr>"

lemma demo_accepted: "validate_config [(JNull, demo_profile)] demo_node_config = Inr demo_accepted"
  by code_simp

theorem accepted_config_consistent_witness:
  "ns_inference_port (cf_server demo_accepted) \<noteq> ns_admin_port (cf_server demo_accepted)
   \<and> list_all profile_ok (cf_models demo_accepted)"
proof
  note ok = accepted_config_consistent [OF demo_accepted]
  show "ns_inference_port (cf_server demo_accepted) \<noteq> ns_admin_port (cf_server demo_accepted)" using ok by blast
  show "list_all profile_ok (cf_models demo_accepted)" unfolding list_all_iff using ok by blast
qed

text \<open>
  The aliases that the configuration accepts are a lowercase letter or digit followed by such
  characters and hyphens, possibly followed by one newline: the pattern's final \<open>$\<close> also matches
  there. The reserved prefixes add nothing to the pattern.
\<close>

theorem accepted_aliases:
  "alias_shape v = None \<longleftrightarrow>
     (\<exists>c u t. v = c # u @ t \<and> alias_char c \<and> list_all (\<lambda>c. alias_char c \<or> c = CHR ''-'') u
        \<and> (t = [] \<or> t = [CHR 0x0A]))"
  using reserved_not_alias [of v] by (auto simp: alias_shape_def alias_re_match at_end_def)

text \<open>
  What loading an environment file does to the process environment. Without \<open>override\<close> a
  variable that is already set keeps its value and the first definition in the file wins; with
  \<open>override\<close> the last one wins. The returned dictionary always has the last one.
\<close>

theorem load_env_precedence:
  assumes "load_env override (Some text) environ = Inr (parsed, environ')"
  shows "dict_get parsed k = map_of (rev (List.map_filter env_line (py_splitlines text))) k
    \<and> dict_get environ' k =
        (if override
         then (case map_of (rev (List.map_filter env_line (py_splitlines text))) k of
                 Some v \<Rightarrow> Some v | None \<Rightarrow> dict_get environ k)
         else (case dict_get environ k of
                 Some v \<Rightarrow> Some v | None \<Rightarrow> map_of (List.map_filter env_line (py_splitlines text)) k))"
  using load_env_lines_get [of override "py_splitlines text" "[]" environ parsed environ' k] assms
  by (simp add: load_env_def split: option.splits)

theorem load_env_precedence_witness:
  "load_env False (Some (''A=1'' @ [CHR 0x0A] @ ''A=2'' @ [CHR 0x0A] @ ''B=3'')) [(''B'', ''0'')]
     = Inr ([(''A'', ''2''), (''B'', ''3'')], [(''B'', ''0''), (''A'', ''1'')])
   \<and> dict_get [(''B'', ''0''), (''A'', ''1'')] ''A'' = Some ''1''"
proof -
  have r: "load_env False (Some (''A=1'' @ [CHR 0x0A] @ ''A=2'' @ [CHR 0x0A] @ ''B=3'')) [(''B'', ''0'')]
     = Inr ([(''A'', ''2''), (''B'', ''3'')], [(''B'', ''0''), (''A'', ''1'')])" by code_simp
  moreover have "map_of (List.map_filter env_line (py_splitlines (''A=1'' @ [CHR 0x0A] @ ''A=2'' @ [CHR 0x0A] @ ''B=3''))) ''A''
      = Some ''1''" by code_simp
  ultimately show ?thesis using load_env_precedence [OF r, of "''A''"] by (simp add: dict_get_Cons)
qed

text \<open>
  A line without a name makes the loader fail: the empty name reaches the process environment,
  which refuses it.
\<close>

theorem load_env_empty_name:
  "load_env False (Some ''=x'') environ = Inl ''putenv'' \<or> dict_has environ []"
proof -
  have "py_splitlines ''=x'' = [''=x'']" "env_line ''=x'' = Some ([], ''x'')" by code_simp+
  then show ?thesis by (simp add: load_env_def putenv_ok_def)
qed

end
