(* ===== verification/Node_Profiles.thy ===== *)
theory Node_Profiles
  imports Node_Config
begin

text \<open>
  Resolution of model names: \<open>src/profiles.py\<close> (a configured or installed alias becomes a
  \<open>ResolvedProfile\<close>), the catalog lookups of \<open>src/catalog.py\<close> it rests on, and the five-tier lookup
  of \<open>src/vllm_manager.py\<close> for the name in a request. A catalog is the list of rows of its \<open>models\<close>
  table in alias order; the JSON text columns are represented by the values that they encode. Which
  files exist is a parameter.
\<close>

section \<open>Data\<close>

record catalog_row =
  rw_alias :: string
  rw_hf_model_id :: string
  rw_source :: string
  rw_quantization :: "string option"
  rw_gpus :: gpu_plan
  rw_max_model_len :: "int option"
  rw_storage_location :: string
  rw_cache_path :: "string option"
  rw_status :: string
  rw_extra_args :: "string list"
  rw_revision :: string
  rw_resolved_sha :: "string option"
  rw_backend :: string
  rw_gguf_filename :: "string option"
  rw_model_kind :: string
  rw_capabilities :: "string list"
  rw_image_config :: "json option"

record resolved_profile =
  pf_alias :: string
  pf_served_model_name :: string
  pf_engine_model_path :: string
  pf_gpus :: gpu_plan
  pf_quantization :: "string option"
  pf_max_model_len :: "int option"
  pf_gpu_memory_utilization :: pyfloat
  pf_trust_remote_code :: bool
  pf_storage_name :: string
  pf_storage_path :: string
  pf_extra_args :: "string list"
  pf_revision :: string
  pf_backend :: string
  pf_gguf_filename :: "string option"
  pf_projector_filename :: "string option"
  pf_projector_model_path :: "string option"
  pf_kind :: string
  pf_capabilities :: "string list"
  pf_image_defaults :: "json option"
  pf_upstream_model :: "string option"

datatype resolve_error =
    ResolveKeyError
  | ProfileNotReady string
  | ResolveValueError string
  | HttpConflict string

section \<open>Catalog lookups\<close>

definition get_model :: "catalog_row list \<Rightarrow> string \<Rightarrow> catalog_row option" where
  "get_model rows alias = find (\<lambda>r. rw_alias r = alias) rows"

text \<open>SQLite's \<open>NOCASE\<close> folds the ASCII letters only.\<close>

definition ascii_lower :: "string \<Rightarrow> string" where
  "ascii_lower s = map (\<lambda>c. if in_range (CHR ''A'') (CHR ''Z'') c then char_of ((of_char c :: nat) + 32) else c) s"

text \<open>\<open>ORDER BY CASE WHEN \<dots> THEN 0 ELSE 1 END, alias LIMIT 1\<close>: an exact match first, then by alias.\<close>

definition get_model_case_insensitive :: "catalog_row list \<Rightarrow> string \<Rightarrow> catalog_row option" where
  "get_model_case_insensitive rows alias =
     (let hits = filter (\<lambda>r. ascii_lower (rw_alias r) = ascii_lower alias) rows
      in case sort_key (\<lambda>r. (if rw_alias r = alias then 0 else 1 :: nat)) (sort_key rw_alias hits) of
           [] \<Rightarrow> None | r # _ \<Rightarrow> Some r)"

definition lookup_by_hf_id_case_insensitive :: "catalog_row list \<Rightarrow> string \<Rightarrow> catalog_row list" where
  "lookup_by_hf_id_case_insensitive rows hf =
     sort_key (\<lambda>r. (if rw_hf_model_id r = hf then 0 else 1 :: nat))
       (sort_key (\<lambda>r. (if rw_source r = ''ui_install'' then 0 else 1 :: nat))
         (sort_key rw_alias (filter (\<lambda>r. ascii_lower (rw_hf_model_id r) = ascii_lower hf) rows)))"

definition is_cache_only_alias :: "string \<Rightarrow> bool" where
  "is_cache_only_alias alias = (py_startswith alias ''__cache__:'' \<or> py_startswith alias ''__cache__/'')"

section \<open>Profiles\<close>

definition LLAMA_GENERATION_CAPABILITIES :: "string list" where
  "LLAMA_GENERATION_CAPABILITIES = [''chat.completions'', ''completions'', ''messages'', ''responses'']"

definition dotted_chat :: "string \<Rightarrow> string" where
  "dotted_chat v =
     (if v = ''chat/completions'' \<or> v = ''/v1/chat/completions'' then ''chat.completions'' else v)"

definition effective_backend_capabilities :: "string \<Rightarrow> string list \<Rightarrow> string list" where
  "effective_backend_capabilities backend values =
     (if backend \<noteq> ''llama.cpp'' then values
      else let normalized = map dotted_chat values
           in if set normalized = {''embeddings''} then [''embeddings'']
              else if set normalized = {''rerank''} then [''rerank'']
              else filter (\<lambda>c. c \<in> set normalized) LLAMA_GENERATION_CAPABILITIES)"

text \<open>\<open>os.path.join\<close> on POSIX.\<close>

definition path_join2 :: "string \<Rightarrow> string \<Rightarrow> string" where
  "path_join2 a b =
     (if py_startswith b ''/'' then b
      else if a = [] \<or> last a = CHR ''/'' then a @ b else a @ ''/'' @ b)"

definition path_join :: "string \<Rightarrow> string list \<Rightarrow> string" where
  "path_join a bs = foldl path_join2 a bs"

definition slash_dashes :: "string \<Rightarrow> string" where
  "slash_dashes s = concat (map (\<lambda>c. if c = CHR ''/'' then ''--'' else [c]) s)"

definition or_text :: "string option \<Rightarrow> string \<Rightarrow> string" where
  "or_text x d = (if truthy x then the x else d)"

definition gguf_engine_path :: "string \<Rightarrow> string \<Rightarrow> string option \<Rightarrow> string \<Rightarrow> string \<Rightarrow> string" where
  "gguf_engine_path storage_path hf_model_id resolved_sha revision gguf_filename =
     path_join storage_path
       [''hub'', ''models--'' @ slash_dashes hf_model_id, ''snapshots'',
        or_text resolved_sha (or_text (Some revision) ''main''), gguf_filename]"

text \<open>\<open>ImageDefaults.model_dump()\<close>.\<close>

definition image_dump :: "image_defaults \<Rightarrow> json" where
  "image_dump i = JObj
     [(''width'', JInt (im_width i)), (''height'', JInt (im_height i)),
      (''num_inference_steps'', JInt (im_num_inference_steps i)),
      (''guidance_scale'', JFloat (im_guidance_scale i)),
      (''guidance_parameter'', JStr (im_guidance_parameter i))]"

text \<open>The dictionary of storage locations: a later entry of the same name wins.\<close>

definition storage_locations :: "manager_config \<Rightarrow> (string, string) dict" where
  "storage_locations c = fold (\<lambda>l. dict_put (sl_name l) (sl_path l)) (so_locations (cf_storage c)) []"

definition config_revision :: "model_profile \<Rightarrow> catalog_row option \<Rightarrow> string" where
  "config_revision m row =
     (case row of
        None \<Rightarrow> mp_revision m
      | Some r \<Rightarrow>
          if rw_status r = ''installed'' \<and> rw_hf_model_id r = mp_model m
             \<and> or_text (Some (rw_backend r)) ''vllm'' = mp_backend m \<and> truthy (rw_resolved_sha r)
          then the (rw_resolved_sha r) else mp_revision m)"

text \<open>The served name, the engine path and the projector path of a configured profile.\<close>

definition config_paths ::
  "(string \<Rightarrow> bool) \<Rightarrow> model_profile \<Rightarrow> catalog_row option \<Rightarrow> resolve_error + string \<times> string \<times> string option" where
  "config_paths isfile m row =
     (if mp_backend m \<noteq> ''llama.cpp'' then Inr (mp_model m, mp_model m, None)
      else if \<not> truthy (mp_gguf_filename m)
      then Inl (ResolveValueError ''backend llama.cpp but no gguf_filename'')
      else case row of
             None \<Rightarrow> Inl (ProfileNotReady ''install/reconcile the selected GGUF first'')
           | Some r \<Rightarrow>
               (case rw_cache_path r of
                  None \<Rightarrow> Inl (ProfileNotReady ''install/reconcile the selected GGUF first'')
                | Some cache \<Rightarrow>
                    if rw_status r \<noteq> ''installed''
                    then Inl (ProfileNotReady ''install/reconcile the selected GGUF first'')
                    else let engine_path = path_join cache [the (mp_gguf_filename m)]
                         in if \<not> isfile engine_path then Inl (ProfileNotReady ''missing GGUF file'')
                            else if \<not> truthy (mp_projector_filename m) then Inr (mp_alias m, engine_path, None)
                            else let projector = path_join cache [the (mp_projector_filename m)]
                                 in if \<not> isfile projector then Inl (ProfileNotReady ''missing projector file'')
                                    else Inr (mp_alias m, engine_path, Some projector)))"

definition resolve_configured ::
  "(string \<Rightarrow> bool) \<Rightarrow> manager_config \<Rightarrow> catalog_row list option \<Rightarrow> model_profile \<Rightarrow> resolve_error + resolved_profile" where
  "resolve_configured isfile c catalog m =
     (let storage_name = (case mp_storage m of Some n \<Rightarrow> n | None \<Rightarrow> so_default (cf_storage c));
          row = (case catalog of None \<Rightarrow> None | Some rows \<Rightarrow> get_model rows (mp_alias m))
      in case dict_get (storage_locations c) storage_name of
           None \<Rightarrow> Inl ResolveKeyError
         | Some storage_path \<Rightarrow>
             (case config_paths isfile m row of
                Inl e \<Rightarrow> Inl e
              | Inr (served, engine_path, projector) \<Rightarrow>
                  Inr \<lparr>pf_alias = mp_alias m, pf_served_model_name = served, pf_engine_model_path = engine_path,
                       pf_gpus = mp_gpus m, pf_quantization = mp_quantization m,
                       pf_max_model_len = (case mp_max_model_len m of
                          Some n \<Rightarrow> Some n | None \<Rightarrow> df_max_model_len (cf_defaults c)),
                       pf_gpu_memory_utilization = df_gpu_memory_utilization (cf_defaults c),
                       pf_trust_remote_code = df_trust_remote_code (cf_defaults c),
                       pf_storage_name = storage_name, pf_storage_path = storage_path,
                       pf_extra_args = mp_extra_args m, pf_revision = config_revision m row,
                       pf_backend = mp_backend m, pf_gguf_filename = mp_gguf_filename m,
                       pf_projector_filename = mp_projector_filename m, pf_projector_model_path = projector,
                       pf_kind = mp_kind m,
                       pf_capabilities = effective_backend_capabilities (mp_backend m)
                          (case mp_capabilities m of None \<Rightarrow> [] | Some cs \<Rightarrow> cs),
                       pf_image_defaults = map_option image_dump (mp_image m),
                       pf_upstream_model = Some (mp_model m)\<rparr>))"

definition resolve_installed :: "manager_config \<Rightarrow> catalog_row \<Rightarrow> resolve_error + resolved_profile" where
  "resolve_installed c r =
     (let backend = or_text (Some (rw_backend r)) ''vllm'';
          llama = (backend = ''llama.cpp'')
      in case dict_get (storage_locations c) (rw_storage_location r) of
           None \<Rightarrow> Inl ResolveKeyError
         | Some path \<Rightarrow>
             if llama \<and> \<not> truthy (rw_gguf_filename r)
             then Inl (ResolveValueError ''backend llama.cpp but no gguf_filename'')
             else Inr \<lparr>pf_alias = rw_alias r,
                       pf_served_model_name = (if llama then rw_alias r else rw_hf_model_id r),
                       pf_engine_model_path =
                         (if llama then gguf_engine_path path (rw_hf_model_id r) (rw_resolved_sha r)
                                          (or_text (Some (rw_revision r)) ''main'') (the (rw_gguf_filename r))
                          else rw_hf_model_id r),
                       pf_gpus = rw_gpus r, pf_quantization = rw_quantization r,
                       pf_max_model_len = (case rw_max_model_len r of
                          Some n \<Rightarrow> Some n | None \<Rightarrow> df_max_model_len (cf_defaults c)),
                       pf_gpu_memory_utilization = df_gpu_memory_utilization (cf_defaults c),
                       pf_trust_remote_code = df_trust_remote_code (cf_defaults c),
                       pf_storage_name = rw_storage_location r, pf_storage_path = path,
                       pf_extra_args = rw_extra_args r,
                       pf_revision = or_text (rw_resolved_sha r) (or_text (Some (rw_revision r)) ''main''),
                       pf_backend = backend, pf_gguf_filename = rw_gguf_filename r,
                       pf_projector_filename = None, pf_projector_model_path = None,
                       pf_kind = rw_model_kind r,
                       pf_capabilities = effective_backend_capabilities backend (rw_capabilities r),
                       pf_image_defaults = rw_image_config r, pf_upstream_model = Some (rw_hf_model_id r)\<rparr>)"

definition resolve_profile ::
  "(string \<Rightarrow> bool) \<Rightarrow> manager_config \<Rightarrow> catalog_row list option \<Rightarrow> string \<Rightarrow> resolve_error + resolved_profile" where
  "resolve_profile isfile c catalog alias =
     (case find (\<lambda>m. mp_alias m = alias) (cf_models c) of
        Some m \<Rightarrow> resolve_configured isfile c catalog m
      | None \<Rightarrow>
          (case catalog of
             None \<Rightarrow> Inl ResolveKeyError
           | Some rows \<Rightarrow>
               (case get_model rows alias of
                  None \<Rightarrow> Inl ResolveKeyError
                | Some r \<Rightarrow> if rw_source r = ''ui_install'' then resolve_installed c r
                            else Inl ResolveKeyError)))"

section \<open>The name in a request\<close>

text \<open>
  \<open>str.casefold\<close> on code points below 256: the micro sign folds outside that range, but to a
  character that no other one folds to, so it may as well stay.
\<close>

definition py_casefold :: "string \<Rightarrow> string" where
  "py_casefold s = concat (map (\<lambda>c. if (of_char c :: nat) = 223 then ''ss'' else [py_lower_char c]) s)"

definition RAW_HF_ID_RE :: rx where
  "RAW_HF_ID_RE =
     (let part = rx_plus (RxClass (\<lambda>c. ascii_alnum c \<or> c \<in> {CHR ''.'', CHR ''_'', CHR ''-''}))
      in rx_all [RxStart, part, RxClass (\<lambda>c. c = CHR ''/''), part, RxEnd])"

definition config_alias_for :: "manager_config \<Rightarrow> string \<Rightarrow> string option" where
  "config_alias_for c requested =
     (case find (\<lambda>m. mp_alias m = requested) (cf_models c) of
        Some m \<Rightarrow> Some (mp_alias m)
      | None \<Rightarrow> map_option mp_alias
          (find (\<lambda>m. py_casefold (mp_alias m) = py_casefold requested) (cf_models c)))"

definition ui_install_row_for_alias :: "catalog_row list \<Rightarrow> string \<Rightarrow> catalog_row option" where
  "ui_install_row_for_alias rows requested =
     (case (case get_model rows requested of
              Some r \<Rightarrow> Some r | None \<Rightarrow> get_model_case_insensitive rows requested) of
        Some r \<Rightarrow> if rw_source r = ''ui_install'' then Some r else None
      | None \<Rightarrow> None)"

definition ui_install_rows_for_hf_id :: "catalog_row list \<Rightarrow> string \<Rightarrow> catalog_row list" where
  "ui_install_rows_for_hf_id rows requested =
     filter (\<lambda>r. rw_source r = ''ui_install'') (lookup_by_hf_id_case_insensitive rows requested)"

definition legacy_alias_for :: "(string, string) dict \<Rightarrow> string \<Rightarrow> string option" where
  "legacy_alias_for aliases requested =
     (if dict_has aliases requested then Some requested
      else find (\<lambda>a. py_casefold a = py_casefold requested) (map fst aliases))"

definition MODEL_ALIASES :: "(string, string) dict" where
  "MODEL_ALIASES = []"

definition synthesize_profile :: "manager_config \<Rightarrow> string \<Rightarrow> resolve_error + resolved_profile" where
  "synthesize_profile c model_id =
     (case find (\<lambda>l. sl_name l = so_default (cf_storage c)) (so_locations (cf_storage c)) of
        None \<Rightarrow> Inl ResolveKeyError
      | Some loc \<Rightarrow>
          Inr \<lparr>pf_alias = model_id, pf_served_model_name = model_id, pf_engine_model_path = model_id,
               pf_gpus = GpuAll, pf_quantization = None, pf_max_model_len = df_max_model_len (cf_defaults c),
               pf_gpu_memory_utilization = df_gpu_memory_utilization (cf_defaults c),
               pf_trust_remote_code = df_trust_remote_code (cf_defaults c),
               pf_storage_name = so_default (cf_storage c), pf_storage_path = sl_path loc,
               pf_extra_args = [], pf_revision = ''main'', pf_backend = ''vllm'',
               pf_gguf_filename = None, pf_projector_filename = None, pf_projector_model_path = None,
               pf_kind = ''language'',
               pf_capabilities = [''chat.completions'', ''completions'', ''embeddings'', ''responses''],
               pf_image_defaults = None, pf_upstream_model = Some model_id\<rparr>)"

text \<open>The error handling around tier one.\<close>

definition not_ready_conflict :: "resolve_error + resolved_profile \<Rightarrow> resolve_error + resolved_profile" where
  "not_ready_conflict r = (case r of Inl (ProfileNotReady e) \<Rightarrow> Inl (HttpConflict e) | _ \<Rightarrow> r)"

definition resolve_request_model ::
  "(string, string) dict \<Rightarrow> (string \<Rightarrow> bool) \<Rightarrow> (string \<Rightarrow> bool) \<Rightarrow> manager_config \<Rightarrow> catalog_row list \<Rightarrow> string
   \<Rightarrow> resolve_error + resolved_profile" where
  "resolve_request_model legacy isfile isdir c rows requested =
     (let is_hf_id = rx_match RAW_HF_ID_RE requested;
          raw = (if is_hf_id \<or> py_startswith requested ''/'' \<and> isdir requested
                 then synthesize_profile c requested else Inl ResolveKeyError)
      in case config_alias_for c requested of
           Some a \<Rightarrow> not_ready_conflict (resolve_profile isfile c (Some rows) a)
         | None \<Rightarrow>
             (case ui_install_row_for_alias rows requested of
                Some r \<Rightarrow>
                  if rw_status r \<noteq> ''installed'' then Inl (HttpConflict ''complete the install before routing requests to it'')
                  else resolve_profile isfile c (Some rows) (rw_alias r)
              | None \<Rightarrow>
                  (case legacy_alias_for legacy requested of
                     Some a \<Rightarrow> synthesize_profile c (the (dict_get legacy a))
                   | None \<Rightarrow>
                       if is_hf_id then
                         (let hits = ui_install_rows_for_hf_id rows requested
                          in case find (\<lambda>r. rw_status r = ''installed'') hits of
                               Some r \<Rightarrow> resolve_profile isfile c (Some rows) (rw_alias r)
                             | None \<Rightarrow> if hits \<noteq> [] then Inl (HttpConflict ''is not ready'') else raw)
                       else raw)))"

text \<open>Whether a load request named a managed profile, and the legacy overrides for raw ones.\<close>

definition request_is_aliased ::
  "(string, string) dict \<Rightarrow> manager_config \<Rightarrow> catalog_row list \<Rightarrow> string \<Rightarrow> resolved_profile \<Rightarrow> bool" where
  "request_is_aliased legacy c rows requested p =
     (config_alias_for c requested \<noteq> None \<or> ui_install_row_for_alias rows requested \<noteq> None
      \<or> legacy_alias_for legacy requested \<noteq> None \<or> pf_alias p \<noteq> requested)"

definition apply_legacy_overrides ::
  "pyfloat option \<Rightarrow> int option \<Rightarrow> string list option \<Rightarrow> resolved_profile \<Rightarrow> resolved_profile" where
  "apply_legacy_overrides gpu_mem tp extra p =
     (let p1 = (case gpu_mem of None \<Rightarrow> p | Some g \<Rightarrow> p\<lparr>pf_gpu_memory_utilization := g\<rparr>);
          p2 = (case tp of None \<Rightarrow> p1 | Some n \<Rightarrow> p1\<lparr>pf_gpus := GpuList [0..n - 1]\<rparr>)
      in case extra of None \<Rightarrow> p2 | Some e \<Rightarrow> p2\<lparr>pf_extra_args := e\<rparr>)"

section \<open>Lemmas\<close>

lemma find_SomeD: "find P xs = Some x \<Longrightarrow> x \<in> set xs \<and> P x"
  by (auto simp: find_Some_iff)

lemma find_NoneD: "find P xs = None \<Longrightarrow> x \<in> set xs \<Longrightarrow> \<not> P x"
  by (auto simp: find_None_iff)

lemma find_unique:
  assumes "distinct (map f xs)" and "x \<in> set xs"
  shows "find (\<lambda>y. f y = f x) xs = Some x"
  using assms by (induction xs) (auto simp: image_iff)

lemma fold_locations_get:
  "dict_get (fold (\<lambda>l. dict_put (sl_name l) (sl_path l)) ls d) n \<noteq> None
     \<longleftrightarrow> n \<in> sl_name ` set ls \<or> dict_get d n \<noteq> None"
  by (induction ls arbitrary: d) (auto simp: image_iff)

lemma storage_locations_get: "dict_get (storage_locations c) n \<noteq> None \<longleftrightarrow> n \<in> sl_name ` set (so_locations (cf_storage c))"
  unfolding storage_locations_def fold_locations_get by simp

lemma first_row: "(case xs of [] \<Rightarrow> None | r # _ \<Rightarrow> Some r) = Some x \<Longrightarrow> x \<in> set xs"
  by (cases xs) auto

lemma resolve_profile_alias: "resolve_profile isfile c cat a = Inr p \<Longrightarrow> pf_alias p = a"
  by (auto simp: resolve_profile_def resolve_configured_def resolve_installed_def Let_def get_model_def
      dest!: find_SomeD split: option.splits sum.splits if_splits)

lemma synthesize_alias: "synthesize_profile c r = Inr p \<Longrightarrow> pf_alias p = r \<and> pf_engine_model_path p = r"
  by (auto simp: synthesize_profile_def split: option.splits)

text \<open>Of a consistent profile's capabilities the backend projection loses none.\<close>

lemma effective_capabilities_set:
  assumes "profile_ok m" and "mp_capabilities m = Some caps"
  shows "set (effective_backend_capabilities (mp_backend m) caps) = set caps"
proof (cases "mp_backend m = ''llama.cpp''")
  case True
  define gen where "gen = {''chat.completions'', ''completions'', ''responses'', ''messages''}"
  have "caps = [''embeddings''] \<or> caps = [''rerank''] \<or> set caps \<subseteq> gen" and ne: "caps \<noteq> []"
    using assms True by (auto simp: profile_ok_def gen_def)
  moreover have "set (effective_backend_capabilities ''llama.cpp'' caps) = set caps" if s: "set caps \<subseteq> gen"
  proof -
    have "\<forall>c \<in> set caps. dotted_chat c = c" using s by (auto simp: dotted_chat_def gen_def)
    then have n: "map dotted_chat caps = caps" by (simp add: map_idI)
    have "set caps \<noteq> {''embeddings''}" "set caps \<noteq> {''rerank''}" using s by (auto simp: gen_def)
    moreover have "set LLAMA_GENERATION_CAPABILITIES = gen" by (auto simp: LLAMA_GENERATION_CAPABILITIES_def gen_def)
    ultimately show ?thesis using s by (auto simp: effective_backend_capabilities_def n Let_def)
  qed
  moreover have "set (effective_backend_capabilities ''llama.cpp'' [''embeddings'']) = set [''embeddings'']"
    "set (effective_backend_capabilities ''llama.cpp'' [''rerank'']) = set [''rerank'']"
    by (simp_all add: effective_backend_capabilities_def dotted_chat_def Let_def)
  ultimately show ?thesis unfolding True by blast
qed (simp add: effective_backend_capabilities_def)

lemma config_paths_error:
  assumes "profile_ok m" and "config_paths isfile m row = Inl e"
  shows "(\<exists>t. e = ProfileNotReady t) \<and> mp_backend m = ''llama.cpp''"
proof (cases "mp_backend m = ''llama.cpp''")
  case True
  then have "truthy (mp_gguf_filename m)" using assms(1) by (simp add: profile_ok_def split: option.splits)
  then show ?thesis using True assms(2)
    by (auto simp: config_paths_def Let_def split: option.splits if_splits)
qed (use assms(2) in \<open>simp add: config_paths_def\<close>)

section \<open>Properties\<close>

text \<open>
  With an accepted configuration, resolving a configured alias never fails with a lookup or
  value error: it gives a profile with that alias, backend and kind whose endpoint capabilities are
  exactly the configured ones, or, for llama.cpp only, reports that the weights are not ready.
\<close>

theorem accepted_config_resolves:
  assumes "validate_config models c0 = Inr c" and "m \<in> set (cf_models c)"
  shows "case resolve_profile isfile c catalog (mp_alias m) of
           Inl e \<Rightarrow> (\<exists>t. e = ProfileNotReady t) \<and> mp_backend m = ''llama.cpp''
         | Inr p \<Rightarrow> pf_alias p = mp_alias m \<and> pf_backend p = mp_backend m \<and> pf_kind p = mp_kind m
                    \<and> Some (set (pf_capabilities p)) = map_option set (mp_capabilities m)"
proof -
  obtain ms nid where ms: "validate_models models = Inr ms" and c: "c = c0\<lparr>cf_models := ms, cf_fleet_node_id := nid\<rparr>"
    and st: "storage_error (cf_storage c) = None" and cr: "cross_refs c = None"
    using assms(1) by (auto simp: validate_config_def Let_def split: option.splits sum.splits)
  have ok: "profile_ok m" using validate_models_ok [OF ms] assms(2) c by simp
  then obtain caps where caps: "mp_capabilities m = Some caps" by (auto simp: profile_ok_def split: option.splits)
  have f: "find (\<lambda>x. mp_alias x = mp_alias m) (cf_models c) = Some m"
    using cr assms(2) by (intro find_unique) (auto simp: cross_refs_def split: if_splits)
  have "first_error
      [(case mp_storage m of None \<Rightarrow> False | Some n \<Rightarrow> n \<notin> set (map sl_name (so_locations (cf_storage c))),
          ''model references unknown storage''),
       (case mp_image m of None \<Rightarrow> False | Some i \<Rightarrow> ns_image_max_pixels (cf_server c) < im_width i * im_height i,
          ''image defaults exceed server.image_max_pixels'')] = None"
    using cr assms(2) unfolding cross_refs_def or_error_None find_error_None by blast
  then have "mp_storage m = Some n \<Longrightarrow> n \<in> sl_name ` set (so_locations (cf_storage c))" for n
    unfolding option_guards by auto
  moreover have "so_default (cf_storage c) \<in> sl_name ` set (so_locations (cf_storage c))"
    using st by (auto simp: storage_error_def Let_def split: if_splits)
  ultimately have "dict_get (storage_locations c) (case mp_storage m of Some n \<Rightarrow> n | None \<Rightarrow> so_default (cf_storage c)) \<noteq> None"
    unfolding storage_locations_get by (auto split: option.split)
  then obtain path where path:
    "dict_get (storage_locations c) (case mp_storage m of Some n \<Rightarrow> n | None \<Rightarrow> so_default (cf_storage c)) = Some path"
    by blast
  show ?thesis
    using config_paths_error [OF ok, of isfile] effective_capabilities_set [OF ok caps]
    by (simp add: resolve_profile_def f resolve_configured_def Let_def path caps split: sum.splits prod.splits)
qed

theorem accepted_config_resolves_witness:
  "\<exists>p. resolve_profile (\<lambda>_. False) demo_accepted None ''m'' = Inr p \<and> pf_backend p = ''vllm''
     \<and> set (pf_capabilities p) = {''chat.completions'', ''completions'', ''embeddings'', ''responses''}"
proof -
  let ?m = "demo_profile\<lparr>mp_capabilities := Some [''chat.completions'', ''completions'', ''embeddings'', ''responses'']\<rparr>"
  have "?m \<in> set (cf_models demo_accepted)" by (simp add: demo_accepted_def)
  from accepted_config_resolves [OF demo_accepted this, of "\<lambda>_. False" None] show ?thesis
    by (simp add: demo_profile_def split: sum.splits)
qed

lemma ui_install_row_for_aliasD:
  assumes "ui_install_row_for_alias rows requested = Some r"
  shows "r \<in> set rows \<and> rw_source r = ''ui_install'' \<and> ascii_lower (rw_alias r) = ascii_lower requested"
proof -
  have "x \<in> set rows \<and> ascii_lower (rw_alias x) = ascii_lower requested"
    if "get_model_case_insensitive rows requested = Some x" for x
    using that unfolding get_model_case_insensitive_def Let_def by - (drule first_row, auto)
  with assms show ?thesis
    by (auto simp: ui_install_row_for_alias_def get_model_def split: option.splits if_splits dest!: find_SomeD)
qed

lemma set_ui_install_rows_for_hf_id:
  "set (ui_install_rows_for_hf_id rows requested)
     = {r \<in> set rows. rw_source r = ''ui_install'' \<and> ascii_lower (rw_hf_model_id r) = ascii_lower requested}"
  by (auto simp: ui_install_rows_for_hf_id_def lookup_by_hf_id_case_insensitive_def)

lemma no_legacy_alias: "legacy_alias_for MODEL_ALIASES requested = None"
  by (simp add: legacy_alias_for_def MODEL_ALIASES_def dict_has_def)

text \<open>The last tier: a repository identifier among the installed rows, or the raw name itself.\<close>

lemma resolve_untitled:
  assumes "resolve_request_model MODEL_ALIASES isfile isdir c rows requested = Inr p"
    and "config_alias_for c requested = None" and "ui_install_row_for_alias rows requested = None"
  shows "(\<exists>r \<in> set (ui_install_rows_for_hf_id rows requested). rw_status r = ''installed'' \<and> rw_alias r = pf_alias p)
    \<or> synthesize_profile c requested = Inr p
       \<and> (rx_match RAW_HF_ID_RE requested \<or> py_startswith requested ''/'' \<and> isdir requested)
       \<and> (rx_match RAW_HF_ID_RE requested \<longrightarrow> ui_install_rows_for_hf_id rows requested = [])"
proof (cases "\<exists>r. rx_match RAW_HF_ID_RE requested
    \<and> find (\<lambda>r. rw_status r = ''installed'') (ui_install_rows_for_hf_id rows requested) = Some r")
  case True
  then obtain r where r: "find (\<lambda>r. rw_status r = ''installed'') (ui_install_rows_for_hf_id rows requested) = Some r"
    and hf: "rx_match RAW_HF_ID_RE requested" by blast
  then have "resolve_profile isfile c (Some rows) (rw_alias r) = Inr p"
    using assms by (simp add: resolve_request_model_def no_legacy_alias Let_def)
  with find_SomeD [OF r] resolve_profile_alias show ?thesis by fastforce
next
  case False
  with assms show ?thesis
    by (auto simp: resolve_request_model_def no_legacy_alias Let_def split: option.splits if_splits)
qed

text \<open>
  What a request name may resolve to: a configured alias equal up to case, an installed
  user-installed row whose alias or repository identifier equals it up to case, or the raw name
  itself as engine target. The last happens only for a repository identifier or an existing
  directory, and only when no configured alias and no user-installed row is meant by it.
\<close>

theorem request_resolution_sound:
  assumes "resolve_request_model MODEL_ALIASES isfile isdir c rows requested = Inr p"
  shows "(\<exists>m \<in> set (cf_models c). mp_alias m = pf_alias p \<and> py_casefold (mp_alias m) = py_casefold requested)
    \<or> (\<exists>r \<in> set rows. rw_alias r = pf_alias p \<and> rw_source r = ''ui_install'' \<and> rw_status r = ''installed''
         \<and> ascii_lower requested \<in> {ascii_lower (rw_alias r), ascii_lower (rw_hf_model_id r)})
    \<or> (pf_alias p = requested \<and> pf_engine_model_path p = requested
         \<and> (rx_match RAW_HF_ID_RE requested \<or> py_startswith requested ''/'' \<and> isdir requested)
         \<and> (\<forall>m \<in> set (cf_models c). py_casefold (mp_alias m) \<noteq> py_casefold requested)
         \<and> (rx_match RAW_HF_ID_RE requested \<longrightarrow>
              (\<forall>r \<in> set rows. rw_source r = ''ui_install'' \<longrightarrow> ascii_lower (rw_hf_model_id r) \<noteq> ascii_lower requested)))"
    (is "?config \<or> ?row \<or> ?raw")
proof (cases "config_alias_for c requested")
  case (Some a)
  then have "resolve_profile isfile c (Some rows) a = Inr p"
    using assms by (auto simp: resolve_request_model_def not_ready_conflict_def Let_def split: sum.splits resolve_error.splits)
  then have "pf_alias p = a" by (rule resolve_profile_alias)
  moreover have "\<exists>m \<in> set (cf_models c). mp_alias m = a \<and> py_casefold a = py_casefold requested"
    using Some by (auto simp: config_alias_for_def split: option.splits dest!: find_SomeD)
  ultimately show ?thesis by auto
next
  case none: None
  have nc: "\<forall>m \<in> set (cf_models c). py_casefold (mp_alias m) \<noteq> py_casefold requested"
    using none by (auto simp: config_alias_for_def split: option.splits dest: find_NoneD)
  show ?thesis
  proof (cases "ui_install_row_for_alias rows requested")
    case (Some r)
    then have "rw_status r = ''installed''" and "resolve_profile isfile c (Some rows) (rw_alias r) = Inr p"
      using assms none by (auto simp: resolve_request_model_def Let_def split: if_splits)
    with ui_install_row_for_aliasD [OF Some] resolve_profile_alias show ?thesis by fastforce
  next
    case None
    from resolve_untitled [OF assms none None] show ?thesis
    proof
      assume "\<exists>r \<in> set (ui_install_rows_for_hf_id rows requested). rw_status r = ''installed'' \<and> rw_alias r = pf_alias p"
      then show ?thesis using set_ui_install_rows_for_hf_id [of rows requested] by fastforce
    next
      assume raw: "synthesize_profile c requested = Inr p
         \<and> (rx_match RAW_HF_ID_RE requested \<or> py_startswith requested ''/'' \<and> isdir requested)
         \<and> (rx_match RAW_HF_ID_RE requested \<longrightarrow> ui_install_rows_for_hf_id rows requested = [])"
      then have "rx_match RAW_HF_ID_RE requested \<longrightarrow>
          (\<forall>r \<in> set rows. rw_source r = ''ui_install'' \<longrightarrow> ascii_lower (rw_hf_model_id r) \<noteq> ascii_lower requested)"
        using set_ui_install_rows_for_hf_id [of rows requested] by auto
      with raw synthesize_alias [of c requested p] nc show ?thesis by blast
    qed
  qed
qed

theorem request_resolution_sound_witness:
  "\<exists>p. resolve_request_model MODEL_ALIASES (\<lambda>_. False) (\<lambda>_. False) demo_accepted [] ''Org/Repo'' = Inr p
     \<and> pf_alias p = ''Org/Repo''"
proof -
  have "\<not> isl (resolve_request_model MODEL_ALIASES (\<lambda>_. False) (\<lambda>_. False) demo_accepted [] ''Org/Repo'')"
    by code_simp
  then have "\<exists>p. resolve_request_model MODEL_ALIASES (\<lambda>_. False) (\<lambda>_. False) demo_accepted [] ''Org/Repo'' = Inr p"
    by (metis isl_def obj_sumE)
  then obtain p where p: "resolve_request_model MODEL_ALIASES (\<lambda>_. False) (\<lambda>_. False) demo_accepted [] ''Org/Repo'' = Inr p" ..
  have "\<forall>m \<in> set (cf_models demo_accepted). py_casefold (mp_alias m) \<noteq> py_casefold ''Org/Repo''" by code_simp
  with p request_resolution_sound [OF p] show ?thesis by auto
qed

end
