(* ===== verification/Fleet_Schema.thy ===== *)
theory Fleet_Schema
  imports Json_Canonical Py_Regex
begin

text \<open>
  The wire schema of the fleet protocol, \<open>fleet/src/mnemosyne_fleet/schemas/snapshot.schema.json\<close>:
  one predicate on JSON values for each keyword that the document uses, with the meaning that JSON
  Schema's draft 2020-12 gives it, and one definition for each entry of its \<open>$defs\<close>. A keyword says
  nothing about values of a type it does not apply to. A pattern is searched for, not matched against
  the whole string, so that \<open>$\<close> admits a final line feed and \<open>.\<close> stops at one; a float without
  fraction is an integer; \<open>NaN\<close> passes every bound. \<open>s_unique\<close> stands on arrays of strings only.
\<close>

section \<open>Keywords\<close>

type_synonym schema = "json \<Rightarrow> bool"

definition s_all :: "schema list \<Rightarrow> schema" where
  "s_all ss j = list_all (\<lambda>s. s j) ss"

definition s_any :: "schema list \<Rightarrow> schema" where
  "s_any ss j = list_ex (\<lambda>s. s j) ss"

definition s_string :: schema where
  "s_string j = (case j of JStr _ \<Rightarrow> True | _ \<Rightarrow> False)"

definition s_null :: schema where
  "s_null j = (j = JNull)"

definition s_boolean :: schema where
  "s_boolean j = (case j of JBool _ \<Rightarrow> True | _ \<Rightarrow> False)"

definition s_integer :: schema where
  "s_integer j = (case j of JInt _ \<Rightarrow> True | JFloat (Fin r) \<Rightarrow> r = of_int \<lfloor>r\<rfloor> | _ \<Rightarrow> False)"

definition s_number :: schema where
  "s_number j = (case j of JInt _ \<Rightarrow> True | JFloat _ \<Rightarrow> True | _ \<Rightarrow> False)"

definition s_enum :: "string list \<Rightarrow> schema" where
  "s_enum names j = (case j of JStr s \<Rightarrow> s \<in> set names | _ \<Rightarrow> False)"

definition s_one :: schema where
  "s_one j = (case j of JInt i \<Rightarrow> i = 1 | JFloat (Fin r) \<Rightarrow> r = 1 | _ \<Rightarrow> False)"

definition s_minimum :: "int \<Rightarrow> schema" where
  "s_minimum lo j = (case j of JInt i \<Rightarrow> lo \<le> i | JFloat (Fin r) \<Rightarrow> of_int lo \<le> r | JFloat NInf \<Rightarrow> False | _ \<Rightarrow> True)"

definition s_maximum :: "int \<Rightarrow> schema" where
  "s_maximum hi j = (case j of JInt i \<Rightarrow> i \<le> hi | JFloat (Fin r) \<Rightarrow> r \<le> of_int hi | JFloat PInf \<Rightarrow> False | _ \<Rightarrow> True)"

definition s_min_length :: "nat \<Rightarrow> schema" where
  "s_min_length n j = (case j of JStr s \<Rightarrow> n \<le> length s | _ \<Rightarrow> True)"

definition s_max_length :: "nat \<Rightarrow> schema" where
  "s_max_length n j = (case j of JStr s \<Rightarrow> length s \<le> n | _ \<Rightarrow> True)"

definition s_pattern :: "(string \<Rightarrow> bool) \<Rightarrow> schema" where
  "s_pattern p j = (case j of JStr s \<Rightarrow> p s | _ \<Rightarrow> True)"

definition s_items :: "schema \<Rightarrow> schema" where
  "s_items s j = (case j of JArr xs \<Rightarrow> list_all s xs | _ \<Rightarrow> True)"

definition s_min_items :: "nat \<Rightarrow> schema" where
  "s_min_items n j = (case j of JArr xs \<Rightarrow> n \<le> length xs | _ \<Rightarrow> True)"

definition s_max_items :: "nat \<Rightarrow> schema" where
  "s_max_items n j = (case j of JArr xs \<Rightarrow> length xs \<le> n | _ \<Rightarrow> True)"

definition s_unique :: schema where
  "s_unique j = (case j of JArr xs \<Rightarrow> distinct xs | _ \<Rightarrow> True)"

definition s_array :: schema where
  "s_array j = (case j of JArr _ \<Rightarrow> True | _ \<Rightarrow> False)"

definition s_property :: "string \<Rightarrow> schema \<Rightarrow> schema" where
  "s_property k s j = (case j of JObj kvs \<Rightarrow> (case dict_get kvs k of None \<Rightarrow> True | Some v \<Rightarrow> s v) | _ \<Rightarrow> True)"

definition s_requires :: "string \<Rightarrow> schema" where
  "s_requires k j = (case j of JObj kvs \<Rightarrow> dict_get kvs k \<noteq> None | _ \<Rightarrow> True)"

text \<open>\<open>"type": "object"\<close> with \<open>additionalProperties\<close> false and every property required.\<close>

definition s_object :: "(string \<times> schema) list \<Rightarrow> schema" where
  "s_object fs j =
     (case j of
        JObj kvs \<Rightarrow> list_all (\<lambda>kv. fst kv \<in> set (map fst fs)) kvs
          \<and> list_all (\<lambda>f. case dict_get kvs (fst f) of None \<Rightarrow> False | Some v \<Rightarrow> snd f v) fs
      | _ \<Rightarrow> False)"

definition s_text :: "nat \<Rightarrow> nat \<Rightarrow> schema" where
  "s_text lo hi = s_all [s_string, s_min_length lo, s_max_length hi]"

definition s_int :: "int \<Rightarrow> int \<Rightarrow> schema" where
  "s_int lo hi = s_all [s_integer, s_minimum lo, s_maximum hi]"

definition s_opt_text :: "schema list \<Rightarrow> schema" where
  "s_opt_text ss = s_all (s_any [s_string, s_null] # ss)"

section \<open>Patterns\<close>

definition lower_hex :: "char \<Rightarrow> bool" where
  "lower_hex c = (let n = (of_char c :: nat) in (48 \<le> n \<and> n \<le> 57) \<or> (97 \<le> n \<and> n \<le> 102))"

definition code_char :: "char \<Rightarrow> bool" where
  "code_char c =
     (let n = (of_char c :: nat) in (97 \<le> n \<and> n \<le> 122) \<or> (48 \<le> n \<and> n \<le> 57) \<or> n = 95)"

text \<open>\<open>^[cls]{lo,hi}$\<close> for a class without the line feed.\<close>

definition class_pattern :: "nat \<Rightarrow> nat \<Rightarrow> (char \<Rightarrow> bool) \<Rightarrow> string \<Rightarrow> bool" where
  "class_pattern lo hi cls s =
     (let n = length (takeWhile cls s) in lo \<le> n \<and> n \<le> hi \<and> at_end (drop n s))"

definition sha256_pattern :: "string \<Rightarrow> bool" where
  "sha256_pattern s = (py_startswith s ''sha256:'' \<and> class_pattern 64 64 lower_hex (drop 7 s))"

fun has_pair :: "char \<Rightarrow> string \<Rightarrow> bool" where
  "has_pair c (a # b # s) = (a = c \<and> b = c \<or> has_pair c (b # s))"
| "has_pair c _ = False"

text \<open>
  \<open>^(?!/)(?!.*\\)(?!.*//)(?!.*(?:^|/)\.{1,2}(?:/|$))(?!.*\/$).+\<close>: all of it concerns the first line; its
  end is the end for \<open>$\<close> only when nothing but a final line feed follows.
\<close>

definition selected_file_pattern :: "string \<Rightarrow> bool" where
  "selected_file_pattern s =
     (let line = takeWhile (\<lambda>c. c \<noteq> CHR 0x0A) s; ends = at_end (drop (length line) s);
          segments = py_split (CHR ''/'') line
      in line \<noteq> [] \<and> \<not> py_startswith line ''/'' \<and> CHR 0x5C \<notin> set line \<and> \<not> has_pair (CHR ''/'') line
         \<and> list_all (\<lambda>seg. seg \<noteq> ''.'' \<and> seg \<noteq> ''..'') (if ends then segments else butlast segments)
         \<and> (ends \<longrightarrow> last line \<noteq> CHR ''/''))"

definition ascii_letter :: "char \<Rightarrow> bool" where
  "ascii_letter c = (let n = (of_char c :: nat) in (65 \<le> n \<and> n \<le> 90) \<or> (97 \<le> n \<and> n \<le> 122))"

text \<open>\<open>^(?!/)(?![A-Za-z]:\\).+\<close>.\<close>

definition upstream_pattern :: "string \<Rightarrow> bool" where
  "upstream_pattern s =
     (\<not> py_startswith s ''/''
      \<and> (case s of c # d # e # _ \<Rightarrow> \<not> (ascii_letter c \<and> d = CHR '':'' \<and> e = CHR 0x5C) | _ \<Rightarrow> True)
      \<and> (case s of [] \<Rightarrow> False | c # _ \<Rightarrow> c \<noteq> CHR 0x0A))"

section \<open>The document\<close>

definition sha256_schema :: schema where
  "sha256_schema = s_all [s_string, s_pattern sha256_pattern]"

definition optional_sha256_schema :: schema where
  "optional_sha256_schema = s_any [sha256_schema, s_null]"

definition capability_schema :: schema where
  "capability_schema = s_enum [''chat/completions'', ''completions'', ''embeddings'', ''images/generations'',
     ''messages'', ''rerank'', ''responses'']"

definition diagnostic_code_schema :: schema where
  "diagnostic_code_schema = s_opt_text [s_pattern (class_pattern 1 64 code_char)]"

definition node_schema :: schema where
  "node_schema = s_object
     [(''node_id'', s_text 1 128), (''instance_id'', s_text 1 128),
      (''platform'', s_enum [''cuda'', ''macos'']), (''version'', s_text 1 64)]"

definition health_schema :: schema where
  "health_schema = s_object
     [(''state'', s_enum [''idle'', ''draining'', ''unloading'', ''loading'', ''verifying'', ''ready'', ''degraded'', ''stopping'']),
      (''accepting'', s_boolean), (''authoritative'', s_boolean), (''diagnostic_code'', diagnostic_code_schema)]"

definition residency_schema :: schema where
  "residency_schema = s_object
     [(''alias'', s_opt_text [s_min_length 1, s_max_length 128]),
      (''deployment_id'', optional_sha256_schema),
      (''engine'', s_opt_text [s_min_length 1, s_max_length 64]),
      (''epoch'', s_all [s_integer, s_minimum 0]),
      (''transition_target'', optional_sha256_schema)]"

definition queued_by_deployment_schema :: schema where
  "queued_by_deployment_schema j =
     (case j of
        JObj kvs \<Rightarrow> length kvs \<le> 10000
          \<and> list_all (\<lambda>kv. sha256_pattern (fst kv) \<and> s_int 1 1000000 (snd kv)) kvs
      | _ \<Rightarrow> False)"

definition admission_schema :: schema where
  "admission_schema = s_object
     [(''queue_depth'', s_int 0 1000000), (''queue_limit'', s_int 1 1000000),
      (''queued_by_deployment'', queued_by_deployment_schema)]"

definition capacity_schema :: schema where
  "capacity_schema = s_object
     [(''derived_limit'', s_int 1 100000),
      (''configured_max_concurrency'', s_all [s_any [s_integer, s_null], s_minimum 1, s_maximum 100000]),
      (''effective_limit'', s_int 1 100000), (''active'', s_int 0 1000000),
      (''queued'', s_int 0 1000000), (''available'', s_int 0 100000),
      (''source'', s_text 1 96),
      (''confidence'', s_enum [''authoritative'', ''configured'', ''derived'', ''conservative'']),
      (''saturation'', s_all [s_number, s_minimum 0])]"

definition artifact_schema :: schema where
  "artifact_schema = s_object
     [(''format'', s_text 1 64),
      (''selected_files'', s_all [s_array, s_max_items 128, s_unique,
         s_items (s_all [s_text 1 512, s_pattern selected_file_pattern])]),
      (''quantization'', s_opt_text [s_max_length 128]),
      (''content_digest'', optional_sha256_schema)]"

definition deployment_identity_schema :: schema where
  "deployment_identity_schema = s_object
     [(''protocol'', s_one), (''engine'', s_text 1 64),
      (''upstream_model'', s_all [s_text 1 512, s_pattern upstream_pattern]),
      (''resolved_revision'', s_opt_text [s_max_length 256]),
      (''artifact'', artifact_schema), (''kind'', s_text 1 64),
      (''capabilities'', s_all [s_array, s_min_items 1, s_max_items 7, s_unique, s_items capability_schema]),
      (''load_config_digest'', sha256_schema)]"

text \<open>The conditional clause: an eligible deployment is authoritative and immutably identified.\<close>

definition eligible_schema :: schema where
  "eligible_schema j =
     (s_property ''fleet_eligible'' (\<lambda>v. v = JBool True) j \<and> s_requires ''fleet_eligible'' j \<longrightarrow>
        s_property ''identity_confidence'' (s_enum [''authoritative'']) j
        \<and> s_property ''identity''
            (s_any
              [s_all [s_property ''resolved_revision'' (s_all [s_string, s_pattern (class_pattern 40 64 lower_hex)]),
                      s_requires ''resolved_revision''],
               s_all [s_property ''artifact'' (s_all [s_property ''content_digest'' sha256_schema, s_requires ''content_digest'']),
                      s_requires ''artifact'']]) j)"

definition deployment_schema :: schema where
  "deployment_schema = s_all
     [s_object
        [(''alias'', s_text 1 128), (''deployment_id'', sha256_schema),
         (''identity'', deployment_identity_schema),
         (''identity_confidence'', s_enum [''authoritative'', ''unverified'']),
         (''fleet_eligible'', s_boolean), (''loadable'', s_boolean), (''warm'', s_boolean),
         (''capacity'', capacity_schema)],
      eligible_schema]"

definition usage_delivery_schema :: schema where
  "usage_delivery_schema = s_object
     [(''enabled'', s_boolean), (''writer_ready'', s_boolean), (''outbox_pending'', s_int 0 100000000),
      (''last_flush_at'', s_all [s_any [s_number, s_null], s_minimum 0]),
      (''last_error_code'', diagnostic_code_schema)]"

definition snapshot_schema :: schema where
  "snapshot_schema = s_object
     [(''schema_version'', s_one), (''snapshot_sequence'', s_all [s_integer, s_minimum 0]),
      (''observed_at'', s_all [s_number, s_minimum 0]), (''node'', node_schema), (''health'', health_schema),
      (''residency'', residency_schema), (''admission'', admission_schema), (''capacity'', capacity_schema),
      (''deployments'', s_all [s_array, s_max_items 10000, s_items deployment_schema]),
      (''usage_delivery'', usage_delivery_schema)]"

section \<open>Lemmas\<close>

named_theorems schema_simps

lemmas [schema_simps] = s_all_def s_any_def s_string_def s_null_def s_boolean_def s_integer_def s_number_def
  s_array_def s_enum_def s_one_def s_minimum_def s_maximum_def s_min_length_def s_max_length_def s_pattern_def s_items_def
  s_min_items_def s_max_items_def s_unique_def s_property_def s_requires_def s_text_def s_int_def
  s_opt_text_def

lemma s_object_JObj [schema_simps]:
  "s_object fs (JObj kvs) \<longleftrightarrow> fst ` set kvs \<subseteq> fst ` set fs
     \<and> (\<forall>f \<in> set fs. \<exists>v. dict_get kvs (fst f) = Some v \<and> snd f v)"
  by (force simp: s_object_def list_all_iff split: option.splits)

lemma not_newline: "lower_hex c \<Longrightarrow> c \<noteq> CHR 0x0A" "code_char c \<Longrightarrow> c \<noteq> CHR 0x0A"
  by (auto simp: lower_hex_def code_char_def Let_def)

lemma class_pattern_all: "list_all cls s \<Longrightarrow> lo \<le> length s \<Longrightarrow> length s \<le> hi \<Longrightarrow> class_pattern lo hi cls s"
  by (simp add: class_pattern_def list_all_iff takeWhile_eq_all_conv [THEN iffD2] at_end_def)

lemma sha256_pattern_hex: "list_all lower_hex h \<Longrightarrow> length h = 64 \<Longrightarrow> sha256_pattern (''sha256:'' @ h)"
  by (simp add: sha256_pattern_def py_startswith_def class_pattern_all)

lemma has_pair_split: "has_pair c s \<Longrightarrow> [] \<in> set (tl (py_split c s))"
proof (induction c s rule: has_pair.induct)
  case (1 c a b s)
  show ?case
  proof (cases "has_pair c (b # s)")
    case True
    then have "[] \<in> set (tl (py_split c (b # s)))" by (rule 1(1))
    moreover obtain seg segs where "py_split c (b # s) = seg # segs"
      using py_split_nonempty by (metis list.exhaust)
    ultimately show ?thesis by (simp only: py_split.simps(2) [of c a "b # s"]) simp
  next
    case False
    then show ?thesis using 1(2) by auto
  qed
qed auto

lemma py_split_single: "py_split c s = [[]] \<longleftrightarrow> s = []"
  by (cases s) (use py_split_nonempty in \<open>auto split: list.splits\<close>)

lemma split_last_empty: "s \<noteq> [] \<Longrightarrow> last s = c \<Longrightarrow> last (py_split c s) = []"
proof (induction s)
  case (Cons a s)
  then show ?case
    using py_split_nonempty [of c s] py_split_single [of c s] by (cases "s = []") (auto split: list.splits if_splits)
qed simp

lemma safe_selected:
  assumes "s \<noteq> []" and "CHR 0x0A \<notin> set s" and "\<not> py_startswith s ''/''" and "CHR 0x5C \<notin> set s"
    and "list_all (\<lambda>seg. seg \<notin> {'''', ''.'', ''..''}) (py_split (CHR ''/'') s)"
  shows "selected_file_pattern s"
proof -
  have line: "takeWhile (\<lambda>c. c \<noteq> CHR 0x0A) s = s" using assms(2) by (auto simp: takeWhile_eq_all_conv)
  have segs: "[] \<notin> set (py_split (CHR ''/'') s)" using assms(5) by (auto simp: list_all_iff)
  then have "\<not> has_pair (CHR ''/'') s"
    using has_pair_split [of "CHR ''/''" s] by (metis list.set_sel(2) py_split_nonempty)
  moreover have "last s \<noteq> CHR ''/''"
    using split_last_empty [OF assms(1), of "CHR ''/''"] segs last_in_set [OF py_split_nonempty, of "CHR ''/''" s] by metis
  ultimately show ?thesis using assms by (simp add: selected_file_pattern_def line at_end_def list_all_iff)
qed

end
