(* ===== verification/Fleet_Protocol.thy ===== *)
theory Fleet_Protocol
  imports Fleet_Schema
begin

text \<open>
  The gateway's side of the fleet protocol, \<open>fleet/src/mnemosyne_fleet/protocol.py\<close>: the snapshot a
  node publishes, as records with the fields of the pydantic models, and the validators in the
  order in which they run. A validator returns \<open>None\<close> when it accepts and the message of the
  \<open>ValueError\<close> it raises otherwise. The document's shape is checked by \<open>snapshot_schema\<close> first;
  pydantic's decoding of a document into typed fields and the SHA-256 digest are parameters.
\<close>

section \<open>Data\<close>

record node_descriptor =
  nd_node_id :: string
  nd_instance_id :: string
  nd_platform :: string
  nd_version :: string

record health =
  h_state :: string
  h_accepting :: bool
  h_authoritative :: bool
  h_diagnostic_code :: "string option"

record residency =
  rs_alias :: "string option"
  rs_deployment_id :: "string option"
  rs_engine :: "string option"
  rs_epoch :: int
  rs_transition_target :: "string option"

record capacity =
  cp_derived_limit :: int
  cp_configured_max_concurrency :: "int option"
  cp_effective_limit :: int
  cp_active :: int
  cp_queued :: int
  cp_available :: int
  cp_source :: string
  cp_confidence :: string
  cp_saturation :: rat

record admission =
  ad_queue_depth :: int
  ad_queue_limit :: int
  ad_queued_by_deployment :: "(string, int) dict"

record artifact =
  ar_format :: string
  ar_selected_files :: "string list"
  ar_quantization :: "string option"
  ar_content_digest :: "string option"

record deployment_identity =
  di_protocol :: int
  di_engine :: string
  di_upstream_model :: string
  di_resolved_revision :: "string option"
  di_artifact :: artifact
  di_kind :: string
  di_capabilities :: "string list"
  di_load_config_digest :: string

record fleet_deployment =
  dp_alias :: string
  dp_deployment_id :: string
  dp_identity :: deployment_identity
  dp_identity_confidence :: string
  dp_fleet_eligible :: bool
  dp_loadable :: bool
  dp_warm :: bool
  dp_capacity :: capacity

record usage_delivery =
  ud_enabled :: bool
  ud_writer_ready :: bool
  ud_outbox_pending :: int
  ud_last_flush_at :: "rat option"
  ud_last_error_code :: "string option"

record snapshot =
  sn_schema_version :: int
  sn_snapshot_sequence :: int
  sn_observed_at :: rat
  sn_node :: node_descriptor
  sn_health :: health
  sn_residency :: residency
  sn_admission :: admission
  sn_capacity :: capacity
  sn_deployments :: "fleet_deployment list"
  sn_usage_delivery :: usage_delivery

definition CAPABILITIES :: "string list" where
  "CAPABILITIES =
     [''chat/completions'', ''completions'', ''responses'', ''messages'', ''embeddings'', ''rerank'',
      ''images/generations'']"

section \<open>Field constraints\<close>

text \<open>The constraint messages are pydantic's; only which field fails first is recorded here.\<close>

definition str_len :: "nat \<Rightarrow> nat \<Rightarrow> string \<Rightarrow> bool" where
  "str_len lo hi s = (lo \<le> length s \<and> length s \<le> hi)"

definition opt_all :: "('a \<Rightarrow> bool) \<Rightarrow> 'a option \<Rightarrow> bool" where
  "opt_all P x = (case x of None \<Rightarrow> True | Some v \<Rightarrow> P v)"

definition int_between :: "int \<Rightarrow> int \<Rightarrow> int \<Rightarrow> bool" where
  "int_between lo hi n = (lo \<le> n \<and> n \<le> hi)"

text \<open>The pattern \<open>^[a-z0-9_]{1,64}$\<close> of diagnostic and error codes.\<close>

definition code_pattern :: "string \<Rightarrow> bool" where
  "code_pattern s = (1 \<le> length s \<and> length s \<le> 64 \<and> list_all code_char s)"


definition node_descriptor_error :: "node_descriptor \<Rightarrow> string option" where
  "node_descriptor_error d = first_error
     [(\<not> str_len 1 128 (nd_node_id d), ''node_id''),
      (\<not> str_len 1 128 (nd_instance_id d), ''instance_id''),
      (nd_platform d \<noteq> ''cuda'' \<and> nd_platform d \<noteq> ''macos'', ''platform''),
      (\<not> str_len 1 64 (nd_version d), ''version'')]"

definition health_error :: "health \<Rightarrow> string option" where
  "health_error h = first_error
     [(h_state h \<notin> set [''idle'', ''draining'', ''unloading'', ''loading'', ''verifying'', ''ready'',
                       ''degraded'', ''stopping''], ''state''),
      (\<not> opt_all code_pattern (h_diagnostic_code h), ''diagnostic_code'')]"

definition validate_sha256 :: "string \<Rightarrow> string option" where
  "validate_sha256 v = first_error
     [(\<not> py_startswith v ''sha256:'' \<or> length v \<noteq> 71 \<or> v \<noteq> py_lower v,
       ''value must be lowercase sha256''),
      (py_int16 (drop 7 v) = None, ''value must contain hex'')]"

definition validate_optional_digest :: "string option \<Rightarrow> string option" where
  "validate_optional_digest x =
     (case x of
        None \<Rightarrow> None
      | Some v \<Rightarrow> first_error
          [(\<not> py_startswith v ''sha256:'' \<or> length v \<noteq> 71 \<or> v \<noteq> py_lower v,
            ''deployment reference must be lowercase sha256''),
           (py_int16 (drop 7 v) = None, ''deployment reference must contain hex'')])"

definition residency_error :: "residency \<Rightarrow> string option" where
  "residency_error r = or_error
     (first_error
       [(\<not> opt_all (str_len 1 128) (rs_alias r), ''alias''),
        (\<not> opt_all (str_len 0 71) (rs_deployment_id r), ''deployment_id''),
        (\<not> opt_all (str_len 1 64) (rs_engine r), ''engine''),
        (rs_epoch r < 0, ''epoch''),
        (\<not> opt_all (str_len 0 71) (rs_transition_target r), ''transition_target'')])
     (or_error (validate_optional_digest (rs_deployment_id r))
               (validate_optional_digest (rs_transition_target r)))"

section \<open>Capacity and admission\<close>

definition capacity_fields_error :: "capacity \<Rightarrow> string option" where
  "capacity_fields_error c = first_error
     [(\<not> int_between 1 100000 (cp_derived_limit c), ''derived_limit''),
      (\<not> opt_all (int_between 1 100000) (cp_configured_max_concurrency c),
        ''configured_max_concurrency''),
      (\<not> int_between 1 100000 (cp_effective_limit c), ''effective_limit''),
      (\<not> int_between 0 1000000 (cp_active c), ''active''),
      (\<not> int_between 0 1000000 (cp_queued c), ''queued''),
      (\<not> int_between 0 100000 (cp_available c), ''available''),
      (\<not> str_len 1 96 (cp_source c), ''source''),
      (cp_confidence c \<notin> set [''authoritative'', ''configured'', ''derived'', ''conservative''],
        ''confidence''),
      (cp_saturation c < 0, ''saturation'')]"

definition capacity_is_consistent :: "capacity \<Rightarrow> string option" where
  "capacity_is_consistent c =
     (let expected = (case cp_configured_max_concurrency c of
                        None \<Rightarrow> cp_derived_limit c
                      | Some m \<Rightarrow> min (cp_derived_limit c) m);
          arithmetic_available = max 0 (cp_effective_limit c - cp_active c)
      in first_error
           [(cp_effective_limit c \<noteq> expected, ''effective_limit is inconsistent''),
            (cp_available c \<notin> {0, arithmetic_available}, ''available is inconsistent''),
            (\<not> py_isclose (cp_saturation c)
                 (fl (of_int (cp_active c) / of_int (cp_effective_limit c))) (fl (1 / 1000000)),
              ''saturation is inconsistent'')])"

definition capacity_error :: "capacity \<Rightarrow> string option" where
  "capacity_error c = or_error (capacity_fields_error c) (capacity_is_consistent c)"

definition queued_entry_error :: "string \<times> int \<Rightarrow> string option" where
  "queued_entry_error e = first_error
     [(length (fst e) \<noteq> 71 \<or> \<not> py_startswith (fst e) ''sha256:'' \<or> fst e \<noteq> py_lower (fst e)
         \<or> snd e < 1 \<or> 1000000 < snd e, ''invalid per-deployment queue entry''),
      (py_int16 (drop 7 (fst e)) = None, ''invalid per-deployment queue entry'')]"

definition admission_is_consistent :: "admission \<Rightarrow> string option" where
  "admission_is_consistent a = first_error
     [(ad_queue_depth a \<noteq> sum_list (map snd (ad_queued_by_deployment a)),
        ''queue_depth must equal queued_by_deployment''),
      (ad_queue_limit a < ad_queue_depth a, ''queue_depth exceeds queue_limit'')]"

definition admission_error :: "admission \<Rightarrow> string option" where
  "admission_error a = or_error
     (first_error
       [(\<not> int_between 0 1000000 (ad_queue_depth a), ''queue_depth''),
        (\<not> int_between 1 1000000 (ad_queue_limit a), ''queue_limit''),
        (10000 < length (ad_queued_by_deployment a), ''queued_by_deployment'')])
     (or_error (find_error queued_entry_error (ad_queued_by_deployment a))
               (admission_is_consistent a))"

section \<open>Deployments\<close>

definition safe_path :: "string \<Rightarrow> bool" where
  "safe_path item =
     (item \<noteq> [] \<and> length item \<le> 512 \<and> \<not> py_startswith item ''/'' \<and> CHR 0x5C \<notin> set item
      \<and> list_all (\<lambda>seg. seg \<notin> {'''', ''.'', ''..''}) (py_split (CHR ''/'') item))"

definition validate_selected_files :: "string list \<Rightarrow> string option" where
  "validate_selected_files v = or_error
     (first_error [(py_sorted_set v \<noteq> v, ''selected_files must be sorted and unique'')])
     (find_error (\<lambda>item. if safe_path item then None
                         else Some ''selected_files must contain safe relative paths'') v)"

definition artifact_error :: "artifact \<Rightarrow> string option" where
  "artifact_error a = or_error
     (first_error
       [(\<not> str_len 1 64 (ar_format a), ''format''),
        (128 < length (ar_selected_files a), ''selected_files''),
        (\<not> opt_all (str_len 0 128) (ar_quantization a), ''quantization'')])
     (or_error (validate_selected_files (ar_selected_files a))
               (case ar_content_digest a of None \<Rightarrow> None | Some v \<Rightarrow> validate_sha256 v))"

definition absolute_path :: "string \<Rightarrow> bool" where
  "absolute_path v =
     (py_startswith v ''/''
      \<or> (3 \<le> length v \<and> py_isalpha (v ! 0) \<and> take 2 (drop 1 v) = [CHR '':'', CHR 0x5C]))"

definition identity_error :: "deployment_identity \<Rightarrow> string option" where
  "identity_error i = or_error
     (first_error
       [(di_protocol i \<noteq> 1, ''protocol''),
        (\<not> str_len 1 64 (di_engine i), ''engine''),
        (\<not> str_len 1 512 (di_upstream_model i), ''upstream_model''),
        (absolute_path (di_upstream_model i), ''upstream_model must not be an absolute path''),
        (\<not> opt_all (str_len 0 256) (di_resolved_revision i), ''resolved_revision'')])
     (or_error (artifact_error (di_artifact i))
       (or_error
         (first_error
           [(\<not> str_len 1 64 (di_kind i), ''kind''),
            (di_capabilities i = [], ''capabilities''),
            (py_sorted_set (di_capabilities i) \<noteq> di_capabilities i
               \<or> \<not> set (di_capabilities i) \<subseteq> set CAPABILITIES, ''invalid identity capabilities'')])
         (validate_sha256 (di_load_config_digest i))))"

text \<open>\<open>identity.model_dump(mode="json")\<close>: the fields in declaration order.\<close>

definition opt_str :: "string option \<Rightarrow> json" where
  "opt_str x = (case x of None \<Rightarrow> JNull | Some s \<Rightarrow> JStr s)"

definition artifact_json :: "artifact \<Rightarrow> json" where
  "artifact_json a = JObj
     [(''format'', JStr (ar_format a)),
      (''selected_files'', JArr (map JStr (ar_selected_files a))),
      (''quantization'', opt_str (ar_quantization a)),
      (''content_digest'', opt_str (ar_content_digest a))]"

definition identity_json :: "deployment_identity \<Rightarrow> json" where
  "identity_json i = JObj
     [(''protocol'', JInt (di_protocol i)),
      (''engine'', JStr (di_engine i)),
      (''upstream_model'', JStr (di_upstream_model i)),
      (''resolved_revision'', opt_str (di_resolved_revision i)),
      (''artifact'', artifact_json (di_artifact i)),
      (''kind'', JStr (di_kind i)),
      (''capabilities'', JArr (map JStr (di_capabilities i))),
      (''load_config_digest'', JStr (di_load_config_digest i))]"

text \<open>\<open>"sha256:" + hashlib.sha256(text.encode("utf-8")).hexdigest()\<close>, the digest a parameter.\<close>

definition sha256_text :: "(string \<Rightarrow> string) \<Rightarrow> string \<Rightarrow> string" where
  "sha256_text sha text = ''sha256:'' @ sha (utf8 text)"

definition immutable_revision :: "string option \<Rightarrow> bool" where
  "immutable_revision r =
     (case r of
        None \<Rightarrow> False
      | Some s \<Rightarrow> s \<noteq> [] \<and> 40 \<le> length s \<and> length s \<le> 64 \<and> list_all lower_hex s)"

definition validate_identity :: "(string \<Rightarrow> string) \<Rightarrow> fleet_deployment \<Rightarrow> string option" where
  "validate_identity sha d = first_error
     [(dp_deployment_id d \<noteq> sha256_text sha (canonical_json (identity_json (dp_identity d))),
        ''deployment_id does not match canonical identity''),
      (dp_fleet_eligible d \<and> dp_identity_confidence d \<noteq> ''authoritative'',
        ''fleet-eligible deployments must be authoritative''),
      (dp_fleet_eligible d \<and> \<not> immutable_revision (di_resolved_revision (dp_identity d))
         \<and> ar_content_digest (di_artifact (dp_identity d)) = None,
        ''fleet-eligible deployments require an immutable revision or content digest'')]"

definition deployment_error :: "(string \<Rightarrow> string) \<Rightarrow> fleet_deployment \<Rightarrow> string option" where
  "deployment_error sha d = or_error
     (first_error
       [(\<not> str_len 1 128 (dp_alias d), ''alias''),
        (length (dp_deployment_id d) \<noteq> 71, ''deployment_id'')])
     (or_error (validate_sha256 (dp_deployment_id d))
       (or_error (identity_error (dp_identity d))
         (or_error
           (first_error
             [(dp_identity_confidence d \<noteq> ''authoritative''
                \<and> dp_identity_confidence d \<noteq> ''unverified'', ''identity_confidence'')])
           (or_error (capacity_error (dp_capacity d)) (validate_identity sha d)))))"

definition usage_delivery_error :: "usage_delivery \<Rightarrow> string option" where
  "usage_delivery_error u = first_error
     [(\<not> int_between 0 100000000 (ud_outbox_pending u), ''outbox_pending''),
      (\<not> opt_all (\<lambda>t. 0 \<le> t) (ud_last_flush_at u), ''last_flush_at''),
      (\<not> opt_all code_pattern (ud_last_error_code u), ''last_error_code'')]"

section \<open>The snapshot\<close>

text \<open>The residency part of the snapshot's model validator.\<close>

definition residency_consistent :: "snapshot \<Rightarrow> string option" where
  "residency_consistent s =
     (let warm = filter dp_warm (sn_deployments s);
          matching_warm = filter (\<lambda>d. Some (dp_deployment_id d) = rs_deployment_id (sn_residency s)) warm;
          r = sn_residency s
      in case rs_deployment_id r of
           None \<Rightarrow> first_error
             [(rs_alias r \<noteq> None \<or> rs_engine r \<noteq> None,
                ''empty residency must not advertise alias or engine''),
              (warm \<noteq> [], ''warm deployment requires residency'')]
         | Some i \<Rightarrow> first_error
             [(rs_alias r = None \<or> rs_engine r = None,
                ''resident deployment requires alias and engine''),
              (matching_warm = [], ''resident deployment must be warm''),
              (rs_alias r \<notin> set (map (\<lambda>d. Some (dp_alias d)) matching_warm),
                ''resident alias must identify a warm deployment''),
              (\<not> list_all (\<lambda>d. Some (di_engine (dp_identity d)) = rs_engine r) matching_warm,
                ''resident engine must match warm deployment'')])"

definition transition_consistent :: "snapshot \<Rightarrow> string option" where
  "transition_consistent s =
     (case rs_transition_target (sn_residency s) of
        None \<Rightarrow> None
      | Some t \<Rightarrow> first_error
          [(t \<notin> set (map dp_deployment_id (sn_deployments s)),
             ''transition target is not advertised''),
           (h_state (sn_health s) \<notin> {''draining'', ''unloading'', ''loading'', ''verifying''},
             ''transition target is inconsistent with health state''),
           (cp_available (sn_capacity s) \<noteq> 0, ''transition target must close root capacity'')])"

definition health_consistent :: "snapshot \<Rightarrow> string option" where
  "health_consistent s =
     (let h = sn_health s; resident = rs_deployment_id (sn_residency s)
      in first_error
           [(h_state h = ''idle'' \<and> resident \<noteq> None, ''idle state must not have a resident deployment''),
            (h_state h = ''ready'' \<and> resident = None, ''ready state requires a resident deployment''),
            (h_accepting h \<and> \<not> h_authoritative h, ''accepting health must be authoritative''),
            (h_state h \<in> {''degraded'', ''stopping''} \<and> h_accepting h,
              ''degraded or stopping health cannot accept requests'')])"

definition availability_consistent :: "snapshot \<Rightarrow> string option" where
  "availability_consistent s =
     (let c = sn_capacity s; h = sn_health s; r = sn_residency s;
          arithmetic_available = max 0 (cp_effective_limit c - cp_active c);
          queued_other_target = list_ex (\<lambda>e. Some (fst e) \<noteq> rs_deployment_id r)
                                  (ad_queued_by_deployment (sn_admission s));
          fully_open = (h_accepting h \<and> h_authoritative h \<and> h_state h = ''ready''
                        \<and> rs_transition_target r = None \<and> \<not> queued_other_target)
      in first_error
           [(fully_open \<and> cp_available c \<noteq> arithmetic_available,
              ''ready accepting capacity must advertise free permits''),
            (\<not> h_accepting h \<and> cp_available c \<noteq> 0,
              ''closed admission must advertise zero available capacity'')])"

definition validate_admission_capacity :: "snapshot \<Rightarrow> string option" where
  "validate_admission_capacity s =
     (let ds = sn_deployments s; queued_by = ad_queued_by_deployment (sn_admission s)
      in or_error
          (first_error
            [(cp_queued (sn_capacity s) \<noteq> ad_queue_depth (sn_admission s),
               ''capacity.queued must equal admission.queue_depth''),
             (\<not> distinct (map dp_alias ds), ''deployment aliases must be unique''),
             (\<not> set (map fst queued_by) \<subseteq> set (map dp_deployment_id ds),
               ''queued deployment is not advertised'')])
          (or_error
            (find_error (\<lambda>d. if cp_queued (dp_capacity d)
                                  \<noteq> (case dict_get queued_by (dp_deployment_id d) of
                                       None \<Rightarrow> 0 | Some n \<Rightarrow> n)
                             then Some ''deployment queued capacity is inconsistent'' else None) ds)
            (or_error
              (first_error
                [(1 < length (remdups (map dp_deployment_id (filter dp_warm ds))),
                   ''at most one distinct deployment may be warm'')])
              (or_error (residency_consistent s)
                (or_error (transition_consistent s)
                  (or_error (health_consistent s) (availability_consistent s)))))))"

definition snapshot_error :: "(string \<Rightarrow> string) \<Rightarrow> snapshot \<Rightarrow> string option" where
  "snapshot_error sha s = or_error
     (first_error
       [(sn_schema_version s \<noteq> 1, ''schema_version''),
        (sn_snapshot_sequence s < 0, ''snapshot_sequence''),
        (sn_observed_at s < 0, ''observed_at''),
        (10000 < length (sn_deployments s), ''deployments'')])
     (or_error (node_descriptor_error (sn_node s))
       (or_error (health_error (sn_health s))
         (or_error (residency_error (sn_residency s))
           (or_error (admission_error (sn_admission s))
             (or_error (capacity_error (sn_capacity s))
               (or_error (find_error (deployment_error sha) (sn_deployments s))
                 (or_error (usage_delivery_error (sn_usage_delivery s))
                   (validate_admission_capacity s))))))))"

text \<open>
  \<open>validate_snapshot\<close>: the wire schema, then the models' validators; \<open>decode\<close> is pydantic's conversion
  of the document into typed fields.
\<close>

definition validate_snapshot ::
  "(string \<Rightarrow> string) \<Rightarrow> (json \<Rightarrow> snapshot option) \<Rightarrow> json \<Rightarrow> string \<Rightarrow> string + snapshot" where
  "validate_snapshot sha decode payload expected_node_id =
     (if \<not> snapshot_schema payload then Inl ''snapshot does not conform to protocol v1''
      else case decode payload of
             None \<Rightarrow> Inl ''type error''
           | Some s \<Rightarrow>
               (case snapshot_error sha s of
                  Some e \<Rightarrow> Inl e
                | None \<Rightarrow>
                    if nd_node_id (sn_node s) \<noteq> expected_node_id
                    then Inl ''snapshot node_id does not match enrollment'' else Inr s))"

text \<open>The identity document with the keys of its objects in order, and a sample identity.\<close>

definition sorted_identity_json :: "deployment_identity \<Rightarrow> json" where
  "sorted_identity_json i = (let a = di_artifact i in JObj
     [(''artifact'', JObj
        [(''content_digest'', opt_str (ar_content_digest a)), (''format'', JStr (ar_format a)),
         (''quantization'', opt_str (ar_quantization a)),
         (''selected_files'', JArr (map JStr (ar_selected_files a)))]),
      (''capabilities'', JArr (map JStr (di_capabilities i))), (''engine'', JStr (di_engine i)),
      (''kind'', JStr (di_kind i)), (''load_config_digest'', JStr (di_load_config_digest i)),
      (''protocol'', JInt (di_protocol i)),
      (''resolved_revision'', opt_str (di_resolved_revision i)),
      (''upstream_model'', JStr (di_upstream_model i))])"

definition demo_sha :: "string \<Rightarrow> string" where
  "demo_sha t = replicate 63 (CHR ''0'') @ [if t = [] then CHR ''0'' else CHR ''1'']"

definition demo_identity :: deployment_identity where
  "demo_identity =
     \<lparr>di_protocol = 1, di_engine = ''vllm'', di_upstream_model = ''org/model'',
      di_resolved_revision = Some (replicate 40 (CHR ''a'')),
      di_artifact = \<lparr>ar_format = ''safetensors'', ar_selected_files = [], ar_quantization = None,
                     ar_content_digest = None\<rparr>,
      di_kind = ''chat'', di_capabilities = [''chat/completions''],
      di_load_config_digest = sha256_text demo_sha ''x''\<rparr>"

definition demo_capacity :: capacity where
  "demo_capacity =
     \<lparr>cp_derived_limit = 4, cp_configured_max_concurrency = None, cp_effective_limit = 4,
      cp_active = 0, cp_queued = 0, cp_available = 4, cp_source = ''vllm-max-num-seqs'',
      cp_confidence = ''configured'', cp_saturation = 0\<rparr>"

definition demo_deployment :: fleet_deployment where
  "demo_deployment =
     \<lparr>dp_alias = ''m'', dp_deployment_id = sha256_text demo_sha (canonical_json (identity_json demo_identity)),
      dp_identity = demo_identity, dp_identity_confidence = ''authoritative'', dp_fleet_eligible = True,
      dp_loadable = True, dp_warm = True, dp_capacity = demo_capacity\<rparr>"

definition demo_snapshot :: snapshot where
  "demo_snapshot =
     \<lparr>sn_schema_version = 1, sn_snapshot_sequence = 7, sn_observed_at = 100,
      sn_node = \<lparr>nd_node_id = ''n1'', nd_instance_id = ''i1'', nd_platform = ''cuda'', nd_version = ''1.0.0''\<rparr>,
      sn_health = \<lparr>h_state = ''ready'', h_accepting = True, h_authoritative = True, h_diagnostic_code = None\<rparr>,
      sn_residency = \<lparr>rs_alias = Some ''m'', rs_deployment_id = Some (dp_deployment_id demo_deployment),
        rs_engine = Some ''vllm'', rs_epoch = 1, rs_transition_target = None\<rparr>,
      sn_admission = \<lparr>ad_queue_depth = 0, ad_queue_limit = 8, ad_queued_by_deployment = []\<rparr>,
      sn_capacity = demo_capacity, sn_deployments = [demo_deployment],
      sn_usage_delivery = \<lparr>ud_enabled = False, ud_writer_ready = False, ud_outbox_pending = 0,
        ud_last_flush_at = None, ud_last_error_code = None\<rparr>\<rparr>"

section \<open>Lemmas\<close>

lemmas error_simps = first_error_None find_error_None

lemma map_JStr_inj [simp]: "map JStr xs = map JStr ys \<longleftrightarrow> xs = ys"
  by (rule inj_map_eq_map) (simp add: inj_def)

lemma opt_str_inj [simp]: "opt_str x = opt_str y \<longleftrightarrow> x = y"
  by (simp add: opt_str_def split: option.splits)

lemma artifact_json_inj: "artifact_json a = artifact_json b \<Longrightarrow> a = b"
  by (simp add: artifact_json_def)

lemma identity_json_inj: "identity_json i = identity_json j \<Longrightarrow> i = j"
  by (auto simp: identity_json_def dest: artifact_json_inj)

lemma canonical_identity_sorted:
  "canonical_json (identity_json i) = canonical_json (sorted_identity_json i)"
  by (simp add: identity_json_def artifact_json_def sorted_identity_json_def Let_def)

lemma sorted_identity_sorted: "json_sorted (sorted_identity_json i)"
  by (simp add: sorted_identity_json_def Let_def opt_str_def list_all_iff split: option.splits)

lemma sorted_identity_inj: "sorted_identity_json i = sorted_identity_json j \<Longrightarrow> i = j"
  by (simp add: sorted_identity_json_def Let_def)

lemma canonical_identity_inj:
  "canonical_json (identity_json i) = canonical_json (identity_json j) \<Longrightarrow> i = j"
  unfolding canonical_identity_sorted
  by (intro sorted_identity_inj canonical_json_inj sorted_identity_sorted)

subsection \<open>Digests\<close>

lemma lower_hex_digit:
  assumes "lower_hex c"
  shows "\<exists>d. digit_value c = Some d \<and> d < 16" and "c \<noteq> CHR ''_''" and "\<not> py_isspace c"
    and "c \<noteq> CHR ''-''" and "c \<noteq> CHR ''+''" and "py_lower_char c = c"
proof -
  define n where "n = (of_char c :: nat)"
  have r: "(48 \<le> n \<and> n \<le> 57) \<or> (97 \<le> n \<and> n \<le> 102)" using assms by (simp add: lower_hex_def n_def Let_def)
  show "\<exists>d. digit_value c = Some d \<and> d < 16"
    using r by (auto simp: digit_value_def n_def [symmetric])
  show "\<not> py_isspace c" using r by (auto simp: py_isspace_def n_def [symmetric])
  show "py_lower_char c = c" using r by (auto simp: py_lower_char_def n_def [symmetric])
  show "c \<noteq> CHR ''_''" "c \<noteq> CHR ''-''" "c \<noteq> CHR ''+''"
    using r by (auto simp: n_def)
qed

lemma parse_lower_hex: "list_all lower_hex s \<Longrightarrow> need \<longrightarrow> s \<noteq> [] \<Longrightarrow> parse_digits 16 a need s \<noteq> None"
proof (induction s arbitrary: a need)
  case (Cons c s)
  then obtain d where "digit_value c = Some d" "d < 16" and "c \<noteq> CHR ''_''"
    using lower_hex_digit [of c] by auto
  then show ?case using Cons by simp
qed simp

lemma int16_lower_hex:
  assumes "list_all lower_hex s" and "s \<noteq> []"
  shows "py_int16 s \<noteq> None"
proof -
  have strip: "py_strip s = s"
    using assms lower_hex_digit(3) by (intro py_strip_id) (auto simp: list_all_iff)
  have sign: "split_sign s = (1, s)"
    using assms lower_hex_digit(4,5) by (cases s) (auto simp: split_sign_def)
  have prefix: "drop_hex_prefix s = s"
    using assms(1) by (auto simp: drop_hex_prefix_def lower_hex_def split: list.splits)
  show ?thesis using parse_lower_hex [OF assms(1)] assms(2)
    by (simp add: py_int16_def strip sign prefix)
qed

lemma validate_sha256_lower_hex:
  assumes "list_all lower_hex s" and "length s = 64"
  shows "validate_sha256 (''sha256:'' @ s) = None"
    and "validate_optional_digest (Some (''sha256:'' @ s)) = None"
proof -
  have l: "py_lower (''sha256:'' @ s) = ''sha256:'' @ s"
    using assms(1) lower_hex_digit(6) unfolding py_lower_fixed_iff
    by (auto simp: list_all_iff py_lower_char_def)
  have i: "py_int16 s \<noteq> None" using assms by (intro int16_lower_hex) auto
  have p: "py_startswith (''sha256:'' @ s) ''sha256:''" by (rule py_startswith_append)
  show "validate_sha256 (''sha256:'' @ s) = None" and "validate_optional_digest (Some (''sha256:'' @ s)) = None"
    using l i p assms(2) by (simp_all add: validate_sha256_def validate_optional_digest_def)
qed

text \<open>A digest function with SHA-256's documented output format gives accepted references.\<close>

lemma sha256_text_valid:
  assumes "\<And>t. list_all lower_hex (sha t)" and "\<And>t. length (sha t) = 64"
  shows "validate_sha256 (sha256_text sha t) = None"
    and "validate_optional_digest (Some (sha256_text sha t)) = None"
    and "length (sha256_text sha t) = 71"
  using validate_sha256_lower_hex [OF assms] assms(2) by (simp_all add: sha256_text_def)

lemma demo_sha_format: "list_all lower_hex (demo_sha t)" "length (demo_sha t) = 64"
  by (simp_all add: demo_sha_def list_all_iff lower_hex_def)

lemmas demo_sha_valid = sha256_text_valid [of demo_sha, OF demo_sha_format]

lemma demo_identity_checked:
  "validate_identity demo_sha demo_deployment = None"
proof -
  have "immutable_revision (di_resolved_revision demo_identity)"
    by (simp add: immutable_revision_def demo_identity_def list_all_iff lower_hex_def)
  then show ?thesis by (simp add: validate_identity_def demo_deployment_def)
qed

lemma demo_capacity_valid: "capacity_error demo_capacity = None"
  by (simp add: capacity_error_def capacity_fields_error_def capacity_is_consistent_def demo_capacity_def
      int_between_def opt_all_def str_len_def py_isclose_def)

lemma demo_deployment_valid: "deployment_error demo_sha demo_deployment = None"
proof -
  have "identity_error demo_identity = None"
    by (simp add: identity_error_def demo_identity_def demo_sha_valid artifact_error_def
        validate_selected_files_def str_len_def opt_all_def absolute_path_def py_startswith_def
        py_sorted_set_def CAPABILITIES_def numeral_eq_Suc)
  then show ?thesis using demo_identity_checked demo_capacity_valid
    by (simp add: deployment_error_def demo_deployment_def str_len_def demo_sha_valid)
qed

lemma demo_snapshot_valid: "snapshot_error demo_sha demo_snapshot = None"
proof -
  have id: "dp_deployment_id demo_deployment
      = sha256_text demo_sha (canonical_json (identity_json demo_identity))"
    by (simp add: demo_deployment_def)
  have res: "residency_error (sn_residency demo_snapshot) = None"
    by (simp add: residency_error_def demo_snapshot_def id demo_sha_valid opt_all_def str_len_def
        validate_optional_digest_def [of None])
  have adm: "admission_error (sn_admission demo_snapshot) = None"
    by (simp add: admission_error_def admission_is_consistent_def demo_snapshot_def int_between_def)
  have dep: "find_error (deployment_error demo_sha) (sn_deployments demo_snapshot) = None"
    by (simp add: demo_snapshot_def demo_deployment_valid)
  have warm: "dp_warm demo_deployment" "dp_alias demo_deployment = ''m''"
    "di_engine (dp_identity demo_deployment) = ''vllm''" "dp_capacity demo_deployment = demo_capacity"
    by (simp_all add: demo_deployment_def demo_identity_def)
  have val: "validate_admission_capacity demo_snapshot = None"
    using warm by (simp add: validate_admission_capacity_def demo_snapshot_def demo_capacity_def
        residency_consistent_def transition_consistent_def health_consistent_def
        availability_consistent_def Let_def)
  show ?thesis using res adm dep val demo_capacity_valid
    by (simp add: snapshot_error_def)
      (simp add: demo_snapshot_def node_descriptor_error_def health_error_def usage_delivery_error_def
        str_len_def opt_all_def int_between_def)
qed

section \<open>Properties\<close>

text \<open>
  C14: a deployment identifier names one identity: if two deployments pass the gateway's identity
  check under the same identifier and their canonical documents do not collide under SHA-256, their
  identities agree in every field. The canonical JSON and its UTF-8 encoding lose nothing.
\<close>

theorem deployment_id_identifies:
  assumes "validate_identity sha d = None" and "validate_identity sha e = None"
    and "dp_deployment_id d = dp_deployment_id e"
    and "sha (utf8 (canonical_json (identity_json (dp_identity d))))
           = sha (utf8 (canonical_json (identity_json (dp_identity e)))) \<Longrightarrow>
         utf8 (canonical_json (identity_json (dp_identity d)))
           = utf8 (canonical_json (identity_json (dp_identity e)))"
  shows "dp_identity d = dp_identity e"
proof -
  have id: "dp_deployment_id x = sha256_text sha (canonical_json (identity_json (dp_identity x)))"
    if "validate_identity sha x = None" for x
    using that by (simp add: validate_identity_def split: if_splits)
  have "sha256_text sha (canonical_json (identity_json (dp_identity d)))
      = sha256_text sha (canonical_json (identity_json (dp_identity e)))"
    using assms(3) unfolding id [OF assms(1)] id [OF assms(2)] .
  then have "sha (utf8 (canonical_json (identity_json (dp_identity d))))
      = sha (utf8 (canonical_json (identity_json (dp_identity e))))"
    unfolding sha256_text_def by (simp only: same_append_eq)
  from assms(4) [OF this] show ?thesis by (rule canonical_identity_inj [OF utf8_inj])
qed

theorem deployment_id_identifies_witness:
  "dp_identity demo_deployment = dp_identity (demo_deployment\<lparr>dp_alias := ''other''\<rparr>)"
proof -
  have "validate_identity demo_sha demo_deployment = None"
    and "validate_identity demo_sha (demo_deployment\<lparr>dp_alias := ''other''\<rparr>) = None"
    using demo_identity_checked by (simp_all add: validate_identity_def)
  then show ?thesis by (rule deployment_id_identifies) simp_all
qed

text \<open>
  Every digest of the documented form, \<open>sha256:\<close> and 64 lowercase hexadecimal digits, is
  accepted by the gateway's digest validators.
\<close>

theorem sha256_references_accepted:
  assumes "list_all lower_hex s" and "length s = 64"
  shows "validate_sha256 (''sha256:'' @ s) = None
    \<and> validate_optional_digest (Some (''sha256:'' @ s)) = None"
  using validate_sha256_lower_hex [OF assms] by simp

theorem sha256_references_accepted_witness:
  "validate_sha256 (''sha256:'' @ replicate 64 (CHR ''a'')) = None"
  using sha256_references_accepted [of "replicate 64 (CHR ''a'')"] by (simp add: list_all_iff lower_hex_def)

text \<open>
  The validators accept more than that form: a reference whose digest part is \<open>0x\<close>, a sign,
  underscores or white space around fewer digits passes, because \<open>int(value, 16)\<close> reads it.
\<close>

theorem sha256_references_lax:
  "validate_sha256 (''sha256:0x'' @ replicate 62 (CHR ''0'')) = None
   \<and> validate_sha256 (''sha256:-'' @ replicate 63 (CHR ''0'')) = None
   \<and> validate_sha256 (''sha256: '' @ replicate 63 (CHR ''0'')) = None
   \<and> validate_sha256 (''sha256:1_'' @ replicate 62 (CHR ''0'')) = None"
  by code_simp

text \<open>
  C28: what an accepted snapshot promises about free permits: if it advertises free root capacity,
  the node accepts and is authoritative, is neither degraded nor stopping nor in a transition, and
  the free permits are exactly those that the active requests leave of the effective limit.
\<close>

theorem advertised_capacity_is_admissible:
  assumes "snapshot_error sha s = None" and "0 < cp_available (sn_capacity s)"
  shows "h_accepting (sn_health s) \<and> h_authoritative (sn_health s)
    \<and> h_state (sn_health s) \<notin> {''degraded'', ''stopping''}
    \<and> rs_transition_target (sn_residency s) = None
    \<and> cp_active (sn_capacity s) + cp_available (sn_capacity s) = cp_effective_limit (sn_capacity s)"
proof -
  have cap: "capacity_is_consistent (sn_capacity s) = None"
    and tr: "transition_consistent s = None" and he: "health_consistent s = None"
    and av: "availability_consistent s = None"
    using assms(1) by (simp_all add: snapshot_error_def capacity_error_def validate_admission_capacity_def Let_def)
  have acc: "h_accepting (sn_health s)"
    using av assms(2) by (auto simp: availability_consistent_def Let_def split: if_splits)
  with he have "h_authoritative (sn_health s)" "h_state (sn_health s) \<notin> {''degraded'', ''stopping''}"
    by (auto simp: health_consistent_def Let_def split: if_splits)
  moreover have "rs_transition_target (sn_residency s) = None"
    using tr assms(2) by (auto simp: transition_consistent_def split: option.splits if_splits)
  moreover have "cp_available (sn_capacity s) = max 0 (cp_effective_limit (sn_capacity s) - cp_active (sn_capacity s))"
    using cap assms(2) by (auto simp: capacity_is_consistent_def Let_def split: if_splits)
  ultimately show ?thesis using acc assms(2) by auto
qed

theorem advertised_capacity_is_admissible_witness:
  "snapshot_error demo_sha demo_snapshot = None \<and> cp_active (sn_capacity demo_snapshot) + 4 = 4"
proof -
  have "cp_available (sn_capacity demo_snapshot) = 4" and "cp_effective_limit (sn_capacity demo_snapshot) = 4"
    by (simp_all add: demo_snapshot_def demo_capacity_def)
  then show ?thesis using advertised_capacity_is_admissible [OF demo_snapshot_valid] demo_snapshot_valid
    by simp
qed

end
