(* ===== verification/Node_Identity.thy ===== *)
theory Node_Identity
  imports Node_Profiles Fleet_Protocol "HOL-Library.Sublist"
begin

text \<open>
  The node's side of the fleet protocol: the deployment identity and the capacity that a CUDA
  manager derives from a resolved profile, \<open>src/fleet_protocol.py\<close> and lines 463 to 697 of
  \<open>src/vllm_manager.py\<close>. The documents are the records of the gateway's protocol, which have the
  same fields. A raised \<open>ValueError\<close> is \<open>Inl\<close> of its message; SHA-256 is a parameter.
\<close>

section \<open>Identities\<close>

fun json_finite :: "json \<Rightarrow> bool" where
  "json_finite (JFloat x) = (case x of Fin r \<Rightarrow> True | _ \<Rightarrow> False)"
| "json_finite (JArr xs) = list_all json_finite xs"
| "json_finite (JObj kvs) = list_all (\<lambda>kv. json_finite (snd kv)) kvs"
| "json_finite _ = True"

definition sha256_id :: "(string \<Rightarrow> string) \<Rightarrow> json \<Rightarrow> string + string" where
  "sha256_id sha v =
     (if json_finite v then Inr (sha256_text sha (canonical_json v))
      else Inl ''Out of range float values are not JSON compliant'')"

definition CAPABILITY_ALIASES :: "(string, string) dict" where
  "CAPABILITY_ALIASES =
     [(''chat.completions'', ''chat/completions''), (''chat/completions'', ''chat/completions''),
      (''completions'', ''completions''), (''embeddings'', ''embeddings''),
      (''images.generations'', ''images/generations''), (''images/generations'', ''images/generations''),
      (''messages'', ''messages''), (''rerank'', ''rerank''), (''responses'', ''responses'')]"

definition fleet_capability :: "string \<Rightarrow> string option" where
  "fleet_capability raw = dict_get CAPABILITY_ALIASES (py_removeprefix ''/v1/'' (py_lower (py_strip raw)))"

definition normalize_capabilities :: "string list \<Rightarrow> string + string list" where
  "normalize_capabilities values =
     (if list_ex (\<lambda>raw. fleet_capability raw = None) values then Inl ''unsupported fleet capability''
      else if values = [] then Inl ''fleet deployment must advertise at least one capability''
      else Inr (py_sorted_set (List.map_filter fleet_capability values)))"

definition hex_char :: "char \<Rightarrow> bool" where
  "hex_char c = (in_range (CHR ''0'') (CHR ''9'') c \<or> in_range (CHR ''a'') (CHR ''f'') c \<or> in_range (CHR ''A'') (CHR ''F'') c)"

text \<open>\<open>_IMMUTABLE_REVISION_RE.fullmatch\<close> and \<open>_SHA256_ID_RE.fullmatch\<close>.\<close>

definition immutable_revision_re :: "string \<Rightarrow> bool" where
  "immutable_revision_re s = (40 \<le> length s \<and> length s \<le> 64 \<and> list_all hex_char s)"

definition sha256_id_re :: "string \<Rightarrow> bool" where
  "sha256_id_re s = (py_startswith s ''sha256:'' \<and> length s = 71 \<and> list_all lower_hex (drop 7 s))"

definition node_deployment_identity ::
  "(string \<Rightarrow> string) \<Rightarrow> string \<Rightarrow> string \<Rightarrow> string option \<Rightarrow> artifact \<Rightarrow> string \<Rightarrow> string list \<Rightarrow> json
   \<Rightarrow> string + string \<times> string \<times> deployment_identity" where
  "node_deployment_identity sha engine upstream revision art kind caps load_config =
     (case normalize_capabilities caps of
        Inl e \<Rightarrow> Inl e
      | Inr ncaps \<Rightarrow>
          (case sha256_id sha load_config of
             Inl e \<Rightarrow> Inl e
           | Inr digest \<Rightarrow>
               let ident = \<lparr>di_protocol = 1, di_engine = engine, di_upstream_model = upstream,
                     di_resolved_revision = map_option
                       (\<lambda>r. if immutable_revision_re r then py_lower r else r) revision,
                     di_artifact = art, di_kind = kind, di_capabilities = ncaps,
                     di_load_config_digest = digest\<rparr>
               in (case sha256_id sha (identity_json ident) of
                     Inl e \<Rightarrow> Inl e
                   | Inr i \<Rightarrow> Inr (i, digest, ident))))"

definition identity_is_authoritative :: "string option \<Rightarrow> artifact \<Rightarrow> bool" where
  "identity_is_authoritative revision art =
     ((case revision of None \<Rightarrow> False | Some r \<Rightarrow> r \<noteq> [] \<and> immutable_revision_re r)
      \<or> (case ar_content_digest art of None \<Rightarrow> False | Some d \<Rightarrow> sha256_id_re d))"

text \<open>
  \<open>_GGUF_QUANTIZATION_RE\<close>, under \<open>re.IGNORECASE\<close>; the group consists of ASCII characters, so
  \<open>upper()\<close> concerns the letters a to z only.
\<close>

definition gguf_group :: rx where
  "gguf_group = rx_any
     [RxSeq (rx_itext ''F'') (RxAlt (rx_itext ''16'') (rx_itext ''32'')),
      rx_itext ''BF16'',
      rx_all [rx_itext ''Q'', RxClass (in_range (CHR ''2'') (CHR ''8'')),
        rx_opt (RxSeq (rx_itext ''_'') (RxClass (in_range (CHR ''0'') (CHR ''9'')))),
        rx_opt (RxSeq (rx_itext ''_K'') (rx_opt (RxSeq (rx_itext ''_'')
          (RxClass (\<lambda>c. py_lower_char c \<in> {CHR ''s'', CHR ''m'', CHR ''l''})))))],
      rx_all [rx_itext ''IQ'', RxClass (in_range (CHR ''1'') (CHR ''4'')),
        rx_plus (RxSeq (rx_itext ''_'') (rx_plus (RxClass ascii_alnum)))]]"

definition gguf_separator :: rx where
  "gguf_separator = RxClass (\<lambda>c. c \<in> {CHR ''-'', CHR ''_'', CHR ''.''})"

definition ascii_upper :: "string \<Rightarrow> string" where
  "ascii_upper s = map (\<lambda>c. if in_range (CHR ''a'') (CHR ''z'') c then char_of ((of_char c :: nat) - 32) else c) s"

definition gguf_quantization :: "string option \<Rightarrow> string option" where
  "gguf_quantization filename =
     (if \<not> truthy filename then None
      else map_option ascii_upper
        (rx_search_group (RxAlt RxStart gguf_separator) gguf_group (RxAlt gguf_separator RxEnd)
          (last (py_split (CHR ''/'') (the filename)))))"

section \<open>Capacity flags\<close>

definition keep_positive :: "int option \<Rightarrow> string \<Rightarrow> int option" where
  "keep_positive result value =
     (case py_int value of Some n \<Rightarrow> if 0 < n then Some n else result | None \<Rightarrow> result)"

text \<open>The loop of \<open>positive_int_flag\<close>.\<close>

fun positive_int_loop :: "string list \<Rightarrow> string list \<Rightarrow> int option \<Rightarrow> int option" where
  "positive_int_loop names [] result = result"
| "positive_int_loop names (item # rest) result =
     (if item \<in> set names \<and> rest \<noteq> [] then
        positive_int_loop names (tl rest) (keep_positive result (hd rest))
      else case find (\<lambda>name. py_startswith item (name @ ''='')) names of
             Some name \<Rightarrow> positive_int_loop names rest (keep_positive result (drop (length name + 1) item))
           | None \<Rightarrow> positive_int_loop names rest result)"

definition positive_int_flag :: "string list \<Rightarrow> string list \<Rightarrow> int option" where
  "positive_int_flag args names = positive_int_loop names args None"

definition capacity_options :: "string \<Rightarrow> string list" where
  "capacity_options backend =
     (if backend = ''vllm'' then [''--max-num-seqs'']
      else if backend = ''llama.cpp'' then [''--parallel'', ''-np''] else [])"

definition is_positive :: "string \<Rightarrow> bool" where
  "is_positive v = (case py_int v of Some n \<Rightarrow> 0 < n | None \<Rightarrow> False)"

text \<open>The loop of \<open>semantic_extra_args\<close>, for the recognised options.\<close>

fun semantic_loop :: "string list \<Rightarrow> string list \<Rightarrow> string list" where
  "semantic_loop opts [] = []"
| "semantic_loop opts (item # rest) =
     (case find (\<lambda>name. item = name \<or> py_startswith item (name @ ''='')) opts of
        None \<Rightarrow> item # semantic_loop opts rest
      | Some name \<Rightarrow>
          if py_startswith item (name @ ''='') then
            (if is_positive (drop (length name + 1) item) then semantic_loop opts rest
             else item # semantic_loop opts rest)
          else if rest \<noteq> [] then
            (if is_positive (hd rest) then semantic_loop opts (tl rest)
             else item # semantic_loop opts rest)
          else item # semantic_loop opts rest)"

definition semantic_extra_args :: "string list \<Rightarrow> string \<Rightarrow> string list" where
  "semantic_extra_args args backend = semantic_loop (capacity_options backend) args"

section \<open>Capacity\<close>

text \<open>\<open>round(active / effective, 6)\<close> is the division rounded to a double and then to six decimals.\<close>

definition effective_capacity ::
  "int \<Rightarrow> int option \<Rightarrow> int \<Rightarrow> int \<Rightarrow> string \<Rightarrow> string \<Rightarrow> bool \<Rightarrow> string + capacity" where
  "effective_capacity derived configured active queued source confidence admission_open =
     (if derived < 1 then Inl ''derived concurrency limit must be positive''
      else if (case configured of None \<Rightarrow> False | Some m \<Rightarrow> m < 1)
      then Inl ''configured max_concurrency must be positive or null''
      else if active < 0 \<or> queued < 0 then Inl ''active and queued request counts must be non-negative''
      else let effective = (case configured of None \<Rightarrow> derived | Some m \<Rightarrow> min derived m)
           in Inr \<lparr>cp_derived_limit = derived, cp_configured_max_concurrency = configured,
                   cp_effective_limit = effective, cp_active = active, cp_queued = queued,
                   cp_available = (if admission_open then max 0 (effective - active) else 0),
                   cp_source = source, cp_confidence = confidence,
                   cp_saturation = py_round6 (fl (of_int active / of_int effective))\<rparr>)"

definition cuda_limit :: "string \<Rightarrow> string list \<Rightarrow> int \<times> string \<times> string" where
  "cuda_limit backend extra_args =
     (if backend = ''vllm'' then
        (case positive_int_flag extra_args [''--max-num-seqs''] of
           Some n \<Rightarrow> (n, ''vllm-max-num-seqs'', ''configured'')
         | None \<Rightarrow> (1, ''vllm-conservative'', ''conservative''))
      else if backend = ''llama.cpp'' then
        (case positive_int_flag extra_args [''--parallel'', ''-np''] of
           Some n \<Rightarrow> (n, ''llama.cpp-parallel'', ''configured'')
         | None \<Rightarrow> (1, ''llama.cpp-conservative'', ''conservative''))
      else if backend = ''sglang-diffusion'' then
        (1, ''sglang-diffusion-isolated-worker'', ''authoritative'')
      else (1, ''unknown-engine-conservative'', ''conservative''))"

definition derive_cuda_capacity ::
  "string \<Rightarrow> string list \<Rightarrow> int option \<Rightarrow> int \<Rightarrow> int \<Rightarrow> bool \<Rightarrow> string + capacity" where
  "derive_cuda_capacity backend extra_args configured active queued admission_open =
     (case cuda_limit backend extra_args of
        (derived, source, confidence) \<Rightarrow>
          effective_capacity derived configured active queued source confidence admission_open)"

section \<open>The load configuration of a profile\<close>

definition profile_artifact :: "resolved_profile \<Rightarrow> artifact" where
  "profile_artifact p =
     (let llama = (pf_backend p = ''llama.cpp'')
      in \<lparr>ar_format = (if llama then ''gguf''
             else if pf_backend p = ''sglang-diffusion'' then ''diffusers'' else ''safetensors''),
          ar_selected_files =
            (if llama then py_sorted_set (map the (filter truthy [pf_gguf_filename p, pf_projector_filename p]))
             else []),
          ar_quantization =
            (if truthy (pf_quantization p) then pf_quantization p
             else if llama then gguf_quantization (pf_gguf_filename p) else None),
          ar_content_digest = None\<rparr>)"

definition valid_int :: "int \<Rightarrow> string \<Rightarrow> bool" where
  "valid_int minimum value = (case py_int value of Some n \<Rightarrow> minimum \<le> n | None \<Rightarrow> False)"

definition valid_gpu_fraction :: "string \<Rightarrow> bool" where
  "valid_gpu_fraction value =
     (case py_float value of Some (Fin r) \<Rightarrow> 0 < r \<and> r \<le> 1 | _ \<Rightarrow> False)"

definition valid_non_option :: "string \<Rightarrow> bool" where
  "valid_non_option value = (value \<noteq> [] \<and> \<not> py_startswith value ''-'')"

text \<open>\<open>item.partition("=")\<close>: the name, whether there is an equals sign, and what follows it.\<close>

definition partition_eq :: "string \<Rightarrow> string \<times> bool \<times> string" where
  "partition_eq item =
     (takeWhile (\<lambda>c. c \<noteq> CHR ''='') item, CHR ''='' \<in> set item, tl (dropWhile (\<lambda>c. c \<noteq> CHR ''='') item))"

fun last_valid_loop :: "string list \<Rightarrow> (string \<Rightarrow> bool) \<Rightarrow> string list \<Rightarrow> string option \<Rightarrow> string option" where
  "last_valid_loop names validator [] result = result"
| "last_valid_loop names validator (item # rest) result =
     (case partition_eq item of
        (name, equals, inline) \<Rightarrow>
          if name \<notin> set names then last_valid_loop names validator rest result
          else if equals then last_valid_loop names validator rest (if validator inline then Some inline else result)
          else if rest \<noteq> [] \<and> validator (hd rest)
          then last_valid_loop names validator (tl rest) (Some (hd rest))
          else last_valid_loop names validator rest result)"

definition last_valid_flag :: "string list \<Rightarrow> string list \<Rightarrow> (string \<Rightarrow> bool) \<Rightarrow> string option" where
  "last_valid_flag args names validator = last_valid_loop names validator args None"

fun strip_valid_flags ::
  "(string, string \<Rightarrow> bool) dict \<Rightarrow> string list \<Rightarrow> string list \<Rightarrow> string list" where
  "strip_valid_flags value_flags boolean_flags [] = []"
| "strip_valid_flags value_flags boolean_flags (item # rest) =
     (case partition_eq item of
        (name, equals, inline) \<Rightarrow>
          if name \<in> set boolean_flags \<and> \<not> equals then strip_valid_flags value_flags boolean_flags rest
          else case dict_get value_flags name of
                 None \<Rightarrow> item # strip_valid_flags value_flags boolean_flags rest
               | Some validator \<Rightarrow>
                   if equals then
                     (if validator inline then strip_valid_flags value_flags boolean_flags rest
                      else item # strip_valid_flags value_flags boolean_flags rest)
                   else if rest \<noteq> [] \<and> validator (hd rest)
                   then strip_valid_flags value_flags boolean_flags (tl rest)
                   else item # strip_valid_flags value_flags boolean_flags rest)"

definition enum_pooling :: "string \<Rightarrow> bool" where
  "enum_pooling v = (py_lower v \<in> {''none'', ''mean'', ''cls'', ''last'', ''rank'', ''unspecified''})"

definition vllm_value_flags :: "(string, string \<Rightarrow> bool) dict" where
  "vllm_value_flags =
     [(''--gpu-memory-utilization'', valid_gpu_fraction), (''--tensor-parallel-size'', valid_int 1),
      (''--pipeline-parallel-size'', valid_int 1), (''--data-parallel-size'', valid_int 1),
      (''--max-model-len'', valid_int 1)]"

definition llama_value_flags :: "(string, string \<Rightarrow> bool) dict" where
  "llama_value_flags =
     [(''--threads'', valid_int 1), (''-t'', valid_int 1), (''--threads-batch'', valid_int 1),
      (''-tb'', valid_int 1), (''--batch-size'', valid_int 1), (''-b'', valid_int 1),
      (''--ubatch-size'', valid_int 1), (''-ub'', valid_int 1), (''--n-gpu-layers'', valid_int (-1)),
      (''--gpu-layers'', valid_int (-1)), (''-ngl'', valid_int (-1)),
      (''--split-mode'', \<lambda>v. v \<in> {''none'', ''layer'', ''row''}), (''--tensor-split'', valid_non_option),
      (''--main-gpu'', valid_int 0),
      (''--flash-attn'', \<lambda>v. py_lower v \<in> {''on'', ''off'', ''auto'', ''true'', ''false'', ''0'', ''1''}),
      (''--ctx-size'', valid_int 1), (''-c'', valid_int 1), (''--pooling'', enum_pooling),
      (''--pooling-type'', enum_pooling)]"

definition opt_int :: "int option \<Rightarrow> json" where
  "opt_int x = (case x of None \<Rightarrow> JNull | Some n \<Rightarrow> JInt n)"

definition context_length :: "string list \<Rightarrow> string list \<Rightarrow> int option \<Rightarrow> json" where
  "context_length args names max_model_len =
     opt_int (case positive_int_flag args names of Some n \<Rightarrow> Some n | None \<Rightarrow> max_model_len)"

definition semantic_load_config :: "resolved_profile \<Rightarrow> json" where
  "semantic_load_config p =
     (let args = semantic_extra_args (pf_extra_args p) (pf_backend p)
      in if pf_backend p = ''vllm'' then JObj
           [(''context_length'', context_length args [''--max-model-len''] (pf_max_model_len p)),
            (''trust_remote_code'', JBool (pf_trust_remote_code p)),
            (''semantic_extra_args'', JArr (map JStr (strip_valid_flags vllm_value_flags [] args)))]
         else if pf_backend p = ''llama.cpp'' then JObj
           [(''context_length'', context_length args [''--ctx-size'', ''-c''] (pf_max_model_len p)),
            (''pooling'', opt_str (last_valid_flag args [''--pooling'', ''--pooling-type''] enum_pooling)),
            (''semantic_extra_args'', JArr (map JStr
               (strip_valid_flags llama_value_flags [''--no-kv-offload'', ''--kv-unified''] args)))]
         else JObj
           [(''image_defaults'', case pf_image_defaults p of None \<Rightarrow> JNull | Some d \<Rightarrow> d),
            (''semantic_extra_args'', JArr (map JStr (strip_valid_flags
               [(''--num-gpus'', valid_int 1), (''--gpu-memory-utilization'', valid_gpu_fraction)] [] args)))])"

definition portable_upstream :: "resolved_profile \<Rightarrow> bool" where
  "portable_upstream p =
     rx_fullmatch RAW_HF_ID_RE (or_text (pf_upstream_model p) (pf_served_model_name p))"

definition fleet_upstream :: "(string \<Rightarrow> string) \<Rightarrow> resolved_profile \<Rightarrow> string" where
  "fleet_upstream sha p =
     (let upstream = or_text (pf_upstream_model p) (pf_served_model_name p)
      in if portable_upstream p then upstream
         else ''local-artifact-'' @ sha256_text sha (canonical_json (JStr upstream)))"

definition profile_revision :: "resolved_profile \<Rightarrow> string option" where
  "profile_revision p = (if pf_revision p = [] then None else Some (pf_revision p))"

definition profile_deployment ::
  "(string \<Rightarrow> string) \<Rightarrow> resolved_profile \<Rightarrow> string + string \<times> deployment_identity \<times> bool" where
  "profile_deployment sha p =
     (let art = profile_artifact p
      in case node_deployment_identity sha (pf_backend p) (fleet_upstream sha p) (profile_revision p)
                art (pf_kind p) (pf_capabilities p) (semantic_load_config p) of
           Inl e \<Rightarrow> Inl e
         | Inr (deployment_id, digest, ident) \<Rightarrow>
             Inr (deployment_id, ident,
                  identity_is_authoritative (profile_revision p) art \<and> portable_upstream p))"

section \<open>Lemmas\<close>

text \<open>SHA-256's documented output: 64 lowercase hexadecimal digits.\<close>

definition sha_format :: "(string \<Rightarrow> string) \<Rightarrow> bool" where
  "sha_format sha = (\<forall>t. list_all lower_hex (sha t) \<and> length (sha t) = 64)"

lemma sha_format_valid:
  assumes "sha_format sha"
  shows "validate_sha256 (sha256_text sha t) = None" and "validate_optional_digest (Some (sha256_text sha t)) = None"
    and "length (sha256_text sha t) = 71"
  using sha256_text_valid [of sha t] assms by (simp_all add: sha_format_def)

lemma demo_sha_ok: "sha_format demo_sha"
  by (simp add: sha_format_def demo_sha_format)

lemma fleet_capability_in: "fleet_capability raw = Some c \<Longrightarrow> c \<in> set CAPABILITIES"
  unfolding fleet_capability_def by (drule dict_get_in) (auto simp: CAPABILITY_ALIASES_def CAPABILITIES_def)

lemma map_filter_set: "set (List.map_filter f xs) = {y. \<exists>x \<in> set xs. f x = Some y}"
  by (force simp: List.map_filter_def image_iff)

lemma normalize_capabilities_ok:
  assumes "normalize_capabilities values = Inr caps"
  shows "caps \<noteq> []" and "py_sorted_set caps = caps" and "set caps \<subseteq> set CAPABILITIES"
proof -
  have caps: "caps = py_sorted_set (List.map_filter fleet_capability values)" and ne: "values \<noteq> []"
    and all: "\<forall>raw \<in> set values. fleet_capability raw \<noteq> None"
    using assms by (auto simp: normalize_capabilities_def list_ex_iff split: if_splits)
  have set: "set caps = {c. \<exists>raw \<in> set values. fleet_capability raw = Some c}"
    by (simp add: caps map_filter_set)
  show "caps \<noteq> []" using set ne all by (cases "values") auto
  show "py_sorted_set caps = caps" by (simp add: caps)
  show "set caps \<subseteq> set CAPABILITIES" using set fleet_capability_in by auto
qed

lemma hex_char_lower: "hex_char c \<Longrightarrow> lower_hex (py_lower_char c)"
proof -
  assume h: "hex_char c"
  define n where "n = (of_char c :: nat)"
  have r: "(48 \<le> n \<and> n \<le> 57) \<or> (97 \<le> n \<and> n \<le> 102) \<or> (65 \<le> n \<and> n \<le> 70)"
    using h by (auto simp: hex_char_def in_range_def n_def)
  show ?thesis
  proof (cases "65 \<le> n \<and> n \<le> 70")
    case True
    then have "py_lower_char c = char_of (n + 32)" by (simp add: py_lower_char_def n_def)
    moreover have "(of_char (char_of (n + 32) :: char) :: nat) = n + 32" using True by simp
    ultimately show ?thesis using True by (simp add: lower_hex_def)
  next
    case False
    then have "py_lower_char c = c" using r by (auto simp: py_lower_char_def n_def [symmetric] Let_def)
    then show ?thesis using r False by (auto simp: lower_hex_def n_def [symmetric] Let_def)
  qed
qed

lemma immutable_revision_lower: "immutable_revision_re r \<Longrightarrow> immutable_revision (Some (py_lower r))"
  by (auto simp: immutable_revision_re_def immutable_revision_def list_all_iff py_lower_def hex_char_lower)

text \<open>A portable upstream name starts with a name character and is no absolute path.\<close>

definition hf_char :: "char \<Rightarrow> bool" where
  "hf_char c = (ascii_alnum c \<or> c \<in> {CHR ''.'', CHR ''_'', CHR ''-''})"

lemma raw_hf_split:
  assumes "rx_fullmatch RAW_HF_ID_RE s"
  shows "\<exists>u v. s = u @ CHR ''/'' # v \<and> u \<noteq> [] \<and> list_all hf_char u"
proof -
  obtain st where "st \<in> set (rx_ends RAW_HF_ID_RE (True, s))" using assms by (auto simp: rx_fullmatch_def list_ex_iff)
  then obtain st1 where 1: "st1 \<in> set (rx_ends (rx_plus (RxClass hf_char)) (True, s))"
    and 2: "\<exists>v. snd st1 = CHR ''/'' # v"
    unfolding RAW_HF_ID_RE_def Let_def hf_char_def [symmetric]
    by (auto simp: rx_ends_Seq split: list.splits if_splits)
  have "anchor_free (rx_plus (RxClass hf_char))" by (simp add: rx_plus_def)
  from rx_ends_word [OF this 1] obtain u where "rx_word (rx_plus (RxClass hf_char)) u" "s = u @ snd st1" by auto
  then show ?thesis using 2 by (auto simp: rx_word_plus_class)
qed

lemma hf_char_plain: "hf_char c \<Longrightarrow> c \<noteq> CHR ''/'' \<and> c \<noteq> CHR '':''"
  by (auto simp: hf_char_def ascii_alnum_def in_range_def)

lemma raw_hf_not_absolute: "rx_fullmatch RAW_HF_ID_RE s \<Longrightarrow> s \<noteq> [] \<and> \<not> absolute_path s"
proof -
  assume "rx_fullmatch RAW_HF_ID_RE s"
  then obtain c u v where s: "s = c # u @ CHR ''/'' # v" "hf_char c" "list_all hf_char u"
    using raw_hf_split [of s] by (auto simp: neq_Nil_conv)
  have "\<not> py_startswith s ''/''" using hf_char_plain [OF s(2)] by (simp add: s(1) py_startswith_def)
  moreover have "take 2 (drop 1 s) \<noteq> [CHR '':'', CHR 0x5C]"
    using s(3) hf_char_plain by (cases u) (auto simp: s(1))
  ultimately show ?thesis by (simp add: absolute_path_def s(1))
qed

lemma fleet_upstream_ok: "fleet_upstream sha p \<noteq> [] \<and> \<not> absolute_path (fleet_upstream sha p)"
proof (cases "portable_upstream p")
  case True
  then show ?thesis using raw_hf_not_absolute by (simp add: fleet_upstream_def portable_upstream_def Let_def)
qed (simp add: fleet_upstream_def Let_def absolute_path_def py_startswith_def)

lemma profile_artifact_files: "py_sorted_set (ar_selected_files (profile_artifact p)) = ar_selected_files (profile_artifact p)"
  "length (ar_selected_files (profile_artifact p)) \<le> 2"
proof -
  have "length (py_sorted_set xs) \<le> length xs" for xs :: "string list"
    by (simp add: py_sorted_set_def length_remdups_leq)
  from this [of "map the (filter truthy [pf_gguf_filename p, pf_projector_filename p])"]
  show "length (ar_selected_files (profile_artifact p)) \<le> 2"
    by (auto simp: profile_artifact_def Let_def split: if_splits)
next
  have "py_sorted_set [] = []" by (simp add: py_sorted_set_def)
  then show "py_sorted_set (ar_selected_files (profile_artifact p)) = ar_selected_files (profile_artifact p)"
    by (simp add: profile_artifact_def Let_def del: filter.simps list.map)
qed

lemma profile_deployment_fields:
  assumes "profile_deployment sha p = Inr (i, ident, auth)"
  shows "i = sha256_text sha (canonical_json (identity_json ident))"
    and "di_protocol ident = 1" and "di_engine ident = pf_backend p" and "di_upstream_model ident = fleet_upstream sha p"
    and "di_resolved_revision ident = map_option (\<lambda>r. if immutable_revision_re r then py_lower r else r) (profile_revision p)"
    and "di_artifact ident = profile_artifact p" and "di_kind ident = pf_kind p"
    and "normalize_capabilities (pf_capabilities p) = Inr (di_capabilities ident)"
    and "di_load_config_digest ident = sha256_text sha (canonical_json (semantic_load_config p))"
    and "auth = (identity_is_authoritative (profile_revision p) (profile_artifact p) \<and> portable_upstream p)"
  using assms
  by (auto simp: profile_deployment_def node_deployment_identity_def sha256_id_def Let_def split: sum.splits if_splits)

text \<open>The conditions under which \<open>_fleet_profiles\<close> advertises a profile, and what the gateway asks beyond them.\<close>

definition identity_bounds :: "deployment_identity \<Rightarrow> bool" where
  "identity_bounds ident =
     (str_len 1 64 (di_engine ident) \<and> str_len 1 64 (di_kind ident) \<and> length (di_upstream_model ident) \<le> 512
      \<and> opt_all (str_len 0 256) (di_resolved_revision ident)
      \<and> opt_all (str_len 0 128) (ar_quantization (di_artifact ident))
      \<and> list_all safe_path (ar_selected_files (di_artifact ident)))"

lemma profile_identity_accepted:
  assumes "sha_format sha" and "profile_deployment sha p = Inr (i, ident, auth)" and "identity_bounds ident"
  shows "identity_error ident = None"
proof -
  note f = profile_deployment_fields [OF assms(2)]
  note b = assms(3) [unfolded identity_bounds_def]
  note n = normalize_capabilities_ok [OF f(8)]
  have "ar_format (profile_artifact p) \<in> {''gguf'', ''diffusers'', ''safetensors''}"
    and cd: "ar_content_digest (profile_artifact p) = None"
    by (simp_all add: profile_artifact_def Let_def)
  then have fmt: "str_len 1 64 (ar_format (profile_artifact p))" by (auto simp: str_len_def)
  have "validate_selected_files (ar_selected_files (profile_artifact p)) = None"
    using b profile_artifact_files(1) [of p] f(6) by (simp add: validate_selected_files_def find_error_None list_all_iff)
  then have art: "artifact_error (profile_artifact p) = None"
    using fmt cd b profile_artifact_files(2) [of p] f(6) by (simp add: artifact_error_def)
  have "str_len 1 512 (fleet_upstream sha p)" using b f(4) fleet_upstream_ok [of sha p]
    by (simp add: str_len_def Suc_le_eq)
  then show ?thesis using b art n fleet_upstream_ok [of sha p] sha_format_valid(1) [OF assms(1)] f(2,4,6,9)
    by (simp add: identity_error_def)
qed

lemma authoritative_immutable:
  assumes "profile_deployment sha p = Inr (i, ident, True)"
  shows "immutable_revision (di_resolved_revision ident)"
proof -
  note f = profile_deployment_fields [OF assms]
  have "ar_content_digest (profile_artifact p) = None" by (simp add: profile_artifact_def Let_def)
  then obtain r where "profile_revision p = Some r" "immutable_revision_re r"
    using f(10) by (auto simp: identity_is_authoritative_def split: option.splits)
  then show ?thesis by (simp add: f(5) immutable_revision_lower)
qed

text \<open>Every capacity that the node computes within the protocol's ranges passes the gateway's check.\<close>

lemma effective_capacity_accepted:
  assumes "effective_capacity derived conf active queued source confidence op = Inr c"
    and "derived \<le> 100000" and "\<forall>m. conf = Some m \<longrightarrow> m \<le> 100000" and "active \<le> 1000000" and "queued \<le> 1000000"
    and "str_len 1 96 source" and "confidence \<in> set [''authoritative'', ''configured'', ''derived'', ''conservative'']"
  shows "capacity_error c = None"
proof -
  define e where "e = (case conf of None \<Rightarrow> derived | Some m \<Rightarrow> min derived m)"
  have pre: "1 \<le> derived" "\<forall>m. conf = Some m \<longrightarrow> 1 \<le> m" "0 \<le> active" "0 \<le> queued"
    and c: "c = \<lparr>cp_derived_limit = derived, cp_configured_max_concurrency = conf,
       cp_effective_limit = e, cp_active = active, cp_queued = queued,
       cp_available = (if op then max 0 (e - active) else 0), cp_source = source, cp_confidence = confidence,
       cp_saturation = py_round6 (fl (of_int active / of_int e))\<rparr>"
    using assms(1) by (auto simp: effective_capacity_def e_def Let_def split: if_splits option.splits)
  have e: "1 \<le> e" "e \<le> 100000" using pre(1,2) assms(2) by (auto simp: e_def split: option.splits)
  define q :: rat where "q = of_int active / of_int e"
  have q0: "0 \<le> q" and q1: "q \<le> 1000000"
  proof -
    show "0 \<le> q" using pre(3) e by (simp add: q_def)
    have "q \<le> of_int active / 1" unfolding q_def using pre(3) e by (intro divide_left_mono) simp_all
    also have "\<dots> \<le> 1000000" using assms(4) by simp
    finally show "q \<le> 1000000" .
  qed
  have "\<bar>fl q - q\<bar> \<le> 1 / 1000000000" using q0 q1 by (intro fl_error_small) simp
  then have fq: "0 \<le> fl q" "fl q \<le> 2000000" using fl_nonneg [OF q0] q1 by linarith+
  have sat: "0 \<le> py_round6 (fl q)" unfolding py_round6_def
    using fq(1) by (intro fl_nonneg divide_nonneg_nonneg) (simp_all add: round_half_even_nonneg)
  have "capacity_fields_error c = None"
    using pre e assms sat by (auto simp: capacity_fields_error_def c q_def int_between_def opt_all_def split: option.split)
  moreover have "capacity_is_consistent c = None"
    using round6_close [OF fq] by (simp add: capacity_is_consistent_def c q_def e_def split: option.split)
  ultimately show ?thesis by (simp add: capacity_error_def)
qed

lemma effective_capacity_total:
  assumes "1 \<le> derived" and "\<forall>m. conf = Some m \<longrightarrow> 1 \<le> m" and "0 \<le> active" and "0 \<le> queued"
  shows "\<exists>c. effective_capacity derived conf active queued source confidence op = Inr c"
  using assms by (simp add: effective_capacity_def Let_def split: option.split) auto

subsection \<open>Capacity flags\<close>

lemma find_first: "x \<in> set xs \<Longrightarrow> P x \<Longrightarrow> \<exists>y. find P xs = Some y \<and> P y"
  by (induction xs) auto

lemma capacity_options_plain:
  assumes "a \<in> set (capacity_options backend)" and "b \<in> set (capacity_options backend)"
  shows "\<not> py_startswith a (b @ ''='')" and "py_int a = None"
  using assms by (auto simp: capacity_options_def py_startswith_def split: if_splits) (code_simp)+

lemma find_option:
  assumes "flag \<in> set (capacity_options backend)"
  shows "find (\<lambda>name. flag = name \<or> py_startswith flag (name @ ''='')) (capacity_options backend) = Some flag"
  using find_first [OF assms, of "\<lambda>name. flag = name \<or> py_startswith flag (name @ ''='')"]
    capacity_options_plain(1) [OF assms] find_SomeD by (metis (mono_tags, lifting))

lemma semantic_insert:
  assumes "flag \<in> set (capacity_options backend)" and "is_positive n"
    and "xs = [] \<or> last xs \<notin> set (capacity_options backend)"
  shows "semantic_loop (capacity_options backend) (xs @ flag # n # ys) = semantic_loop (capacity_options backend) (xs @ ys)"
  using assms(3)
proof (induction "length xs" arbitrary: xs rule: less_induct)
  case less
  let ?o = "capacity_options backend"
  show ?case
  proof (cases xs)
    case Nil
    then show ?thesis using find_option [OF assms(1)] capacity_options_plain(1) [OF assms(1,1)] assms(2) by simp
  next
    case (Cons item zs)
    have l: "zs = [] \<or> last zs \<notin> set ?o" using less.prems Cons by auto
    have d: "tl zs = [] \<or> last (tl zs) \<notin> set ?o" using l by (cases zs) auto
    have IH: "semantic_loop ?o (zs @ flag # n # ys) = semantic_loop ?o (zs @ ys)"
      "zs \<noteq> [] \<Longrightarrow> semantic_loop ?o (tl zs @ flag # n # ys) = semantic_loop ?o (tl zs @ ys)"
      using less.hyps [OF _ l] less.hyps [OF _ d] Cons by auto
    have "zs \<noteq> []" if "find (\<lambda>name. item = name \<or> py_startswith item (name @ ''='')) ?o = Some name"
      "\<not> py_startswith item (name @ ''='')" for name
      using find_SomeD [OF that(1)] that(2) less.prems Cons by auto
    then show ?thesis unfolding Cons append_Cons semantic_loop.simps(2) [of ?o item] using IH
      by (auto split: option.split simp del: semantic_loop.simps)
  qed
qed

lemma positive_flag_last:
  assumes "flag \<in> set names" and "py_int n = Some k" and "0 < k" and "xs = [] \<or> last xs \<notin> set names"
  shows "positive_int_loop names (xs @ [flag, n]) r = Some k"
  using assms(4)
proof (induction "length xs" arbitrary: xs r rule: less_induct)
  case less
  show ?case
  proof (cases xs)
    case Nil
    then show ?thesis using assms by (simp add: keep_positive_def)
  next
    case (Cons item zs)
    have l: "zs = [] \<or> last zs \<notin> set names" using less.prems Cons by auto
    have d: "tl zs = [] \<or> last (tl zs) \<notin> set names" using l by (cases zs) auto
    have "positive_int_loop names (zs @ [flag, n]) r' = Some k" for r' using less.hyps [OF _ l] Cons by simp
    moreover have "positive_int_loop names (tl zs @ [flag, n]) r' = Some k" for r'
      using less.hyps [OF _ d] Cons by simp
    moreover have "zs \<noteq> []" if "item \<in> set names" using that less.prems Cons by auto
    ultimately show ?thesis using Cons by (auto split: option.split)
  qed
qed

text \<open>Arguments that are neither a recognised option nor a positive number survive, in order.\<close>

definition plain_arg :: "string list \<Rightarrow> string \<Rightarrow> bool" where
  "plain_arg opts a = (list_all (\<lambda>opt. a \<noteq> opt \<and> \<not> py_startswith a (opt @ ''='')) opts \<and> \<not> is_positive a)"

lemma semantic_loop_subseq: "subseq (semantic_loop opts args) args"
proof (induction opts args rule: semantic_loop.induct)
  case (2 opts item rest)
  have "subseq (tl rest) (item # rest)" by (cases rest) (auto intro: list_emb_Cons)
  with 2 show ?case
    by (auto split: option.split intro: subseq_order.trans list_emb_Cons)
qed simp

lemma filter_tl: "xs \<noteq> [] \<Longrightarrow> \<not> P (hd xs) \<Longrightarrow> filter P (tl xs) = filter P xs"
  by (cases xs) auto

lemma semantic_loop_plain: "filter (plain_arg opts) (semantic_loop opts args) = filter (plain_arg opts) args"
proof (induction opts args rule: semantic_loop.induct)
  case (2 opts item rest)
  have item: "\<not> plain_arg opts item"
    if "find (\<lambda>name. item = name \<or> py_startswith item (name @ ''='')) opts = Some name" for name
    using find_SomeD [OF that] by (auto simp: plain_arg_def list_all_iff)
  have "\<not> plain_arg opts (hd rest)" if "is_positive (hd rest)" using that by (simp add: plain_arg_def)
  then show ?case using 2 item filter_tl [of rest "plain_arg opts"] by (auto split: option.split)
qed simp

definition demo_resolved :: resolved_profile where
  "demo_resolved =
     \<lparr>pf_alias = ''m'', pf_served_model_name = ''org/model'', pf_engine_model_path = ''org/model'',
      pf_gpus = GpuAll, pf_quantization = None, pf_max_model_len = None,
      pf_gpu_memory_utilization = Fin (fl (9 / 10)), pf_trust_remote_code = True,
      pf_storage_name = ''nvme'', pf_storage_path = ''/models'', pf_extra_args = [],
      pf_revision = replicate 40 (CHR ''A''), pf_backend = ''vllm'', pf_gguf_filename = None,
      pf_projector_filename = None, pf_projector_model_path = None, pf_kind = ''language'',
      pf_capabilities = [''chat.completions'', ''completions''], pf_image_defaults = None,
      pf_upstream_model = Some ''org/model''\<rparr>"

lemma demo_normalized: "normalize_capabilities [''chat.completions'', ''completions''] = Inr [''chat/completions'', ''completions'']"
  by code_simp

lemma demo_portable: "portable_upstream demo_resolved"
proof -
  have "rx_fullmatch RAW_HF_ID_RE ''org/model''" by code_simp
  then show ?thesis by (simp add: portable_upstream_def demo_resolved_def or_text_def truthy_def)
qed

lemma demo_revision: "profile_revision demo_resolved = Some (replicate 40 (CHR ''A''))" "immutable_revision_re (replicate 40 (CHR ''A''))"
  by (simp_all add: profile_revision_def demo_resolved_def immutable_revision_re_def list_all_iff hex_char_def in_range_def)

lemma json_finite_identity: "json_finite (identity_json ident)"
  by (simp add: identity_json_def artifact_json_def opt_str_def list_all_iff split: option.split)

lemma vllm_load_finite: "pf_backend p = ''vllm'' \<Longrightarrow> json_finite (semantic_load_config p)"
  by (simp add: semantic_load_config_def context_length_def opt_int_def Let_def list_all_iff split: option.split)

text \<open>The identity of the sample profile with given engine arguments.\<close>

definition demo_node_identity :: "string list \<Rightarrow> deployment_identity" where
  "demo_node_identity args =
     \<lparr>di_protocol = 1, di_engine = ''vllm'', di_upstream_model = ''org/model'',
      di_resolved_revision = Some (py_lower (replicate 40 (CHR ''A''))),
      di_artifact = \<lparr>ar_format = ''safetensors'', ar_selected_files = [], ar_quantization = None,
                     ar_content_digest = None\<rparr>,
      di_kind = ''language'', di_capabilities = [''chat/completions'', ''completions''],
      di_load_config_digest = sha256_text demo_sha
        (canonical_json (semantic_load_config (demo_resolved\<lparr>pf_extra_args := args\<rparr>)))\<rparr>"

lemma demo_profile_deployment:
  "profile_deployment demo_sha (demo_resolved\<lparr>pf_extra_args := args\<rparr>) =
     Inr (sha256_text demo_sha (canonical_json (identity_json (demo_node_identity args))), demo_node_identity args, True)"
proof -
  let ?p = "demo_resolved\<lparr>pf_extra_args := args\<rparr>"
  have art: "profile_artifact ?p = \<lparr>ar_format = ''safetensors'', ar_selected_files = [],
      ar_quantization = None, ar_content_digest = None\<rparr>"
    by (simp add: profile_artifact_def demo_resolved_def truthy_def)
  have port: "portable_upstream ?p" using demo_portable by (simp add: portable_upstream_def)
  then have up: "fleet_upstream demo_sha ?p = ''org/model''"
    by (simp add: fleet_upstream_def demo_resolved_def or_text_def truthy_def)
  have rev: "profile_revision ?p = Some (replicate 40 (CHR ''A''))"
    by (simp add: profile_revision_def demo_resolved_def)
  have fin: "json_finite (semantic_load_config ?p)" by (rule vllm_load_finite) (simp add: demo_resolved_def)
  have f: "pf_backend ?p = ''vllm''" "pf_kind ?p = ''language''" "pf_capabilities ?p = [''chat.completions'', ''completions'']"
    by (simp_all add: demo_resolved_def)
  have ne: "replicate 40 (CHR ''A'') \<noteq> []" by simp
  show ?thesis
    unfolding profile_deployment_def node_deployment_identity_def Let_def f art up rev demo_normalized
      sha256_id_def fin demo_node_identity_def identity_is_authoritative_def
    using demo_revision(2) port ne json_finite_identity fin by simp
qed

section \<open>Properties\<close>

text \<open>
  C35: concurrency is not part of a deployment's identity. Inserting a well-formed capacity option
  into a profile's engine arguments, anywhere but behind an option that lacks its value, changes
  neither the deployment identifier nor the identity document nor its confidence; at the end of
  the arguments it sets the derived limit.
\<close>

theorem capacity_not_in_identity:
  assumes "flag \<in> set (capacity_options (pf_backend p))" and "py_int n = Some k" and "0 < k"
    and "xs = [] \<or> last xs \<notin> set (capacity_options (pf_backend p))"
  shows "profile_deployment sha (p\<lparr>pf_extra_args := xs @ flag # n # ys\<rparr>)
       = profile_deployment sha (p\<lparr>pf_extra_args := xs @ ys\<rparr>)
    \<and> fst (cuda_limit (pf_backend p) (xs @ [flag, n])) = k"
proof -
  have "is_positive n" using assms(2,3) by (simp add: is_positive_def)
  from semantic_insert [OF assms(1) this assms(4), of ys]
  have e: "semantic_extra_args (xs @ flag # n # ys) (pf_backend p) = semantic_extra_args (xs @ ys) (pf_backend p)"
    by (simp add: semantic_extra_args_def)
  have l: "semantic_load_config (p\<lparr>pf_extra_args := xs @ flag # n # ys\<rparr>)
      = semantic_load_config (p\<lparr>pf_extra_args := xs @ ys\<rparr>)"
    by (simp add: semantic_load_config_def Let_def e)
  have eqs: "profile_artifact (p\<lparr>pf_extra_args := a\<rparr>) = profile_artifact p"
    "fleet_upstream sha (p\<lparr>pf_extra_args := a\<rparr>) = fleet_upstream sha p"
    "portable_upstream (p\<lparr>pf_extra_args := a\<rparr>) = portable_upstream p"
    "profile_revision (p\<lparr>pf_extra_args := a\<rparr>) = profile_revision p" for a
    by (simp_all add: profile_artifact_def fleet_upstream_def portable_upstream_def profile_revision_def Let_def)
  have "profile_deployment sha (p\<lparr>pf_extra_args := xs @ flag # n # ys\<rparr>)
      = profile_deployment sha (p\<lparr>pf_extra_args := xs @ ys\<rparr>)"
    unfolding profile_deployment_def Let_def eqs l by simp
  moreover have "positive_int_flag (xs @ [flag, n]) (capacity_options (pf_backend p)) = Some k"
    unfolding positive_int_flag_def by (rule positive_flag_last [OF assms])
  then have "fst (cuda_limit (pf_backend p) (xs @ [flag, n])) = k"
    using assms(1) by (auto simp: cuda_limit_def capacity_options_def split: if_splits)
  ultimately show ?thesis ..
qed

theorem capacity_not_in_identity_witness:
  "profile_deployment demo_sha (demo_resolved\<lparr>pf_extra_args := [''--x'', ''--max-num-seqs'', ''8'', ''--y'']\<rparr>)
     = profile_deployment demo_sha (demo_resolved\<lparr>pf_extra_args := [''--x'', ''--y'']\<rparr>)
   \<and> fst (cuda_limit ''vllm'' [''--x'', ''--max-num-seqs'', ''8'']) = 8"
proof -
  have i: "py_int ''8'' = Some 8" by code_simp
  have "capacity_options (pf_backend demo_resolved) = [''--max-num-seqs'']" "pf_backend demo_resolved = ''vllm''"
    by (simp_all add: capacity_options_def demo_resolved_def)
  then show ?thesis
    using capacity_not_in_identity [of "''--max-num-seqs''" demo_resolved "''8''" 8 "[''--x'']" demo_sha "[''--y'']"] i by simp
qed

text \<open>
  The arguments that enter the identity are the profile's own, in order and nothing else: the
  result is a subsequence, and every argument that is neither a capacity option of the backend nor
  a positive number is kept.
\<close>

theorem semantic_args_faithful:
  "subseq (semantic_extra_args args backend) args
   \<and> filter (plain_arg (capacity_options backend)) (semantic_extra_args args backend)
       = filter (plain_arg (capacity_options backend)) args"
  by (simp add: semantic_extra_args_def semantic_loop_subseq semantic_loop_plain)

text \<open>
  A deployment identifier stands for one externally observable contract: two profiles, on any
  nodes, with the same identifier have the same engine, upstream model, revision, artifact, kind,
  capabilities and normalised load configuration, unless two of the hashed documents collide.
\<close>

theorem same_id_same_contract:
  assumes "profile_deployment sha p = Inr (i, ident, a)" and "profile_deployment sha q = Inr (i, ident', b)"
    and "sha (utf8 (canonical_json (identity_json ident))) = sha (utf8 (canonical_json (identity_json ident'))) \<Longrightarrow>
         utf8 (canonical_json (identity_json ident)) = utf8 (canonical_json (identity_json ident'))"
    and "sha (utf8 (canonical_json (semantic_load_config p))) = sha (utf8 (canonical_json (semantic_load_config q))) \<Longrightarrow>
         utf8 (canonical_json (semantic_load_config p)) = utf8 (canonical_json (semantic_load_config q))"
  shows "ident = ident' \<and> pf_backend p = pf_backend q \<and> pf_kind p = pf_kind q
    \<and> fleet_upstream sha p = fleet_upstream sha q \<and> profile_artifact p = profile_artifact q
    \<and> normalize_capabilities (pf_capabilities p) = normalize_capabilities (pf_capabilities q)
    \<and> canonical_json (semantic_load_config p) = canonical_json (semantic_load_config q)"
proof -
  note f = profile_deployment_fields [OF assms(1)] and g = profile_deployment_fields [OF assms(2)]
  have "sha256_text sha (canonical_json (identity_json ident)) = sha256_text sha (canonical_json (identity_json ident'))"
    using f(1) g(1) by simp
  then have "sha (utf8 (canonical_json (identity_json ident))) = sha (utf8 (canonical_json (identity_json ident')))"
    unfolding sha256_text_def by (simp only: same_append_eq)
  from assms(3) [OF this] have eq: "ident = ident'" by (rule canonical_identity_inj [OF utf8_inj])
  have "sha256_text sha (canonical_json (semantic_load_config p)) = sha256_text sha (canonical_json (semantic_load_config q))"
    using f(9) g(9) eq by simp
  then have "sha (utf8 (canonical_json (semantic_load_config p))) = sha (utf8 (canonical_json (semantic_load_config q)))"
    unfolding sha256_text_def by (simp only: same_append_eq)
  from utf8_inj [OF assms(4) [OF this]] eq show ?thesis using f(3,4,6,7,8) g(3,4,6,7,8) by simp
qed

theorem same_id_same_contract_witness:
  "canonical_json (semantic_load_config (demo_resolved\<lparr>pf_extra_args := [''--max-num-seqs'', ''8'']\<rparr>))
     = canonical_json (semantic_load_config (demo_resolved\<lparr>pf_extra_args := []\<rparr>))"
proof -
  let ?p = "demo_resolved\<lparr>pf_extra_args := [''--max-num-seqs'', ''8'']\<rparr>"
  let ?q = "demo_resolved\<lparr>pf_extra_args := []\<rparr>"
  have "semantic_extra_args [''--max-num-seqs'', ''8''] ''vllm'' = []" "semantic_extra_args [] ''vllm'' = []" by code_simp+
  then have l: "semantic_load_config ?p = semantic_load_config ?q"
    by (simp add: semantic_load_config_def demo_resolved_def)
  have d: "demo_node_identity [''--max-num-seqs'', ''8''] = demo_node_identity []" by (simp add: demo_node_identity_def l)
  from same_id_same_contract [OF demo_profile_deployment [of "[''--max-num-seqs'', ''8'']"]
      demo_profile_deployment [of "[]", folded d]] l show ?thesis by simp
qed

end
