(* ===== verification/Cuda_Residency.thy ===== *)
theory Cuda_Residency
  imports Prelude Complex_Main
begin

text \<open>
  The CUDA manager's residency coordinator, \<open>src/cuda_residency.py\<close>: one resident model at a time,
  a bounded FIFO of waiters, an epoch-tagged count of active leases, a driver task that grants the
  queue head or switches the model, and maintenance barriers (unload, idle eviction, shutdown) that
  close admission, drain the leases and stop the engine.

  Every atomic section of the coroutines (the code between two \<open>await\<close>s) is one function on the
  state record \<open>coord\<close>. The suspended coroutines are part of the state: \<open>cr_drv\<close> is where the
  driver task stands, \<open>cr_mnt\<close> where the caller that holds the maintenance lock stands, waiters and
  leases are the clients. Outcomes of the engine callbacks and expirations of deadlines are carried
  by the events. Profiles are opaque to the coordinator and represented by a name. The values handed
  to the two observer callbacks are recorded in \<open>cr_cb_inflight\<close> and \<open>cr_cb_transition\<close>.
\<close>

section \<open>Data\<close>

type_synonym profile = string
type_synonym deployment = string

datatype exn =
    QueueFull
  | QueueTimeout
  | NotAccepting
  | ValueErr string
  | AssertionErr
  | EngineErr string
  | HttpErr int string

datatype coordinator_state =
  IDLE | DRAINING | UNLOADING | LOADING | READY | DEGRADED | STOPPING

record capacity_spec =
  cs_derived_limit :: int
  cs_source :: string
  cs_confidence :: string

definition mk_capacity_spec :: "int \<Rightarrow> string \<Rightarrow> string \<Rightarrow> exn + capacity_spec" where
  "mk_capacity_spec limit src conf =
     (if limit < 1 then Inl (ValueErr ''derived_limit must be positive'')
      else Inr \<lparr>cs_derived_limit = limit, cs_source = src, cs_confidence = conf\<rparr>)"

definition no_resident_capacity :: capacity_spec where
  "no_resident_capacity =
     \<lparr>cs_derived_limit = 1, cs_source = ''no-resident-conservative'',
      cs_confidence = ''conservative''\<rparr>"

text \<open>The \<open>asyncio.Future\<close> a waiter's client awaits.\<close>

datatype fut = Pending | Granted profile int | Failed exn | FutCancelled

text \<open>\<open>w_taken\<close>: the awaiting client has been resumed with the future's result.\<close>

record waiter =
  w_profile :: profile
  w_deployment :: deployment
  w_future :: fut
  w_cancelled :: bool
  w_taken :: bool

datatype lease_phase = Held | Releasing | Released

record lease =
  l_resident_profile :: profile
  l_requested_profile :: profile
  l_deployment :: deployment
  l_epoch :: int
  l_phase :: lease_phase

text \<open>
  The driver task: absent, at the top of its loop, parked on the condition (\<open>True\<close> once notified),
  inside \<open>_transition\<close> waiting for the operation lock (\<open>False\<close>) or for \<open>stop_engine\<close> (\<open>True\<close>),
  waiting for \<open>start_engine\<close>, inside the cleanup of a failed transition, before one of its two
  publications, or before its \<open>finally\<close> block.
\<close>

datatype driver_pc =
    DrvNone
  | DrvTop
  | DrvWait bool
  | DrvStop profile deployment bool
  | DrvStart profile deployment
  | DrvCleanup profile deployment exn bool
  | DrvPublishFail profile deployment exn bool
  | DrvPublish profile deployment capacity_spec
  | DrvFinally

text \<open>
  The holder of the maintenance lock, with the arguments \<open>reopen\<close> and \<open>stopping\<close> of
  \<open>_drain_and_unload\<close>: before its first block (with \<open>admission_already_closed\<close>), parked while
  leases drain, awaiting the driver task it captured, waiting for the operation lock, waiting for
  \<open>stop_engine\<close>, before one of its two final blocks.
\<close>

datatype maint_pc =
    MntNone
  | MntEnter bool bool bool
  | MntDrain bool bool bool
  | MntDriver bool bool nat
  | MntLock bool bool
  | MntStop bool bool
  | MntDegrade bool bool string
  | MntPublish bool bool

datatype op_lock = OpFree | OpDriver | OpMaint

record coord =
  cr_queue :: "nat list"
  cr_waiters :: "waiter list"
  cr_leases :: "lease list"
  cr_resident_profile :: "profile option"
  cr_resident_deployment_id :: "deployment option"
  cr_capacity :: capacity_spec
  cr_configured_max_concurrency :: "int option"
  cr_max_queue_depth :: int
  cr_epoch :: int
  cr_active :: int
  cr_state :: coordinator_state
  cr_diagnostic_code :: "string option"
  cr_transition_target :: "deployment option"
  cr_accepting :: bool
  cr_authoritative :: bool
  cr_stopping :: bool
  cr_last_used :: rat
  cr_sequence :: int
  cr_drv :: driver_pc
  cr_drv_gen :: nat
  cr_mnt :: maint_pc
  cr_oplock :: op_lock
  cr_cb_inflight :: int
  cr_cb_transition :: "profile option"

definition init_coord :: "int option \<Rightarrow> int \<Rightarrow> rat \<Rightarrow> exn + coord" where
  "init_coord conf depth now =
     (if (case conf of None \<Rightarrow> False | Some m \<Rightarrow> m < 1)
      then Inl (ValueErr ''configured_max_concurrency must be positive or null'')
      else if depth < 1 then Inl (ValueErr ''max_queue_depth must be at least one'')
      else Inr \<lparr>cr_queue = [], cr_waiters = [], cr_leases = [],
        cr_resident_profile = None, cr_resident_deployment_id = None,
        cr_capacity = no_resident_capacity, cr_configured_max_concurrency = conf,
        cr_max_queue_depth = depth, cr_epoch = 0, cr_active = 0, cr_state = IDLE,
        cr_diagnostic_code = None, cr_transition_target = None, cr_accepting = True,
        cr_authoritative = True, cr_stopping = False, cr_last_used = now, cr_sequence = 0,
        cr_drv = DrvNone, cr_drv_gen = 0, cr_mnt = MntNone, cr_oplock = OpFree,
        cr_cb_inflight = 0, cr_cb_transition = None\<rparr>)"

section \<open>Helpers called with the condition held\<close>

definition bump_locked :: "coord \<Rightarrow> coord" where
  "bump_locked c = c\<lparr>cr_sequence := cr_sequence c + 1\<rparr>"

text \<open>The profile reported to the transition observer: the first live waiter for the target.\<close>

definition transition_profile :: "deployment option \<Rightarrow> coord \<Rightarrow> profile option" where
  "transition_profile target c =
     (case target of None \<Rightarrow> None
      | Some t \<Rightarrow>
          map_option w_profile
            (find (\<lambda>w. w_deployment w = t \<and> \<not> w_cancelled w)
                  (map (\<lambda>i. cr_waiters c ! i) (cr_queue c))))"

definition set_state_locked ::
  "coordinator_state \<Rightarrow> deployment option \<Rightarrow> string option \<Rightarrow> coord \<Rightarrow> coord" where
  "set_state_locked st target diag c =
     (let changed = (cr_state c \<noteq> st \<or> cr_transition_target c \<noteq> target
                     \<or> cr_diagnostic_code c \<noteq> diag);
          c1 = c\<lparr>cr_state := st, cr_transition_target := target, cr_diagnostic_code := diag\<rparr>;
          c2 = (if changed then bump_locked c1 else c1)
      in c2\<lparr>cr_cb_transition := transition_profile target c2\<rparr>)"

definition effective_limit_locked :: "coord \<Rightarrow> int" where
  "effective_limit_locked c =
     (case cr_configured_max_concurrency c of
        None \<Rightarrow> cs_derived_limit (cr_capacity c)
      | Some m \<Rightarrow> min (cs_derived_limit (cr_capacity c)) m)"

definition notify_inflight_locked :: "coord \<Rightarrow> coord" where
  "notify_inflight_locked c = c\<lparr>cr_cb_inflight := cr_active c\<rparr>"

text \<open>\<open>Condition.notify_all\<close>: parked coroutines become runnable.\<close>

definition notify_all :: "coord \<Rightarrow> coord" where
  "notify_all c =
     c\<lparr>cr_drv := (case cr_drv c of DrvWait b \<Rightarrow> DrvWait True | d \<Rightarrow> d),
       cr_mnt := (case cr_mnt c of MntDrain r s b \<Rightarrow> MntDrain r s True | m \<Rightarrow> m)\<rparr>"

definition ensure_driver_locked :: "coord \<Rightarrow> coord" where
  "ensure_driver_locked c =
     (if cr_drv c = DrvNone then c\<lparr>cr_drv := DrvTop, cr_drv_gen := Suc (cr_drv_gen c)\<rparr> else c)"

definition purge_cancelled_locked :: "coord \<Rightarrow> coord" where
  "purge_cancelled_locked c =
     c\<lparr>cr_queue := filter (\<lambda>i. \<not> w_cancelled (cr_waiters c ! i)
                              \<and> w_future (cr_waiters c ! i) \<noteq> FutCancelled) (cr_queue c)\<rparr>"

definition assert_accepting_locked :: "coord \<Rightarrow> exn option" where
  "assert_accepting_locked c =
     (if cr_stopping c then Some NotAccepting
      else if \<not> cr_accepting c \<or> \<not> cr_authoritative c then Some NotAccepting
      else None)"

definition release_locked :: "int \<Rightarrow> rat \<Rightarrow> coord \<Rightarrow> coord" where
  "release_locked epoch now c =
     (if epoch \<noteq> cr_epoch c \<or> cr_active c \<le> 0 then c
      else notify_inflight_locked (bump_locked
             (c\<lparr>cr_active := cr_active c - 1, cr_last_used := now\<rparr>)))"

text \<open>The loop of \<open>_grant_head_locked\<close>: queue, active count, waiters and number granted so far.\<close>

fun grant_loop ::
  "deployment \<Rightarrow> int \<Rightarrow> profile \<Rightarrow> int \<Rightarrow> nat list \<Rightarrow> int \<Rightarrow> waiter list \<Rightarrow> int
   \<Rightarrow> nat list \<times> int \<times> waiter list \<times> int" where
  "grant_loop d limit rp ep [] act ws n = ([], act, ws, n)"
| "grant_loop d limit rp ep (i # q) act ws n =
     (if w_deployment (ws ! i) = d \<and> act < limit then
        (if w_cancelled (ws ! i) \<or> w_future (ws ! i) = FutCancelled
         then grant_loop d limit rp ep q act ws n
         else grant_loop d limit rp ep q (act + 1)
                (ws[i := (ws ! i)\<lparr>w_future := Granted rp ep\<rparr>]) (n + 1))
      else (i # q, act, ws, n))"

definition grant_head_locked :: "deployment \<Rightarrow> profile \<Rightarrow> coord \<Rightarrow> int \<times> coord" where
  "grant_head_locked d rp c =
     (case grant_loop d (effective_limit_locked c) rp (cr_epoch c) (cr_queue c) (cr_active c)
             (cr_waiters c) 0 of
        (q, act, ws, n) \<Rightarrow>
          let c1 = c\<lparr>cr_queue := q, cr_active := act, cr_waiters := ws\<rparr>
          in (n, if n \<noteq> 0 then notify_all (notify_inflight_locked (bump_locked c1)) else c1))"

definition fut_done :: "fut \<Rightarrow> bool" where
  "fut_done f = (f \<noteq> Pending)"

text \<open>Popping the waiters of the head group (or all of them) and failing the pending ones.\<close>

fun fail_head_loop ::
  "deployment \<Rightarrow> exn \<Rightarrow> nat list \<Rightarrow> waiter list \<Rightarrow> nat list \<times> waiter list" where
  "fail_head_loop d x [] ws = ([], ws)"
| "fail_head_loop d x (i # q) ws =
     (if w_deployment (ws ! i) = d then
        fail_head_loop d x q
          (if fut_done (w_future (ws ! i)) then ws
           else ws[i := (ws ! i)\<lparr>w_future := Failed x\<rparr>])
      else (i # q, ws))"

definition fail_head_locked :: "deployment \<Rightarrow> exn \<Rightarrow> coord \<Rightarrow> coord" where
  "fail_head_locked d x c =
     (case fail_head_loop d x (cr_queue c) (cr_waiters c) of
        (q, ws) \<Rightarrow> c\<lparr>cr_queue := q, cr_waiters := ws\<rparr>)"

fun fail_all_loop :: "exn \<Rightarrow> nat list \<Rightarrow> waiter list \<Rightarrow> waiter list" where
  "fail_all_loop x [] ws = ws"
| "fail_all_loop x (i # q) ws =
     fail_all_loop x q
       (if fut_done (w_future (ws ! i)) then ws
        else ws[i := (ws ! i)\<lparr>w_future := Failed x\<rparr>])"

definition fail_all_locked :: "exn \<Rightarrow> coord \<Rightarrow> coord" where
  "fail_all_locked x c =
     bump_locked (c\<lparr>cr_queue := [], cr_waiters := fail_all_loop x (cr_queue c) (cr_waiters c)\<rparr>)"

section \<open>Client operations\<close>

datatype acquire_result = AcqRaise exn | AcqLease nat | AcqWait nat

text \<open>Issuing a lease: the new lease's index in \<open>cr_leases\<close> and the state with it.\<close>

definition issue_lease ::
  "profile \<Rightarrow> profile \<Rightarrow> deployment \<Rightarrow> int \<Rightarrow> coord \<Rightarrow> coord" where
  "issue_lease resident requested d ep c =
     c\<lparr>cr_leases := cr_leases c @ [\<lparr>l_resident_profile = resident, l_requested_profile = requested,
         l_deployment = d, l_epoch = ep, l_phase = Held\<rparr>]\<rparr>"

definition reconfigure :: "int option \<Rightarrow> int \<Rightarrow> coord \<Rightarrow> exn + coord" where
  "reconfigure conf depth c =
     (if (case conf of None \<Rightarrow> False | Some m \<Rightarrow> m < 1)
      then Inl (ValueErr ''configured_max_concurrency must be positive or null'')
      else if depth < 1 then Inl (ValueErr ''max_queue_depth must be at least one'')
      else Inr (notify_all (ensure_driver_locked (bump_locked
             (c\<lparr>cr_configured_max_concurrency := conf, cr_max_queue_depth := depth\<rparr>)))))"

text \<open>\<open>acquire\<close> up to its first suspension: an immediate lease, a queued waiter, or an exception.\<close>

definition acquire_enter :: "profile \<Rightarrow> deployment \<Rightarrow> coord \<Rightarrow> acquire_result \<times> coord" where
  "acquire_enter p d c =
     (case assert_accepting_locked c of
        Some x \<Rightarrow> (AcqRaise x, c)
      | None \<Rightarrow>
          let c1 = purge_cancelled_locked c in
          if cr_queue c1 = [] \<and> cr_resident_deployment_id c1 = Some d \<and> cr_state c1 = READY
             \<and> cr_active c1 < effective_limit_locked c1
          then
            let c2 = notify_inflight_locked (bump_locked (c1\<lparr>cr_active := cr_active c1 + 1\<rparr>)) in
            (case cr_resident_profile c2 of
               None \<Rightarrow> (AcqRaise AssertionErr, c2)
             | Some rp \<Rightarrow> (AcqLease (length (cr_leases c2)), issue_lease rp p d (cr_epoch c2) c2))
          else if cr_max_queue_depth c1 \<le> int (length (cr_queue c1)) then (AcqRaise QueueFull, c1)
          else
            let i = length (cr_waiters c1);
                w = \<lparr>w_profile = p, w_deployment = d, w_future = Pending, w_cancelled = False,
                     w_taken = False\<rparr>
            in (AcqWait i,
                notify_all (ensure_driver_locked (bump_locked
                  (c1\<lparr>cr_waiters := cr_waiters c1 @ [w], cr_queue := cr_queue c1 @ [i]\<rparr>)))))"

text \<open>\<open>acquire\<close> after its suspension: the client is resumed by its future.\<close>

definition acquire_resume :: "nat \<Rightarrow> coord \<Rightarrow> acquire_result \<times> coord" where
  "acquire_resume i c =
     (let w = cr_waiters c ! i;
          c1 = c\<lparr>cr_waiters := (cr_waiters c)[i := w\<lparr>w_taken := True\<rparr>]\<rparr>
      in case w_future w of
           Granted rp ep \<Rightarrow>
             (AcqLease (length (cr_leases c)), issue_lease rp (w_profile w) (w_deployment w) ep c1)
         | Failed x \<Rightarrow> (AcqRaise x, c1)
         | Pending \<Rightarrow> (AcqWait i, c)
         | FutCancelled \<Rightarrow> (AcqWait i, c))"

definition acquire_current :: "coord \<Rightarrow> acquire_result \<times> coord" where
  "acquire_current c =
     (case assert_accepting_locked c of
        Some x \<Rightarrow> (AcqRaise x, c)
      | None \<Rightarrow>
          (case (cr_resident_profile c, cr_resident_deployment_id c) of
             (Some rp, Some d) \<Rightarrow>
               if cr_queue c \<noteq> [] \<or> cr_state c \<noteq> READY \<or> effective_limit_locked c \<le> cr_active c
               then (AcqRaise QueueFull, c)
               else
                 let c1 = notify_inflight_locked (bump_locked (c\<lparr>cr_active := cr_active c + 1\<rparr>))
                 in (AcqLease (length (cr_leases c1)), issue_lease rp rp d (cr_epoch c1) c1)
           | _ \<Rightarrow> (AcqRaise QueueFull, c)))"

text \<open>The client's timeout or cancellation: \<open>_cancel_waiter\<close>.\<close>

definition cancel_waiter :: "nat \<Rightarrow> rat \<Rightarrow> coord \<Rightarrow> coord" where
  "cancel_waiter i now c =
     (let w = cr_waiters c ! i in
      if w_cancelled w then c
      else
        let c1 = c\<lparr>cr_waiters := (cr_waiters c)[i := w\<lparr>w_cancelled := True\<rparr>]\<rparr>;
            c2 = (case w_future w of
                    Granted rp ep \<Rightarrow> release_locked ep now c1
                  | Failed x \<Rightarrow> c1
                  | FutCancelled \<Rightarrow> c1
                  | Pending \<Rightarrow>
                      c1\<lparr>cr_waiters := (cr_waiters c1)
                           [i := w\<lparr>w_cancelled := True, w_future := FutCancelled\<rparr>]\<rparr>)
        in notify_all (bump_locked (purge_cancelled_locked c2)))"

text \<open>
  \<open>ModelLease.release\<close>: the first call creates the release task, later calls await the same task;
  the task runs \<open>_release\<close> once.
\<close>

definition lease_release :: "nat \<Rightarrow> coord \<Rightarrow> coord" where
  "lease_release k c =
     (let l = cr_leases c ! k in
      case l_phase l of
        Held \<Rightarrow> c\<lparr>cr_leases := (cr_leases c)[k := l\<lparr>l_phase := Releasing\<rparr>]\<rparr>
      | Releasing \<Rightarrow> c
      | Released \<Rightarrow> c)"

definition release_coord :: "int \<Rightarrow> rat \<Rightarrow> coord \<Rightarrow> coord" where
  "release_coord ep now c =
     (let c1 = release_locked ep now c;
          c2 = (if cr_queue c1 \<noteq> [] \<and> cr_accepting c1 then ensure_driver_locked c1 else c1)
      in notify_all c2)"

definition lease_release_task :: "nat \<Rightarrow> rat \<Rightarrow> coord \<Rightarrow> coord" where
  "lease_release_task k now c =
     (let l = cr_leases c ! k in
      release_coord (l_epoch l) now
        (c\<lparr>cr_leases := (cr_leases c)[k := l\<lparr>l_phase := Released\<rparr>]\<rparr>))"

section \<open>The driver task\<close>

text \<open>One turn of the loop of \<open>_drive\<close> under the condition.\<close>

definition drive_top :: "coord \<Rightarrow> coord" where
  "drive_top c0 =
     (let c = purge_cancelled_locked c0 in
      if \<not> cr_accepting c \<or> \<not> cr_authoritative c \<or> cr_stopping c then
        (fail_all_locked NotAccepting c)\<lparr>cr_drv := DrvFinally\<rparr>
      else
        case cr_queue c of
          [] \<Rightarrow>
            (set_state_locked (if cr_resident_profile c \<noteq> None then READY else IDLE) None None c)
              \<lparr>cr_drv := DrvFinally\<rparr>
        | i # _ \<Rightarrow>
            let head = cr_waiters c ! i; d = w_deployment head in
            if cr_resident_deployment_id c = Some d then
              (case cr_resident_profile c of
                 None \<Rightarrow> c\<lparr>cr_drv := DrvFinally\<rparr>
               | Some rp \<Rightarrow>
                   let (granted, c1) = grant_head_locked d rp c in
                   if granted \<noteq> 0 then c1\<lparr>cr_drv := DrvTop\<rparr>
                   else (set_state_locked READY None None c1)\<lparr>cr_drv := DrvWait False\<rparr>)
            else if 0 < cr_active c then
              (set_state_locked DRAINING (Some d) None c)\<lparr>cr_drv := DrvWait False\<rparr>
            else
              (set_state_locked UNLOADING (Some d) None c)
                \<lparr>cr_drv := DrvStop (w_profile head) d False\<rparr>)"

text \<open>\<open>_transition\<close> and \<open>_cleanup_after_failed_transition\<close>: the operation lock and the callbacks.\<close>

definition driver_lock :: "coord \<Rightarrow> coord option" where
  "driver_lock c =
     (if cr_oplock c \<noteq> OpFree then None
      else case cr_drv c of
             DrvStop p d False \<Rightarrow> Some (c\<lparr>cr_oplock := OpDriver, cr_drv := DrvStop p d True\<rparr>)
           | DrvCleanup p d x False \<Rightarrow>
               Some (c\<lparr>cr_oplock := OpDriver, cr_drv := DrvCleanup p d x True\<rparr>)
           | _ \<Rightarrow> None)"

definition transition_stopped :: "profile \<Rightarrow> deployment \<Rightarrow> exn option \<Rightarrow> coord \<Rightarrow> coord" where
  "transition_stopped p d outcome c =
     (case outcome of
        None \<Rightarrow> (notify_all (set_state_locked LOADING (Some d) None c))\<lparr>cr_drv := DrvStart p d\<rparr>
      | Some x \<Rightarrow> c\<lparr>cr_oplock := OpFree, cr_drv := DrvCleanup p d x False\<rparr>)"

definition transition_started ::
  "profile \<Rightarrow> deployment \<Rightarrow> exn + (int \<times> string \<times> string) \<Rightarrow> coord \<Rightarrow> coord" where
  "transition_started p d outcome c =
     (case (case outcome of Inl x \<Rightarrow> Inl x | Inr (l, src, conf) \<Rightarrow> mk_capacity_spec l src conf) of
        Inl x \<Rightarrow> c\<lparr>cr_oplock := OpFree, cr_drv := DrvCleanup p d x False\<rparr>
      | Inr cap \<Rightarrow> c\<lparr>cr_oplock := OpFree, cr_drv := DrvPublish p d cap\<rparr>)"

definition cleanup_done :: "profile \<Rightarrow> deployment \<Rightarrow> exn \<Rightarrow> bool \<Rightarrow> coord \<Rightarrow> coord" where
  "cleanup_done p d x clean c = c\<lparr>cr_oplock := OpFree, cr_drv := DrvPublishFail p d x clean\<rparr>"

definition drive_publish_failure :: "deployment \<Rightarrow> exn \<Rightarrow> bool \<Rightarrow> coord \<Rightarrow> coord" where
  "drive_publish_failure d x clean c =
     (let c1 = c\<lparr>cr_resident_profile := None, cr_resident_deployment_id := None,
                 cr_capacity := no_resident_capacity, cr_transition_target := None,
                 cr_authoritative := clean, cr_accepting := clean \<and> \<not> cr_stopping c\<rparr>;
          c2 = set_state_locked (if clean then IDLE else DEGRADED) None
                 (if clean then None else Some ''transition_cleanup_failed'') c1
      in (notify_all (bump_locked (fail_head_locked d x c2)))\<lparr>cr_drv := DrvTop\<rparr>)"

definition drive_publish :: "profile \<Rightarrow> deployment \<Rightarrow> capacity_spec \<Rightarrow> coord \<Rightarrow> coord" where
  "drive_publish p d cap c =
     (let c1 = c\<lparr>cr_resident_profile := Some p, cr_resident_deployment_id := Some d,
                 cr_capacity := cap, cr_epoch := cr_epoch c + 1\<rparr>;
          c2 = (if cr_accepting c1 \<and> cr_authoritative c1 \<and> \<not> cr_stopping c1
                then set_state_locked READY None None c1
                else set_state_locked (if cr_stopping c1 then STOPPING else DEGRADED) None
                       (Some (case cr_diagnostic_code c1 of
                                Some code \<Rightarrow> if code \<noteq> [] then code
                                             else ''admission_barrier_incomplete''
                              | None \<Rightarrow> ''admission_barrier_incomplete'')) c1)
      in (notify_all (bump_locked c2))\<lparr>cr_drv := DrvTop\<rparr>)"

definition drive_finally :: "coord \<Rightarrow> coord" where
  "drive_finally c =
     (let c1 = c\<lparr>cr_drv := DrvNone\<rparr> in
      if cr_queue c1 \<noteq> [] \<and> cr_accepting c1 \<and> \<not> cr_stopping c1 then ensure_driver_locked c1 else c1)"

section \<open>Maintenance: unload, idle eviction, shutdown\<close>

text \<open>The entry points, once the caller holds the maintenance lock.\<close>

definition unload :: "coord \<Rightarrow> coord" where
  "unload c = c\<lparr>cr_mnt := MntEnter True False False\<rparr>"

definition evict_eligible :: "rat \<Rightarrow> rat \<Rightarrow> coord \<Rightarrow> bool" where
  "evict_eligible idle_seconds now c =
     (cr_resident_profile c \<noteq> None \<and> cr_active c = 0 \<and> cr_queue c = [] \<and> cr_accepting c
      \<and> cr_authoritative c \<and> idle_seconds \<le> now - cr_last_used c)"

definition evict_if_idle :: "rat \<Rightarrow> rat \<Rightarrow> coord \<Rightarrow> coord" where
  "evict_if_idle idle_seconds now c =
     (if \<not> evict_eligible idle_seconds now c then c
      else (bump_locked (c\<lparr>cr_accepting := False\<rparr>))\<lparr>cr_mnt := MntEnter True False True\<rparr>)"

definition shutdown :: "coord \<Rightarrow> coord" where
  "shutdown c = c\<lparr>cr_stopping := True, cr_mnt := MntEnter False True False\<rparr>"

text \<open>The two identical exits of the drain loop when the deadline has passed.\<close>

definition drain_expired :: "bool \<Rightarrow> bool \<Rightarrow> coord \<Rightarrow> coord" where
  "drain_expired reopen stopping c =
     (if reopen \<and> \<not> stopping then
        (set_state_locked (if cr_resident_profile c \<noteq> None then READY else IDLE) None None
           (c\<lparr>cr_accepting := True\<rparr>))\<lparr>cr_mnt := MntNone\<rparr>
      else
        (bump_locked (c\<lparr>cr_diagnostic_code := Some ''shutdown_drain_timeout''\<rparr>))
          \<lparr>cr_mnt := MntNone\<rparr>)"

text \<open>After the drain: capture the driver task and wait for it, or go on to the engine.\<close>

definition drain_done :: "bool \<Rightarrow> bool \<Rightarrow> bool \<Rightarrow> coord \<Rightarrow> coord" where
  "drain_done reopen stopping expired c =
     c\<lparr>cr_mnt :=
         (if cr_drv c \<noteq> DrvNone then
            (if expired then MntDegrade reopen stopping ''transition_drain_timeout''
             else MntDriver reopen stopping (cr_drv_gen c))
          else if expired then MntDegrade reopen stopping ''unload_deadline_expired''
          else MntLock reopen stopping)\<rparr>"

definition drain_loop :: "bool \<Rightarrow> bool \<Rightarrow> bool \<Rightarrow> coord \<Rightarrow> coord" where
  "drain_loop reopen stopping expired c =
     (if 0 < cr_active c then
        let c1 = set_state_locked (if stopping then STOPPING else DRAINING) None None c in
        if expired then drain_expired reopen stopping c1
        else c1\<lparr>cr_mnt := MntDrain reopen stopping False\<rparr>
      else drain_done reopen stopping expired c)"

definition drain_enter :: "bool \<Rightarrow> bool \<Rightarrow> bool \<Rightarrow> bool \<Rightarrow> coord \<Rightarrow> coord" where
  "drain_enter reopen stopping already_closed expired c =
     (let c1 = (if \<not> already_closed then bump_locked (c\<lparr>cr_accepting := False\<rparr>) else c);
          c2 = (if stopping then set_state_locked STOPPING None None c1 else c1);
          c3 = notify_all (fail_all_locked NotAccepting c2)
      in drain_loop reopen stopping expired c3)"

definition driver_awaited :: "bool \<Rightarrow> bool \<Rightarrow> bool \<Rightarrow> coord \<Rightarrow> coord" where
  "driver_awaited reopen stopping expired c =
     c\<lparr>cr_mnt := (if expired then MntDegrade reopen stopping ''unload_deadline_expired''
                  else MntLock reopen stopping)\<rparr>"

definition maint_lock :: "bool \<Rightarrow> bool \<Rightarrow> coord \<Rightarrow> coord" where
  "maint_lock reopen stopping c =
     (notify_all (set_state_locked (if stopping then STOPPING else UNLOADING) None None
        (c\<lparr>cr_oplock := OpMaint\<rparr>)))\<lparr>cr_mnt := MntStop reopen stopping\<rparr>"

definition maint_stopped :: "bool \<Rightarrow> bool \<Rightarrow> exn option \<Rightarrow> coord \<Rightarrow> coord" where
  "maint_stopped reopen stopping outcome c =
     c\<lparr>cr_oplock := OpFree,
       cr_mnt := (case outcome of
                    None \<Rightarrow> MntPublish reopen stopping
                  | Some x \<Rightarrow> MntDegrade reopen stopping ''engine_stop_failed'')\<rparr>"

definition maint_timeout :: "bool \<Rightarrow> bool \<Rightarrow> bool \<Rightarrow> coord \<Rightarrow> coord" where
  "maint_timeout reopen stopping holds_lock c =
     c\<lparr>cr_oplock := (if holds_lock then OpFree else cr_oplock c),
       cr_mnt := MntDegrade reopen stopping ''engine_stop_timeout''\<rparr>"

definition maint_degrade :: "bool \<Rightarrow> string \<Rightarrow> coord \<Rightarrow> coord" where
  "maint_degrade stopping code c =
     (set_state_locked (if stopping then STOPPING else DEGRADED) None (Some code)
        (c\<lparr>cr_authoritative := False, cr_accepting := False\<rparr>))\<lparr>cr_mnt := MntNone\<rparr>"

definition maint_publish :: "bool \<Rightarrow> bool \<Rightarrow> coord \<Rightarrow> coord" where
  "maint_publish reopen stopping c =
     (let c1 = c\<lparr>cr_resident_profile := None, cr_resident_deployment_id := None,
                 cr_capacity := no_resident_capacity, cr_epoch := cr_epoch c + 1,
                 cr_authoritative := True, cr_diagnostic_code := None,
                 cr_accepting := reopen \<and> \<not> stopping\<rparr>;
          c2 = set_state_locked (if stopping then STOPPING else IDLE) None None c1
      in (notify_all (bump_locked c2))\<lparr>cr_mnt := MntNone\<rparr>)"

section \<open>Status\<close>

record coordinator_status =
  st_state :: coordinator_state
  st_resident_profile :: "profile option"
  st_resident_deployment_id :: "deployment option"
  st_epoch :: int
  st_active :: int
  st_queued :: int
  st_queue_limit :: int
  st_queued_by_deployment :: "(deployment, int) dict"
  st_transition_target :: "deployment option"
  st_accepting :: bool
  st_authoritative :: bool
  st_diagnostic_code :: "string option"
  st_configured_max_concurrency :: "int option"
  st_capacity :: capacity_spec
  st_sequence :: int

definition queued_by :: "coord \<Rightarrow> (deployment, int) dict" where
  "queued_by c =
     (let ds = map w_deployment
                 (filter (\<lambda>w. \<not> w_cancelled w) (map (\<lambda>i. cr_waiters c ! i) (cr_queue c)))
      in map (\<lambda>d. (d, count_if (\<lambda>x. x = d) ds)) (sort (remdups ds)))"

definition status_coord :: "coord \<Rightarrow> coordinator_status \<times> coord" where
  "status_coord c0 =
     (let c = purge_cancelled_locked c0 in
      (\<lparr>st_state = cr_state c, st_resident_profile = cr_resident_profile c,
        st_resident_deployment_id = cr_resident_deployment_id c, st_epoch = cr_epoch c,
        st_active = cr_active c, st_queued = sum_list (map snd (queued_by c)),
        st_queue_limit = cr_max_queue_depth c, st_queued_by_deployment = queued_by c,
        st_transition_target = cr_transition_target c,
        st_accepting = (cr_accepting c \<and> \<not> cr_stopping c),
        st_authoritative = cr_authoritative c, st_diagnostic_code = cr_diagnostic_code c,
        st_configured_max_concurrency = cr_configured_max_concurrency c,
        st_capacity = cr_capacity c, st_sequence = cr_sequence c\<rparr>, c))"

definition status_effective_limit :: "coordinator_status \<Rightarrow> int" where
  "status_effective_limit s =
     (case st_configured_max_concurrency s of
        None \<Rightarrow> cs_derived_limit (st_capacity s)
      | Some m \<Rightarrow> min (cs_derived_limit (st_capacity s)) m)"

section \<open>The interleaving of all coroutines\<close>

datatype event =
    EvAcquire profile deployment
  | EvAcquireCurrent
  | EvTake nat
  | EvAbandon nat rat
  | EvLeaseRelease nat
  | EvLeaseTask nat rat
  | EvReconfigure "int option" int
  | EvStatus
  | EvDrive
  | EvDrvLock
  | EvDrvStopped "exn option"
  | EvDrvStarted "exn + (int \<times> string \<times> string)"
  | EvDrvCleaned bool
  | EvDrvPublish
  | EvDrvFinally
  | EvUnload
  | EvEvict rat rat
  | EvShutdown
  | EvMntEnter bool
  | EvMntWake bool
  | EvMntDrainTimeout
  | EvMntDriverDone bool
  | EvMntDriverTimeout
  | EvMntLock
  | EvMntStopped "exn option"
  | EvMntTimeout
  | EvMntFinish

definition driver_done :: "nat \<Rightarrow> coord \<Rightarrow> bool" where
  "driver_done g c = (cr_drv c = DrvNone \<or> cr_drv_gen c \<noteq> g)"

fun driver_event :: "event \<Rightarrow> coord \<Rightarrow> coord option" where
  "driver_event EvDrive c =
     (case cr_drv c of DrvTop \<Rightarrow> Some (drive_top c) | DrvWait True \<Rightarrow> Some (drive_top c)
      | _ \<Rightarrow> None)"
| "driver_event EvDrvLock c = driver_lock c"
| "driver_event (EvDrvStopped out) c =
     (case cr_drv c of DrvStop p d True \<Rightarrow> Some (transition_stopped p d out c) | _ \<Rightarrow> None)"
| "driver_event (EvDrvStarted out) c =
     (case cr_drv c of DrvStart p d \<Rightarrow> Some (transition_started p d out c) | _ \<Rightarrow> None)"
| "driver_event (EvDrvCleaned clean) c =
     (case cr_drv c of DrvCleanup p d x True \<Rightarrow> Some (cleanup_done p d x clean c) | _ \<Rightarrow> None)"
| "driver_event EvDrvPublish c =
     (case cr_drv c of
        DrvPublish p d cap \<Rightarrow> Some (drive_publish p d cap c)
      | DrvPublishFail p d x clean \<Rightarrow> Some (drive_publish_failure d x clean c)
      | _ \<Rightarrow> None)"
| "driver_event EvDrvFinally c =
     (case cr_drv c of DrvFinally \<Rightarrow> Some (drive_finally c) | _ \<Rightarrow> None)"
| "driver_event _ c = None"

fun maint_event :: "event \<Rightarrow> coord \<Rightarrow> coord option" where
  "maint_event EvUnload c = (if cr_mnt c = MntNone then Some (unload c) else None)"
| "maint_event (EvEvict idle now) c =
     (if cr_mnt c = MntNone then Some (evict_if_idle idle now c) else None)"
| "maint_event EvShutdown c = (if cr_mnt c = MntNone then Some (shutdown c) else None)"
| "maint_event (EvMntEnter expired) c =
     (case cr_mnt c of MntEnter r s ac \<Rightarrow> Some (drain_enter r s ac expired c) | _ \<Rightarrow> None)"
| "maint_event (EvMntWake expired) c =
     (case cr_mnt c of MntDrain r s True \<Rightarrow> Some (drain_loop r s expired c) | _ \<Rightarrow> None)"
| "maint_event EvMntDrainTimeout c =
     (case cr_mnt c of MntDrain r s b \<Rightarrow> Some (drain_expired r s c) | _ \<Rightarrow> None)"
| "maint_event (EvMntDriverDone expired) c =
     (case cr_mnt c of
        MntDriver r s g \<Rightarrow> if driver_done g c then Some (driver_awaited r s expired c) else None
      | _ \<Rightarrow> None)"
| "maint_event EvMntDriverTimeout c =
     (case cr_mnt c of
        MntDriver r s g \<Rightarrow> Some (c\<lparr>cr_mnt := MntDegrade r s ''transition_drain_timeout''\<rparr>)
      | _ \<Rightarrow> None)"
| "maint_event EvMntLock c =
     (case cr_mnt c of
        MntLock r s \<Rightarrow> if cr_oplock c = OpFree then Some (maint_lock r s c) else None
      | _ \<Rightarrow> None)"
| "maint_event (EvMntStopped out) c =
     (case cr_mnt c of MntStop r s \<Rightarrow> Some (maint_stopped r s out c) | _ \<Rightarrow> None)"
| "maint_event EvMntTimeout c =
     (case cr_mnt c of
        MntLock r s \<Rightarrow> Some (maint_timeout r s False c)
      | MntStop r s \<Rightarrow> Some (maint_timeout r s True c)
      | _ \<Rightarrow> None)"
| "maint_event EvMntFinish c =
     (case cr_mnt c of
        MntDegrade r s code \<Rightarrow> Some (maint_degrade s code c)
      | MntPublish r s \<Rightarrow> Some (maint_publish r s c)
      | _ \<Rightarrow> None)"
| "maint_event _ c = None"

text \<open>Whether waiter \<open>i\<close>'s client is still suspended in \<open>acquire\<close>.\<close>

definition client_waiting :: "nat \<Rightarrow> coord \<Rightarrow> bool" where
  "client_waiting i c =
     (i < length (cr_waiters c) \<and> \<not> w_taken (cr_waiters c ! i) \<and> \<not> w_cancelled (cr_waiters c ! i))"

fun client_event :: "event \<Rightarrow> coord \<Rightarrow> coord option" where
  "client_event (EvAcquire p d) c = Some (snd (acquire_enter p d c))"
| "client_event EvAcquireCurrent c = Some (snd (acquire_current c))"
| "client_event (EvTake i) c =
     (if client_waiting i c then Some (snd (acquire_resume i c)) else None)"
| "client_event (EvAbandon i now) c =
     (if client_waiting i c then Some (cancel_waiter i now c) else None)"
| "client_event (EvLeaseRelease k) c =
     (if k < length (cr_leases c) then Some (lease_release k c) else None)"
| "client_event (EvLeaseTask k now) c =
     (if k < length (cr_leases c) \<and> l_phase (cr_leases c ! k) = Releasing
      then Some (lease_release_task k now c) else None)"
| "client_event (EvReconfigure conf depth) c =
     (case reconfigure conf depth c of Inl x \<Rightarrow> None | Inr c' \<Rightarrow> Some c')"
| "client_event EvStatus c = Some (snd (status_coord c))"
| "client_event _ c = None"

definition coord_step :: "event \<Rightarrow> coord \<Rightarrow> coord option" where
  "coord_step e c =
     (case client_event e c of
        Some c' \<Rightarrow> Some c'
      | None \<Rightarrow> (case driver_event e c of Some c' \<Rightarrow> Some c' | None \<Rightarrow> maint_event e c))"
end
