(* ===== verification/Cuda_Residency_Safety.thy ===== *)
theory Cuda_Residency_Safety
  imports Cuda_Residency
begin

text \<open>
  Safety of the residency coordinator: the invariant that ties the active count to the outstanding
  permits, the operation lock to the coroutines inside the engine callbacks, and the maintenance
  barrier to closed admission; that every atomic section preserves it; and the run in which the
  barrier is lost.
\<close>

section \<open>Permits and the coordinator's invariant\<close>

text \<open>
  A permit is outstanding from the moment it is granted: while a granted future has not been
  delivered to its client, and then while the client's lease is not released.
\<close>

fun is_granted :: "fut \<Rightarrow> bool" where
  "is_granted (Granted p e) = True"
| "is_granted _ = False"

fun granted_epoch :: "fut \<Rightarrow> int" where
  "granted_epoch (Granted p e) = e"
| "granted_epoch _ = 0"

definition live_waiter :: "waiter \<Rightarrow> bool" where
  "live_waiter w = (is_granted (w_future w) \<and> \<not> w_cancelled w \<and> \<not> w_taken w)"

definition live_lease :: "lease \<Rightarrow> bool" where
  "live_lease l = (l_phase l \<noteq> Released)"

definition permits :: "waiter list \<Rightarrow> lease list \<Rightarrow> int" where
  "permits ws ls = count_if live_waiter ws + count_if live_lease ls"

definition outstanding :: "coord \<Rightarrow> int" where
  "outstanding c = permits (cr_waiters c) (cr_leases c)"

text \<open>The driver is between its decision to switch the model and the publication of the outcome.\<close>

fun in_transition :: "driver_pc \<Rightarrow> bool" where
  "in_transition (DrvStop p d b) = True"
| "in_transition (DrvStart p d) = True"
| "in_transition (DrvCleanup p d x b) = True"
| "in_transition (DrvPublishFail p d x b) = True"
| "in_transition (DrvPublish p d cap) = True"
| "in_transition _ = False"

text \<open>A coroutine is inside an engine callback and therefore holds the operation lock.\<close>

fun driver_in_engine :: "driver_pc \<Rightarrow> bool" where
  "driver_in_engine (DrvStop p d b) = b"
| "driver_in_engine (DrvStart p d) = True"
| "driver_in_engine (DrvCleanup p d x b) = b"
| "driver_in_engine _ = False"

fun maint_in_engine :: "maint_pc \<Rightarrow> bool" where
  "maint_in_engine (MntStop r s) = True"
| "maint_in_engine _ = False"

fun driver_stopping_engine :: "driver_pc \<Rightarrow> bool" where
  "driver_stopping_engine (DrvStop p d b) = b"
| "driver_stopping_engine (DrvCleanup p d x b) = b"
| "driver_stopping_engine _ = False"

text \<open>
  The parts of the invariant, each over the fields it speaks about: the limits are positive; the
  two resident fields agree; queued waiters are pending and not abandoned; a non-empty queue has a
  driver, unless a shutdown is about to fail it; the operation lock is held exactly inside engine callbacks; the active count is the number
  of outstanding permits, all of the current epoch; no permit is outstanding during a transition;
  admission is closed from the drain on and no permit is outstanding after it; a driver parked
  without a pending notification has nothing it could do.
\<close>

fun published_limit :: "driver_pc \<Rightarrow> int" where
  "published_limit (DrvPublish p d cap) = cs_derived_limit cap"
| "published_limit _ = 1"

definition limits_ok :: "capacity_spec \<Rightarrow> int option \<Rightarrow> int \<Rightarrow> driver_pc \<Rightarrow> bool" where
  "limits_ok cap conf depth drv =
     (1 \<le> cs_derived_limit cap \<and> (\<forall>m. conf = Some m \<longrightarrow> 1 \<le> m) \<and> 1 \<le> depth
      \<and> 1 \<le> published_limit drv)"

definition resident_ok :: "profile option \<Rightarrow> deployment option \<Rightarrow> bool" where
  "resident_ok rp rd = ((rp = None) = (rd = None))"

definition queued_ok :: "waiter \<Rightarrow> bool" where
  "queued_ok w = (w_future w = Pending \<and> \<not> w_cancelled w \<and> \<not> w_taken w)"

definition queue_ok :: "nat list \<Rightarrow> waiter list \<Rightarrow> bool" where
  "queue_ok q ws = (distinct q \<and> (\<forall>i \<in> set q. i < length ws \<and> queued_ok (ws ! i)))"

fun entering :: "maint_pc \<Rightarrow> bool" where
  "entering (MntEnter r s ac) = True"
| "entering _ = False"

definition driver_ok :: "nat list \<Rightarrow> driver_pc \<Rightarrow> bool \<Rightarrow> bool \<Rightarrow> maint_pc \<Rightarrow> bool" where
  "driver_ok q drv acc stop mnt =
     (q \<noteq> [] \<longrightarrow> (drv \<noteq> DrvNone \<or> stop) \<and> (\<not> acc \<longrightarrow> drv = DrvTop) \<and> (stop \<longrightarrow> entering mnt))"

definition oplock_ok :: "op_lock \<Rightarrow> driver_pc \<Rightarrow> maint_pc \<Rightarrow> bool" where
  "oplock_ok ol drv mnt =
     ((ol = OpDriver) = driver_in_engine drv \<and> (ol = OpMaint) = maint_in_engine mnt)"

definition permits_ok :: "int \<Rightarrow> int \<Rightarrow> waiter list \<Rightarrow> lease list \<Rightarrow> bool" where
  "permits_ok act ep ws ls =
     (act = permits ws ls
      \<and> (\<forall>w \<in> set ws. live_waiter w \<longrightarrow> granted_epoch (w_future w) = ep)
      \<and> (\<forall>l \<in> set ls. live_lease l \<longrightarrow> l_epoch l = ep))"

definition transition_ok :: "driver_pc \<Rightarrow> int \<Rightarrow> coordinator_state \<Rightarrow> bool" where
  "transition_ok drv act st = (in_transition drv \<longrightarrow> act = 0 \<and> st \<noteq> READY)"

fun barrier_closed :: "maint_pc \<Rightarrow> bool" where
  "barrier_closed MntNone = False"
| "barrier_closed (MntEnter r s ac) = ac"
| "barrier_closed _ = True"

fun draining :: "maint_pc \<Rightarrow> bool" where
  "draining (MntDrain r s b) = True"
| "draining _ = False"

fun drained :: "maint_pc \<Rightarrow> bool" where
  "drained (MntDriver r s g) = True"
| "drained (MntLock r s) = True"
| "drained (MntStop r s) = True"
| "drained (MntPublish r s) = True"
| "drained _ = False"

definition barrier_ok :: "maint_pc \<Rightarrow> bool \<Rightarrow> driver_pc \<Rightarrow> int \<Rightarrow> bool" where
  "barrier_ok mnt acc drv act =
     ((barrier_closed mnt \<longrightarrow> \<not> acc) \<and> (draining mnt \<longrightarrow> \<not> in_transition drv)
      \<and> (drained mnt \<longrightarrow> act = 0))"

definition wakeup_ok ::
  "driver_pc \<Rightarrow> nat list \<Rightarrow> bool \<Rightarrow> deployment option \<Rightarrow> waiter list \<Rightarrow> int \<Rightarrow> int \<Rightarrow> bool" where
  "wakeup_ok drv q acc rd ws limit act =
     (drv = DrvWait False \<longrightarrow>
        q \<noteq> [] \<and> acc
        \<and> (if rd = Some (w_deployment (ws ! hd q)) then limit \<le> act else 0 < act))"

definition coord_inv :: "coord \<Rightarrow> bool" where
  "coord_inv c =
     (limits_ok (cr_capacity c) (cr_configured_max_concurrency c) (cr_max_queue_depth c) (cr_drv c)
      \<and> resident_ok (cr_resident_profile c) (cr_resident_deployment_id c)
      \<and> queue_ok (cr_queue c) (cr_waiters c)
      \<and> driver_ok (cr_queue c) (cr_drv c) (cr_accepting c) (cr_stopping c) (cr_mnt c)
      \<and> oplock_ok (cr_oplock c) (cr_drv c) (cr_mnt c)
      \<and> permits_ok (cr_active c) (cr_epoch c) (cr_waiters c) (cr_leases c)
      \<and> transition_ok (cr_drv c) (cr_active c) (cr_state c)
      \<and> barrier_ok (cr_mnt c) (cr_accepting c) (cr_drv c) (cr_active c)
      \<and> wakeup_ok (cr_drv c) (cr_queue c) (cr_accepting c) (cr_resident_deployment_id c)
          (cr_waiters c) (effective_limit_locked c) (cr_active c)
      \<and> cr_cb_inflight c = cr_active c)"

text \<open>
  What the grant loop does to a well-formed queue: it grants the longest prefix of the head group
  that fits under the limit.
\<close>

definition grant_all :: "profile \<Rightarrow> int \<Rightarrow> nat list \<Rightarrow> waiter list \<Rightarrow> waiter list" where
  "grant_all rp ep is ws = fold (\<lambda>i ws. ws[i := (ws ! i)\<lparr>w_future := Granted rp ep\<rparr>]) is ws"

definition grant_prefix :: "deployment \<Rightarrow> int \<Rightarrow> int \<Rightarrow> waiter list \<Rightarrow> nat list \<Rightarrow> nat list" where
  "grant_prefix d limit act ws q =
     take (nat (limit - act)) (takeWhile (\<lambda>i. w_deployment (ws ! i) = d) q)"

text \<open>Admission of one permit by a client that found the resident ready and the queue empty.\<close>

definition admit_one :: "profile \<Rightarrow> profile \<Rightarrow> deployment \<Rightarrow> coord \<Rightarrow> coord" where
  "admit_one rp p d c =
     issue_lease rp p d (cr_epoch c)
       (notify_inflight_locked (bump_locked (c\<lparr>cr_active := cr_active c + 1\<rparr>)))"

definition coord_init :: "coord \<Rightarrow> bool" where
  "coord_init c = (\<exists>conf depth now. init_coord conf depth now = Inr c)"

text \<open>
  The one event after which the barrier no longer holds: a failed load that was cleaned up
  publishes its outcome, and thereby reopens admission, while an unload or an idle eviction is
  under way.
\<close>

definition reopens_barrier :: "event \<Rightarrow> coord \<Rightarrow> bool" where
  "reopens_barrier e c =
     (e = EvDrvPublish \<and> (case cr_drv c of DrvPublishFail p d x clean \<Rightarrow> clean | _ \<Rightarrow> False)
      \<and> \<not> cr_stopping c \<and> cr_mnt c \<noteq> MntNone)"

definition guarded_step :: "event \<Rightarrow> coord \<Rightarrow> coord option" where
  "guarded_step = restrict_step (\<lambda>e c. \<not> reopens_barrier e c) coord_step"

section \<open>Frames\<close>

lemma bump_locked_frame [simp]:
  "cr_queue (bump_locked c) = cr_queue c"
  "cr_waiters (bump_locked c) = cr_waiters c"
  "cr_leases (bump_locked c) = cr_leases c"
  "cr_resident_profile (bump_locked c) = cr_resident_profile c"
  "cr_resident_deployment_id (bump_locked c) = cr_resident_deployment_id c"
  "cr_capacity (bump_locked c) = cr_capacity c"
  "cr_configured_max_concurrency (bump_locked c) = cr_configured_max_concurrency c"
  "cr_max_queue_depth (bump_locked c) = cr_max_queue_depth c"
  "cr_epoch (bump_locked c) = cr_epoch c"
  "cr_active (bump_locked c) = cr_active c"
  "cr_state (bump_locked c) = cr_state c"
  "cr_diagnostic_code (bump_locked c) = cr_diagnostic_code c"
  "cr_transition_target (bump_locked c) = cr_transition_target c"
  "cr_accepting (bump_locked c) = cr_accepting c"
  "cr_authoritative (bump_locked c) = cr_authoritative c"
  "cr_stopping (bump_locked c) = cr_stopping c"
  "cr_last_used (bump_locked c) = cr_last_used c"
  "cr_drv (bump_locked c) = cr_drv c"
  "cr_drv_gen (bump_locked c) = cr_drv_gen c"
  "cr_mnt (bump_locked c) = cr_mnt c"
  "cr_oplock (bump_locked c) = cr_oplock c"
  "cr_cb_inflight (bump_locked c) = cr_cb_inflight c"
  "cr_cb_transition (bump_locked c) = cr_cb_transition c"
  by (simp_all add: bump_locked_def)

lemma set_state_locked_frame [simp]:
  "cr_queue (set_state_locked st tg dg c) = cr_queue c"
  "cr_waiters (set_state_locked st tg dg c) = cr_waiters c"
  "cr_leases (set_state_locked st tg dg c) = cr_leases c"
  "cr_resident_profile (set_state_locked st tg dg c) = cr_resident_profile c"
  "cr_resident_deployment_id (set_state_locked st tg dg c) = cr_resident_deployment_id c"
  "cr_capacity (set_state_locked st tg dg c) = cr_capacity c"
  "cr_configured_max_concurrency (set_state_locked st tg dg c) = cr_configured_max_concurrency c"
  "cr_max_queue_depth (set_state_locked st tg dg c) = cr_max_queue_depth c"
  "cr_epoch (set_state_locked st tg dg c) = cr_epoch c"
  "cr_active (set_state_locked st tg dg c) = cr_active c"
  "cr_accepting (set_state_locked st tg dg c) = cr_accepting c"
  "cr_authoritative (set_state_locked st tg dg c) = cr_authoritative c"
  "cr_stopping (set_state_locked st tg dg c) = cr_stopping c"
  "cr_last_used (set_state_locked st tg dg c) = cr_last_used c"
  "cr_drv (set_state_locked st tg dg c) = cr_drv c"
  "cr_drv_gen (set_state_locked st tg dg c) = cr_drv_gen c"
  "cr_mnt (set_state_locked st tg dg c) = cr_mnt c"
  "cr_oplock (set_state_locked st tg dg c) = cr_oplock c"
  "cr_cb_inflight (set_state_locked st tg dg c) = cr_cb_inflight c"
  by (simp_all add: set_state_locked_def Let_def bump_locked_def)

lemma notify_inflight_locked_frame [simp]:
  "cr_queue (notify_inflight_locked c) = cr_queue c"
  "cr_waiters (notify_inflight_locked c) = cr_waiters c"
  "cr_leases (notify_inflight_locked c) = cr_leases c"
  "cr_resident_profile (notify_inflight_locked c) = cr_resident_profile c"
  "cr_resident_deployment_id (notify_inflight_locked c) = cr_resident_deployment_id c"
  "cr_capacity (notify_inflight_locked c) = cr_capacity c"
  "cr_configured_max_concurrency (notify_inflight_locked c) = cr_configured_max_concurrency c"
  "cr_max_queue_depth (notify_inflight_locked c) = cr_max_queue_depth c"
  "cr_epoch (notify_inflight_locked c) = cr_epoch c"
  "cr_active (notify_inflight_locked c) = cr_active c"
  "cr_state (notify_inflight_locked c) = cr_state c"
  "cr_diagnostic_code (notify_inflight_locked c) = cr_diagnostic_code c"
  "cr_transition_target (notify_inflight_locked c) = cr_transition_target c"
  "cr_accepting (notify_inflight_locked c) = cr_accepting c"
  "cr_authoritative (notify_inflight_locked c) = cr_authoritative c"
  "cr_stopping (notify_inflight_locked c) = cr_stopping c"
  "cr_last_used (notify_inflight_locked c) = cr_last_used c"
  "cr_sequence (notify_inflight_locked c) = cr_sequence c"
  "cr_drv (notify_inflight_locked c) = cr_drv c"
  "cr_drv_gen (notify_inflight_locked c) = cr_drv_gen c"
  "cr_mnt (notify_inflight_locked c) = cr_mnt c"
  "cr_oplock (notify_inflight_locked c) = cr_oplock c"
  "cr_cb_transition (notify_inflight_locked c) = cr_cb_transition c"
  by (simp_all add: notify_inflight_locked_def)

lemma notify_all_frame [simp]:
  "cr_queue (notify_all c) = cr_queue c"
  "cr_waiters (notify_all c) = cr_waiters c"
  "cr_leases (notify_all c) = cr_leases c"
  "cr_resident_profile (notify_all c) = cr_resident_profile c"
  "cr_resident_deployment_id (notify_all c) = cr_resident_deployment_id c"
  "cr_capacity (notify_all c) = cr_capacity c"
  "cr_configured_max_concurrency (notify_all c) = cr_configured_max_concurrency c"
  "cr_max_queue_depth (notify_all c) = cr_max_queue_depth c"
  "cr_epoch (notify_all c) = cr_epoch c"
  "cr_active (notify_all c) = cr_active c"
  "cr_state (notify_all c) = cr_state c"
  "cr_diagnostic_code (notify_all c) = cr_diagnostic_code c"
  "cr_transition_target (notify_all c) = cr_transition_target c"
  "cr_accepting (notify_all c) = cr_accepting c"
  "cr_authoritative (notify_all c) = cr_authoritative c"
  "cr_stopping (notify_all c) = cr_stopping c"
  "cr_last_used (notify_all c) = cr_last_used c"
  "cr_sequence (notify_all c) = cr_sequence c"
  "cr_drv_gen (notify_all c) = cr_drv_gen c"
  "cr_oplock (notify_all c) = cr_oplock c"
  "cr_cb_inflight (notify_all c) = cr_cb_inflight c"
  "cr_cb_transition (notify_all c) = cr_cb_transition c"
  by (simp_all add: notify_all_def)

lemma ensure_driver_locked_frame [simp]:
  "cr_queue (ensure_driver_locked c) = cr_queue c"
  "cr_waiters (ensure_driver_locked c) = cr_waiters c"
  "cr_leases (ensure_driver_locked c) = cr_leases c"
  "cr_resident_profile (ensure_driver_locked c) = cr_resident_profile c"
  "cr_resident_deployment_id (ensure_driver_locked c) = cr_resident_deployment_id c"
  "cr_capacity (ensure_driver_locked c) = cr_capacity c"
  "cr_configured_max_concurrency (ensure_driver_locked c) = cr_configured_max_concurrency c"
  "cr_max_queue_depth (ensure_driver_locked c) = cr_max_queue_depth c"
  "cr_epoch (ensure_driver_locked c) = cr_epoch c"
  "cr_active (ensure_driver_locked c) = cr_active c"
  "cr_state (ensure_driver_locked c) = cr_state c"
  "cr_diagnostic_code (ensure_driver_locked c) = cr_diagnostic_code c"
  "cr_transition_target (ensure_driver_locked c) = cr_transition_target c"
  "cr_accepting (ensure_driver_locked c) = cr_accepting c"
  "cr_authoritative (ensure_driver_locked c) = cr_authoritative c"
  "cr_stopping (ensure_driver_locked c) = cr_stopping c"
  "cr_last_used (ensure_driver_locked c) = cr_last_used c"
  "cr_sequence (ensure_driver_locked c) = cr_sequence c"
  "cr_mnt (ensure_driver_locked c) = cr_mnt c"
  "cr_oplock (ensure_driver_locked c) = cr_oplock c"
  "cr_cb_inflight (ensure_driver_locked c) = cr_cb_inflight c"
  "cr_cb_transition (ensure_driver_locked c) = cr_cb_transition c"
  by (simp_all add: ensure_driver_locked_def)

lemma fail_all_locked_frame [simp]:
  "cr_leases (fail_all_locked x c) = cr_leases c"
  "cr_resident_profile (fail_all_locked x c) = cr_resident_profile c"
  "cr_resident_deployment_id (fail_all_locked x c) = cr_resident_deployment_id c"
  "cr_capacity (fail_all_locked x c) = cr_capacity c"
  "cr_configured_max_concurrency (fail_all_locked x c) = cr_configured_max_concurrency c"
  "cr_max_queue_depth (fail_all_locked x c) = cr_max_queue_depth c"
  "cr_epoch (fail_all_locked x c) = cr_epoch c"
  "cr_active (fail_all_locked x c) = cr_active c"
  "cr_state (fail_all_locked x c) = cr_state c"
  "cr_diagnostic_code (fail_all_locked x c) = cr_diagnostic_code c"
  "cr_transition_target (fail_all_locked x c) = cr_transition_target c"
  "cr_accepting (fail_all_locked x c) = cr_accepting c"
  "cr_authoritative (fail_all_locked x c) = cr_authoritative c"
  "cr_stopping (fail_all_locked x c) = cr_stopping c"
  "cr_last_used (fail_all_locked x c) = cr_last_used c"
  "cr_drv (fail_all_locked x c) = cr_drv c"
  "cr_drv_gen (fail_all_locked x c) = cr_drv_gen c"
  "cr_mnt (fail_all_locked x c) = cr_mnt c"
  "cr_oplock (fail_all_locked x c) = cr_oplock c"
  "cr_cb_inflight (fail_all_locked x c) = cr_cb_inflight c"
  "cr_cb_transition (fail_all_locked x c) = cr_cb_transition c"
  by (simp_all add: fail_all_locked_def bump_locked_def)

lemma fail_head_locked_frame [simp]:
  "cr_leases (fail_head_locked d x c) = cr_leases c"
  "cr_resident_profile (fail_head_locked d x c) = cr_resident_profile c"
  "cr_resident_deployment_id (fail_head_locked d x c) = cr_resident_deployment_id c"
  "cr_capacity (fail_head_locked d x c) = cr_capacity c"
  "cr_configured_max_concurrency (fail_head_locked d x c) = cr_configured_max_concurrency c"
  "cr_max_queue_depth (fail_head_locked d x c) = cr_max_queue_depth c"
  "cr_epoch (fail_head_locked d x c) = cr_epoch c"
  "cr_active (fail_head_locked d x c) = cr_active c"
  "cr_state (fail_head_locked d x c) = cr_state c"
  "cr_diagnostic_code (fail_head_locked d x c) = cr_diagnostic_code c"
  "cr_transition_target (fail_head_locked d x c) = cr_transition_target c"
  "cr_accepting (fail_head_locked d x c) = cr_accepting c"
  "cr_authoritative (fail_head_locked d x c) = cr_authoritative c"
  "cr_stopping (fail_head_locked d x c) = cr_stopping c"
  "cr_last_used (fail_head_locked d x c) = cr_last_used c"
  "cr_sequence (fail_head_locked d x c) = cr_sequence c"
  "cr_drv (fail_head_locked d x c) = cr_drv c"
  "cr_drv_gen (fail_head_locked d x c) = cr_drv_gen c"
  "cr_mnt (fail_head_locked d x c) = cr_mnt c"
  "cr_oplock (fail_head_locked d x c) = cr_oplock c"
  "cr_cb_inflight (fail_head_locked d x c) = cr_cb_inflight c"
  "cr_cb_transition (fail_head_locked d x c) = cr_cb_transition c"
  by (simp_all add: fail_head_locked_def split: prod.splits)

lemma issue_lease_frame [simp]:
  "cr_queue (issue_lease rp p d ep c) = cr_queue c"
  "cr_waiters (issue_lease rp p d ep c) = cr_waiters c"
  "cr_resident_profile (issue_lease rp p d ep c) = cr_resident_profile c"
  "cr_resident_deployment_id (issue_lease rp p d ep c) = cr_resident_deployment_id c"
  "cr_capacity (issue_lease rp p d ep c) = cr_capacity c"
  "cr_configured_max_concurrency (issue_lease rp p d ep c) = cr_configured_max_concurrency c"
  "cr_max_queue_depth (issue_lease rp p d ep c) = cr_max_queue_depth c"
  "cr_epoch (issue_lease rp p d ep c) = cr_epoch c"
  "cr_active (issue_lease rp p d ep c) = cr_active c"
  "cr_state (issue_lease rp p d ep c) = cr_state c"
  "cr_diagnostic_code (issue_lease rp p d ep c) = cr_diagnostic_code c"
  "cr_transition_target (issue_lease rp p d ep c) = cr_transition_target c"
  "cr_accepting (issue_lease rp p d ep c) = cr_accepting c"
  "cr_authoritative (issue_lease rp p d ep c) = cr_authoritative c"
  "cr_stopping (issue_lease rp p d ep c) = cr_stopping c"
  "cr_last_used (issue_lease rp p d ep c) = cr_last_used c"
  "cr_sequence (issue_lease rp p d ep c) = cr_sequence c"
  "cr_drv (issue_lease rp p d ep c) = cr_drv c"
  "cr_drv_gen (issue_lease rp p d ep c) = cr_drv_gen c"
  "cr_mnt (issue_lease rp p d ep c) = cr_mnt c"
  "cr_oplock (issue_lease rp p d ep c) = cr_oplock c"
  "cr_cb_inflight (issue_lease rp p d ep c) = cr_cb_inflight c"
  "cr_cb_transition (issue_lease rp p d ep c) = cr_cb_transition c"
  by (simp_all add: issue_lease_def)


lemma set_state_locked_new [simp]:
  "cr_state (set_state_locked st tg dg c) = st"
  "cr_transition_target (set_state_locked st tg dg c) = tg"
  "cr_diagnostic_code (set_state_locked st tg dg c) = dg"
  by (simp_all add: set_state_locked_def Let_def bump_locked_def)

lemma notify_inflight_new [simp]: "cr_cb_inflight (notify_inflight_locked c) = cr_active c"
  by (simp add: notify_inflight_locked_def)

lemma fail_all_new [simp]:
  "cr_queue (fail_all_locked x c) = []"
  "cr_waiters (fail_all_locked x c) = fail_all_loop x (cr_queue c) (cr_waiters c)"
  by (simp_all add: fail_all_locked_def)

lemma issue_leases [simp]:
  "cr_leases (issue_lease rp p d ep c) =
     cr_leases c @ [\<lparr>l_resident_profile = rp, l_requested_profile = p, l_deployment = d,
                     l_epoch = ep, l_phase = Held\<rparr>]"
  by (simp add: issue_lease_def)

lemma effective_limit_cong:
  "cr_capacity c = cr_capacity c' \<Longrightarrow>
   cr_configured_max_concurrency c = cr_configured_max_concurrency c' \<Longrightarrow>
   effective_limit_locked c = effective_limit_locked c'"
  by (simp add: effective_limit_locked_def split: option.split)

lemma effective_limit_frame [simp]:
  "effective_limit_locked (bump_locked c) = effective_limit_locked c"
  "effective_limit_locked (set_state_locked st tg dg c) = effective_limit_locked c"
  "effective_limit_locked (notify_all c) = effective_limit_locked c"
  "effective_limit_locked (notify_inflight_locked c) = effective_limit_locked c"
  "effective_limit_locked (ensure_driver_locked c) = effective_limit_locked c"
  "effective_limit_locked (issue_lease rp p d ep c) = effective_limit_locked c"
  "effective_limit_locked (fail_all_locked x c) = effective_limit_locked c"
  "effective_limit_locked (fail_head_locked dd x c) = effective_limit_locked c"
  "effective_limit_locked (c\<lparr>cr_active := a\<rparr>) = effective_limit_locked c"
  "effective_limit_locked (c\<lparr>cr_last_used := t\<rparr>) = effective_limit_locked c"
  "effective_limit_locked (c\<lparr>cr_leases := ls\<rparr>) = effective_limit_locked c"
  "effective_limit_locked (c\<lparr>cr_waiters := ws\<rparr>) = effective_limit_locked c"
  "effective_limit_locked (c\<lparr>cr_queue := q\<rparr>) = effective_limit_locked c"
  "effective_limit_locked (c\<lparr>cr_drv := dv\<rparr>) = effective_limit_locked c"
  "effective_limit_locked (c\<lparr>cr_mnt := m\<rparr>) = effective_limit_locked c"
  "effective_limit_locked (c\<lparr>cr_oplock := ol\<rparr>) = effective_limit_locked c"
  "effective_limit_locked (c\<lparr>cr_stopping := b\<rparr>) = effective_limit_locked c"
  "effective_limit_locked (c\<lparr>cr_accepting := b\<rparr>) = effective_limit_locked c"
  by (rule effective_limit_cong; simp)+

lemma notify_all_pcs [simp]:
  "in_transition (cr_drv (notify_all c)) = in_transition (cr_drv c)"
  "driver_in_engine (cr_drv (notify_all c)) = driver_in_engine (cr_drv c)"
  "published_limit (cr_drv (notify_all c)) = published_limit (cr_drv c)"
  "cr_drv (notify_all c) = DrvNone \<longleftrightarrow> cr_drv c = DrvNone"
  "cr_drv (notify_all c) = DrvTop \<longleftrightarrow> cr_drv c = DrvTop"
  "entering (cr_mnt (notify_all c)) = entering (cr_mnt c)"
  "cr_drv (notify_all c) \<noteq> DrvWait False"
  "maint_in_engine (cr_mnt (notify_all c)) = maint_in_engine (cr_mnt c)"
  "barrier_closed (cr_mnt (notify_all c)) = barrier_closed (cr_mnt c)"
  "draining (cr_mnt (notify_all c)) = draining (cr_mnt c)"
  "drained (cr_mnt (notify_all c)) = drained (cr_mnt c)"
  by (auto simp: notify_all_def split: driver_pc.splits maint_pc.splits)

lemma ensure_driver_pcs [simp]:
  "in_transition (cr_drv (ensure_driver_locked c)) = in_transition (cr_drv c)"
  "driver_in_engine (cr_drv (ensure_driver_locked c)) = driver_in_engine (cr_drv c)"
  "published_limit (cr_drv (ensure_driver_locked c)) = published_limit (cr_drv c)"
  "cr_drv (ensure_driver_locked c) \<noteq> DrvNone"
  by (auto simp: ensure_driver_locked_def)

lemma notify_all_ok [simp]:
  "limits_ok cap conf dep (cr_drv (notify_all c)) = limits_ok cap conf dep (cr_drv c)"
  "driver_ok q (cr_drv (notify_all c)) acc stop (cr_mnt (notify_all c)) = driver_ok q (cr_drv c) acc stop (cr_mnt c)"
  "oplock_ok ol (cr_drv (notify_all c)) (cr_mnt (notify_all c)) = oplock_ok ol (cr_drv c) (cr_mnt c)"
  "transition_ok (cr_drv (notify_all c)) act st = transition_ok (cr_drv c) act st"
  "barrier_ok (cr_mnt (notify_all c)) acc (cr_drv (notify_all c)) act = barrier_ok (cr_mnt c) acc (cr_drv c) act"
  "wakeup_ok (cr_drv (notify_all c)) q acc rd ws limit act"
  by (simp_all add: limits_ok_def driver_ok_def oplock_ok_def transition_ok_def barrier_ok_def wakeup_ok_def)

lemma ensure_driver_ok [simp]:
  "limits_ok cap conf dep (cr_drv (ensure_driver_locked c)) = limits_ok cap conf dep (cr_drv c)"
  "driver_ok q (cr_drv c) acc stop mnt \<Longrightarrow> driver_ok q (cr_drv (ensure_driver_locked c)) acc stop mnt"
  "acc \<Longrightarrow> \<not> stop \<Longrightarrow> driver_ok q (cr_drv (ensure_driver_locked c)) acc stop mnt"
  "oplock_ok ol (cr_drv (ensure_driver_locked c)) mnt = oplock_ok ol (cr_drv c) mnt"
  "transition_ok (cr_drv (ensure_driver_locked c)) act st = transition_ok (cr_drv c) act st"
  "barrier_ok mnt acc (cr_drv (ensure_driver_locked c)) act = barrier_ok mnt acc (cr_drv c) act"
  by (simp_all add: limits_ok_def driver_ok_def oplock_ok_def transition_ok_def barrier_ok_def
      ensure_driver_locked_def)



lemma coord_inv_bump [simp]: "coord_inv (bump_locked c) = coord_inv c"
  by (simp add: coord_inv_def)

lemma purge_id: "coord_inv c \<Longrightarrow> purge_cancelled_locked c = c"
proof -
  assume "coord_inv c"
  then have "filter (\<lambda>i. \<not> w_cancelled (cr_waiters c ! i)
                 \<and> w_future (cr_waiters c ! i) \<noteq> FutCancelled) (cr_queue c) = cr_queue c"
    by (intro filter_True) (auto simp: coord_inv_def queue_ok_def queued_ok_def)
  then show ?thesis by (simp add: purge_cancelled_locked_def)
qed

subsection \<open>Failing waiters\<close>

lemma live_waiter_failed [simp]: "\<not> live_waiter (w\<lparr>w_future := Failed x\<rparr>)"
  by (simp add: live_waiter_def)

lemma not_live_pending: "\<not> fut_done (w_future w) \<Longrightarrow> \<not> live_waiter w"
  by (simp add: live_waiter_def fut_done_def)

lemma length_fail_all_loop [simp]: "length (fail_all_loop x q ws) = length ws"
  by (induction x q ws rule: fail_all_loop.induct) auto

lemma count_fail_all_loop:
  "\<forall>i \<in> set q. i < length ws \<Longrightarrow>
     count_if live_waiter (fail_all_loop x q ws) = count_if live_waiter ws"
  by (induction x q ws rule: fail_all_loop.induct)
    (auto simp: count_if_update not_live_pending)

lemma live_fail_all_loop:
  "w \<in> set (fail_all_loop x q ws) \<Longrightarrow> live_waiter w \<Longrightarrow> w \<in> set ws"
proof (induction x q ws rule: fail_all_loop.induct)
  case (2 x i q ws)
  let ?ws = "if fut_done (w_future (ws ! i)) then ws else ws[i := (ws ! i)\<lparr>w_future := Failed x\<rparr>]"
  from 2 have "w \<in> set ?ws" by simp
  moreover have "w \<noteq> (ws ! i)\<lparr>w_future := Failed x\<rparr>" using 2 by auto
  ultimately show ?case by (auto split: if_splits dest: set_update_subset_insert [THEN subsetD])
qed simp

lemma fail_head_loop_spec:
  assumes "fail_head_loop d x q ws = (q', ws')"
    and "distinct q" and "\<forall>i \<in> set q. i < length ws"
  shows "length ws' = length ws" and "\<exists>ps. q = ps @ q'"
    and "\<forall>i \<in> set q'. ws' ! i = ws ! i"
    and "count_if live_waiter ws' = count_if live_waiter ws"
    and "\<forall>w \<in> set ws'. live_waiter w \<longrightarrow> w \<in> set ws"
proof -
  have "length ws' = length ws \<and> (\<exists>ps. q = ps @ q') \<and> (\<forall>i \<in> set q'. ws' ! i = ws ! i)
    \<and> count_if live_waiter ws' = count_if live_waiter ws
    \<and> (\<forall>w \<in> set ws'. live_waiter w \<longrightarrow> w \<in> set ws)"
    using assms
  proof (induction d x q ws arbitrary: q' ws' rule: fail_head_loop.induct)
    case (2 d x i q ws)
    define ws1 where ws1: "ws1 = (if fut_done (w_future (ws ! i)) then ws
       else ws[i := (ws ! i)\<lparr>w_future := Failed x\<rparr>])"
    have len: "length ws1 = length ws" by (simp add: ws1)
    have nth: "j \<noteq> i \<Longrightarrow> ws1 ! j = ws ! j" for j by (simp add: ws1)
    have cnt: "count_if live_waiter ws1 = count_if live_waiter ws"
      using 2(4) by (simp add: ws1 count_if_update not_live_pending)
    have live: "live_waiter w \<Longrightarrow> w \<in> set ws1 \<Longrightarrow> w \<in> set ws" for w
      using set_update_subset_insert [of ws i "(ws ! i)\<lparr>w_future := Failed x\<rparr>"]
      by (auto simp: ws1 split: if_splits)
    show ?case
    proof (cases "w_deployment (ws ! i) = d")
      case True
      have IH: "length ws' = length ws1 \<and> (\<exists>ps. q = ps @ q') \<and> (\<forall>i \<in> set q'. ws' ! i = ws1 ! i)
        \<and> count_if live_waiter ws' = count_if live_waiter ws1
        \<and> (\<forall>w \<in> set ws'. live_waiter w \<longrightarrow> w \<in> set ws1)"
        unfolding ws1
      proof (rule "2.IH" [OF True])
        show "fail_head_loop d x q (if fut_done (w_future (ws ! i)) then ws
          else ws[i := (ws ! i)\<lparr>w_future := Failed x\<rparr>]) = (q', ws')" using "2.prems"(1) True by simp
        show "distinct q" using "2.prems"(2) by simp
        show "\<forall>j \<in> set q. j < length (if fut_done (w_future (ws ! i)) then ws
          else ws[i := (ws ! i)\<lparr>w_future := Failed x\<rparr>])" using "2.prems"(3) by simp
      qed
      then have "\<exists>ps. i # q = ps @ q'" and "i \<notin> set q'" using "2.prems"(2) by (metis append_Cons, auto)
      then show ?thesis using IH len nth cnt live by (metis (no_types, lifting))
    next
      case False
      with 2 show ?thesis by auto
    qed
  qed simp
  then show "length ws' = length ws" and "\<exists>ps. q = ps @ q'"
    and "\<forall>i \<in> set q'. ws' ! i = ws ! i"
    and "count_if live_waiter ws' = count_if live_waiter ws"
    and "\<forall>w \<in> set ws'. live_waiter w \<longrightarrow> w \<in> set ws" by blast+
qed

subsection \<open>Granting the head group\<close>

lemma takeWhile_cong_nth:
  "(\<And>i. i \<in> set q \<Longrightarrow> P (ws ! i) = P (ws' ! i)) \<Longrightarrow>
     takeWhile (\<lambda>i. P (ws ! i)) q = takeWhile (\<lambda>i. P (ws' ! i)) q"
  by (induction q) auto

lemma grant_loop_eq:
  assumes "distinct q" and "\<forall>i \<in> set q. i < length ws \<and> queued_ok (ws ! i)"
  shows "grant_loop d limit rp ep q act ws n =
     (let ps = grant_prefix d limit act ws q; k = int (length ps)
      in (drop (length ps) q, act + k, grant_all rp ep ps ws, n + k))"
  using assms
proof (induction q arbitrary: act ws n)
  case Nil
  then show ?case by (simp add: grant_prefix_def grant_all_def)
next
  case (Cons i q)
  show ?case
  proof (cases "w_deployment (ws ! i) = d \<and> act < limit")
    case True
    let ?ws = "ws[i := (ws ! i)\<lparr>w_future := Granted rp ep\<rparr>]"
    have ok: "\<forall>j \<in> set q. j < length ?ws \<and> queued_ok (?ws ! j)" and dq: "distinct q"
      using Cons.prems by (auto simp: nth_list_update)
    have same: "grant_prefix d limit (act + 1) ?ws q = grant_prefix d limit (act + 1) ws q"
      unfolding grant_prefix_def
      by (subst takeWhile_cong_nth [where P = "\<lambda>w. w_deployment w = d" and ws' = ws])
        (use Cons.prems in \<open>auto simp: nth_list_update\<close>)
    have n: "nat (limit - act) = Suc (nat (limit - (act + 1)))" using True by linarith
    have pre: "grant_prefix d limit act ws (i # q) = i # grant_prefix d limit (act + 1) ws q"
      using True unfolding grant_prefix_def n by simp
    have "queued_ok (ws ! i)" using Cons.prems by simp
    then have "grant_loop d limit rp ep (i # q) act ws n = grant_loop d limit rp ep q (act + 1) ?ws (n + 1)"
      using True by (simp add: queued_ok_def)
    also have "\<dots> = (let ps = grant_prefix d limit act ws (i # q); k = int (length ps)
      in (drop (length ps) (i # q), act + k, grant_all rp ep ps ws, n + k))"
      unfolding Cons.IH [OF dq ok] same pre by (simp add: Let_def grant_all_def)
    finally show ?thesis .
  next
    case False
    then have "grant_prefix d limit act ws (i # q) = []" by (auto simp: grant_prefix_def)
    with False show ?thesis by (auto simp: grant_all_def)
  qed
qed

lemma grant_all_simps [simp]:
  "grant_all rp ep [] ws = ws"
  "grant_all rp ep (i # is) ws = grant_all rp ep is (ws[i := (ws ! i)\<lparr>w_future := Granted rp ep\<rparr>])"
  by (simp_all add: grant_all_def)

lemma length_grant_all [simp]: "length (grant_all rp ep is ws) = length ws"
  by (induction "is" arbitrary: ws) auto

lemma nth_grant_all:
  "distinct is \<Longrightarrow> \<forall>i \<in> set is. i < length ws \<Longrightarrow> j < length ws \<Longrightarrow>
     grant_all rp ep is ws ! j = (if j \<in> set is then (ws ! j)\<lparr>w_future := Granted rp ep\<rparr> else ws ! j)"
  by (induction "is" arbitrary: ws) (auto simp: nth_list_update)

lemma count_grant_all:
  "distinct is \<Longrightarrow> \<forall>i \<in> set is. i < length ws \<and> queued_ok (ws ! i) \<Longrightarrow>
     count_if live_waiter (grant_all rp ep is ws) = count_if live_waiter ws + int (length is)"
proof (induction "is" arbitrary: ws)
  case (Cons i "is")
  let ?ws = "ws[i := (ws ! i)\<lparr>w_future := Granted rp ep\<rparr>]"
  have "\<forall>j \<in> set is. j < length ?ws \<and> queued_ok (?ws ! j)" using Cons.prems by (auto simp: nth_list_update)
  then have "count_if live_waiter (grant_all rp ep is ?ws) = count_if live_waiter ?ws + int (length is)"
    using Cons.prems by (intro Cons.IH) auto
  moreover have "count_if live_waiter ?ws = count_if live_waiter ws + 1"
    using Cons.prems by (simp add: count_if_update live_waiter_def queued_ok_def)
  ultimately show ?case by simp
qed simp

lemma live_grant_all:
  assumes "distinct is" and "\<forall>i \<in> set is. i < length ws" and "w \<in> set (grant_all rp ep is ws)"
  shows "w \<in> set ws \<or> w_future w = Granted rp ep"
proof -
  from assms(3) obtain j where "j < length ws" and "w = grant_all rp ep is ws ! j"
    by (auto simp: in_set_conv_nth)
  with nth_grant_all [OF assms(1,2)] show ?thesis by auto
qed

lemma permits_0: "permits ws ls = 0 \<longleftrightarrow> (\<forall>w \<in> set ws. \<not> live_waiter w) \<and> (\<forall>l \<in> set ls. \<not> live_lease l)"
proof -
  have "permits ws ls = 0 \<longleftrightarrow> count_if live_waiter ws = 0 \<and> count_if live_lease ls = 0"
    using count_if_ge_0 [of live_waiter ws] count_if_ge_0 [of live_lease ls]
    unfolding permits_def by linarith
  then show ?thesis by (simp add: count_if_0_iff)
qed

text \<open>The epoch may advance only when no permit is outstanding.\<close>

lemma permits_ok_epoch: "permits_ok 0 ep ws ls \<Longrightarrow> permits_ok 0 ep' ws ls"
  using permits_0 [of ws ls] by (auto simp: permits_ok_def)

lemma permits_ok_nonneg: "permits_ok act ep ws ls \<Longrightarrow> 0 \<le> act"
  by (simp add: permits_ok_def permits_def)

lemma permits_ok_waiters:
  assumes "permits_ok act ep ws ls" and "count_if live_waiter ws' = count_if live_waiter ws"
    and "\<forall>w \<in> set ws'. live_waiter w \<longrightarrow> w \<in> set ws"
  shows "permits_ok act ep ws' ls"
  using assms by (auto simp: permits_ok_def permits_def)

lemma permits_ok_fail_all:
  "queue_ok q ws \<Longrightarrow> permits_ok act ep ws ls \<Longrightarrow> permits_ok act ep (fail_all_loop x q ws) ls"
  by (rule permits_ok_waiters [of act ep ws])
    (auto simp: queue_ok_def intro: count_fail_all_loop live_fail_all_loop)

lemma fail_head_ok:
  assumes "queue_ok (cr_queue c) (cr_waiters c)"
    and "permits_ok act ep (cr_waiters c) ls"
  shows "queue_ok (cr_queue (fail_head_locked d x c)) (cr_waiters (fail_head_locked d x c))"
    and "permits_ok act ep (cr_waiters (fail_head_locked d x c)) ls"
    and "cr_queue (fail_head_locked d x c) \<noteq> [] \<Longrightarrow> cr_queue c \<noteq> []"
proof -
  obtain q' ws' where eq: "fail_head_loop d x (cr_queue c) (cr_waiters c) = (q', ws')" by fastforce
  have dist: "distinct (cr_queue c)" and len: "\<forall>i \<in> set (cr_queue c). i < length (cr_waiters c)"
    using assms(1) by (auto simp: queue_ok_def)
  note F = fail_head_loop_spec [OF eq dist len]
  have new: "cr_queue (fail_head_locked d x c) = q'" "cr_waiters (fail_head_locked d x c) = ws'"
    by (simp_all add: fail_head_locked_def eq)
  obtain ps where split: "cr_queue c = ps @ q'" using F(2) by blast
  then show "cr_queue (fail_head_locked d x c) \<noteq> [] \<Longrightarrow> cr_queue c \<noteq> []" by (simp add: new)
  from split show "queue_ok (cr_queue (fail_head_locked d x c)) (cr_waiters (fail_head_locked d x c))"
    using assms(1) F(1,3) unfolding new by (auto simp: queue_ok_def)
  show "permits_ok act ep (cr_waiters (fail_head_locked d x c)) ls"
    unfolding new by (rule permits_ok_waiters [OF assms(2) F(4,5)])
qed


lemma reconfigure_inv:
  assumes "coord_inv c" and "reconfigure conf depth c = Inr c'"
  shows "coord_inv c'"
proof -
  have c': "c' = notify_all (ensure_driver_locked (bump_locked
      (c\<lparr>cr_configured_max_concurrency := conf, cr_max_queue_depth := depth\<rparr>)))"
    and ok: "1 \<le> depth" "\<forall>m. conf = Some m \<longrightarrow> 1 \<le> m"
    using assms(2) by (auto simp: reconfigure_def split: if_splits option.splits)
  have "limits_ok (cr_capacity c) conf depth (cr_drv c)"
    using assms(1) ok by (simp add: coord_inv_def limits_ok_def)
  then show ?thesis using assms(1) unfolding c' by (simp add: coord_inv_def)
qed

lemma status_inv: "coord_inv c \<Longrightarrow> coord_inv (snd (status_coord c))"
  by (simp add: status_coord_def Let_def purge_id)

lemma live_lease_held [simp]:
  "live_lease \<lparr>l_resident_profile = rp, l_requested_profile = p, l_deployment = d, l_epoch = ep,
     l_phase = Held\<rparr>"
  by (simp add: live_lease_def)

lemma effective_limit_pos:
  "limits_ok (cr_capacity c) (cr_configured_max_concurrency c) dep drv \<Longrightarrow> 1 \<le> effective_limit_locked c"
  by (auto simp: limits_ok_def effective_limit_locked_def split: option.splits)

lemma admit_one_inv:
  assumes "coord_inv c" and "cr_queue c = []" and "cr_state c = READY" and "cr_accepting c"
  shows "coord_inv (admit_one rp p d c)"
proof -
  have "\<not> in_transition (cr_drv c)"
    using assms(1,3) by (auto simp: coord_inv_def transition_ok_def)
  moreover have "\<not> drained (cr_mnt c)"
    using assms(1,4) by (cases "cr_mnt c") (auto simp: coord_inv_def barrier_ok_def)
  moreover have "cr_drv c \<noteq> DrvWait False"
    using assms(1,2) by (auto simp: coord_inv_def wakeup_ok_def)
  moreover have "permits_ok (cr_active c + 1) (cr_epoch c) (cr_waiters c) (cr_leases (admit_one rp p d c))"
    using assms(1) by (auto simp: coord_inv_def permits_ok_def permits_def admit_one_def)
  ultimately show ?thesis
    using assms(1) unfolding admit_one_def
    by (simp add: coord_inv_def transition_ok_def barrier_ok_def wakeup_ok_def)
qed

lemma enqueue_inv:
  assumes "coord_inv c" and "cr_accepting c" and "\<not> cr_stopping c"
  shows "coord_inv (notify_all (ensure_driver_locked (bump_locked
    (c\<lparr>cr_waiters := cr_waiters c @ [\<lparr>w_profile = p, w_deployment = d, w_future = Pending,
        w_cancelled = False, w_taken = False\<rparr>], cr_queue := cr_queue c @ [length (cr_waiters c)]\<rparr>))))"
proof -
  let ?w = "\<lparr>w_profile = p, w_deployment = d, w_future = Pending, w_cancelled = False, w_taken = False\<rparr>"
  have "queue_ok (cr_queue c @ [length (cr_waiters c)]) (cr_waiters c @ [?w])"
    using assms by (auto simp: coord_inv_def queue_ok_def queued_ok_def nth_append)
  moreover have "permits_ok (cr_active c) (cr_epoch c) (cr_waiters c @ [?w]) (cr_leases c)"
    using assms by (auto simp: coord_inv_def permits_ok_def permits_def live_waiter_def)
  ultimately show ?thesis using assms by (simp add: coord_inv_def)
qed

lemma acquire_enter_inv: "coord_inv c \<Longrightarrow> coord_inv (snd (acquire_enter p d c))"
proof -
  assume inv: "coord_inv c"
  have "cr_resident_deployment_id c = Some d \<Longrightarrow> cr_resident_profile c \<noteq> None"
    using inv by (auto simp: coord_inv_def resident_ok_def)
  then show ?thesis
    using inv enqueue_inv [OF inv] admit_one_inv [OF inv, of _ p d]
    by (auto simp: acquire_enter_def assert_accepting_locked_def purge_id [OF inv] Let_def
        admit_one_def split: if_splits option.splits)
qed

lemma acquire_current_inv: "coord_inv c \<Longrightarrow> coord_inv (snd (acquire_current c))"
  using admit_one_inv [of c]
  by (auto simp: acquire_current_def assert_accepting_locked_def Let_def admit_one_def
      split: if_splits option.splits)


text \<open>Rewriting a waiter that is not queued keeps the queue and the parked driver's reasons.\<close>

lemma queue_update_other:
  "queue_ok q ws \<Longrightarrow> i \<notin> set q \<Longrightarrow> queue_ok q (ws[i := w])"
  unfolding queue_ok_def by (metis length_list_update nth_list_update_neq)

lemma wakeup_update_other:
  assumes "wakeup_ok drv q acc rd ws limit act" and "i \<notin> set q"
  shows "wakeup_ok drv q acc rd (ws[i := w]) limit act"
proof -
  have "q \<noteq> [] \<Longrightarrow> hd q \<noteq> i" using assms(2) hd_in_set by metis
  then show ?thesis using assms(1) by (auto simp: wakeup_ok_def)
qed

lemma not_queued: "queue_ok q ws \<Longrightarrow> w_future (ws ! i) \<noteq> Pending \<Longrightarrow> i \<notin> set q"
  by (auto simp: queue_ok_def queued_ok_def)

lemma acquire_resume_inv:
  assumes inv: "coord_inv c" and w: "client_waiting i c"
  shows "coord_inv (snd (acquire_resume i c))"
proof -
  let ?w = "cr_waiters c ! i"
  let ?ws = "(cr_waiters c)[i := ?w\<lparr>w_taken := True\<rparr>]"
  have q: "queue_ok (cr_queue c) (cr_waiters c)"
    and p: "permits_ok (cr_active c) (cr_epoch c) (cr_waiters c) (cr_leases c)"
    and k: "wakeup_ok (cr_drv c) (cr_queue c) (cr_accepting c) (cr_resident_deployment_id c)
          (cr_waiters c) (effective_limit_locked c) (cr_active c)"
    using inv by (simp_all add: coord_inv_def)
  have i: "i < length (cr_waiters c)" using w by (simp add: client_waiting_def)
  have cnt: "count_if live_waiter ?ws
    = count_if live_waiter (cr_waiters c) - (if is_granted (w_future ?w) then 1 else 0)"
    using w i by (simp add: count_if_update client_waiting_def live_waiter_def)
  have live: "x \<in> set ?ws \<Longrightarrow> live_waiter x \<Longrightarrow> x \<in> set (cr_waiters c)" for x
    using set_update_subset_insert [of "cr_waiters c" i "?w\<lparr>w_taken := True\<rparr>"]
    by (auto simp: live_waiter_def)
  have other: "w_future ?w \<noteq> Pending \<Longrightarrow> queue_ok (cr_queue c) ?ws"
    "w_future ?w \<noteq> Pending \<Longrightarrow> wakeup_ok (cr_drv c) (cr_queue c) (cr_accepting c)
       (cr_resident_deployment_id c) ?ws (effective_limit_locked c) (cr_active c)"
    using queue_update_other [OF q] wakeup_update_other [OF k] not_queued [OF q, of i] by auto
  show ?thesis
  proof (cases "w_future ?w")
    case (Granted rp ep)
    have "?w \<in> set (cr_waiters c)" using i by simp
    then have ep: "ep = cr_epoch c"
      using p w Granted by (force simp: permits_ok_def live_waiter_def client_waiting_def)
    have "permits_ok (cr_active c) (cr_epoch c) ?ws
       (cr_leases (issue_lease rp (w_profile ?w) (w_deployment ?w) ep c))"
      using p cnt live ep Granted by (auto simp: permits_ok_def permits_def)
    then show ?thesis
      using inv other Granted by (simp add: acquire_resume_def Let_def coord_inv_def)
  next
    case (Failed x)
    have "permits_ok (cr_active c) (cr_epoch c) ?ws (cr_leases c)"
      using p cnt live Failed by (auto simp: permits_ok_def permits_def)
    then show ?thesis
      using inv other Failed by (simp add: acquire_resume_def Let_def coord_inv_def)
  qed (use inv in \<open>simp_all add: acquire_resume_def Let_def\<close>)
qed

lemma purge_frame [simp]:
  "cr_waiters (purge_cancelled_locked c) = cr_waiters c"
  "cr_leases (purge_cancelled_locked c) = cr_leases c"
  "cr_resident_profile (purge_cancelled_locked c) = cr_resident_profile c"
  "cr_resident_deployment_id (purge_cancelled_locked c) = cr_resident_deployment_id c"
  "cr_capacity (purge_cancelled_locked c) = cr_capacity c"
  "cr_configured_max_concurrency (purge_cancelled_locked c) = cr_configured_max_concurrency c"
  "cr_max_queue_depth (purge_cancelled_locked c) = cr_max_queue_depth c"
  "cr_epoch (purge_cancelled_locked c) = cr_epoch c"
  "cr_active (purge_cancelled_locked c) = cr_active c"
  "cr_state (purge_cancelled_locked c) = cr_state c"
  "cr_accepting (purge_cancelled_locked c) = cr_accepting c"
  "cr_stopping (purge_cancelled_locked c) = cr_stopping c"
  "cr_drv (purge_cancelled_locked c) = cr_drv c"
  "cr_mnt (purge_cancelled_locked c) = cr_mnt c"
  "cr_oplock (purge_cancelled_locked c) = cr_oplock c"
  "cr_cb_inflight (purge_cancelled_locked c) = cr_cb_inflight c"
  by (simp_all add: purge_cancelled_locked_def)

lemma release_locked_frame [simp]:
  "cr_queue (release_locked ep now c) = cr_queue c"
  "cr_waiters (release_locked ep now c) = cr_waiters c"
  "cr_leases (release_locked ep now c) = cr_leases c"
  "cr_resident_profile (release_locked ep now c) = cr_resident_profile c"
  "cr_resident_deployment_id (release_locked ep now c) = cr_resident_deployment_id c"
  "cr_capacity (release_locked ep now c) = cr_capacity c"
  "cr_configured_max_concurrency (release_locked ep now c) = cr_configured_max_concurrency c"
  "cr_max_queue_depth (release_locked ep now c) = cr_max_queue_depth c"
  "cr_epoch (release_locked ep now c) = cr_epoch c"
  "cr_state (release_locked ep now c) = cr_state c"
  "cr_accepting (release_locked ep now c) = cr_accepting c"
  "cr_stopping (release_locked ep now c) = cr_stopping c"
  "cr_drv (release_locked ep now c) = cr_drv c"
  "cr_mnt (release_locked ep now c) = cr_mnt c"
  "cr_oplock (release_locked ep now c) = cr_oplock c"
  by (simp_all add: release_locked_def)

lemma release_locked_current:
  "ep = cr_epoch c \<Longrightarrow> 0 < cr_active c \<Longrightarrow> cr_active (release_locked ep now c) = cr_active c - 1"
  "cr_cb_inflight c = cr_active c \<Longrightarrow>
     cr_cb_inflight (release_locked ep now c) = cr_active (release_locked ep now c)"
  by (simp_all add: release_locked_def)

lemma permits_nonneg [simp]: "0 \<le> permits ws ls"
  by (simp add: permits_def)

lemma transition_ok_dec:
  "transition_ok drv act st \<Longrightarrow> 0 < act \<Longrightarrow> transition_ok drv act' st"
  by (auto simp: transition_ok_def)

lemma barrier_ok_dec:
  "barrier_ok mnt acc drv act \<Longrightarrow> 0 < act \<Longrightarrow> barrier_ok mnt acc drv act'"
  by (auto simp: barrier_ok_def)

lemma cancel_waiter_inv:
  assumes inv: "coord_inv c" and w: "client_waiting i c"
  shows "coord_inv (cancel_waiter i now c)"
proof -
  let ?w = "cr_waiters c ! i"
  have q: "queue_ok (cr_queue c) (cr_waiters c)"
    and p: "permits_ok (cr_active c) (cr_epoch c) (cr_waiters c) (cr_leases c)"
    using inv by (simp_all add: coord_inv_def)
  have i: "i < length (cr_waiters c)" and nc: "\<not> w_cancelled ?w" and nt: "\<not> w_taken ?w"
    using w by (simp_all add: client_waiting_def)
  have upd: "\<not> live_waiter w' \<Longrightarrow> count_if live_waiter ((cr_waiters c)[i := w'])
    = count_if live_waiter (cr_waiters c) - (if is_granted (w_future ?w) then 1 else 0)" for w'
    using nc nt i by (simp add: count_if_update live_waiter_def)
  have live: "\<not> live_waiter w' \<Longrightarrow> x \<in> set ((cr_waiters c)[i := w']) \<Longrightarrow> live_waiter x \<Longrightarrow> x \<in> set (cr_waiters c)" for x w'
    using set_update_subset_insert [of "cr_waiters c" i w'] by auto
  have purged: "queue_ok (filter (\<lambda>j. \<not> w_cancelled (ws ! j) \<and> w_future (ws ! j) \<noteq> FutCancelled) (cr_queue c)) ws"
    if "ws = (cr_waiters c)[i := w']" "w_cancelled w'" for ws w'
    using q i that by (auto simp: queue_ok_def nth_list_update split: if_splits)
  have kept: "permits_ok (cr_active c) (cr_epoch c) ((cr_waiters c)[i := w']) (cr_leases c)"
    if "\<not> is_granted (w_future ?w)" "w_cancelled w'" for w'
    using that p upd [of w'] live [of w'] by (auto simp: permits_ok_def permits_def live_waiter_def)
  have finish: "coord_inv (notify_all (bump_locked (purge_cancelled_locked
      (c\<lparr>cr_waiters := (cr_waiters c)[i := w'], cr_active := a, cr_last_used := t, cr_sequence := sq,
        cr_cb_inflight := a\<rparr>))))"
    if "w_cancelled w'" "permits_ok a (cr_epoch c) ((cr_waiters c)[i := w']) (cr_leases c)"
      "a = cr_active c \<or> 0 < cr_active c" for w' a t sq
    using that inv purged [OF refl that(1)] transition_ok_dec [of _ "cr_active c" _ a]
      barrier_ok_dec [of _ _ _ "cr_active c" a]
    by (auto simp: coord_inv_def purge_cancelled_locked_def driver_ok_def)
  have finish0: "coord_inv (notify_all (bump_locked (purge_cancelled_locked
      (c\<lparr>cr_waiters := (cr_waiters c)[i := w']\<rparr>))))"
    if "w_cancelled w'" "permits_ok (cr_active c) (cr_epoch c) ((cr_waiters c)[i := w']) (cr_leases c)" for w'
    using that inv purged [OF refl that(1)]
    by (auto simp: coord_inv_def purge_cancelled_locked_def driver_ok_def)
  show ?thesis
  proof (cases "is_granted (w_future ?w)")
    case True
    then obtain rp ep where g: "w_future ?w = Granted rp ep" by (cases "w_future ?w") auto
    have lw: "live_waiter ?w" using g nc nt by (simp add: live_waiter_def)
    have "?w \<in> set (cr_waiters c)" using i by simp
    then have ep: "ep = cr_epoch c" using p lw g by (force simp: permits_ok_def)
    have pos: "0 < cr_active c"
      using p count_if_pos_nth [of i "cr_waiters c" live_waiter, OF i lw] count_if_ge_0 [of live_lease "cr_leases c"]
      unfolding permits_ok_def permits_def by linarith
    have "permits_ok (cr_active c - 1) (cr_epoch c) ((cr_waiters c)[i := ?w\<lparr>w_cancelled := True\<rparr>]) (cr_leases c)"
      using p True upd [of "?w\<lparr>w_cancelled := True\<rparr>"] live [of "?w\<lparr>w_cancelled := True\<rparr>"]
      by (auto simp: permits_ok_def permits_def live_waiter_def)
    from finish [OF _ this, where t = now and sq = "cr_sequence c + 1"] g ep nc pos show ?thesis
      by (simp add: cancel_waiter_def Let_def release_locked_def notify_inflight_locked_def bump_locked_def)
  next
    case False
    from finish0 [OF _ kept [OF False], of "?w\<lparr>w_cancelled := True\<rparr>"]
      finish0 [OF _ kept [OF False], of "?w\<lparr>w_cancelled := True, w_future := FutCancelled\<rparr>"] False nc
    show ?thesis by (cases "w_future ?w") (simp_all add: cancel_waiter_def Let_def)
  qed
qed

lemma lease_release_inv:
  assumes "coord_inv c" and "k < length (cr_leases c)"
  shows "coord_inv (lease_release k c)"
proof (cases "l_phase (cr_leases c ! k)")
  case Held
  let ?l = "(cr_leases c ! k)\<lparr>l_phase := Releasing\<rparr>"
  have "count_if live_lease ((cr_leases c)[k := ?l]) = count_if live_lease (cr_leases c)"
    using Held assms(2) by (simp add: count_if_update live_lease_def)
  moreover have "\<forall>l \<in> set ((cr_leases c)[k := ?l]). live_lease l \<longrightarrow> l_epoch l = cr_epoch c"
    if "\<forall>l \<in> set (cr_leases c). live_lease l \<longrightarrow> l_epoch l = cr_epoch c"
    using that Held assms(2) set_update_subset_insert [of "cr_leases c" k ?l] nth_mem [OF assms(2)]
    by (auto simp: live_lease_def)
  ultimately have "permits_ok (cr_active c) (cr_epoch c) (cr_waiters c) ((cr_leases c)[k := ?l])"
    using assms(1) by (simp add: coord_inv_def permits_ok_def permits_def)
  then show ?thesis using assms(1) Held by (simp add: lease_release_def Let_def coord_inv_def)
qed (use assms in \<open>simp_all add: lease_release_def Let_def\<close>)

lemma lease_release_task_inv:
  assumes inv: "coord_inv c" and k: "k < length (cr_leases c)" and ph: "l_phase (cr_leases c ! k) = Releasing"
  shows "coord_inv (lease_release_task k now c)"
proof -
  let ?l = "cr_leases c ! k"
  let ?ls = "(cr_leases c)[k := ?l\<lparr>l_phase := Released\<rparr>]"
  have p: "permits_ok (cr_active c) (cr_epoch c) (cr_waiters c) (cr_leases c)"
    using inv by (simp add: coord_inv_def)
  have ll: "live_lease ?l" using ph by (simp add: live_lease_def)
  have ep: "l_epoch ?l = cr_epoch c" using p ll nth_mem [OF k] by (auto simp: permits_ok_def)
  have pos: "0 < cr_active c"
    using p count_if_pos_nth [of k "cr_leases c" live_lease, OF k ll] count_if_ge_0 [of live_waiter "cr_waiters c"]
    unfolding permits_ok_def permits_def by linarith
  have p': "permits_ok (cr_active c - 1) (cr_epoch c) (cr_waiters c) ?ls"
    using p ph k set_update_subset_insert [of "cr_leases c" k "?l\<lparr>l_phase := Released\<rparr>"]
    by (auto simp: permits_ok_def permits_def count_if_update live_lease_def)
  then show ?thesis
    using inv pos ep transition_ok_dec [of _ "cr_active c" _ "cr_active c - 1"]
      barrier_ok_dec [of _ _ _ "cr_active c" "cr_active c - 1"]
    by (auto simp: lease_release_task_def release_coord_def Let_def release_locked_def coord_inv_def)
qed


lemma grant_head_inv:
  assumes inv: "coord_inv c" and acc: "cr_accepting c" and rp: "cr_resident_profile c = Some rp"
    and nt: "\<not> in_transition (cr_drv c)"
    and g: "grant_head_locked d rp c = (n, c')"
  shows "coord_inv (c'\<lparr>cr_drv := DrvTop\<rparr>)"
    and "n = 0 \<Longrightarrow> c' = c \<and> grant_prefix d (effective_limit_locked c) (cr_active c) (cr_waiters c) (cr_queue c) = []"
    and "0 \<le> n"
proof -
  define ps where ps: "ps = grant_prefix d (effective_limit_locked c) (cr_active c) (cr_waiters c) (cr_queue c)"
  define ws where ws: "ws = grant_all rp (cr_epoch c) ps (cr_waiters c)"
  define r where r: "r = drop (length ps) (cr_queue c)"
  have q: "queue_ok (cr_queue c) (cr_waiters c)"
    and p: "permits_ok (cr_active c) (cr_epoch c) (cr_waiters c) (cr_leases c)"
    using inv by (simp_all add: coord_inv_def)
  have pre: "cr_queue c = ps @ r"
  proof -
    obtain r' where "takeWhile (\<lambda>i. w_deployment (cr_waiters c ! i) = d) (cr_queue c) @ r' = cr_queue c"
      using takeWhile_dropWhile_id by metis
    then have "\<exists>r. ps @ r = cr_queue c"
      unfolding ps grant_prefix_def by (metis append_assoc append_take_drop_id)
    then show ?thesis unfolding r by (metis append_eq_conv_conj)
  qed
  have dist: "distinct ps" "set ps \<inter> set r = {}" "distinct r"
    and ok: "\<forall>i \<in> set ps. i < length (cr_waiters c) \<and> queued_ok (cr_waiters c ! i)"
    and okr: "\<forall>i \<in> set r. i < length (cr_waiters c) \<and> queued_ok (cr_waiters c ! i)"
    using q unfolding queue_ok_def pre by auto
  have loop: "grant_loop d (effective_limit_locked c) rp (cr_epoch c) (cr_queue c) (cr_active c) (cr_waiters c) 0
     = (r, cr_active c + int (length ps), ws, int (length ps))"
    using grant_loop_eq [of "cr_queue c" "cr_waiters c"] q by (simp add: queue_ok_def Let_def ps ws r)
  let ?c = "c\<lparr>cr_queue := r, cr_active := cr_active c + int (length ps), cr_waiters := ws\<rparr>"
  have n: "n = int (length ps)"
    and c': "c' = (if n \<noteq> 0 then notify_all (notify_inflight_locked (bump_locked ?c)) else ?c)"
    using g unfolding grant_head_locked_def loop by (auto simp: Let_def)
  have q': "queue_ok r ws"
    using okr dist nth_grant_all [OF dist(1)] ok by (auto simp: queue_ok_def ws)
  have "\<forall>w \<in> set ws. live_waiter w \<longrightarrow> granted_epoch (w_future w) = cr_epoch c"
    using p live_grant_all [OF dist(1), of "cr_waiters c" _ rp "cr_epoch c"] ok
    unfolding ws permits_ok_def by fastforce
  then have p': "permits_ok (cr_active c + int (length ps)) (cr_epoch c) ws (cr_leases c)"
    using p count_grant_all [OF dist(1) ok, of rp "cr_epoch c"] by (auto simp: permits_ok_def permits_def ws)
  have nd: "\<not> drained (cr_mnt c)" "\<not> barrier_closed (cr_mnt c)" "\<not> draining (cr_mnt c)"
    using inv acc by (cases "cr_mnt c"; simp add: coord_inv_def barrier_ok_def)+
  have lim: "limits_ok (cr_capacity c) (cr_configured_max_concurrency c) (cr_max_queue_depth c) DrvTop"
    and opl: "oplock_ok (cr_oplock c) DrvTop (cr_mnt c)"
    using inv nt by (cases "cr_drv c"; simp add: coord_inv_def limits_ok_def oplock_ok_def)+
  show "0 \<le> n" by (simp add: n)
  show none: "n = 0 \<Longrightarrow> c' = c \<and> grant_prefix d (effective_limit_locked c) (cr_active c) (cr_waiters c) (cr_queue c) = []"
    using n c' by (simp add: ws r flip: ps)
  show "coord_inv (c'\<lparr>cr_drv := DrvTop\<rparr>)"
  proof (cases "n = 0")
    case True
    then show ?thesis using none inv lim opl
      by (auto simp: coord_inv_def driver_ok_def transition_ok_def wakeup_ok_def barrier_ok_def)
  next
    case False
    have "r \<noteq> [] \<Longrightarrow> cr_queue c \<noteq> []" using pre by simp
    then show ?thesis using False c' inv lim opl q' p' nd acc
      by (clarsimp simp: coord_inv_def driver_ok_def transition_ok_def wakeup_ok_def barrier_ok_def oplock_ok_def)
  qed
qed

text \<open>The driver moves to a new position outside the engine and publishes a state.\<close>

lemma drive_move_inv:
  assumes "coord_inv c" and "\<not> driver_in_engine (cr_drv c)"
    and "\<not> driver_in_engine dv" and "published_limit dv = 1"
    and "transition_ok dv (cr_active c) st" and "draining (cr_mnt c) \<longrightarrow> \<not> in_transition dv"
    and "driver_ok (cr_queue c) dv (cr_accepting c) (cr_stopping c) (cr_mnt c)"
    and "wakeup_ok dv (cr_queue c) (cr_accepting c) (cr_resident_deployment_id c) (cr_waiters c)
           (effective_limit_locked c) (cr_active c)"
  shows "coord_inv ((set_state_locked st tg dg c)\<lparr>cr_drv := dv\<rparr>)"
  using assms by (simp add: coord_inv_def limits_ok_def oplock_ok_def barrier_ok_def)

lemma drive_top_closed_inv:
  assumes inv: "coord_inv c" and pc: "cr_drv c = DrvTop \<or> cr_drv c = DrvWait True"
  shows "coord_inv ((fail_all_locked NotAccepting c)\<lparr>cr_drv := DrvFinally\<rparr>)"
proof -
  have "permits_ok (cr_active c) (cr_epoch c)
      (fail_all_loop NotAccepting (cr_queue c) (cr_waiters c)) (cr_leases c)"
    using inv by (intro permits_ok_fail_all) (simp_all add: coord_inv_def)
  moreover have "published_limit (cr_drv c) = 1" "\<not> driver_in_engine (cr_drv c)" using pc by auto
  ultimately show ?thesis using inv
    by (simp add: coord_inv_def limits_ok_def oplock_ok_def driver_ok_def transition_ok_def
        wakeup_ok_def barrier_ok_def queue_ok_def)
qed

lemma drive_top_resident_inv:
  assumes inv: "coord_inv c" and pc: "cr_drv c = DrvTop \<or> cr_drv c = DrvWait True"
    and acc: "cr_accepting c" "\<not> cr_stopping c" and q: "cr_queue c = i # r"
    and d: "cr_resident_deployment_id c = Some (w_deployment (cr_waiters c ! i))"
    and rp: "cr_resident_profile c = Some rp"
    and g: "grant_head_locked (w_deployment (cr_waiters c ! i)) rp c = (n, c1)"
  shows "coord_inv (if n \<noteq> 0 then c1\<lparr>cr_drv := DrvTop\<rparr>
                    else (set_state_locked READY None None c1)\<lparr>cr_drv := DrvWait False\<rparr>)"
proof -
  have nt: "\<not> in_transition (cr_drv c)" using pc by auto
  note G = grant_head_inv [OF inv acc(1) rp nt g]
  have "coord_inv ((set_state_locked READY None None c)\<lparr>cr_drv := DrvWait False\<rparr>)"
    if "effective_limit_locked c \<le> cr_active c"
    by (rule drive_move_inv) (use inv pc acc q d that in
        \<open>auto simp: transition_ok_def driver_ok_def wakeup_ok_def\<close>)
  moreover have "n = 0 \<Longrightarrow> effective_limit_locked c \<le> cr_active c"
    using G(2) q by (auto simp: grant_prefix_def)
  ultimately show ?thesis using G by auto
qed

lemma drive_top_switch_inv:
  assumes inv: "coord_inv c" and pc: "cr_drv c = DrvTop \<or> cr_drv c = DrvWait True"
    and acc: "cr_accepting c" "\<not> cr_stopping c" and q: "cr_queue c = i # r"
    and d: "cr_resident_deployment_id c \<noteq> Some (w_deployment (cr_waiters c ! i))"
  shows "0 < cr_active c \<Longrightarrow>
      coord_inv ((set_state_locked DRAINING tg None c)\<lparr>cr_drv := DrvWait False\<rparr>)"
    and "\<not> 0 < cr_active c \<Longrightarrow>
      coord_inv ((set_state_locked UNLOADING tg None c)\<lparr>cr_drv := DrvStop p dd False\<rparr>)"
proof -
  have "0 \<le> cr_active c" using inv permits_ok_nonneg by (auto simp: coord_inv_def)
  moreover have "\<not> draining (cr_mnt c)"
    using inv acc by (cases "cr_mnt c") (auto simp: coord_inv_def barrier_ok_def)
  ultimately show
    "0 < cr_active c \<Longrightarrow>
       coord_inv ((set_state_locked DRAINING tg None c)\<lparr>cr_drv := DrvWait False\<rparr>)"
    "\<not> 0 < cr_active c \<Longrightarrow>
       coord_inv ((set_state_locked UNLOADING tg None c)\<lparr>cr_drv := DrvStop p dd False\<rparr>)"
    using inv pc acc q d
    by (auto intro!: drive_move_inv simp: transition_ok_def driver_ok_def wakeup_ok_def)
qed

lemma drive_top_inv:
  assumes inv: "coord_inv c" and pc: "cr_drv c = DrvTop \<or> cr_drv c = DrvWait True"
  shows "coord_inv (drive_top c)"
proof (cases "\<not> cr_accepting c \<or> \<not> cr_authoritative c \<or> cr_stopping c")
  case True
  then show ?thesis using drive_top_closed_inv [OF assms]
    by (simp add: drive_top_def Let_def purge_id [OF inv])
next
  case adm: False
  show ?thesis
  proof (cases "cr_queue c")
    case Nil
    have "coord_inv ((set_state_locked st None None c)\<lparr>cr_drv := DrvFinally\<rparr>)" for st
      using inv pc Nil
      by (auto intro!: drive_move_inv simp: transition_ok_def driver_ok_def wakeup_ok_def)
    then show ?thesis using adm Nil by (simp add: drive_top_def Let_def purge_id [OF inv])
  next
    case (Cons i r)
    have "cr_resident_deployment_id c = Some d \<Longrightarrow> cr_resident_profile c \<noteq> None" for d
      using inv by (auto simp: coord_inv_def resident_ok_def)
    then show ?thesis
      using adm Cons drive_top_resident_inv [OF inv pc _ _ Cons] drive_top_switch_inv [OF inv pc _ _ Cons]
      by (auto simp: drive_top_def Let_def purge_id [OF inv] split: prod.splits option.splits)
  qed
qed


lemma driver_lock_cases:
  assumes "driver_lock c = Some c'"
  obtains (stop) p d where "cr_oplock c = OpFree" "cr_drv c = DrvStop p d False"
      "c' = c\<lparr>cr_oplock := OpDriver, cr_drv := DrvStop p d True\<rparr>"
    | (cleanup) p d x where "cr_oplock c = OpFree" "cr_drv c = DrvCleanup p d x False"
      "c' = c\<lparr>cr_oplock := OpDriver, cr_drv := DrvCleanup p d x True\<rparr>"
  using assms by (auto simp: driver_lock_def split: if_splits driver_pc.splits bool.splits)

lemma driver_lock_inv:
  assumes "coord_inv c" and "driver_lock c = Some c'"
  shows "coord_inv c'"
  using assms(2)
proof (cases rule: driver_lock_cases)
  case stop
  then show ?thesis using assms(1)
    by (clarsimp simp: coord_inv_def limits_ok_def oplock_ok_def driver_ok_def transition_ok_def
        barrier_ok_def wakeup_ok_def)
next
  case cleanup
  then show ?thesis using assms(1)
    by (clarsimp simp: coord_inv_def limits_ok_def oplock_ok_def driver_ok_def transition_ok_def
        barrier_ok_def wakeup_ok_def)
qed

lemma transition_stopped_inv:
  "coord_inv c \<Longrightarrow> cr_drv c = DrvStop p d True \<Longrightarrow> coord_inv (transition_stopped p d out c)"
  by (auto simp: transition_stopped_def coord_inv_def limits_ok_def oplock_ok_def driver_ok_def
      transition_ok_def barrier_ok_def wakeup_ok_def split: option.splits)

lemma transition_started_inv:
  "coord_inv c \<Longrightarrow> cr_drv c = DrvStart p d \<Longrightarrow> coord_inv (transition_started p d out c)"
  by (auto simp: transition_started_def mk_capacity_spec_def coord_inv_def limits_ok_def oplock_ok_def
      driver_ok_def transition_ok_def barrier_ok_def wakeup_ok_def split: sum.splits if_splits)

lemma cleanup_done_inv:
  "coord_inv c \<Longrightarrow> cr_drv c = DrvCleanup p d x True \<Longrightarrow> coord_inv (cleanup_done p d x clean c)"
  by (auto simp: cleanup_done_def coord_inv_def limits_ok_def oplock_ok_def driver_ok_def
      transition_ok_def barrier_ok_def wakeup_ok_def)

lemma drive_publish_inv:
  assumes "coord_inv c" and "cr_drv c = DrvPublish p d cap"
  shows "coord_inv (drive_publish p d cap c)"
proof -
  have "permits_ok 0 (cr_epoch c + 1) (cr_waiters c) (cr_leases c)" and "cr_active c = 0"
    using assms permits_ok_epoch [of "cr_epoch c"] by (auto simp: coord_inv_def transition_ok_def)
  then show ?thesis using assms
    by (auto simp: drive_publish_def Let_def coord_inv_def limits_ok_def oplock_ok_def driver_ok_def
        resident_ok_def transition_ok_def barrier_ok_def wakeup_ok_def)
qed

lemma drive_publish_failure_inv:
  assumes inv: "coord_inv c" and pc: "cr_drv c = DrvPublishFail p d x clean"
    and ok: "\<not> reopens_barrier EvDrvPublish c"
  shows "coord_inv (drive_publish_failure d x clean c)"
proof -
  define c1 where c1: "c1 = set_state_locked (if clean then IDLE else DEGRADED) None
      (if clean then None else Some ''transition_cleanup_failed'')
      (c\<lparr>cr_resident_profile := None, cr_resident_deployment_id := None,
         cr_capacity := no_resident_capacity, cr_transition_target := None,
         cr_authoritative := clean, cr_accepting := clean \<and> \<not> cr_stopping c\<rparr>)"
  have eq: "drive_publish_failure d x clean c
      = (notify_all (bump_locked (fail_head_locked d x c1)))\<lparr>cr_drv := DrvTop\<rparr>"
    by (simp add: drive_publish_failure_def Let_def c1)
  have q: "queue_ok (cr_queue c1) (cr_waiters c1)"
    and p: "permits_ok (cr_active c) (cr_epoch c) (cr_waiters c1) (cr_leases c)"
    using inv by (simp_all add: coord_inv_def c1)
  have frame: "cr_queue c1 = cr_queue c" "cr_leases c1 = cr_leases c" "cr_epoch c1 = cr_epoch c"
    "cr_active c1 = cr_active c" "cr_mnt c1 = cr_mnt c" "cr_oplock c1 = cr_oplock c"
    "cr_stopping c1 = cr_stopping c" "cr_cb_inflight c1 = cr_cb_inflight c"
    "cr_configured_max_concurrency c1 = cr_configured_max_concurrency c"
    "cr_max_queue_depth c1 = cr_max_queue_depth c" "cr_accepting c1 = (clean \<and> \<not> cr_stopping c)"
    "cr_resident_profile c1 = None" "cr_resident_deployment_id c1 = None"
    "cr_capacity c1 = no_resident_capacity"
    by (simp_all add: c1)
  have "barrier_closed (cr_mnt c) \<longrightarrow> clean \<longrightarrow> cr_stopping c"
    using ok pc by (auto simp: reopens_barrier_def)
  then show ?thesis using inv pc fail_head_ok [OF q p, of d x] unfolding eq
    by (clarsimp simp: frame coord_inv_def limits_ok_def oplock_ok_def driver_ok_def
        resident_ok_def transition_ok_def barrier_ok_def wakeup_ok_def no_resident_capacity_def)
qed

lemma drive_finally_inv: "coord_inv c \<Longrightarrow> cr_drv c = DrvFinally \<Longrightarrow> coord_inv (drive_finally c)"
  by (auto simp: drive_finally_def Let_def coord_inv_def limits_ok_def oplock_ok_def driver_ok_def
      transition_ok_def barrier_ok_def wakeup_ok_def ensure_driver_locked_def)


text \<open>The maintenance caller moves to a new position outside the engine and publishes a state.\<close>

lemma maint_move_inv:
  assumes "coord_inv c" and "\<not> maint_in_engine (cr_mnt c)" and "\<not> maint_in_engine m"
    and "cr_queue c \<noteq> [] \<and> cr_stopping c \<longrightarrow> entering m"
    and "barrier_ok m (cr_accepting c) (cr_drv c) (cr_active c)"
  shows "coord_inv (c\<lparr>cr_mnt := m\<rparr>)"
  using assms by (simp add: coord_inv_def oplock_ok_def driver_ok_def)

lemma unload_inv: "coord_inv c \<Longrightarrow> cr_mnt c = MntNone \<Longrightarrow> coord_inv (unload c)"
  unfolding unload_def by (rule maint_move_inv) (simp_all add: barrier_ok_def)

lemma shutdown_inv: "coord_inv c \<Longrightarrow> cr_mnt c = MntNone \<Longrightarrow> coord_inv (shutdown c)"
  by (simp add: shutdown_def coord_inv_def oplock_ok_def driver_ok_def barrier_ok_def)

lemma evict_inv: "coord_inv c \<Longrightarrow> cr_mnt c = MntNone \<Longrightarrow> coord_inv (evict_if_idle idle now c)"
  by (auto simp: evict_if_idle_def evict_eligible_def coord_inv_def oplock_ok_def driver_ok_def
      barrier_ok_def wakeup_ok_def)

lemma set_state_inv:
  "coord_inv c \<Longrightarrow> st \<noteq> READY \<or> \<not> in_transition (cr_drv c) \<Longrightarrow> coord_inv (set_state_locked st tg dg c)"
  by (auto simp: coord_inv_def transition_ok_def)

lemma drain_expired_inv:
  assumes "coord_inv c" and "\<not> maint_in_engine (cr_mnt c)" and "\<not> entering (cr_mnt c) \<or> cr_queue c = []"
    and "\<not> in_transition (cr_drv c)" and "\<not> cr_accepting c"
  shows "coord_inv (drain_expired r s c)"
proof -
  have dw: "cr_drv c \<noteq> DrvWait False" using assms(1,5) by (simp add: coord_inv_def wakeup_ok_def)
  have "driver_ok (cr_queue c) (cr_drv c) (cr_accepting c) (cr_stopping c) (cr_mnt c)"
    using assms(1) by (simp add: coord_inv_def)
  then have drv: "driver_ok (cr_queue c) (cr_drv c) acc (cr_stopping c) MntNone" for acc
    using assms(3,5) unfolding driver_ok_def by (metis driver_pc.distinct(1))
  show ?thesis using assms(1,2,4) dw drv
    by (simp add: drain_expired_def coord_inv_def oplock_ok_def barrier_ok_def transition_ok_def wakeup_ok_def)
qed

lemma drain_loop_inv:
  assumes inv: "coord_inv c" and nme: "\<not> maint_in_engine (cr_mnt c)" and q: "\<not> entering (cr_mnt c) \<or> cr_queue c = []"
    and acc: "\<not> cr_accepting c"
  shows "coord_inv (drain_loop r s expired c)"
proof -
  have nonneg: "0 \<le> cr_active c" using inv permits_ok_nonneg by (auto simp: coord_inv_def)
  have qs: "cr_queue c \<noteq> [] \<Longrightarrow> \<not> cr_stopping c"
    using inv q by (auto simp: coord_inv_def driver_ok_def)
  show ?thesis
  proof (cases "0 < cr_active c")
    case True
    have nt: "\<not> in_transition (cr_drv c)" using True inv by (auto simp: coord_inv_def transition_ok_def)
    let ?c = "set_state_locked (if s then STOPPING else DRAINING) None None c"
    have inv1: "coord_inv ?c" using inv by (intro set_state_inv) simp_all
    have "coord_inv (drain_expired r s ?c)"
      using inv1 nme q nt acc by (intro drain_expired_inv) simp_all
    moreover have "coord_inv (?c\<lparr>cr_mnt := MntDrain r s False\<rparr>)"
      using inv1 nme qs nt acc by (intro maint_move_inv) (auto simp: barrier_ok_def)
    ultimately show ?thesis using True by (simp add: drain_loop_def Let_def)
  next
    case False
    then have "coord_inv (c\<lparr>cr_mnt := m\<rparr>)"
      if "\<not> draining m" "\<not> maint_in_engine m" for m
      using inv nme qs acc nonneg that by (intro maint_move_inv) (auto simp: barrier_ok_def)
    then show ?thesis using False by (simp add: drain_loop_def drain_done_def)
  qed
qed

lemma drain_enter_inv:
  assumes inv: "coord_inv c" and pc: "cr_mnt c = MntEnter r s ac"
  shows "coord_inv (drain_enter r s ac expired c)"
proof -
  define c1 where c1: "c1 = (if \<not> ac then bump_locked (c\<lparr>cr_accepting := False\<rparr>) else c)"
  define c2 where c2: "c2 = (if s then set_state_locked STOPPING None None c1 else c1)"
  define c3 where c3: "c3 = notify_all (fail_all_locked NotAccepting c2)"
  have frame1: "cr_queue c2 = cr_queue c" "cr_waiters c2 = cr_waiters c" "cr_leases c2 = cr_leases c"
    "cr_resident_profile c2 = cr_resident_profile c"
    "cr_resident_deployment_id c2 = cr_resident_deployment_id c" "cr_capacity c2 = cr_capacity c"
    "cr_configured_max_concurrency c2 = cr_configured_max_concurrency c"
    "cr_max_queue_depth c2 = cr_max_queue_depth c" "cr_epoch c2 = cr_epoch c"
    "cr_active c2 = cr_active c" "cr_stopping c2 = cr_stopping c" "cr_drv c2 = cr_drv c"
    "cr_mnt c2 = cr_mnt c" "cr_oplock c2 = cr_oplock c" "cr_cb_inflight c2 = cr_cb_inflight c"
    "cr_state c2 = STOPPING \<or> cr_state c2 = cr_state c" "\<not> cr_accepting c2"
    using inv pc by (auto simp: c1 c2 coord_inv_def barrier_ok_def)
  have "permits_ok (cr_active c) (cr_epoch c)
      (fail_all_loop NotAccepting (cr_queue c) (cr_waiters c)) (cr_leases c)"
    using inv by (intro permits_ok_fail_all) (simp_all add: coord_inv_def)
  then have "coord_inv c3" using inv pc frame1
    by (auto simp: c3 coord_inv_def driver_ok_def transition_ok_def barrier_ok_def queue_ok_def)
  moreover have "\<not> maint_in_engine (cr_mnt c3)" "cr_queue c3 = []" "\<not> cr_accepting c3"
    using pc frame1 by (simp_all add: c3)
  ultimately have "coord_inv (drain_loop r s expired c3)" by (intro drain_loop_inv) simp_all
  then show ?thesis unfolding drain_enter_def Let_def c3 c2 c1 .
qed

lemma maint_lock_inv:
  assumes "coord_inv c" and "cr_mnt c = MntLock r s" and "cr_oplock c = OpFree"
  shows "coord_inv (maint_lock r s c)"
  using assms by (clarsimp simp: maint_lock_def coord_inv_def oplock_ok_def driver_ok_def barrier_ok_def transition_ok_def wakeup_ok_def)

lemma maint_stopped_inv:
  assumes "coord_inv c" and "cr_mnt c = MntStop r s"
  shows "coord_inv (maint_stopped r s out c)"
  using assms by (clarsimp simp: maint_stopped_def coord_inv_def oplock_ok_def driver_ok_def barrier_ok_def split: option.splits)

lemma maint_timeout_inv:
  assumes "coord_inv c" and "cr_mnt c = (if h then MntStop r s else MntLock r s)"
  shows "coord_inv (maint_timeout r s h c)"
  using assms by (cases h) (clarsimp simp: maint_timeout_def coord_inv_def oplock_ok_def driver_ok_def barrier_ok_def)+

lemma maint_degrade_inv:
  assumes "coord_inv c" and "cr_mnt c = MntDegrade r s code"
  shows "coord_inv (maint_degrade s code c)"
  using assms by (clarsimp simp: maint_degrade_def coord_inv_def oplock_ok_def driver_ok_def barrier_ok_def transition_ok_def wakeup_ok_def)

lemma maint_publish_inv:
  assumes "coord_inv c" and "cr_mnt c = MntPublish r s"
  shows "coord_inv (maint_publish r s c)"
proof -
  have "permits_ok 0 (cr_epoch c + 1) (cr_waiters c) (cr_leases c)" and "cr_active c = 0"
    using assms permits_ok_epoch [of "cr_epoch c"] by (auto simp: coord_inv_def barrier_ok_def)
  then show ?thesis using assms
    by (clarsimp simp: maint_publish_def Let_def coord_inv_def limits_ok_def resident_ok_def
        oplock_ok_def driver_ok_def barrier_ok_def transition_ok_def no_resident_capacity_def)
qed

lemma init_coord_inv: "init_coord conf depth now = Inr c \<Longrightarrow> coord_inv c"
  by (auto simp: init_coord_def coord_inv_def limits_ok_def resident_ok_def queue_ok_def driver_ok_def
      oplock_ok_def permits_ok_def permits_def transition_ok_def barrier_ok_def wakeup_ok_def
      no_resident_capacity_def split: if_splits option.splits)


lemma client_event_inv: "coord_inv c \<Longrightarrow> client_event e c = Some c' \<Longrightarrow> coord_inv c'"
  by (cases e) (auto intro: acquire_enter_inv acquire_current_inv acquire_resume_inv cancel_waiter_inv
      lease_release_inv lease_release_task_inv status_inv dest: reconfigure_inv
      split: if_splits sum.splits)

lemma driver_event_inv:
  "coord_inv c \<Longrightarrow> \<not> reopens_barrier e c \<Longrightarrow> driver_event e c = Some c' \<Longrightarrow> coord_inv c'"
  by (cases e) (auto intro: drive_top_inv driver_lock_inv transition_stopped_inv transition_started_inv
      cleanup_done_inv drive_publish_inv drive_publish_failure_inv drive_finally_inv
      split: driver_pc.splits bool.splits)

lemma maint_event_inv:
  assumes inv: "coord_inv c" and ev: "maint_event e c = Some c'"
  shows "coord_inv c'"
proof -
  have bar: "barrier_ok (cr_mnt c) (cr_accepting c) (cr_drv c) (cr_active c)"
    and drv: "driver_ok (cr_queue c) (cr_drv c) (cr_accepting c) (cr_stopping c) (cr_mnt c)"
    using inv by (simp_all add: coord_inv_def)
  have drain: "coord_inv (drain_loop r s x c)" "coord_inv (drain_expired r s c)"
    if "cr_mnt c = MntDrain r s b" for r s x b
    using bar that inv by (simp_all add: drain_loop_inv drain_expired_inv barrier_ok_def)
  have move: "coord_inv (c\<lparr>cr_mnt := m\<rparr>)"
    if "cr_mnt c = MntDriver r s g" "m = MntDegrade r s code \<or> m = MntLock r s" for r s g m code
    by (rule maint_move_inv [OF inv]) (use that bar drv in \<open>auto simp: barrier_ok_def driver_ok_def\<close>)
  show ?thesis
    using ev unload_inv [OF inv] evict_inv [OF inv] shutdown_inv [OF inv] drain_enter_inv [OF inv] drain move
      maint_lock_inv [OF inv] maint_stopped_inv [OF inv] maint_timeout_inv [OF inv] maint_degrade_inv [OF inv]
      maint_publish_inv [OF inv]
    by (cases e) (auto simp: driver_awaited_def split: if_splits maint_pc.splits bool.splits)
qed

lemma guarded_step_inv: "coord_inv c \<Longrightarrow> guarded_step e c = Some c' \<Longrightarrow> coord_inv c'"
  using client_event_inv [of c e c'] driver_event_inv [of c e c'] maint_event_inv [of c e c']
  by (auto simp: guarded_step_def restrict_step_def coord_step_def split: if_splits option.splits)

end
