(* ===== verification/Cuda_Residency_Properties.thy ===== *)
theory Cuda_Residency_Properties
  imports Cuda_Residency_Safety
begin

text \<open>
  The residency coordinator's properties: the interpretations of the invariant interface on the
  coordinator, the operation lock (which needs no guard on the runs), the admission bounds, the
  status report, and the run in which a failed load reopens a maintenance barrier.
\<close>

section \<open>Definitions\<close>

text \<open>
  A section of the coordinator that raises the active count leaves it within the effective limit,
  and one that lengthens the queue leaves it within the configured depth.
\<close>

definition admission_bounded :: "coord \<Rightarrow> coord \<Rightarrow> bool" where
  "admission_bounded c c' =
     ((cr_active c < cr_active c' \<longrightarrow> cr_active c' \<le> effective_limit_locked c')
      \<and> (length (cr_queue c) < length (cr_queue c') \<longrightarrow> int (length (cr_queue c')) \<le> cr_max_queue_depth c'))"

text \<open>Concrete runs: loading a first model, and losing an unload barrier to a failed load.\<close>

definition demo_coord :: coord where
  "demo_coord = (case init_coord None 8 0 of Inr c \<Rightarrow> c | Inl _ \<Rightarrow> undefined)"

definition demo_switch :: "event list" where
  "demo_switch = [EvAcquire ''pa'' ''A'', EvDrive, EvDrvLock]"

definition demo_serve :: "event list" where
  "demo_serve =
     demo_switch @ [EvDrvStopped None, EvDrvStarted (Inr (2, ''s'', ''c'')), EvDrvPublish, EvDrive,
       EvTake 0, EvAcquire ''pb'' ''B'', EvAcquire ''pc'' ''B'', EvDrive]"

definition demo_lost :: "event list" where
  "demo_lost =
     demo_switch @ [EvDrvStopped None, EvUnload, EvMntEnter False,
       EvDrvStarted (Inl (EngineErr ''oom'')), EvDrvLock, EvDrvCleaned True, EvDrvPublish,
       EvAcquire ''pb'' ''B'', EvDrive, EvDrvLock, EvDrvStopped None,
       EvDrvStarted (Inr (1, ''s'', ''c'')), EvDrvPublish, EvDrive, EvDrive, EvDrvFinally, EvTake 1,
       EvMntDriverDone False, EvMntLock]"

definition demo_leak :: "event list" where
  "demo_leak = demo_lost @ [EvMntStopped None, EvMntFinish, EvLeaseRelease 0, EvLeaseTask 0 5]"

text \<open>The end of a concrete run.\<close>

definition demo_end :: "(event \<Rightarrow> coord \<Rightarrow> coord option) \<Rightarrow> event list \<Rightarrow> coord" where
  "demo_end step es = (case run step es demo_coord of Some c \<Rightarrow> c | None \<Rightarrow> demo_coord)"

section \<open>The operation lock\<close>

lemma client_event_oplock:
  "client_event e c = Some c' \<Longrightarrow> oplock_ok (cr_oplock c) (cr_drv c) (cr_mnt c) \<Longrightarrow>
   oplock_ok (cr_oplock c') (cr_drv c') (cr_mnt c')"
  by (cases e)
    (auto simp: acquire_enter_def acquire_current_def acquire_resume_def cancel_waiter_def lease_release_def
      lease_release_task_def release_coord_def reconfigure_def status_coord_def Let_def
      split: if_splits option.splits sum.splits fut.splits lease_phase.splits prod.splits)

lemma grant_head_oplock:
  "grant_head_locked d rp c = (n, c') \<Longrightarrow>
     cr_oplock c' = cr_oplock c \<and> maint_in_engine (cr_mnt c') = maint_in_engine (cr_mnt c)"
  by (auto simp: grant_head_locked_def Let_def split: prod.splits if_splits)

lemma drive_top_oplock:
  "oplock_ok (cr_oplock c) (cr_drv c) (cr_mnt c) \<Longrightarrow> \<not> driver_in_engine (cr_drv c) \<Longrightarrow>
   oplock_ok (cr_oplock (drive_top c)) (cr_drv (drive_top c)) (cr_mnt (drive_top c))"
  using grant_head_oplock
  by (auto simp: drive_top_def Let_def oplock_ok_def split: list.splits option.splits prod.splits)

lemma driver_event_oplock:
  assumes "driver_event e c = Some c'" and "oplock_ok (cr_oplock c) (cr_drv c) (cr_mnt c)"
  shows "oplock_ok (cr_oplock c') (cr_drv c') (cr_mnt c')"
proof (cases "e = EvDrive")
  case True
  then show ?thesis using assms drive_top_oplock [OF assms(2)]
    by (auto split: driver_pc.splits bool.splits)
next
  case False
  then show ?thesis using assms
    by (cases e; cases "cr_drv c")
      (auto simp: driver_lock_def transition_stopped_def transition_started_def cleanup_done_def
        drive_publish_def drive_publish_failure_def drive_finally_def ensure_driver_locked_def Let_def
        oplock_ok_def split: bool.splits if_splits option.splits sum.splits)
qed

lemma maint_event_oplock:
  "maint_event e c = Some c' \<Longrightarrow> oplock_ok (cr_oplock c) (cr_drv c) (cr_mnt c) \<Longrightarrow>
   oplock_ok (cr_oplock c') (cr_drv c') (cr_mnt c')"
  by (cases e)
    (auto simp: unload_def evict_if_idle_def shutdown_def drain_enter_def drain_loop_def drain_done_def
      drain_expired_def driver_awaited_def maint_lock_def maint_stopped_def maint_timeout_def
      maint_degrade_def maint_publish_def Let_def oplock_ok_def
      split: maint_pc.splits bool.splits if_splits option.splits)

lemma oplock_step:
  "oplock_ok (cr_oplock c) (cr_drv c) (cr_mnt c) \<Longrightarrow> coord_step e c = Some c' \<Longrightarrow>
   oplock_ok (cr_oplock c') (cr_drv c') (cr_mnt c')"
  using client_event_oplock driver_event_oplock maint_event_oplock
  by (auto simp: coord_step_def split: option.splits)

section \<open>Bounds and status\<close>

subsection \<open>Admission bounds\<close>

lemma grant_loop_bound:
  "grant_loop d limit rp ep q act ws n = (q', act', ws', n') \<Longrightarrow>
     act \<le> act' \<and> (act < act' \<longrightarrow> act' \<le> limit) \<and> length q' \<le> length q"
proof (induction d limit rp ep q act ws n rule: grant_loop.induct)
  case (2 d limit rp ep i q act ws n)
  then show ?case by (fastforce split: if_splits)
qed auto

lemma grant_head_bound:
  "grant_head_locked d rp c = (n, c') \<Longrightarrow>
     cr_active c \<le> cr_active c' \<and> (cr_active c < cr_active c' \<longrightarrow> cr_active c' \<le> effective_limit_locked c')
     \<and> length (cr_queue c') \<le> length (cr_queue c) \<and> effective_limit_locked c' = effective_limit_locked c"
  by (auto simp: grant_head_locked_def Let_def dest: grant_loop_bound split: prod.splits if_splits)

lemma admission_boundedI:
  "cr_active c' \<le> cr_active c \<Longrightarrow> length (cr_queue c') \<le> length (cr_queue c) \<Longrightarrow> admission_bounded c c'"
  by (simp add: admission_bounded_def)

lemma purge_not_longer [simp]:
  "cr_queue c' = cr_queue c \<Longrightarrow> \<not> length (cr_queue c) < length (cr_queue (purge_cancelled_locked c'))"
  by (simp add: purge_cancelled_locked_def not_less)

lemma release_locked_active:
  "cr_active (release_locked ep now c) =
     (if ep \<noteq> cr_epoch c \<or> cr_active c \<le> 0 then cr_active c else cr_active c - 1)"
  by (simp add: release_locked_def)

lemma effective_limit_purge [simp]: "effective_limit_locked (purge_cancelled_locked c) = effective_limit_locked c"
  by (rule effective_limit_cong) simp_all

lemma fail_head_length [simp]:
  "cr_queue c = q \<Longrightarrow> length (cr_queue (fail_head_locked d x c)) \<le> length q"
proof -
  assume "cr_queue c = q"
  have "fail_head_loop d x q ws = (q', ws') \<Longrightarrow> length q' \<le> length q" for q ws q' ws'
    by (induction d x q ws rule: fail_head_loop.induct) (auto split: if_splits)
  then show ?thesis using \<open>cr_queue c = q\<close> by (auto simp: fail_head_locked_def split: prod.splits)
qed

lemma acquire_enter_bounded: "admission_bounded c (snd (acquire_enter p d c))"
  by (auto simp: acquire_enter_def Let_def admission_bounded_def split: option.splits)

lemma client_event_bounded: "client_event e c = Some c' \<Longrightarrow> admission_bounded c c'"
  using acquire_enter_bounded
  by (cases e)
    (auto simp: acquire_current_def acquire_resume_def cancel_waiter_def lease_release_def
      lease_release_task_def release_coord_def reconfigure_def status_coord_def Let_def
      admission_bounded_def release_locked_active
      split: if_splits option.splits sum.splits fut.splits lease_phase.splits prod.splits)

lemma drive_top_bounded: "admission_bounded c (drive_top c)"
proof -
  have len: "cr_queue (purge_cancelled_locked c) = i # r \<Longrightarrow> length (i # r) \<le> length (cr_queue c)" for i r
    using purge_not_longer [OF refl, of c] by (simp add: not_less)
  show ?thesis
    using len purge_not_longer [OF refl, of c]
    by (auto simp: drive_top_def Let_def admission_bounded_def
        dest!: grant_head_bound split: list.splits option.splits prod.splits)
qed

lemma driver_event_bounded: "driver_event e c = Some c' \<Longrightarrow> admission_bounded c c'"
proof (cases "e = EvDrive")
  case True
  then show "driver_event e c = Some c' \<Longrightarrow> admission_bounded c c'"
    using drive_top_bounded by (auto split: driver_pc.splits bool.splits)
next
  case False
  then show "driver_event e c = Some c' \<Longrightarrow> admission_bounded c c'"
    by (cases e; cases "cr_drv c")
      (auto intro!: admission_boundedI simp: driver_lock_def transition_stopped_def transition_started_def
        cleanup_done_def drive_publish_def drive_publish_failure_def drive_finally_def Let_def
        split: bool.splits if_splits option.splits sum.splits)
qed

lemma maint_event_bounded: "maint_event e c = Some c' \<Longrightarrow> admission_bounded c c'"
  by (cases e)
    (auto intro!: admission_boundedI simp: unload_def evict_if_idle_def shutdown_def drain_enter_def
      drain_loop_def drain_done_def drain_expired_def driver_awaited_def maint_lock_def
      maint_stopped_def maint_timeout_def maint_degrade_def maint_publish_def Let_def
      split: maint_pc.splits bool.splits if_splits option.splits)

subsection \<open>Status\<close>

lemma count_partition:
  "distinct ks \<Longrightarrow> set ds \<subseteq> set ks \<Longrightarrow>
     sum_list (map (\<lambda>k. count_if (\<lambda>x. x = k) ds) ks) = int (length ds)"
proof (induction ds)
  case (Cons d ds)
  have "sum_list (map (\<lambda>k. count_if (\<lambda>x. x = k) (d # ds)) ks)
    = sum_list (map (\<lambda>k. (if d = k then 1 else 0) + count_if (\<lambda>x. x = k) ds) ks)" by simp
  also have "\<dots> = sum_list (map (\<lambda>k. if d = k then 1 else 0) ks)
      + sum_list (map (\<lambda>k. count_if (\<lambda>x. x = k) ds) ks)"
    by (rule sum_list_addf)
  also have "sum_list (map (\<lambda>k. if d = k then 1 else 0) ks) = (1::int)"
    using Cons.prems by (simp add: sum_list_distinct_conv_sum_set)
  finally show ?case using Cons by simp
qed (simp add: sum_list_0)

lemma queued_by_sum:
  assumes "queue_ok (cr_queue c) (cr_waiters c)"
  shows "sum_list (map snd (queued_by c)) = int (length (cr_queue c))"
proof -
  have live: "filter (\<lambda>w. \<not> w_cancelled w) (map (\<lambda>i. cr_waiters c ! i) (cr_queue c))
     = map (\<lambda>i. cr_waiters c ! i) (cr_queue c)"
    using assms by (intro filter_True) (auto simp: queue_ok_def queued_ok_def)
  let ?ds = "map (\<lambda>i. w_deployment (cr_waiters c ! i)) (cr_queue c)"
  have eq: "map snd (queued_by c) = map (\<lambda>k. count_if (\<lambda>x. x = k) ?ds) (sort (remdups ?ds))"
    by (simp add: queued_by_def Let_def live comp_def)
  have "sum_list (map snd (queued_by c)) = int (length ?ds)"
    unfolding eq by (rule count_partition) auto
  then show ?thesis by simp
qed

section \<open>The interpretations\<close>

interpretation residency: inductive_invariant coord_init guarded_step coord_inv
  by unfold_locales (auto simp: coord_init_def intro: init_coord_inv guarded_step_inv)

text \<open>The operation lock alone needs no guard: it holds in every run of the coordinator.\<close>

interpretation oplock: inductive_invariant coord_init coord_step
    "\<lambda>c. oplock_ok (cr_oplock c) (cr_drv c) (cr_mnt c)"
  by unfold_locales
    (auto simp: coord_init_def intro: oplock_step dest: init_coord_inv simp: coord_inv_def)

lemma take_takeWhile_split: "q = take n (takeWhile P q) @ drop (length (take n (takeWhile P q))) q"
proof (induction q arbitrary: n)
  case (Cons a q)
  then show ?case by (cases n) auto
qed simp

lemma demo_coord_init: "coord_init demo_coord"
  unfolding coord_init_def demo_coord_def
  by (rule exI [of _ None], rule exI [of _ 8], rule exI [of _ 0]) (simp add: init_coord_def)

lemma demo_reach: "run step es demo_coord \<noteq> None \<Longrightarrow> reach coord_init step (demo_end step es)"
  using reach_run [of coord_init step demo_coord es, OF reach_init]
  by (auto simp: demo_end_def demo_coord_init)

lemma demo_switch_reach: "reach coord_init guarded_step (demo_end guarded_step demo_switch)"
  by (rule demo_reach) code_simp

lemma demo_serve_reach: "reach coord_init guarded_step (demo_end guarded_step demo_serve)"
  by (rule demo_reach) code_simp

lemma reach_guarded: "reach coord_init guarded_step c \<Longrightarrow> reach coord_init coord_step c"
  unfolding guarded_step_def by (rule reach_restrict)

section \<open>Properties\<close>

text \<open>
  C1: whenever a coroutine is inside \<open>stop_engine\<close> (the driver switching models or cleaning up a
  failed load, or a maintenance operation), no permit is outstanding and the active count is zero,
  in every run in which no failed load reopens admission during an unload or eviction barrier.
\<close>

theorem engine_stop_quiescent:
  assumes "reach coord_init guarded_step c"
    and "driver_stopping_engine (cr_drv c) \<or> maint_in_engine (cr_mnt c)"
  shows "outstanding c = 0 \<and> cr_active c = 0"
proof -
  have inv: "coord_inv c" by (rule residency.inv_reach [OF assms(1)])
  have "cr_active c = 0"
    using inv assms(2) by (cases "cr_drv c"; cases "cr_mnt c")
      (auto simp: coord_inv_def transition_ok_def barrier_ok_def)
  with inv show ?thesis by (simp add: coord_inv_def permits_ok_def outstanding_def)
qed

theorem engine_stop_quiescent_witness:
  "driver_stopping_engine (cr_drv (demo_end guarded_step demo_switch))
   \<and> outstanding (demo_end guarded_step demo_switch) = 0"
proof -
  have "driver_stopping_engine (cr_drv (demo_end guarded_step demo_switch))" by code_simp
  then show ?thesis using engine_stop_quiescent [OF demo_switch_reach] by simp
qed

text \<open>
  C7: in guarded runs (every step but the one by which a failed load reopens admission while a
  maintenance operation waits; \<open>barrier_lost\<close> shows that the restriction is needed) the active count
  equals the number of outstanding permits (granted and not yet taken, or leased and not yet
  released), each of them carries the current epoch, and the count last reported to the in-flight
  observer is the same number.
\<close>

theorem active_counts_permits:
  assumes "reach coord_init guarded_step c"
  shows "cr_active c = outstanding c \<and> cr_cb_inflight c = outstanding c
    \<and> (\<forall>w \<in> set (cr_waiters c). live_waiter w \<longrightarrow> granted_epoch (w_future w) = cr_epoch c)
    \<and> (\<forall>l \<in> set (cr_leases c). live_lease l \<longrightarrow> l_epoch l = cr_epoch c)"
  using residency.inv_reach [OF assms] by (simp add: coord_inv_def permits_ok_def outstanding_def)

theorem active_counts_permits_witness:
  "cr_active (demo_end guarded_step demo_serve) = 1 \<and> outstanding (demo_end guarded_step demo_serve) = 1"
proof -
  have "outstanding (demo_end guarded_step demo_serve) = 1" by code_simp
  then show ?thesis using active_counts_permits [OF demo_serve_reach] by simp
qed

text \<open>
  C21: the engine callbacks are mutually exclusive: in every run, guarded or not, the driver task and
  the maintenance operation are never both inside a callback, and the operation lock names the one
  that is.
\<close>

theorem engine_callbacks_exclusive:
  assumes "reach coord_init coord_step c"
  shows "\<not> (driver_in_engine (cr_drv c) \<and> maint_in_engine (cr_mnt c))
    \<and> (cr_oplock c = OpFree \<longleftrightarrow> \<not> driver_in_engine (cr_drv c) \<and> \<not> maint_in_engine (cr_mnt c))"
  using oplock.inv_reach [OF assms] by (cases "cr_oplock c") (auto simp: oplock_ok_def)

theorem engine_callbacks_exclusive_witness:
  "\<not> maint_in_engine (cr_mnt (demo_end guarded_step demo_switch))
   \<and> cr_oplock (demo_end guarded_step demo_switch) \<noteq> OpFree"
proof -
  have "driver_in_engine (cr_drv (demo_end guarded_step demo_switch))" by code_simp
  then show ?thesis
    using engine_callbacks_exclusive [OF reach_guarded [OF demo_switch_reach]] by simp
qed

text \<open>
  C24: admission respects the limits, from any state whatsoever: a section that raises the active
  count leaves it at or below the effective limit (the smaller of the derived and the configured
  one), and a section that lengthens the queue leaves it at or below the configured depth.
\<close>

theorem admission_within_limits:
  assumes "coord_step e c = Some c'"
  shows "admission_bounded c c'"
  using assms client_event_bounded driver_event_bounded maint_event_bounded
  by (auto simp: coord_step_def split: option.splits)

theorem admission_within_limits_witness:
  "admission_bounded demo_coord (snd (acquire_enter ''pa'' ''A'' demo_coord))"
proof -
  have "coord_step (EvAcquire ''pa'' ''A'') demo_coord
    = Some (snd (acquire_enter ''pa'' ''A'' demo_coord))" by (simp add: coord_step_def)
  then show ?thesis by (rule admission_within_limits)
qed

text \<open>
  C25: the grant loop serves the queue in FIFO order: on a well-formed queue it grants exactly the
  longest prefix of waiters for the resident deployment that fits under the limit, leaves the rest
  of the queue in order, and raises the active count by the number granted.
\<close>

theorem grant_is_fifo_prefix:
  assumes "queue_ok (cr_queue c) (cr_waiters c)"
  shows "let g = grant_prefix d (effective_limit_locked c) (cr_active c) (cr_waiters c) (cr_queue c);
             (n, c') = grant_head_locked d rp c
         in n = int (length g) \<and> cr_queue c = g @ cr_queue c'
            \<and> cr_waiters c' = grant_all rp (cr_epoch c) g (cr_waiters c)
            \<and> cr_active c' = cr_active c + n"
proof -
  let ?g = "grant_prefix d (effective_limit_locked c) (cr_active c) (cr_waiters c) (cr_queue c)"
  have "cr_queue c = ?g @ drop (length ?g) (cr_queue c)"
    unfolding grant_prefix_def by (rule take_takeWhile_split)
  with grant_loop_eq [of "cr_queue c" "cr_waiters c"] assms show ?thesis
    by (auto simp: queue_ok_def grant_head_locked_def Let_def split: prod.splits)
qed

theorem grant_is_fifo_prefix_witness:
  "\<exists>c. queue_ok (cr_queue c) (cr_waiters c) \<and> cr_queue c = [1, 2]
     \<and> fst (grant_head_locked ''B'' ''pb'' c) = 1
     \<and> cr_queue (snd (grant_head_locked ''B'' ''pb'' c)) = [2]"
proof -
  let ?c = "(demo_end guarded_step demo_serve)"
  have ok: "queue_ok (cr_queue ?c) (cr_waiters ?c)"
    using residency.inv_reach [OF demo_serve_reach] by (simp add: coord_inv_def)
  have q: "cr_queue ?c = [1, 2]"
    and g: "grant_prefix ''B'' (effective_limit_locked ?c) (cr_active ?c) (cr_waiters ?c) (cr_queue ?c) = [1]"
    by code_simp+
  show ?thesis using ok q g grant_is_fifo_prefix [OF ok, of "''B''" "''pb''"]
    by (intro exI [of _ ?c]) (auto simp: Let_def case_prod_unfold)
qed

text \<open>
  C26: no wake-up is lost in guarded runs (every step but the one by which a failed load reopens
  admission while a maintenance operation waits): when the queue is not empty, a driver task exists or
  the coordinator is stopping, and a driver parked with no pending notification has nothing it could
  do (the resident is the head's model and the limit is reached, or another model is resident and
  still in use).
\<close>

theorem queue_attended:
  assumes "reach coord_init guarded_step c" and "cr_queue c \<noteq> []"
  shows "(cr_drv c \<noteq> DrvNone \<or> cr_stopping c)
    \<and> (cr_drv c = DrvWait False \<longrightarrow>
         (if cr_resident_deployment_id c = Some (w_deployment (cr_waiters c ! hd (cr_queue c)))
          then effective_limit_locked c \<le> cr_active c else 0 < cr_active c))"
  using residency.inv_reach [OF assms(1)] assms(2)
  by (simp add: coord_inv_def driver_ok_def wakeup_ok_def)

theorem queue_attended_witness:
  "cr_queue (demo_end guarded_step demo_serve) = [1, 2]
   \<and> 0 < cr_active (demo_end guarded_step demo_serve)"
proof -
  have "cr_queue (demo_end guarded_step demo_serve) = [1, 2]"
    and "cr_drv (demo_end guarded_step demo_serve) = DrvWait False"
    and "cr_resident_deployment_id (demo_end guarded_step demo_serve) = Some ''A''"
    and "w_deployment (cr_waiters (demo_end guarded_step demo_serve) ! 1) = ''B''" by code_simp+
  then show ?thesis using queue_attended [OF demo_serve_reach] by simp
qed

text \<open>
  The status report is consistent: the number of queued requests is the queue's length and the
  sum of the per-deployment counts, the active count is the number of outstanding permits, and
  reporting does not change the coordinator.
\<close>

theorem status_consistent:
  assumes "reach coord_init guarded_step c" and "status_coord c = (s, c')"
  shows "c' = c \<and> st_queued s = int (length (cr_queue c)) \<and> st_active s = outstanding c
    \<and> st_queued s = sum_list (map snd (st_queued_by_deployment s))
    \<and> status_effective_limit s = effective_limit_locked c"
proof -
  have inv: "coord_inv c" by (rule residency.inv_reach [OF assms(1)])
  then have q: "queue_ok (cr_queue c) (cr_waiters c)" by (simp add: coord_inv_def)
  show ?thesis
    using assms(2) purge_id [OF inv] queued_by_sum [OF q] inv
    by (auto simp: status_coord_def Let_def coord_inv_def permits_ok_def outstanding_def
        status_effective_limit_def effective_limit_locked_def split: option.splits)
qed

theorem status_consistent_witness:
  "st_queued (fst (status_coord (demo_end guarded_step demo_serve))) = 2
   \<and> st_active (fst (status_coord (demo_end guarded_step demo_serve))) = 1"
proof -
  have "int (length (cr_queue (demo_end guarded_step demo_serve))) = 2"
    and "outstanding (demo_end guarded_step demo_serve) = 1" by code_simp+
  then show ?thesis
    using status_consistent [OF demo_serve_reach surjective_pairing] by simp
qed

text \<open>
  The barrier can be lost: there is a run of the coordinator in which a failed load reopens
  admission while an unload waits for the driver, a second client is admitted, the unload stops the
  engine under its live lease, and the lease's later release no longer lowers the active count,
  which stays at one with nobody holding a permit.
\<close>

theorem barrier_lost:
  "\<exists>c c'. reach coord_init coord_step c \<and> maint_in_engine (cr_mnt c) \<and> outstanding c = 1
     \<and> reach coord_init coord_step c' \<and> outstanding c' = 0 \<and> cr_active c' = 1
     \<and> cr_mnt c' = MntNone \<and> cr_drv c' = DrvNone \<and> cr_queue c' = []"
proof -
  have "reach coord_init coord_step (demo_end coord_step demo_lost)"
    and "reach coord_init coord_step (demo_end coord_step demo_leak)"
    by (rule demo_reach, code_simp)+
  moreover have "maint_in_engine (cr_mnt (demo_end coord_step demo_lost))"
    and "outstanding (demo_end coord_step demo_lost) = 1"
    and "outstanding (demo_end coord_step demo_leak) = 0"
    and "cr_active (demo_end coord_step demo_leak) = 1"
    and "cr_mnt (demo_end coord_step demo_leak) = MntNone"
    and "cr_drv (demo_end coord_step demo_leak) = DrvNone"
    and "cr_queue (demo_end coord_step demo_leak) = []" by code_simp+
  ultimately show ?thesis by blast
qed

end
