(* ===== verification/Fleet_Wire.thy ===== *)
theory Fleet_Wire
  imports Fleet_Protocol
begin

text \<open>
  A snapshot as the JSON document that goes over the wire, and when that document passes the wire
  schema. The validators of the models do not imply the schema: \<open>int(value, 16)\<close> reads digests that
  are no hexadecimal numerals, and the schema's patterns treat a line feed in a path specially. With
  digests of the documented form and such names left out (\<open>wire_ok\<close>), they do.
\<close>

section \<open>The document\<close>

definition int_or_null :: "int option \<Rightarrow> json" where
  "int_or_null x = (case x of None \<Rightarrow> JNull | Some n \<Rightarrow> JInt n)"

definition num_or_null :: "rat option \<Rightarrow> json" where
  "num_or_null x = (case x of None \<Rightarrow> JNull | Some r \<Rightarrow> JFloat (Fin r))"

definition node_json :: "node_descriptor \<Rightarrow> json" where
  "node_json n = JObj
     [(''node_id'', JStr (nd_node_id n)), (''instance_id'', JStr (nd_instance_id n)),
      (''platform'', JStr (nd_platform n)), (''version'', JStr (nd_version n))]"

definition health_json :: "health \<Rightarrow> json" where
  "health_json h = JObj
     [(''state'', JStr (h_state h)), (''accepting'', JBool (h_accepting h)),
      (''authoritative'', JBool (h_authoritative h)), (''diagnostic_code'', opt_str (h_diagnostic_code h))]"

definition residency_json :: "residency \<Rightarrow> json" where
  "residency_json r = JObj
     [(''alias'', opt_str (rs_alias r)), (''deployment_id'', opt_str (rs_deployment_id r)),
      (''engine'', opt_str (rs_engine r)), (''epoch'', JInt (rs_epoch r)),
      (''transition_target'', opt_str (rs_transition_target r))]"

definition admission_json :: "admission \<Rightarrow> json" where
  "admission_json a = JObj
     [(''queue_depth'', JInt (ad_queue_depth a)), (''queue_limit'', JInt (ad_queue_limit a)),
      (''queued_by_deployment'', JObj (map (\<lambda>kv. (fst kv, JInt (snd kv))) (ad_queued_by_deployment a)))]"

definition capacity_json :: "capacity \<Rightarrow> json" where
  "capacity_json c = JObj
     [(''derived_limit'', JInt (cp_derived_limit c)),
      (''configured_max_concurrency'', int_or_null (cp_configured_max_concurrency c)),
      (''effective_limit'', JInt (cp_effective_limit c)), (''active'', JInt (cp_active c)),
      (''queued'', JInt (cp_queued c)), (''available'', JInt (cp_available c)),
      (''source'', JStr (cp_source c)), (''confidence'', JStr (cp_confidence c)),
      (''saturation'', JFloat (Fin (cp_saturation c)))]"

definition deployment_json :: "fleet_deployment \<Rightarrow> json" where
  "deployment_json d = JObj
     [(''alias'', JStr (dp_alias d)), (''deployment_id'', JStr (dp_deployment_id d)),
      (''identity'', identity_json (dp_identity d)),
      (''identity_confidence'', JStr (dp_identity_confidence d)),
      (''fleet_eligible'', JBool (dp_fleet_eligible d)), (''loadable'', JBool (dp_loadable d)),
      (''warm'', JBool (dp_warm d)), (''capacity'', capacity_json (dp_capacity d))]"

definition usage_delivery_json :: "usage_delivery \<Rightarrow> json" where
  "usage_delivery_json u = JObj
     [(''enabled'', JBool (ud_enabled u)), (''writer_ready'', JBool (ud_writer_ready u)),
      (''outbox_pending'', JInt (ud_outbox_pending u)), (''last_flush_at'', num_or_null (ud_last_flush_at u)),
      (''last_error_code'', opt_str (ud_last_error_code u))]"

definition snapshot_json :: "snapshot \<Rightarrow> json" where
  "snapshot_json s = JObj
     [(''schema_version'', JInt (sn_schema_version s)), (''snapshot_sequence'', JInt (sn_snapshot_sequence s)),
      (''observed_at'', JFloat (Fin (sn_observed_at s))), (''node'', node_json (sn_node s)),
      (''health'', health_json (sn_health s)), (''residency'', residency_json (sn_residency s)),
      (''admission'', admission_json (sn_admission s)), (''capacity'', capacity_json (sn_capacity s)),
      (''deployments'', JArr (map deployment_json (sn_deployments s))),
      (''usage_delivery'', usage_delivery_json (sn_usage_delivery s))]"

section \<open>Conformance\<close>

definition is_digest :: "string \<Rightarrow> bool" where
  "is_digest s = (py_startswith s ''sha256:'' \<and> length s = 71 \<and> list_all lower_hex (drop 7 s))"

definition wire_deployment :: "fleet_deployment \<Rightarrow> bool" where
  "wire_deployment d =
     (let i = dp_identity d; a = di_artifact i
      in is_digest (dp_deployment_id d) \<and> is_digest (di_load_config_digest i) \<and> opt_all is_digest (ar_content_digest a)
         \<and> upstream_pattern (di_upstream_model i) \<and> list_all (\<lambda>f. CHR 0x0A \<notin> set f) (ar_selected_files a))"

definition wire_ok :: "snapshot \<Rightarrow> bool" where
  "wire_ok s =
     (opt_all is_digest (rs_deployment_id (sn_residency s)) \<and> opt_all is_digest (rs_transition_target (sn_residency s))
      \<and> list_all (\<lambda>kv. is_digest (fst kv)) (ad_queued_by_deployment (sn_admission s))
      \<and> list_all wire_deployment (sn_deployments s))"

lemma digest_pattern: "is_digest s \<Longrightarrow> sha256_pattern s"
  by (simp add: is_digest_def sha256_pattern_def class_pattern_all)

lemma sha256_schema_digest [schema_simps]: "is_digest s \<Longrightarrow> sha256_schema (JStr s)"
  by (simp add: sha256_schema_def schema_simps digest_pattern)

lemma optional_digest [schema_simps]: "opt_all is_digest x \<Longrightarrow> optional_sha256_schema (opt_str x)"
  by (cases x) (simp_all add: optional_sha256_schema_def schema_simps opt_str_def opt_all_def)

lemma code_schema [schema_simps]: "opt_all code_pattern x \<Longrightarrow> diagnostic_code_schema (opt_str x)"
  by (cases x) (simp_all add: diagnostic_code_schema_def schema_simps opt_str_def opt_all_def code_pattern_def class_pattern_all)

lemma node_conforms: "node_descriptor_error n = None \<Longrightarrow> node_schema (node_json n)"
  by (simp add: node_descriptor_error_def node_schema_def node_json_def schema_simps str_len_def dict_get_Cons
      split: if_splits)

lemma health_conforms: "health_error h = None \<Longrightarrow> health_schema (health_json h)"
  by (simp add: health_error_def health_schema_def health_json_def schema_simps dict_get_Cons split: if_splits)

lemma residency_conforms:
  "residency_error r = None \<Longrightarrow> opt_all is_digest (rs_deployment_id r) \<Longrightarrow> opt_all is_digest (rs_transition_target r)
    \<Longrightarrow> residency_schema (residency_json r)"
  by (auto simp: residency_error_def residency_schema_def residency_json_def schema_simps dict_get_Cons opt_str_def
      opt_all_def str_len_def optional_digest [unfolded opt_str_def] split: if_splits option.splits)

lemma admission_conforms:
  assumes "admission_error a = None" and "list_all (\<lambda>kv. is_digest (fst kv)) (ad_queued_by_deployment a)"
  shows "admission_schema (admission_json a)"
proof -
  have "\<forall>e \<in> set (ad_queued_by_deployment a). 1 \<le> snd e \<and> snd e \<le> 1000000"
    using assms(1) by (auto simp: admission_error_def find_error_None queued_entry_error_def split: if_splits)
  then show ?thesis using assms
    by (auto simp: admission_error_def admission_schema_def admission_json_def queued_by_deployment_schema_def schema_simps
        dict_get_Cons int_between_def list_all_iff digest_pattern split: if_splits)
qed

lemma capacity_conforms: "capacity_error c = None \<Longrightarrow> capacity_schema (capacity_json c)"
  by (auto simp: capacity_error_def capacity_fields_error_def capacity_schema_def capacity_json_def schema_simps
      dict_get_Cons int_between_def str_len_def int_or_null_def opt_all_def split: if_splits option.splits)

lemma artifact_conforms:
  assumes "artifact_error a = None" and "opt_all is_digest (ar_content_digest a)"
    and "list_all (\<lambda>f. CHR 0x0A \<notin> set f) (ar_selected_files a)"
  shows "artifact_schema (artifact_json a)"
proof -
  have len: "length (ar_selected_files a) \<le> 128" using assms(1) by (auto simp: artifact_error_def split: if_splits)
  have v: "validate_selected_files (ar_selected_files a) = None" using assms(1) by (simp add: artifact_error_def)
  then have safe: "\<forall>f \<in> set (ar_selected_files a). safe_path f"
    by (auto simp: validate_selected_files_def find_error_None split: if_splits)
  have "py_sorted_set (ar_selected_files a) = ar_selected_files a"
    using v by (simp add: validate_selected_files_def split: if_splits)
  then have d: "distinct (ar_selected_files a)" unfolding py_sorted_set_def by (metis distinct_remdups distinct_sort)
  have "s_text 1 512 (JStr f) \<and> selected_file_pattern f" if f: "f \<in> set (ar_selected_files a)" for f
  proof
    have s: "safe_path f" and n: "CHR 0x0A \<notin> set f" using f safe assms(3) by (auto simp: list_all_iff)
    show "selected_file_pattern f"
      by (rule safe_selected) (use s n in \<open>simp_all only: safe_path_def not_False_eq_True\<close>)
    show "s_text 1 512 (JStr f)" using s by (simp add: schema_simps safe_path_def Suc_le_eq)
  qed
  then have "s_all [s_array, s_max_items 128, s_unique, s_items (s_all [s_text 1 512, s_pattern selected_file_pattern])]
      (JArr (map JStr (ar_selected_files a)))"
    using len d by (simp add: s_all_def s_array_def s_max_items_def s_unique_def s_items_def
        s_pattern_def distinct_map list_all_iff inj_on_def)
  moreover have "s_text 1 64 (JStr (ar_format a))" "s_opt_text [s_max_length 128] (opt_str (ar_quantization a))"
    using assms(1) by (auto simp: artifact_error_def schema_simps str_len_def opt_str_def opt_all_def
        split: if_splits option.splits)
  ultimately show ?thesis using optional_digest [OF assms(2)]
    by (simp add: artifact_schema_def artifact_json_def s_object_JObj dict_get_Cons)
qed

lemma capability_names: "x \<in> set CAPABILITIES \<Longrightarrow> capability_schema (JStr x)"
  unfolding capability_schema_def s_enum_def CAPABILITIES_def json.case list.set insert_iff empty_iff
  by (elim disjE FalseE; simp)

lemma capabilities_length: "set (xs :: string list) \<subseteq> set CAPABILITIES \<Longrightarrow> distinct xs \<Longrightarrow> length xs \<le> 7"
proof -
  assume a: "set xs \<subseteq> set CAPABILITIES" and d: "distinct xs"
  have "card (set xs) \<le> card (set CAPABILITIES)" using a by (intro card_mono) auto
  also have "\<dots> \<le> length CAPABILITIES" by (rule card_length)
  also have "\<dots> = 7" by (simp add: CAPABILITIES_def)
  finally show ?thesis using d by (simp add: distinct_card)
qed

lemma identity_conforms:
  assumes "identity_error i = None" and "is_digest (di_load_config_digest i)"
    and "opt_all is_digest (ar_content_digest (di_artifact i))" and "upstream_pattern (di_upstream_model i)"
    and "list_all (\<lambda>f. CHR 0x0A \<notin> set f) (ar_selected_files (di_artifact i))"
  shows "deployment_identity_schema (identity_json i)"
proof -
  have a: "artifact_schema (artifact_json (di_artifact i))"
    using assms(1) by (intro artifact_conforms assms(3,5)) (simp add: identity_error_def)
  have c: "py_sorted_set (di_capabilities i) = di_capabilities i" "set (di_capabilities i) \<subseteq> set CAPABILITIES"
    "di_capabilities i \<noteq> []"
    using assms(1) by (auto simp: identity_error_def split: if_splits)
  then have d: "distinct (di_capabilities i)" unfolding py_sorted_set_def by (metis distinct_remdups distinct_sort)
  have "capability_schema (JStr x)" if "x \<in> set (di_capabilities i)" for x
    using that c(2) capability_names by blast
  then have "s_all [s_array, s_min_items 1, s_max_items 7, s_unique, s_items capability_schema] (JArr (map JStr (di_capabilities i)))"
    using c d capabilities_length [OF c(2) d]
    by (simp add: s_all_def s_array_def s_min_items_def s_max_items_def s_unique_def s_items_def distinct_map list_all_iff
        inj_on_def Suc_le_eq)
  moreover have "s_one (JInt (di_protocol i))" "s_text 1 64 (JStr (di_engine i))" "s_text 1 64 (JStr (di_kind i))"
    "s_all [s_text 1 512, s_pattern upstream_pattern] (JStr (di_upstream_model i))"
    "s_opt_text [s_max_length 256] (opt_str (di_resolved_revision i))"
    using assms(1,4) by (auto simp: identity_error_def schema_simps str_len_def opt_str_def opt_all_def
        split: if_splits option.splits)
  ultimately show ?thesis using a sha256_schema_digest [OF assms(2)]
    by (simp add: deployment_identity_schema_def identity_json_def s_object_JObj dict_get_Cons)
qed

lemma eligible_conforms:
  assumes "validate_identity sha d = None" and "opt_all is_digest (ar_content_digest (di_artifact (dp_identity d)))"
  shows "eligible_schema (deployment_json d)"
proof (cases "dp_fleet_eligible d")
  case True
  have auth: "dp_identity_confidence d = ''authoritative''"
    and id: "immutable_revision (di_resolved_revision (dp_identity d)) \<or> ar_content_digest (di_artifact (dp_identity d)) \<noteq> None"
    using assms(1) True by (auto simp: validate_identity_def split: if_splits)
  have "immutable_revision (di_resolved_revision (dp_identity d)) \<Longrightarrow>
      \<exists>r. di_resolved_revision (dp_identity d) = Some r \<and> class_pattern 40 64 lower_hex r"
    by (auto simp: immutable_revision_def class_pattern_all split: option.splits)
  moreover have "ar_content_digest (di_artifact (dp_identity d)) = Some x \<Longrightarrow> sha256_schema (JStr x)" for x
    using assms(2) by (simp add: opt_all_def sha256_schema_digest)
  ultimately show ?thesis using auth id
    by (auto simp: eligible_schema_def schema_simps deployment_json_def identity_json_def artifact_json_def
        opt_str_def dict_get_Cons)
qed (simp add: eligible_schema_def schema_simps deployment_json_def dict_get_Cons)

lemma deployment_conforms:
  assumes "deployment_error sha d = None" and "wire_deployment d"
  shows "deployment_schema (deployment_json d)"
proof -
  have e: "identity_error (dp_identity d) = None" "capacity_error (dp_capacity d) = None" "validate_identity sha d = None"
    and s: "str_len 1 128 (dp_alias d)" and c: "dp_identity_confidence d \<in> {''authoritative'', ''unverified''}"
    using assms(1) by (auto simp: deployment_error_def split: if_splits)
  have w: "is_digest (dp_deployment_id d)" "is_digest (di_load_config_digest (dp_identity d))"
    "opt_all is_digest (ar_content_digest (di_artifact (dp_identity d)))" "upstream_pattern (di_upstream_model (dp_identity d))"
    "list_all (\<lambda>f. CHR 0x0A \<notin> set f) (ar_selected_files (di_artifact (dp_identity d)))"
    using assms(2) by (simp_all add: wire_deployment_def Let_def)
  have "s_text 1 128 (JStr (dp_alias d))" "s_enum [''authoritative'', ''unverified''] (JStr (dp_identity_confidence d))"
    using s c by (auto simp: schema_simps str_len_def)
  moreover have "s_boolean (JBool b)" for b by (simp add: s_boolean_def)
  moreover note identity_conforms [OF e(1) w(2-5)] capacity_conforms [OF e(2)] sha256_schema_digest [OF w(1)]
  ultimately have "s_object
        [(''alias'', s_text 1 128), (''deployment_id'', sha256_schema), (''identity'', deployment_identity_schema),
         (''identity_confidence'', s_enum [''authoritative'', ''unverified'']),
         (''fleet_eligible'', s_boolean), (''loadable'', s_boolean), (''warm'', s_boolean),
         (''capacity'', capacity_schema)] (deployment_json d)"
    by (simp add: deployment_json_def s_object_JObj dict_get_Cons)
  then show ?thesis using eligible_conforms [OF e(3) w(3)] by (simp add: deployment_schema_def s_all_def)
qed

lemma usage_delivery_conforms: "usage_delivery_error u = None \<Longrightarrow> usage_delivery_schema (usage_delivery_json u)"
  by (auto simp: usage_delivery_error_def usage_delivery_schema_def usage_delivery_json_def schema_simps code_schema
      dict_get_Cons int_between_def num_or_null_def opt_all_def split: if_splits option.splits)

lemma snapshot_conforms:
  assumes "snapshot_error sha s = None" and "wire_ok s"
  shows "snapshot_schema (snapshot_json s)"
proof -
  have n: "sn_schema_version s = 1" "0 \<le> sn_snapshot_sequence s" "0 \<le> sn_observed_at s" "length (sn_deployments s) \<le> 10000"
    and e: "node_descriptor_error (sn_node s) = None" "health_error (sn_health s) = None"
      "residency_error (sn_residency s) = None" "admission_error (sn_admission s) = None"
      "capacity_error (sn_capacity s) = None" "usage_delivery_error (sn_usage_delivery s) = None"
    and d: "\<forall>d \<in> set (sn_deployments s). deployment_error sha d = None"
    using assms(1) by (auto simp: snapshot_error_def find_error_None split: if_splits)
  have w: "opt_all is_digest (rs_deployment_id (sn_residency s))" "opt_all is_digest (rs_transition_target (sn_residency s))"
    "list_all (\<lambda>kv. is_digest (fst kv)) (ad_queued_by_deployment (sn_admission s))"
    "\<forall>d \<in> set (sn_deployments s). wire_deployment d"
    using assms(2) by (auto simp: wire_ok_def list_all_iff)
  have "s_all [s_array, s_max_items 10000, s_items deployment_schema] (JArr (map deployment_json (sn_deployments s)))"
    using d w(4) n(4) deployment_conforms
    by (auto simp: s_all_def s_array_def s_max_items_def s_items_def list_all_iff)
  moreover have "s_one (JInt (sn_schema_version s))" "s_all [s_integer, s_minimum 0] (JInt (sn_snapshot_sequence s))"
    "s_all [s_number, s_minimum 0] (JFloat (Fin (sn_observed_at s)))"
    using n(1-3) by (simp_all add: schema_simps)
  ultimately show ?thesis
    using node_conforms [OF e(1)] health_conforms [OF e(2)] residency_conforms [OF e(3) w(1,2)]
      admission_conforms [OF e(4) w(3)] capacity_conforms [OF e(5)] usage_delivery_conforms [OF e(6)]
    by (simp add: snapshot_schema_def snapshot_json_def s_object_JObj dict_get_Cons)
qed

lemma validate_snapshot_json:
  assumes "snapshot_error sha s = None" and "wire_ok s" and "decode (snapshot_json s) = Some s"
    and "nd_node_id (sn_node s) = nid"
  shows "validate_snapshot sha decode (snapshot_json s) nid = Inr s"
  using assms snapshot_conforms [OF assms(1,2)] by (simp add: validate_snapshot_def)

end
