(* ===== verification/Node_Snapshot.thy ===== *)
theory Node_Snapshot
  imports Node_Identity Cuda_Residency_Properties Fleet_Wire
begin

text \<open>
  The snapshot that a CUDA node publishes, \<open>_fleet_profiles\<close>, \<open>fleet_snapshot\<close> and their helpers in
  \<open>src/vllm_manager.py\<close>: built from the coordinator's status, the resolved profiles and the usage
  outbox, and read by the gateway, whose validation is \<open>snapshot_error\<close>. The coordinator names its
  profiles by strings; \<open>prof\<close> gives the resolved profile that a name stands for. An HTTP error is its
  status and code.
\<close>

section \<open>Inputs\<close>

record node_inputs =
  ni_inference_api_key :: string
  ni_config :: manager_config
  ni_catalog :: "catalog_row list option"
  ni_isfile :: "string \<Rightarrow> bool"
  ni_engine_alive :: bool
  ni_observed_at :: rat
  ni_instance_id :: string
  ni_writer_ready :: bool
  ni_outbox_pending :: int
  ni_last_flush_at :: "rat option"
  ni_delivery_failed :: bool

text \<open>
  \<open>require_fleet_bearer\<close>: the status that it raises, if any. \<open>secrets.compare_digest\<close> raises
  \<open>TypeError\<close>, an internal error, on strings that are not ASCII.
\<close>

definition ascii_only :: "string \<Rightarrow> bool" where
  "ascii_only s = list_all (\<lambda>c. (of_char c :: nat) < 128) s"

definition require_fleet_bearer :: "string \<Rightarrow> string \<Rightarrow> int option" where
  "require_fleet_bearer expected auth =
     (if expected = [] then Some 404
      else if \<not> py_startswith auth ''Bearer '' then Some 401
      else if \<not> ascii_only (drop 7 auth) \<or> \<not> ascii_only expected then Some 500
      else if drop 7 auth \<noteq> expected then Some 401 else None)"

definition fleet_node_id_of :: "manager_config \<Rightarrow> string" where
  "fleet_node_id_of c =
     (let a = py_strip (cf_fleet_node_id c)
      in if a \<noteq> [] then a else py_strip (ts_node_id (cf_token_sidecar c)))"

definition next_fleet_snapshot_sequence :: "int \<Rightarrow> int \<times> int" where
  "next_fleet_snapshot_sequence seq = (seq, seq + 1)"

section \<open>Advertised profiles\<close>

text \<open>\<open>dict.fromkeys(xs)\<close>: the first occurrence of each element.\<close>

fun uniq_first :: "'a list \<Rightarrow> 'a list" where
  "uniq_first [] = []"
| "uniq_first (x # xs) = x # uniq_first (filter (\<lambda>y. y \<noteq> x) xs)"

definition fleet_aliases :: "manager_config \<Rightarrow> catalog_row list option \<Rightarrow> string list" where
  "fleet_aliases c catalog = uniq_first
     (map mp_alias (cf_models c)
      @ (case catalog of
           None \<Rightarrow> []
         | Some rows \<Rightarrow> map rw_alias (filter
             (\<lambda>r. rw_source r = ''ui_install'' \<and> rw_status r = ''installed'' \<and> \<not> is_cache_only_alias (rw_alias r))
             (sort_key rw_alias rows))))"

definition unsafe_selected :: "string \<Rightarrow> bool" where
  "unsafe_selected item =
     (item = [] \<or> 512 < length item \<or> py_startswith item ''/'' \<or> CHR 0x5C \<in> set item
      \<or> ''..'' \<in> set (py_split (CHR ''/'') item))"

definition advertisable :: "deployment_identity \<Rightarrow> bool" where
  "advertisable ident =
     (length (di_upstream_model ident) \<le> 512
      \<and> opt_all (\<lambda>r. length r \<le> 256) (di_resolved_revision ident)
      \<and> opt_all (\<lambda>q. length q \<le> 128) (ar_quantization (di_artifact ident))
      \<and> \<not> list_ex unsafe_selected (ar_selected_files (di_artifact ident)))"

definition fleet_profile ::
  "(string \<Rightarrow> string) \<Rightarrow> (string \<Rightarrow> bool) \<Rightarrow> manager_config \<Rightarrow> catalog_row list option \<Rightarrow> string \<Rightarrow> resolved_profile option" where
  "fleet_profile sha isfile c catalog alias =
     (if alias = [] \<or> 128 < length alias then None
      else case resolve_profile isfile c catalog alias of
             Inl e \<Rightarrow> None
           | Inr p \<Rightarrow>
               (case profile_deployment sha p of
                  Inl e \<Rightarrow> None
                | Inr (i, ident, auth) \<Rightarrow> if advertisable ident then Some p else None))"

definition fleet_profiles ::
  "(string \<Rightarrow> string) \<Rightarrow> (string \<Rightarrow> bool) \<Rightarrow> manager_config \<Rightarrow> catalog_row list option \<Rightarrow> resolved_profile list" where
  "fleet_profiles sha isfile c catalog =
     List.map_filter (fleet_profile sha isfile c catalog) (fleet_aliases c catalog)"

section \<open>Capacity\<close>

definition capacity_dict :: "capacity_spec \<Rightarrow> int option \<Rightarrow> int \<Rightarrow> int \<Rightarrow> bool \<Rightarrow> string + capacity" where
  "capacity_dict spec conf active queued admission_open =
     effective_capacity (cs_derived_limit spec) conf active queued (cs_source spec) (cs_confidence spec) admission_open"

definition static_profile_capacity :: "manager_config \<Rightarrow> resolved_profile \<Rightarrow> int \<Rightarrow> int \<Rightarrow> bool \<Rightarrow> string + capacity" where
  "static_profile_capacity c p active queued admission_open =
     derive_cuda_capacity (pf_backend p) (pf_extra_args p) (ns_max_concurrency (cf_server c)) active queued admission_open"

text \<open>
  \<open>_probe_engine_capacity\<close>: \<open>slots\<close> is the JSON body of a successful answer of llama-server, \<open>None\<close> if
  there is none.
\<close>

definition slot_list :: "json \<Rightarrow> json list" where
  "slot_list payload =
     (case payload of
        JArr xs \<Rightarrow> xs
      | JObj kvs \<Rightarrow> (case dict_get kvs ''slots'' of Some (JArr xs) \<Rightarrow> xs | _ \<Rightarrow> [])
      | _ \<Rightarrow> [])"

definition probe_engine_capacity :: "json option \<Rightarrow> resolved_profile \<Rightarrow> exn + capacity_spec" where
  "probe_engine_capacity slots p =
     (case cuda_limit (pf_backend p) (pf_extra_args p) of
        (derived, source, confidence) \<Rightarrow>
          if pf_backend p \<noteq> ''llama.cpp'' then mk_capacity_spec derived source confidence
          else case slots of
                 None \<Rightarrow> mk_capacity_spec derived source confidence
               | Some payload \<Rightarrow>
                   if slot_list payload \<noteq> []
                   then mk_capacity_spec (int (length (slot_list payload))) ''llama.cpp-slots'' ''authoritative''
                   else mk_capacity_spec derived source confidence)"

section \<open>The snapshot\<close>

fun state_value :: "coordinator_state \<Rightarrow> string" where
  "state_value IDLE = ''idle''"
| "state_value DRAINING = ''draining''"
| "state_value UNLOADING = ''unloading''"
| "state_value LOADING = ''loading''"
| "state_value READY = ''ready''"
| "state_value DEGRADED = ''degraded''"
| "state_value STOPPING = ''stopping''"

definition process_mismatch :: "bool \<Rightarrow> coordinator_status \<Rightarrow> bool" where
  "process_mismatch alive st =
     (st_state st = READY \<and> st_resident_profile st \<noteq> None \<and> \<not> alive
      \<or> st_state st = IDLE \<and> st_resident_profile st = None \<and> alive)"

definition snapshot_health :: "bool \<Rightarrow> coordinator_status \<Rightarrow> health" where
  "snapshot_health alive st =
     (let mismatch = process_mismatch alive st;
          authoritative = (st_authoritative st \<and> \<not> mismatch)
      in \<lparr>h_state = (if mismatch then ''degraded'' else state_value (st_state st)),
          h_accepting = (st_accepting st \<and> authoritative), h_authoritative = authoritative,
          h_diagnostic_code =
            (if mismatch then Some (if st_resident_profile st \<noteq> None then ''engine_process_missing''
                                    else ''unexpected_engine_process'')
             else st_diagnostic_code st)\<rparr>)"

definition root_admission_open :: "bool \<Rightarrow> coordinator_status \<Rightarrow> bool" where
  "root_admission_open alive st =
     (h_accepting (snapshot_health alive st) \<and> st_state st \<in> {IDLE, READY})"

definition queued_for :: "coordinator_status \<Rightarrow> string \<Rightarrow> int" where
  "queued_for st i = (case dict_get (st_queued_by_deployment st) i of None \<Rightarrow> 0 | Some n \<Rightarrow> n)"

text \<open>One entry of \<open>deployments\<close>; a failing capacity computation is an internal error.\<close>

definition snapshot_deployment ::
  "(string \<Rightarrow> string) \<Rightarrow> node_inputs \<Rightarrow> coordinator_status \<Rightarrow> resolved_profile \<Rightarrow> string + fleet_deployment" where
  "snapshot_deployment sha inp st p =
     (case profile_deployment sha p of
        Inl e \<Rightarrow> Inl e
      | Inr (i, ident, authoritative) \<Rightarrow>
          let warm = (Some i = st_resident_deployment_id st); queued = queued_for st i
          in case (if warm
                   then capacity_dict (st_capacity st) (st_configured_max_concurrency st) (st_active st) queued
                          (root_admission_open (ni_engine_alive inp) st)
                   else static_profile_capacity (ni_config inp) p 0 queued
                          (h_accepting (snapshot_health (ni_engine_alive inp) st))) of
               Inl e \<Rightarrow> Inl e
             | Inr cap \<Rightarrow>
                 Inr \<lparr>dp_alias = pf_alias p, dp_deployment_id = i, dp_identity = ident,
                      dp_identity_confidence = (if authoritative then ''authoritative'' else ''unverified''),
                      dp_fleet_eligible = authoritative, dp_loadable = True, dp_warm = warm,
                      dp_capacity = cap\<rparr>)"

fun all_right :: "('a \<Rightarrow> 'e + 'b) \<Rightarrow> 'a list \<Rightarrow> 'e + 'b list" where
  "all_right f [] = Inr []"
| "all_right f (x # xs) =
     (case f x of
        Inl e \<Rightarrow> Inl e
      | Inr y \<Rightarrow> (case all_right f xs of Inl e \<Rightarrow> Inl e | Inr ys \<Rightarrow> Inr (y # ys)))"

definition snapshot_residency :: "(string \<Rightarrow> resolved_profile) \<Rightarrow> coordinator_status \<Rightarrow> residency" where
  "snapshot_residency prof st =
     \<lparr>rs_alias = map_option (\<lambda>x. pf_alias (prof x)) (st_resident_profile st),
      rs_deployment_id = st_resident_deployment_id st,
      rs_engine = map_option (\<lambda>x. pf_backend (prof x)) (st_resident_profile st),
      rs_epoch = st_epoch st, rs_transition_target = st_transition_target st\<rparr>"

definition node_id_error :: "node_inputs \<Rightarrow> (int \<times> string) option" where
  "node_id_error inp =
     (let nid = fleet_node_id_of (ni_config inp)
      in first_error
           [(ni_inference_api_key inp = [], (503, ''fleet_inference_auth_unconfigured'')),
            (nid = [], (503, ''fleet_node_id_unconfigured'')),
            (128 < length nid \<or> list_ex (\<lambda>ch. (of_char ch :: nat) < 32) nid, (503, ''fleet_node_id_invalid''))])"

text \<open>
  \<open>fleet_snapshot\<close> with the sequence counter and the coordinator as state: the answer, the counter and
  the coordinator afterwards.
\<close>

definition fleet_snapshot ::
  "(string \<Rightarrow> string) \<Rightarrow> (string \<Rightarrow> resolved_profile) \<Rightarrow> node_inputs \<Rightarrow> int \<Rightarrow> coord
   \<Rightarrow> ((int \<times> string) + snapshot) \<times> int \<times> coord" where
  "fleet_snapshot sha prof inp seq c =
     (case node_id_error inp of
        Some e \<Rightarrow> (Inl e, seq, c)
      | None \<Rightarrow>
          (case status_coord c of
             (st, c') \<Rightarrow>
               (case capacity_dict (st_capacity st) (st_configured_max_concurrency st) (st_active st) (st_queued st)
                       (root_admission_open (ni_engine_alive inp) st) of
                  Inl e \<Rightarrow> (Inl (500, e), seq, c')
                | Inr root_capacity \<Rightarrow>
                    (case all_right (snapshot_deployment sha inp st)
                            (fleet_profiles sha (ni_isfile inp) (ni_config inp) (ni_catalog inp)) of
                       Inl e \<Rightarrow> (Inl (500, e), seq, c')
                     | Inr ds \<Rightarrow>
                         (case next_fleet_snapshot_sequence seq of
                            (value, seq') \<Rightarrow>
                              (Inr \<lparr>sn_schema_version = 1, sn_snapshot_sequence = value,
                                    sn_observed_at = ni_observed_at inp,
                                    sn_node = \<lparr>nd_node_id = fleet_node_id_of (ni_config inp),
                                      nd_instance_id = ni_instance_id inp, nd_platform = ''cuda'',
                                      nd_version = ''1.0.0''\<rparr>,
                                    sn_health = snapshot_health (ni_engine_alive inp) st,
                                    sn_residency = snapshot_residency prof st,
                                    sn_admission = \<lparr>ad_queue_depth = st_queued st,
                                      ad_queue_limit = st_queue_limit st,
                                      ad_queued_by_deployment = st_queued_by_deployment st\<rparr>,
                                    sn_capacity = root_capacity, sn_deployments = sort_key dp_alias ds,
                                    sn_usage_delivery = \<lparr>ud_enabled = ts_enabled (cf_token_sidecar (ni_config inp)),
                                      ud_writer_ready = ni_writer_ready inp,
                                      ud_outbox_pending = (if ni_catalog inp = None then 0 else ni_outbox_pending inp),
                                      ud_last_flush_at = ni_last_flush_at inp,
                                      ud_last_error_code =
                                        (if ni_delivery_failed inp then Some ''delivery_failed'' else None)\<rparr>\<rparr>,
                               seq', c'))))))"

section \<open>What the coordinator's status may look like\<close>

fun mnt_stopping :: "maint_pc \<Rightarrow> bool" where
  "mnt_stopping MntNone = False"
| "mnt_stopping (MntEnter r s ac) = s"
| "mnt_stopping (MntDrain r s b) = s"
| "mnt_stopping (MntDriver r s g) = s"
| "mnt_stopping (MntLock r s) = s"
| "mnt_stopping (MntStop r s) = s"
| "mnt_stopping (MntDegrade r s code) = s"
| "mnt_stopping (MntPublish r s) = s"

fun mnt_code :: "maint_pc \<Rightarrow> string option" where
  "mnt_code (MntDegrade r s code) = Some code"
| "mnt_code _ = None"

text \<open>
  An idle coordinator has no resident and a ready one has; a transition target belongs to a switch
  under way; a degraded coordinator does not admit, a stopping one is being shut down; diagnostic
  codes have the protocol's form.
\<close>

definition view_inv :: "coord \<Rightarrow> bool" where
  "view_inv c =
     ((cr_state c = IDLE \<longrightarrow> cr_resident_profile c = None)
      \<and> (cr_state c = READY \<longrightarrow> cr_resident_profile c \<noteq> None)
      \<and> (cr_transition_target c \<noteq> None \<longrightarrow> cr_state c \<in> {DRAINING, UNLOADING, LOADING})
      \<and> (cr_state c = DEGRADED \<longrightarrow> \<not> (cr_accepting c \<and> cr_authoritative c))
      \<and> (cr_state c = STOPPING \<longrightarrow> cr_stopping c)
      \<and> (mnt_stopping (cr_mnt c) \<longrightarrow> cr_stopping c)
      \<and> 0 \<le> cr_epoch c
      \<and> opt_all code_pattern (cr_diagnostic_code c) \<and> opt_all code_pattern (mnt_code (cr_mnt c)))"

lemma view_codes [simp]:
  "code_pattern ''transition_cleanup_failed''" "code_pattern ''admission_barrier_incomplete''"
  "code_pattern ''shutdown_drain_timeout''" "code_pattern ''transition_drain_timeout''"
  "code_pattern ''unload_deadline_expired''" "code_pattern ''engine_stop_failed''"
  "code_pattern ''engine_stop_timeout''" "code_pattern ''engine_process_missing''"
  "code_pattern ''unexpected_engine_process''" "code_pattern ''delivery_failed''"
  by code_simp+

lemma opt_all_simps [simp]: "opt_all P None" "opt_all P (Some x) = P x"
  by (simp_all add: opt_all_def)

lemma mnt_notify [simp]:
  "mnt_stopping (cr_mnt (notify_all c)) = mnt_stopping (cr_mnt c)" "mnt_code (cr_mnt (notify_all c)) = mnt_code (cr_mnt c)"
  by (simp_all add: notify_all_def split: maint_pc.split)

text \<open>Updates of the other fields, and sections built from them, keep the invariant.\<close>

lemma view_frame [simp]:
  "view_inv (c\<lparr>cr_drv := drv\<rparr>) = view_inv c" "view_inv (c\<lparr>cr_queue := q\<rparr>) = view_inv c"
  "view_inv (c\<lparr>cr_waiters := ws\<rparr>) = view_inv c" "view_inv (c\<lparr>cr_leases := ls\<rparr>) = view_inv c"
  "view_inv (c\<lparr>cr_active := a\<rparr>) = view_inv c" "view_inv (c\<lparr>cr_oplock := ol\<rparr>) = view_inv c"
  "view_inv (c\<lparr>cr_configured_max_concurrency := m\<rparr>) = view_inv c" "view_inv (c\<lparr>cr_max_queue_depth := n\<rparr>) = view_inv c"
  "view_inv (c\<lparr>cr_last_used := t\<rparr>) = view_inv c"
  by (simp_all add: view_inv_def)

lemma view_frame_calls [simp]:
  "view_inv (bump_locked c) = view_inv c" "view_inv (notify_all c) = view_inv c"
  "view_inv (notify_inflight_locked c) = view_inv c" "view_inv (ensure_driver_locked c) = view_inv c"
  "view_inv (fail_all_locked x c) = view_inv c" "view_inv (fail_head_locked d x c) = view_inv c"
  "view_inv (issue_lease rp p d ep c) = view_inv c"
  by (simp_all add: view_inv_def)

lemma view_frame_purge [simp]:
  "view_inv (purge_cancelled_locked c) = view_inv c" "view_inv (release_locked ep now c) = view_inv c"
  by (simp_all add: purge_cancelled_locked_def release_locked_def)

lemma view_set_state:
  "view_inv (set_state_locked st target diag c) \<longleftrightarrow>
     (st = IDLE \<longrightarrow> cr_resident_profile c = None) \<and> (st = READY \<longrightarrow> cr_resident_profile c \<noteq> None)
     \<and> (target \<noteq> None \<longrightarrow> st \<in> {DRAINING, UNLOADING, LOADING})
     \<and> (st = DEGRADED \<longrightarrow> \<not> (cr_accepting c \<and> cr_authoritative c)) \<and> (st = STOPPING \<longrightarrow> cr_stopping c)
     \<and> (mnt_stopping (cr_mnt c) \<longrightarrow> cr_stopping c) \<and> 0 \<le> cr_epoch c
     \<and> opt_all code_pattern diag \<and> opt_all code_pattern (mnt_code (cr_mnt c))"
  by (simp add: view_inv_def)

lemma view_invD:
  "view_inv c \<Longrightarrow> mnt_stopping (cr_mnt c) \<longrightarrow> cr_stopping c" "view_inv c \<Longrightarrow> 0 \<le> cr_epoch c"
  "view_inv c \<Longrightarrow> opt_all code_pattern (mnt_code (cr_mnt c))"
  by (simp_all add: view_inv_def)

lemma client_view:
  assumes "view_inv c" and "client_event e c = Some c'"
  shows "view_inv c'"
proof -
  have enter: "view_inv (snd (acquire_enter p d c))" "view_inv (snd (acquire_current c))" for p d
    using assms(1) by (simp_all add: acquire_enter_def acquire_current_def Let_def split: option.split)
  have resume: "view_inv (snd (acquire_resume i c))" "view_inv (cancel_waiter i now c)" for i now
    using assms(1) by (simp_all add: acquire_resume_def cancel_waiter_def Let_def split: fut.split)
  have leases: "view_inv (lease_release k c)" "view_inv (lease_release_task k now c)" "view_inv (snd (status_coord c))" for k now
    using assms(1) by (simp_all add: lease_release_def lease_release_task_def release_coord_def status_coord_def Let_def
        split: lease_phase.split)
  have conf: "view_inv d" if "reconfigure m n c = Inr d" for m n d
    using that assms(1) by (auto simp: reconfigure_def split: if_splits)
  show ?thesis using assms(2) enter resume leases conf
    by (cases e) (auto split: if_splits sum.splits)
qed

lemma grant_head_view:
  "view_inv (snd (grant_head_locked d rp c)) = view_inv c"
  "cr_resident_profile (snd (grant_head_locked d rp c)) = cr_resident_profile c"
  "cr_stopping (snd (grant_head_locked d rp c)) = cr_stopping c"
  "cr_epoch (snd (grant_head_locked d rp c)) = cr_epoch c"
  "mnt_stopping (cr_mnt (snd (grant_head_locked d rp c))) = mnt_stopping (cr_mnt c)"
  "mnt_code (cr_mnt (snd (grant_head_locked d rp c))) = mnt_code (cr_mnt c)"
  by (simp_all add: grant_head_locked_def Let_def split: prod.split)

lemma driver_view:
  assumes "view_inv c" and "driver_event e c = Some c'"
  shows "view_inv c'"
proof -
  have top: "view_inv (drive_top c)"
    using assms(1) view_invD [OF assms(1)]
    by (cases "cr_stopping c")
      (simp_all add: drive_top_def Let_def case_prod_unfold view_set_state grant_head_view split: list.split option.split)
  have publish: "view_inv (drive_publish p d cap c)" "view_inv (drive_publish_failure d x clean c)" for p d cap x clean
    using assms(1) by (auto simp: drive_publish_def drive_publish_failure_def view_inv_def Let_def split: option.splits)
  have stopped: "view_inv (transition_stopped p d out c)" for p d out
    using assms(1) view_invD [OF assms(1)] by (cases out) (simp_all add: transition_stopped_def view_set_state)
  have started: "view_inv (transition_started p d out c)" for p d out
    unfolding transition_started_def using assms(1) by (simp split: sum.split)
  have rest: "view_inv (cleanup_done p d x clean c)" "view_inv (drive_finally c)" for p d x clean
    using assms(1) by (simp_all add: cleanup_done_def drive_finally_def Let_def)
  have lock: "view_inv c''" if "driver_lock c = Some c''" for c''
    using that assms(1) by (auto simp: driver_lock_def split: if_splits driver_pc.splits bool.splits)
  show ?thesis using assms(2) top publish stopped started rest lock
    by (cases e) (auto split: driver_pc.splits bool.splits)
qed

lemma maint_view:
  assumes "view_inv c" and "maint_event e c = Some c'"
  shows "view_inv c'"
proof -
  have expired: "view_inv (drain_expired r s d)" if "view_inv d" "s \<longrightarrow> cr_stopping d" for r s d
    using that by (auto simp: drain_expired_def view_inv_def)
  have loop: "view_inv (drain_loop r s x d)" if "view_inv d" "s \<longrightarrow> cr_stopping d" for r s x d
    using that expired [of "set_state_locked (if s then STOPPING else DRAINING) None None d" s r]
    by (auto simp: drain_loop_def drain_done_def Let_def view_inv_def)
  have enter: "view_inv (drain_enter r s ac x c)" if "s \<longrightarrow> cr_stopping c" for r s ac x
    unfolding drain_enter_def Let_def using assms(1) that by (intro loop) (auto simp: view_inv_def)
  have stop: "mnt_stopping (cr_mnt c) \<longrightarrow> cr_stopping c" using assms(1) by (simp add: view_inv_def)
  have start: "view_inv (unload c)" "view_inv (evict_if_idle i n c)" "view_inv (shutdown c)" for i n
    using assms(1) by (auto simp: unload_def evict_if_idle_def shutdown_def view_inv_def)
  have moves: "view_inv (driver_awaited r s x c)" "view_inv (maint_lock r s c)" "view_inv (maint_stopped r s out c)"
    "view_inv (maint_timeout r s b c)" "view_inv (maint_publish r s c)"
    "view_inv (c\<lparr>cr_mnt := MntDegrade r s ''transition_drain_timeout''\<rparr>)"
    if "s \<longrightarrow> cr_stopping c" for r s x out b
    using assms(1) that
    by (auto simp: driver_awaited_def maint_lock_def maint_stopped_def maint_timeout_def maint_publish_def view_inv_def Let_def
        split: option.splits)
  have degrade: "view_inv (maint_degrade s code c)" if "cr_mnt c = MntDegrade r s code" for r s code
    using assms(1) that by (auto simp: maint_degrade_def view_inv_def)
  show ?thesis using assms(2) expired [OF assms(1)] loop [OF assms(1)] enter start moves degrade stop
    by (cases e) (auto split: maint_pc.splits bool.splits if_splits)
qed

lemma view_step: "view_inv c \<Longrightarrow> coord_step e c = Some c' \<Longrightarrow> view_inv c'"
  using client_view [of c e c'] driver_view [of c e c'] maint_view [of c e c']
  by (auto simp: coord_step_def split: option.splits)

interpretation view: inductive_invariant coord_init coord_step view_inv
proof
  show "coord_init s \<Longrightarrow> view_inv s" for s
    by (auto simp: coord_init_def init_coord_def view_inv_def split: if_splits)
qed (rule view_step)

end
