(* ===== verification/Node_Fleet.thy ===== *)
theory Node_Fleet
  imports Node_Snapshot "HOL-Library.Multiset"
begin

text \<open>
  The two ends of the fleet protocol together: what a CUDA node publishes is what the gateway's
  validation accepts. The coordinator contributes its reachable states, the profiles their
  identities, and the protocol the validation.
\<close>

section \<open>When a snapshot is due to be accepted\<close>

definition deployment_id_of :: "(string \<Rightarrow> string) \<Rightarrow> resolved_profile \<Rightarrow> string option" where
  "deployment_id_of sha p = (case profile_deployment sha p of Inr (i, ident, auth) \<Rightarrow> Some i | Inl e \<Rightarrow> None)"

definition advertised :: "(string \<Rightarrow> string) \<Rightarrow> node_inputs \<Rightarrow> resolved_profile list" where
  "advertised sha inp = fleet_profiles sha (ni_isfile inp) (ni_config inp) (ni_catalog inp)"

text \<open>
  Every deployment that the coordinator mentions is advertised: the resident profile itself, the
  deployments of the queued requests, the target of a switch.
\<close>

definition covered :: "(string \<Rightarrow> string) \<Rightarrow> (string \<Rightarrow> resolved_profile) \<Rightarrow> node_inputs \<Rightarrow> coord \<Rightarrow> bool" where
  "covered sha prof inp c =
     ((\<forall>x. cr_resident_profile c = Some x \<longrightarrow>
         prof x \<in> set (advertised sha inp) \<and> deployment_id_of sha (prof x) = cr_resident_deployment_id c)
      \<and> (\<forall>d \<in> set (map fst (queued_by c)). Some d \<in> deployment_id_of sha ` set (advertised sha inp))
      \<and> (\<forall>t. cr_transition_target c = Some t \<longrightarrow> Some t \<in> deployment_id_of sha ` set (advertised sha inp)))"

text \<open>No two advertised identities share an identifier.\<close>

definition unambiguous :: "(string \<Rightarrow> string) \<Rightarrow> node_inputs \<Rightarrow> bool" where
  "unambiguous sha inp =
     (\<forall>p \<in> set (advertised sha inp). \<forall>q \<in> set (advertised sha inp). \<forall>i ident ident' a b.
        profile_deployment sha p = Inr (i, ident, a) \<longrightarrow> profile_deployment sha q = Inr (i, ident', b) \<longrightarrow> ident = ident')"

text \<open>
  The numbers are in the protocol's ranges and the selected files are plain relative paths without a
  line feed.
\<close>

definition profile_in_range :: "resolved_profile \<Rightarrow> bool" where
  "profile_in_range p =
     (fst (cuda_limit (pf_backend p) (pf_extra_args p)) \<le> 100000 \<and> str_len 1 64 (pf_backend p) \<and> str_len 1 64 (pf_kind p)
      \<and> list_all (\<lambda>f. safe_path f \<and> CHR 0x0A \<notin> set f) (ar_selected_files (profile_artifact p)))"

definition coord_in_range :: "coord \<Rightarrow> bool" where
  "coord_in_range c =
     (cs_derived_limit (cr_capacity c) \<le> 100000 \<and> str_len 1 96 (cs_source (cr_capacity c))
      \<and> cs_confidence (cr_capacity c) \<in> set [''authoritative'', ''configured'', ''derived'', ''conservative'']
      \<and> (\<forall>m. cr_configured_max_concurrency c = Some m \<longrightarrow> m \<le> 100000) \<and> cr_active c \<le> 1000000
      \<and> int (length (cr_queue c)) \<le> cr_max_queue_depth c \<and> cr_max_queue_depth c \<le> 1000000)"

definition inputs_in_range :: "(string \<Rightarrow> string) \<Rightarrow> node_inputs \<Rightarrow> bool" where
  "inputs_in_range sha inp =
     (node_id_error inp = None \<and> str_len 1 128 (ni_instance_id inp) \<and> 0 \<le> ni_observed_at inp
      \<and> 0 \<le> ni_outbox_pending inp \<and> ni_outbox_pending inp \<le> 100000000
      \<and> opt_all (\<lambda>t. 0 \<le> t) (ni_last_flush_at inp)
      \<and> opt_all (int_between 1 100000) (ns_max_concurrency (cf_server (ni_config inp)))
      \<and> length (advertised sha inp) \<le> 10000 \<and> list_all profile_in_range (advertised sha inp))"

section \<open>Lists\<close>

lemma all_right_map: "all_right f xs = Inr ys \<longleftrightarrow> map f xs = map Inr ys"
proof (induction xs arbitrary: ys)
  case (Cons x xs)
  show ?case
  proof (cases "f x")
    case (Inr y)
    have "all_right f (x # xs) = Inr ys \<longleftrightarrow> (\<exists>zs. ys = y # zs \<and> all_right f xs = Inr zs)"
      using Inr by (auto split: sum.split)
    then show ?thesis using Inr unfolding Cons.IH by (auto simp: Cons_eq_map_conv)
  qed (auto simp: map_eq_Cons_conv)
qed auto

lemma all_right_total: "\<forall>x \<in> set xs. \<exists>y. f x = Inr y \<Longrightarrow> \<exists>ys. all_right f xs = Inr ys"
  by (induction xs) auto

lemma all_right_set: "all_right f xs = Inr ys \<Longrightarrow> (y \<in> set ys \<longleftrightarrow> (\<exists>x \<in> set xs. f x = Inr y))"
  unfolding all_right_map by (metis (no_types, lifting) imageE image_eqI list.set_map sum.inject(2))

lemma distinct_uniq_first: "distinct (uniq_first xs)"
proof -
  have sub: "set (uniq_first ys) \<subseteq> set ys" for ys :: "'a list" by (induction ys rule: uniq_first.induct) auto
  show ?thesis by (induction xs rule: uniq_first.induct) (use sub in \<open>auto dest: subsetD [OF sub]\<close>)
qed

lemma distinct_map_filter:
  assumes "distinct as" and "\<And>a p. f a = Some p \<Longrightarrow> g p = a"
  shows "distinct (map g (List.map_filter f as))"
  using assms(1)
proof (induction as)
  case (Cons a as)
  have "g p \<noteq> a" if "p \<in> set (List.map_filter f as)" for p
    using that Cons.prems assms(2) by (auto simp: map_filter_set)
  then show ?case using Cons assms(2) [of a] by (auto simp: List.map_filter_simps split: option.split)
qed (simp add: List.map_filter_simps)

lemma fleet_profile_SomeD:
  assumes "fleet_profile sha isfile c cat a = Some p"
  shows "pf_alias p = a" and "a \<noteq> []" and "length a \<le> 128"
    and "\<exists>i ident auth. profile_deployment sha p = Inr (i, ident, auth) \<and> advertisable ident"
  using assms resolve_profile_alias [of isfile c cat a p]
  by (auto simp: fleet_profile_def split: if_splits sum.splits)

lemma advertised_profile:
  assumes "p \<in> set (advertised sha inp)"
  shows "pf_alias p \<noteq> []" and "length (pf_alias p) \<le> 128"
    and "\<exists>i ident auth. profile_deployment sha p = Inr (i, ident, auth) \<and> advertisable ident"
proof -
  obtain a where "fleet_profile sha (ni_isfile inp) (ni_config inp) (ni_catalog inp) a = Some p"
    using assms by (auto simp: advertised_def fleet_profiles_def map_filter_set)
  from fleet_profile_SomeD [OF this] show "pf_alias p \<noteq> []" and "length (pf_alias p) \<le> 128"
    and "\<exists>i ident auth. profile_deployment sha p = Inr (i, ident, auth) \<and> advertisable ident" by auto
qed

lemma advertised_aliases: "distinct (map pf_alias (advertised sha inp))"
  unfolding advertised_def fleet_profiles_def fleet_aliases_def
  by (intro distinct_map_filter distinct_uniq_first) (rule fleet_profile_SomeD(1))

lemma distinct_map_sort: "distinct (map f (sort_key k xs)) \<longleftrightarrow> distinct (map f xs)"
  by (metis mset_map mset_sort mset_eq_imp_distinct_iff)

section \<open>The parts of the snapshot\<close>

text \<open>The status of a coordinator whose invariants hold.\<close>

lemma queued_by_entry:
  assumes "(d, n) \<in> set (queued_by c)"
  shows "1 \<le> n"
proof -
  define ds where "ds = map w_deployment (filter (\<lambda>w. \<not> w_cancelled w) (map (\<lambda>i. cr_waiters c ! i) (cr_queue c)))"
  have "d \<in> set ds" and n: "n = count_if (\<lambda>x. x = d) ds"
    using assms by (auto simp: queued_by_def ds_def [symmetric] Let_def)
  then obtain k where "k < length ds" "ds ! k = d" by (auto simp: in_set_conv_nth)
  then show ?thesis using count_if_pos_nth [of k ds "\<lambda>x. x = d"] n by simp
qed

lemma queued_by_distinct: "distinct (map fst (queued_by c))"
  by (simp add: queued_by_def Let_def comp_def)

lemma sum_entry_le: "(\<forall>e \<in> set xs. 0 \<le> snd e) \<Longrightarrow> e \<in> set xs \<Longrightarrow> snd e \<le> sum_list (map snd xs)" for xs :: "('a \<times> int) list"
proof (induction xs)
  case (Cons x xs)
  have "0 \<le> sum_list (map snd xs)" using Cons.prems(1) by (intro sum_list_nonneg) auto
  then show ?case using Cons by (cases "e = x") auto
qed simp

definition status_of :: "coord \<Rightarrow> coordinator_status" where
  "status_of c = fst (status_coord c)"

lemma status_of_fields:
  assumes "coord_inv c"
  shows "status_coord c = (status_of c, c)" and "st_state (status_of c) = cr_state c"
    and "st_resident_profile (status_of c) = cr_resident_profile c"
    and "st_resident_deployment_id (status_of c) = cr_resident_deployment_id c"
    and "st_epoch (status_of c) = cr_epoch c" and "st_active (status_of c) = cr_active c"
    and "st_queued (status_of c) = int (length (cr_queue c))"
    and "st_queue_limit (status_of c) = cr_max_queue_depth c"
    and "st_queued_by_deployment (status_of c) = queued_by c"
    and "st_transition_target (status_of c) = cr_transition_target c"
    and "st_accepting (status_of c) \<longleftrightarrow> cr_accepting c \<and> \<not> cr_stopping c"
    and "st_authoritative (status_of c) = cr_authoritative c"
    and "st_diagnostic_code (status_of c) = cr_diagnostic_code c"
    and "st_configured_max_concurrency (status_of c) = cr_configured_max_concurrency c"
    and "st_capacity (status_of c) = cr_capacity c"
    and "sum_list (map snd (queued_by c)) = int (length (cr_queue c))"
proof -
  have q: "queue_ok (cr_queue c) (cr_waiters c)" using assms by (simp add: coord_inv_def)
  show "sum_list (map snd (queued_by c)) = int (length (cr_queue c))" using queued_by_sum [OF q] by simp
  then show "st_queued (status_of c) = int (length (cr_queue c))"
    by (simp add: status_of_def status_coord_def Let_def purge_id [OF assms])
qed (simp_all add: status_of_def status_coord_def Let_def purge_id [OF assms])

lemma health_published:
  assumes "coord_inv c" and "view_inv c"
  shows "health_error (snapshot_health alive (status_of c)) = None"
proof -
  have "state_value s \<in> set [''idle'', ''draining'', ''unloading'', ''loading'', ''verifying'', ''ready'', ''degraded'', ''stopping'']" for s
    by (cases s) simp_all
  moreover have "opt_all code_pattern (cr_diagnostic_code c)" using assms(2) by (simp add: view_inv_def)
  ultimately show ?thesis by (auto simp: health_error_def snapshot_health_def Let_def status_of_fields [OF assms(1)])
qed

lemma root_capacity_published:
  assumes "coord_inv c" and "coord_in_range c" and q: "0 \<le> q" "q \<le> 1000000"
  shows "\<exists>cap. capacity_dict (cr_capacity c) (cr_configured_max_concurrency c) (cr_active c) q op = Inr cap
      \<and> capacity_error cap = None \<and> cp_queued cap = q \<and> cp_active cap = cr_active c
      \<and> cp_available cap = (if op then max 0 (cp_effective_limit cap - cr_active c) else 0)"
proof -
  have lim: "limits_ok (cr_capacity c) (cr_configured_max_concurrency c) (cr_max_queue_depth c) (cr_drv c)"
    and act: "0 \<le> cr_active c"
    using assms(1) permits_ok_nonneg by (auto simp: coord_inv_def)
  obtain cap where cap: "capacity_dict (cr_capacity c) (cr_configured_max_concurrency c) (cr_active c) q op = Inr cap"
    unfolding capacity_dict_def
    using effective_capacity_total [of "cs_derived_limit (cr_capacity c)" "cr_configured_max_concurrency c" "cr_active c" q]
      lim act q(1) unfolding limits_ok_def by metis
  have "capacity_error cap = None"
    using assms(2) q by (intro effective_capacity_accepted [OF cap [unfolded capacity_dict_def]]) (auto simp: coord_in_range_def)
  moreover have "cp_queued cap = q" "cp_active cap = cr_active c"
    "cp_available cap = (if op then max 0 (cp_effective_limit cap - cr_active c) else 0)"
    using cap by (auto simp: capacity_dict_def effective_capacity_def Let_def split: if_splits option.splits)
  ultimately show ?thesis using cap by blast
qed

lemma keep_positive_pos: "\<forall>m. r = Some m \<longrightarrow> 0 < m \<Longrightarrow> \<forall>m. keep_positive r v = Some m \<longrightarrow> 0 < m"
  by (auto simp: keep_positive_def split: option.splits)

lemma positive_int_loop_pos:
  "\<forall>m. r = Some m \<longrightarrow> 0 < m \<Longrightarrow> \<forall>m. positive_int_loop names as r = Some m \<longrightarrow> 0 < m"
proof (induction names as r rule: positive_int_loop.induct)
  case (2 names item rest r)
  note k = keep_positive_pos [OF 2(4)]
  show ?case
  proof (cases "item \<in> set names \<and> rest \<noteq> []")
    case True
    then show ?thesis using 2(1) [OF True k] by simp
  next
    case False
    show ?thesis
    proof (cases "find (\<lambda>name. py_startswith item (name @ ''='')) names")
      case None
      then show ?thesis using 2(2) [OF False None 2(4)] False by auto
    next
      case (Some n)
      then show ?thesis using 2(3) [OF False Some k] False by auto
    qed
  qed
qed simp

lemma cuda_limit_ok:
  "1 \<le> fst (cuda_limit b args)" "str_len 1 96 (fst (snd (cuda_limit b args)))"
  "snd (snd (cuda_limit b args)) \<in> set [''authoritative'', ''configured'', ''derived'', ''conservative'']"
proof -
  have "positive_int_flag as names = Some n \<Longrightarrow> 1 \<le> n" for names as n
    using positive_int_loop_pos [of None names as] by (auto simp: positive_int_flag_def)
  then show "1 \<le> fst (cuda_limit b args)" by (simp add: cuda_limit_def split: option.split)
  show "str_len 1 96 (fst (snd (cuda_limit b args)))" by (simp add: cuda_limit_def str_len_def split: option.split)
  show "snd (snd (cuda_limit b args)) \<in> set [''authoritative'', ''configured'', ''derived'', ''conservative'']"
    by (simp add: cuda_limit_def split: option.split)
qed

lemma static_capacity_published:
  assumes "profile_in_range p" and "opt_all (int_between 1 100000) (ns_max_concurrency (cf_server cfg))"
    and "0 \<le> q" and "q \<le> 1000000"
  shows "\<exists>cap. static_profile_capacity cfg p 0 q op = Inr cap \<and> capacity_error cap = None \<and> cp_queued cap = q"
proof -
  obtain d s k where l: "cuda_limit (pf_backend p) (pf_extra_args p) = (d, s, k)" by (cases "cuda_limit (pf_backend p) (pf_extra_args p)")
  have ok: "1 \<le> d" "str_len 1 96 s" "k \<in> set [''authoritative'', ''configured'', ''derived'', ''conservative'']" "d \<le> 100000"
    using cuda_limit_ok [of "pf_backend p" "pf_extra_args p"] assms(1) by (simp_all add: l profile_in_range_def)
  have conf: "\<forall>m. ns_max_concurrency (cf_server cfg) = Some m \<longrightarrow> 1 \<le> m \<and> m \<le> 100000"
    using assms(2) by (auto simp: int_between_def)
  obtain cap where cap: "effective_capacity d (ns_max_concurrency (cf_server cfg)) 0 q s k op = Inr cap"
    using effective_capacity_total [of d "ns_max_concurrency (cf_server cfg)" 0 q s k op] ok(1) conf assms(3) by auto
  have "capacity_error cap = None"
    using ok conf assms(4) by (intro effective_capacity_accepted [OF cap]) auto
  moreover have "cp_queued cap = q" using cap by (auto simp: effective_capacity_def Let_def split: if_splits option.splits)
  ultimately show ?thesis using cap by (simp add: static_profile_capacity_def derive_cuda_capacity_def l)
qed

lemma queued_for_range:
  assumes "coord_inv c" and "coord_in_range c"
  shows "0 \<le> queued_for (status_of c) i" and "queued_for (status_of c) i \<le> 1000000"
proof -
  have e: "0 \<le> snd e" if "e \<in> set (queued_by c)" for e using queued_by_entry [of "fst e" "snd e" c] that by simp
  have "n \<le> 1000000 \<and> 0 \<le> n" if "dict_get (queued_by c) i = Some n" for n
  proof -
    have "(i, n) \<in> set (queued_by c)" using that by (rule dict_get_in)
    then have "n \<le> sum_list (map snd (queued_by c))" and "0 \<le> n" using sum_entry_le [of "queued_by c" "(i, n)"] e by auto
    then show ?thesis using status_of_fields(16) [OF assms(1)] assms(2) by (simp add: coord_in_range_def)
  qed
  then show "0 \<le> queued_for (status_of c) i" and "queued_for (status_of c) i \<le> 1000000"
    by (auto simp: queued_for_def status_of_fields [OF assms(1)] split: option.split)
qed

lemma deployment_published:
  assumes "sha_format sha" and "coord_inv c" and "coord_in_range c" and "inputs_in_range sha inp"
    and "p \<in> set (advertised sha inp)"
  shows "\<exists>i ident auth d. profile_deployment sha p = Inr (i, ident, auth)
     \<and> snapshot_deployment sha inp (status_of c) p = Inr d \<and> deployment_error sha d = None
     \<and> dp_alias d = pf_alias p \<and> dp_deployment_id d = i \<and> di_engine (dp_identity d) = pf_backend p
     \<and> dp_warm d = (Some i = cr_resident_deployment_id c)
     \<and> cp_queued (dp_capacity d) = queued_for (status_of c) i"
proof -
  obtain i ident auth where pd: "profile_deployment sha p = Inr (i, ident, auth)" and adv: "advertisable ident"
    using advertised_profile(3) [OF assms(5)] by blast
  have pr: "profile_in_range p" and mc: "opt_all (int_between 1 100000) (ns_max_concurrency (cf_server (ni_config inp)))"
    using assms(4,5) by (auto simp: inputs_in_range_def list_all_iff)
  note f = profile_deployment_fields [OF pd] and st = status_of_fields [OF assms(2)]
  have "identity_bounds ident"
    using adv pr f(3,6,7)
    by (auto simp: identity_bounds_def advertisable_def profile_in_range_def str_len_def opt_all_def list_all_iff split: option.splits)
  then have ie: "identity_error ident = None" by (rule profile_identity_accepted [OF assms(1) pd])
  let ?q = "queued_for (status_of c) i" and ?w = "Some i = cr_resident_deployment_id c"
  let ?r = "if ?w then capacity_dict (cr_capacity c) (cr_configured_max_concurrency c) (cr_active c) ?q
        (root_admission_open (ni_engine_alive inp) (status_of c))
      else static_profile_capacity (ni_config inp) p 0 ?q (h_accepting (snapshot_health (ni_engine_alive inp) (status_of c)))"
  have "\<exists>cap. ?r = Inr cap \<and> capacity_error cap = None \<and> cp_queued cap = ?q"
    using root_capacity_published [OF assms(2,3) queued_for_range [OF assms(2,3)], of i "root_admission_open (ni_engine_alive inp) (status_of c)"]
      static_capacity_published [OF pr mc queued_for_range [OF assms(2,3)]] by (cases ?w) auto
  then obtain cap where cap: "?r = Inr cap" "capacity_error cap = None" "cp_queued cap = ?q" by blast
  let ?d = "\<lparr>dp_alias = pf_alias p, dp_deployment_id = i, dp_identity = ident,
      dp_identity_confidence = (if auth then ''authoritative'' else ''unverified''),
      dp_fleet_eligible = auth, dp_loadable = True, dp_warm = ?w, dp_capacity = cap\<rparr>"
  have d: "snapshot_deployment sha inp (status_of c) p = Inr ?d"
    unfolding snapshot_deployment_def Let_def pd sum.case prod.case st cap(1) by simp
  have "immutable_revision (di_resolved_revision ident)" if "auth"
    using authoritative_immutable [of sha p i ident] pd that by simp
  then have vi: "validate_identity sha ?d = None" using f(1) by (simp add: validate_identity_def)
  have "str_len 1 128 (pf_alias p)"
    using advertised_profile(1,2) [OF assms(5)] by (simp add: str_len_def Suc_le_eq)
  moreover have "length i = 71" "validate_sha256 i = None" using f(1) sha_format_valid [OF assms(1)] by simp_all
  ultimately have "deployment_error sha ?d = None" using ie cap(2) vi by (simp add: deployment_error_def)
  then show ?thesis using pd d f(3) cap(3) by (intro exI [of _ i] exI [of _ ident] exI [of _ auth] exI [of _ ?d]) simp
qed

lemma remdups_constant: "\<forall>x \<in> set xs. x = a \<Longrightarrow> length (remdups xs) \<le> 1"
proof -
  assume "\<forall>x \<in> set xs. x = a"
  then have "card (set xs) \<le> card {a}" by (intro card_mono) auto
  then show ?thesis by (simp add: length_remdups_card_conv)
qed

text \<open>The list of deployments, before it is sorted.\<close>

lemma deployments_published:
  assumes "sha_format sha" and "coord_inv c" and "coord_in_range c" and "inputs_in_range sha inp"
  shows "\<exists>ds. all_right (snapshot_deployment sha inp (status_of c)) (advertised sha inp) = Inr ds
     \<and> (\<forall>d \<in> set ds. deployment_error sha d = None
           \<and> dp_warm d = (Some (dp_deployment_id d) = cr_resident_deployment_id c)
           \<and> cp_queued (dp_capacity d) = queued_for (status_of c) (dp_deployment_id d)
           \<and> (\<exists>p \<in> set (advertised sha inp). dp_alias d = pf_alias p \<and> di_engine (dp_identity d) = pf_backend p
                \<and> deployment_id_of sha p = Some (dp_deployment_id d)))
     \<and> (\<forall>p \<in> set (advertised sha inp). \<exists>d \<in> set ds. dp_alias d = pf_alias p
           \<and> deployment_id_of sha p = Some (dp_deployment_id d))
     \<and> distinct (map dp_alias ds) \<and> length ds \<le> 10000"
proof -
  let ?f = "snapshot_deployment sha inp (status_of c)"
  note dp = deployment_published [OF assms]
  obtain ds where ds: "all_right ?f (advertised sha inp) = Inr ds"
    using all_right_total [of "advertised sha inp" ?f] dp by blast
  have mem: "d \<in> set ds \<longleftrightarrow> (\<exists>p \<in> set (advertised sha inp). ?f p = Inr d)" for d by (rule all_right_set [OF ds])
  have map: "map ?f (advertised sha inp) = map Inr ds" using ds by (simp add: all_right_map)
  then have len: "length ds = length (advertised sha inp)" using map_eq_imp_length_eq by metis
  have al: "?f p = Inr d \<Longrightarrow> p \<in> set (advertised sha inp) \<Longrightarrow> dp_alias d = pf_alias p" for p d using dp [of p] by auto
  have "map dp_alias ds = map pf_alias (advertised sha inp)"
  proof (rule nth_equalityI)
    fix k
    assume "k < length (map dp_alias ds)"
    then have k: "k < length ds" "k < length (advertised sha inp)" using len by simp_all
    then have "?f (advertised sha inp ! k) = Inr (ds ! k)" using arg_cong [OF map, of "\<lambda>l. l ! k"] by simp
    from al [OF this] k show "map dp_alias ds ! k = map pf_alias (advertised sha inp) ! k" by simp
  qed (simp add: len)
  then have "distinct (map dp_alias ds)" using advertised_aliases by metis
  moreover have "length ds \<le> 10000" using len assms(4) by (simp add: inputs_in_range_def)
  moreover have "\<forall>p \<in> set (advertised sha inp). \<exists>d \<in> set ds. dp_alias d = pf_alias p
      \<and> deployment_id_of sha p = Some (dp_deployment_id d)"
  proof
    fix p
    assume p: "p \<in> set (advertised sha inp)"
    obtain d where "?f p = Inr d" "dp_alias d = pf_alias p" "deployment_id_of sha p = Some (dp_deployment_id d)"
      using dp [OF p] by (auto simp: deployment_id_of_def)
    then show "\<exists>d \<in> set ds. dp_alias d = pf_alias p \<and> deployment_id_of sha p = Some (dp_deployment_id d)"
      using mem p by blast
  qed
  moreover have "deployment_error sha d = None
      \<and> dp_warm d = (Some (dp_deployment_id d) = cr_resident_deployment_id c)
      \<and> cp_queued (dp_capacity d) = queued_for (status_of c) (dp_deployment_id d)
      \<and> (\<exists>p \<in> set (advertised sha inp). dp_alias d = pf_alias p \<and> di_engine (dp_identity d) = pf_backend p
           \<and> deployment_id_of sha p = Some (dp_deployment_id d))" if in_ds: "d \<in> set ds" for d
  proof -
    obtain p where p: "p \<in> set (advertised sha inp)" "?f p = Inr d"
      using mem [THEN iffD1, OF in_ds] by (elim bexE)
    obtain i where i: "deployment_id_of sha p = Some i" "deployment_error sha d = None" "dp_alias d = pf_alias p"
      "dp_deployment_id d = i" "di_engine (dp_identity d) = pf_backend p" "dp_warm d = (Some i = cr_resident_deployment_id c)"
      "cp_queued (dp_capacity d) = queued_for (status_of c) i"
      using dp [OF p(1)] p(2) by (auto simp: deployment_id_of_def)
    show ?thesis using i p(1) by blast
  qed
  ultimately show ?thesis using ds by blast
qed

lemma advertised_id_valid:
  assumes "sha_format sha" and "deployment_id_of sha p = Some i"
  shows "validate_optional_digest (Some i) = None" and "length i = 71"
    and "1 \<le> n \<Longrightarrow> n \<le> 1000000 \<Longrightarrow> queued_entry_error (i, n) = None"
proof -
  obtain ident auth where "profile_deployment sha p = Inr (i, ident, auth)"
    using assms(2) by (auto simp: deployment_id_of_def split: sum.splits)
  from profile_deployment_fields(1) [OF this] obtain t where i: "i = sha256_text sha t" by blast
  show "validate_optional_digest (Some i) = None" and "length i = 71" unfolding i by (rule sha_format_valid [OF assms(1)])+
  have "validate_sha256 i = None" unfolding i by (rule sha_format_valid [OF assms(1)])
  then show "1 \<le> n \<Longrightarrow> n \<le> 1000000 \<Longrightarrow> queued_entry_error (i, n) = None"
    unfolding validate_sha256_def queued_entry_error_def using \<open>length i = 71\<close> by (simp split: if_splits)
qed

lemma residency_published:
  assumes "sha_format sha" and "coord_inv c" and "view_inv c" and "inputs_in_range sha inp" and "covered sha prof inp c"
  shows "residency_error (snapshot_residency prof (status_of c)) = None"
proof -
  note st = status_of_fields [OF assms(2)]
  have res: "resident_ok (cr_resident_profile c) (cr_resident_deployment_id c)" using assms(2) by (simp add: coord_inv_def)
  have none: "validate_optional_digest None = None" by (simp add: validate_optional_digest_def)
  have target: "opt_all (str_len 0 71) (cr_transition_target c) \<and> validate_optional_digest (cr_transition_target c) = None"
  proof (cases "cr_transition_target c")
    case (Some t)
    then obtain p where "deployment_id_of sha p = Some t" using assms(5) by (auto simp: covered_def)
    from advertised_id_valid(1,2) [OF assms(1) this] show ?thesis by (simp add: Some str_len_def)
  qed (simp add: none)
  have ep: "0 \<le> cr_epoch c" using assms(3) by (rule view_invD)
  show ?thesis
  proof (cases "cr_resident_profile c")
    case None
    then have "cr_resident_deployment_id c = None" using res by (simp add: resident_ok_def)
    then show ?thesis using None target ep none by (simp add: residency_error_def snapshot_residency_def st)
  next
    case (Some x)
    then obtain d where d: "cr_resident_deployment_id c = Some d" using res by (auto simp: resident_ok_def)
    have p: "prof x \<in> set (advertised sha inp)" "deployment_id_of sha (prof x) = Some d"
      using assms(5) Some d by (auto simp: covered_def)
    have "str_len 1 64 (pf_backend (prof x))" using assms(4) p(1) by (auto simp: inputs_in_range_def list_all_iff profile_in_range_def)
    moreover have "str_len 1 128 (pf_alias (prof x))"
      using advertised_profile(1,2) [OF p(1)] by (simp add: str_len_def Suc_le_eq)
    ultimately show ?thesis using Some d target ep advertised_id_valid(1,2) [OF assms(1) p(2)]
      by (simp add: residency_error_def snapshot_residency_def st str_len_def)
  qed
qed

lemma admission_published:
  assumes "sha_format sha" and "coord_inv c" and "coord_in_range c" and "inputs_in_range sha inp" and "covered sha prof inp c"
  shows "admission_error \<lparr>ad_queue_depth = st_queued (status_of c), ad_queue_limit = st_queue_limit (status_of c),
           ad_queued_by_deployment = st_queued_by_deployment (status_of c)\<rparr> = None"
proof -
  note st = status_of_fields [OF assms(2)]
  have lim: "1 \<le> cr_max_queue_depth c" "int (length (cr_queue c)) \<le> cr_max_queue_depth c" "cr_max_queue_depth c \<le> 1000000"
    using assms(2,3) by (auto simp: coord_inv_def limits_ok_def coord_in_range_def)
  have ids: "\<exists>p \<in> set (advertised sha inp). deployment_id_of sha p = Some (fst e)" if "e \<in> set (queued_by c)" for e
    using assms(5) that by (force simp: covered_def)
  have entry: "queued_entry_error e = None" if e: "e \<in> set (queued_by c)" for e
  proof -
    have nonneg: "\<forall>x \<in> set (queued_by c). 0 \<le> snd x"
    proof
      fix x assume "x \<in> set (queued_by c)"
      then show "0 \<le> snd x" using queued_by_entry [of "fst x" "snd x" c] by simp
    qed
    have "1 \<le> snd e" using queued_by_entry [of "fst e" "snd e" c] e by simp
    moreover have "snd e \<le> 1000000" using sum_entry_le [OF nonneg e] st(16) lim(2,3) by simp
    moreover obtain p where "deployment_id_of sha p = Some (fst e)" using ids [OF e] by blast
    ultimately show ?thesis using advertised_id_valid(3) [OF assms(1), of p "fst e" "snd e"] by simp
  qed
  have "Some ` set (map fst (queued_by c)) \<subseteq> deployment_id_of sha ` set (advertised sha inp)"
    using assms(5) by (auto simp: covered_def)
  then have "card (Some ` set (map fst (queued_by c))) \<le> card (deployment_id_of sha ` set (advertised sha inp))"
    by (intro card_mono) auto
  also have "\<dots> \<le> length (advertised sha inp)" using card_image_le [of "set (advertised sha inp)"] card_length le_trans by blast
  finally have "length (queued_by c) \<le> 10000"
    using distinct_card [OF queued_by_distinct [of c]] assms(4) by (simp add: card_image inputs_in_range_def)
  then show ?thesis using lim entry st(16)
    by (simp add: admission_error_def admission_is_consistent_def int_between_def find_error_None st)
qed

text \<open>The snapshot as a function of its root capacity and its deployments.\<close>

definition published :: "(string \<Rightarrow> resolved_profile) \<Rightarrow> node_inputs \<Rightarrow> int \<Rightarrow> coord \<Rightarrow> capacity \<Rightarrow> fleet_deployment list \<Rightarrow> snapshot" where
  "published prof inp seq c cap ds =
     \<lparr>sn_schema_version = 1, sn_snapshot_sequence = seq, sn_observed_at = ni_observed_at inp,
      sn_node = \<lparr>nd_node_id = fleet_node_id_of (ni_config inp), nd_instance_id = ni_instance_id inp,
                 nd_platform = ''cuda'', nd_version = ''1.0.0''\<rparr>,
      sn_health = snapshot_health (ni_engine_alive inp) (status_of c),
      sn_residency = snapshot_residency prof (status_of c),
      sn_admission = \<lparr>ad_queue_depth = st_queued (status_of c), ad_queue_limit = st_queue_limit (status_of c),
        ad_queued_by_deployment = st_queued_by_deployment (status_of c)\<rparr>,
      sn_capacity = cap, sn_deployments = sort_key dp_alias ds,
      sn_usage_delivery = \<lparr>ud_enabled = ts_enabled (cf_token_sidecar (ni_config inp)),
        ud_writer_ready = ni_writer_ready inp,
        ud_outbox_pending = (if ni_catalog inp = None then 0 else ni_outbox_pending inp),
        ud_last_flush_at = ni_last_flush_at inp,
        ud_last_error_code = (if ni_delivery_failed inp then Some ''delivery_failed'' else None)\<rparr>\<rparr>"

lemma published_fields [simp]:
  "sn_health (published prof inp seq c cap ds) = snapshot_health (ni_engine_alive inp) (status_of c)"
  "sn_residency (published prof inp seq c cap ds) = snapshot_residency prof (status_of c)"
  "sn_capacity (published prof inp seq c cap ds) = cap"
  "sn_deployments (published prof inp seq c cap ds) = sort_key dp_alias ds"
  "sn_admission (published prof inp seq c cap ds) = \<lparr>ad_queue_depth = st_queued (status_of c),
     ad_queue_limit = st_queue_limit (status_of c), ad_queued_by_deployment = st_queued_by_deployment (status_of c)\<rparr>"
  by (simp_all add: published_def)

text \<open>The states of health and residency agree, whether or not the engine process is where it should be.\<close>

lemma health_consistent_published:
  assumes "coord_inv c" and "view_inv c"
  shows "health_consistent (published prof inp seq c cap ds) = None"
proof -
  note st = status_of_fields [OF assms(1)]
  have res: "resident_ok (cr_resident_profile c) (cr_resident_deployment_id c)" using assms(1) by (simp add: coord_inv_def)
  show ?thesis
    using assms(2) res
    by (cases "cr_state c")
      (auto simp: health_consistent_def snapshot_health_def snapshot_residency_def st view_inv_def resident_ok_def Let_def)
qed

lemma availability_consistent_published:
  assumes "coord_inv c" and "view_inv c"
    and "cp_active cap = cr_active c"
    and "cp_available cap = (if root_admission_open (ni_engine_alive inp) (status_of c)
            then max 0 (cp_effective_limit cap - cr_active c) else 0)"
  shows "availability_consistent (published prof inp seq c cap ds) = None"
    and "cr_transition_target c \<noteq> None \<Longrightarrow> cp_available cap = 0"
    and "cr_transition_target c \<noteq> None \<Longrightarrow>
      h_state (snapshot_health (ni_engine_alive inp) (status_of c)) \<in> {''draining'', ''unloading'', ''loading'', ''verifying''}"
proof -
  note st = status_of_fields [OF assms(1)]
  let ?h = "snapshot_health (ni_engine_alive inp) (status_of c)"
  have "h_accepting ?h \<and> h_state ?h = ''ready'' \<longrightarrow> root_admission_open (ni_engine_alive inp) (status_of c)"
    by (cases "cr_state c") (auto simp: root_admission_open_def snapshot_health_def st Let_def split: if_splits)
  moreover have "\<not> h_accepting ?h \<longrightarrow> \<not> root_admission_open (ni_engine_alive inp) (status_of c)"
    by (simp add: root_admission_open_def)
  ultimately show "availability_consistent (published prof inp seq c cap ds) = None"
    using assms(3,4) by (auto simp: availability_consistent_def Let_def)
  assume "cr_transition_target c \<noteq> None"
  then have s: "cr_state c \<in> {DRAINING, UNLOADING, LOADING}" using assms(2) by (simp add: view_inv_def)
  then show "cp_available cap = 0" using assms(4) by (auto simp: root_admission_open_def st)
  show "h_state ?h \<in> {''draining'', ''unloading'', ''loading'', ''verifying''}"
    using s by (auto simp: snapshot_health_def process_mismatch_def st Let_def)
qed

lemma residency_consistent_published:
  assumes "coord_inv c" and "covered sha prof inp c" and "unambiguous sha inp"
    and ds: "\<forall>d \<in> set ds. dp_warm d = (Some (dp_deployment_id d) = cr_resident_deployment_id c)
           \<and> (\<exists>p \<in> set (advertised sha inp). dp_alias d = pf_alias p \<and> di_engine (dp_identity d) = pf_backend p
                \<and> deployment_id_of sha p = Some (dp_deployment_id d))"
    and cov: "\<forall>p \<in> set (advertised sha inp). \<exists>d \<in> set ds. dp_alias d = pf_alias p
           \<and> deployment_id_of sha p = Some (dp_deployment_id d)"
  shows "residency_consistent (published prof inp seq c cap ds) = None"
proof -
  note st = status_of_fields [OF assms(1)]
  have res: "resident_ok (cr_resident_profile c) (cr_resident_deployment_id c)" using assms(1) by (simp add: coord_inv_def)
  let ?match = "filter (\<lambda>d. Some (dp_deployment_id d) = cr_resident_deployment_id c) (filter dp_warm (sort_key dp_alias ds))"
  have match: "d \<in> set ?match \<longleftrightarrow> d \<in> set ds \<and> Some (dp_deployment_id d) = cr_resident_deployment_id c" for d
    using ds by auto
  show ?thesis
  proof (cases "cr_resident_profile c")
    case None
    then have n: "cr_resident_deployment_id c = None" using res by (simp add: resident_ok_def)
    then have "filter dp_warm (sort_key dp_alias ds) = []" using ds by (auto simp: filter_empty_conv)
    then show ?thesis using None n by (simp add: residency_consistent_def snapshot_residency_def st)
  next
    case (Some x)
    then obtain i where i: "cr_resident_deployment_id c = Some i" using res by (auto simp: resident_ok_def)
    have x: "prof x \<in> set (advertised sha inp)" "deployment_id_of sha (prof x) = Some i"
      using assms(2) Some i by (auto simp: covered_def)
    obtain d where d: "d \<in> set ds" "dp_alias d = pf_alias (prof x)" "dp_deployment_id d = i" using cov x by fastforce
    then have m: "d \<in> set ?match" using match i by simp
    have "di_engine (dp_identity e) = pf_backend (prof x)" if e: "e \<in> set ?match" for e
    proof -
      have e': "e \<in> set ds" "dp_deployment_id e = i" using e match i by auto
      obtain p where p: "p \<in> set (advertised sha inp)" "di_engine (dp_identity e) = pf_backend p" "deployment_id_of sha p = Some i"
        using ds e' by blast
      obtain a b a' b' where q: "profile_deployment sha p = Inr (i, a, b)" "profile_deployment sha (prof x) = Inr (i, a', b')"
        using p(3) x(2) by (auto simp: deployment_id_of_def split: sum.splits)
      then have "a = a'" using assms(3) p(1) x(1) unfolding unambiguous_def by blast
      then show ?thesis
        using profile_deployment_fields(3) [OF q(1)] profile_deployment_fields(3) [OF q(2)] p(2) by simp
    qed
    moreover have "pf_alias (prof x) \<in> set (map dp_alias ?match)" using m d(2) by (metis image_eqI set_map)
    ultimately show ?thesis using m Some i
      by (auto simp: residency_consistent_def snapshot_residency_def st list_all_iff Let_def image_iff filter_empty_conv)
  qed
qed

text \<open>What an answer of the endpoint contains, whatever its inputs.\<close>

lemma fleet_snapshot_fields:
  assumes "coord_inv c" and "fleet_snapshot sha prof inp seq c = (Inr snap, seq', c')"
  shows "sn_residency snap = snapshot_residency prof (status_of c)"
    and "sn_admission snap = \<lparr>ad_queue_depth = int (length (cr_queue c)), ad_queue_limit = cr_max_queue_depth c,
           ad_queued_by_deployment = queued_by c\<rparr>"
    and "\<exists>ds. all_right (snapshot_deployment sha inp (status_of c)) (advertised sha inp) = Inr ds
           \<and> set (sn_deployments snap) = set ds"
proof -
  obtain cap ds where "all_right (snapshot_deployment sha inp (status_of c)) (advertised sha inp) = Inr ds"
    and "snap = published prof inp seq c cap ds"
    using assms(2) unfolding fleet_snapshot_def status_of_fields(1) [OF assms(1)] advertised_def published_def
    by (auto simp: next_fleet_snapshot_sequence_def split: option.splits sum.splits)
  then show "sn_residency snap = snapshot_residency prof (status_of c)"
    and "sn_admission snap = \<lparr>ad_queue_depth = int (length (cr_queue c)), ad_queue_limit = cr_max_queue_depth c,
           ad_queued_by_deployment = queued_by c\<rparr>"
    and "\<exists>ds. all_right (snapshot_deployment sha inp (status_of c)) (advertised sha inp) = Inr ds
           \<and> set (sn_deployments snap) = set ds"
    by (simp_all add: status_of_fields [OF assms(1)])
qed

lemma snapshot_deployment_fields:
  assumes "snapshot_deployment sha inp st p = Inr d"
  shows "deployment_id_of sha p = Some (dp_deployment_id d)" and "di_artifact (dp_identity d) = profile_artifact p"
proof -
  obtain i ident auth where pd: "profile_deployment sha p = Inr (i, ident, auth)"
    using assms by (auto simp: snapshot_deployment_def split: sum.splits)
  then have "dp_deployment_id d = i" "dp_identity d = ident"
    using assms by (auto simp: snapshot_deployment_def Let_def split: sum.splits)
  then show "deployment_id_of sha p = Some (dp_deployment_id d)" and "di_artifact (dp_identity d) = profile_artifact p"
    using pd profile_deployment_fields(6) [OF pd] by (simp_all add: deployment_id_of_def)
qed

text \<open>The queue and admission checks across the deployments, for what the node publishes.\<close>

lemma admission_capacity_published:
  assumes inv: "coord_inv c" and view: "view_inv c" and covered: "covered sha prof inp c" and un: "unambiguous sha inp"
    and cap: "cp_queued cap = int (length (cr_queue c))" "cp_active cap = cr_active c"
      "cp_available cap = (if root_admission_open (ni_engine_alive inp) (status_of c)
            then max 0 (cp_effective_limit cap - cr_active c) else 0)"
    and ds: "\<forall>d \<in> set ds. deployment_error sha d = None
           \<and> dp_warm d = (Some (dp_deployment_id d) = cr_resident_deployment_id c)
           \<and> cp_queued (dp_capacity d) = queued_for (status_of c) (dp_deployment_id d)
           \<and> (\<exists>p \<in> set (advertised sha inp). dp_alias d = pf_alias p \<and> di_engine (dp_identity d) = pf_backend p
                \<and> deployment_id_of sha p = Some (dp_deployment_id d))"
    and cov: "\<forall>p \<in> set (advertised sha inp). \<exists>d \<in> set ds. dp_alias d = pf_alias p
           \<and> deployment_id_of sha p = Some (dp_deployment_id d)"
    and aliases: "distinct (map dp_alias ds)"
  shows "validate_admission_capacity (published prof inp seq c cap ds) = None"
proof -
  let ?s = "published prof inp seq c cap ds"
  note st = status_of_fields [OF inv]
  note av = availability_consistent_published [OF inv view cap(2,3)]
  have ids: "Some i \<in> deployment_id_of sha ` set (advertised sha inp) \<Longrightarrow> i \<in> dp_deployment_id ` set ds" for i
    using cov by fastforce
  have "set (map fst (queued_by c)) \<subseteq> set (map dp_deployment_id (sort_key dp_alias ds))"
    using covered ids by (auto simp: covered_def)
  moreover have "length (remdups (map dp_deployment_id (filter dp_warm (sort_key dp_alias ds)))) \<le> 1"
    using ds by (intro remdups_constant [of _ "the (cr_resident_deployment_id c)"]) (auto, metis option.sel)
  moreover have "find_error (\<lambda>d. if cp_queued (dp_capacity d)
        \<noteq> (case dict_get (queued_by c) (dp_deployment_id d) of None \<Rightarrow> 0 | Some n \<Rightarrow> n)
      then Some ''deployment queued capacity is inconsistent'' else None) (sort_key dp_alias ds) = None"
    using ds by (simp add: find_error_None queued_for_def st)
  moreover have "transition_consistent ?s = None"
    using av(2,3) covered ids
    by (auto simp: transition_consistent_def snapshot_residency_def st covered_def split: option.split)
  moreover have "residency_consistent ?s = None"
    using ds by (intro residency_consistent_published [OF inv covered un _ cov]) blast
  ultimately show ?thesis
    using aliases cap(1) health_consistent_published [OF inv view] av(1)
    by (simp add: validate_admission_capacity_def Let_def distinct_map_sort st)
qed

subsection \<open>The document on the wire\<close>

lemma sha256_text_digest: "sha_format sha \<Longrightarrow> is_digest (sha256_text sha t)"
  by (simp add: sha_format_def is_digest_def sha256_text_def py_startswith_def)

lemma fleet_upstream_pattern: "upstream_pattern (fleet_upstream sha p)"
proof (cases "portable_upstream p")
  case True
  then have "rx_fullmatch RAW_HF_ID_RE (fleet_upstream sha p)"
    by (simp add: fleet_upstream_def portable_upstream_def Let_def)
  from raw_hf_split [OF this] obtain a u v where s: "fleet_upstream sha p = a # u @ CHR ''/'' # v" and h: "hf_char a" "list_all hf_char u"
    by (auto simp: neq_Nil_conv)
  have "a \<noteq> CHR 0x0A" using h(1) by (auto simp: hf_char_def ascii_alnum_def in_range_def)
  moreover have "\<not> (u @ CHR ''/'' # v) ! 0 = CHR '':''" using h(2) hf_char_plain by (cases u) auto
  ultimately show ?thesis using hf_char_plain [OF h(1)]
    by (cases u) (auto simp: upstream_pattern_def s py_startswith_def split: list.split)
qed (simp add: fleet_upstream_def Let_def upstream_pattern_def py_startswith_def)

lemma snapshot_deployment_wire:
  assumes "sha_format sha" and "profile_in_range p" and "snapshot_deployment sha inp st p = Inr d"
  shows "wire_deployment d"
proof -
  obtain i ident auth where pd: "profile_deployment sha p = Inr (i, ident, auth)" and d: "dp_deployment_id d = i" "dp_identity d = ident"
    using assms(3) by (auto simp: snapshot_deployment_def Let_def split: sum.splits)
  note f = profile_deployment_fields [OF pd]
  have "ar_content_digest (profile_artifact p) = None" by (simp add: profile_artifact_def Let_def)
  then show ?thesis using assms(2) sha256_text_digest [OF assms(1)]
    by (simp add: wire_deployment_def Let_def d f(1,4,6,9) fleet_upstream_pattern opt_all_def profile_in_range_def list_all_iff)
qed

lemma deployment_id_digest: "sha_format sha \<Longrightarrow> deployment_id_of sha p = Some i \<Longrightarrow> is_digest i"
proof -
  assume s: "sha_format sha" and "deployment_id_of sha p = Some i"
  then obtain ident auth where "profile_deployment sha p = Inr (i, ident, auth)"
    by (auto simp: deployment_id_of_def split: sum.splits)
  from profile_deployment_fields(1) [OF this] show ?thesis using sha256_text_digest [OF s] by simp
qed

lemma published_wire:
  assumes "sha_format sha" and "coord_inv c" and "inputs_in_range sha inp" and "covered sha prof inp c"
    and "all_right (snapshot_deployment sha inp (status_of c)) (advertised sha inp) = Inr ds"
  shows "wire_ok (published prof inp seq c cap ds)"
proof -
  note st = status_of_fields [OF assms(2)]
  have id: "Some i \<in> deployment_id_of sha ` set (advertised sha inp) \<Longrightarrow> is_digest i" for i
    using deployment_id_digest [OF assms(1)] by auto
  have "wire_deployment d" if mem: "d \<in> set ds" for d
  proof -
    obtain p where p: "p \<in> set (advertised sha inp)" "snapshot_deployment sha inp (status_of c) p = Inr d"
      using all_right_set [OF assms(5), THEN iffD1, OF mem] by (elim bexE)
    have "profile_in_range p" using assms(3) p(1) by (simp add: inputs_in_range_def list_all_iff)
    then show ?thesis by (rule snapshot_deployment_wire [OF assms(1) _ p(2)])
  qed
  moreover have "opt_all is_digest (cr_transition_target c)" "\<forall>kv \<in> set (queued_by c). is_digest (fst kv)"
    using assms(4) id by (auto simp: covered_def opt_all_def split: option.split)
  moreover have "opt_all is_digest (cr_resident_deployment_id c)"
  proof (cases "cr_resident_profile c")
    case None
    then show ?thesis using assms(2) by (simp add: coord_inv_def resident_ok_def opt_all_def)
  next
    case (Some x)
    then have "deployment_id_of sha (prof x) = cr_resident_deployment_id c" using assms(4) by (simp add: covered_def)
    then show ?thesis using deployment_id_digest [OF assms(1), of "prof x"] by (simp add: opt_all_def split: option.split)
  qed
  ultimately show ?thesis by (simp add: wire_ok_def st snapshot_residency_def list_all_iff)
qed

section \<open>Properties\<close>

lemma published_accepted:
  assumes "coord_inv c" and "view_inv c" and "sha_format sha" and "inputs_in_range sha inp" and "coord_in_range c"
    and "covered sha prof inp c" and "unambiguous sha inp" and "0 \<le> seq"
    and all: "all_right (snapshot_deployment sha inp (status_of c)) (advertised sha inp) = Inr ds"
    and cap: "capacity_error cap = None" "cp_queued cap = int (length (cr_queue c))" "cp_active cap = cr_active c"
      "cp_available cap = (if root_admission_open (ni_engine_alive inp) (status_of c)
            then max 0 (cp_effective_limit cap - cr_active c) else 0)"
  shows "snapshot_error sha (published prof inp seq c cap ds) = None"
proof -
  note inv = assms(1) and view = assms(2) and range = assms(4,5)
  let ?s = "published prof inp seq c cap ds"
  have ds: "\<forall>d \<in> set ds. deployment_error sha d = None
           \<and> dp_warm d = (Some (dp_deployment_id d) = cr_resident_deployment_id c)
           \<and> cp_queued (dp_capacity d) = queued_for (status_of c) (dp_deployment_id d)
           \<and> (\<exists>p \<in> set (advertised sha inp). dp_alias d = pf_alias p \<and> di_engine (dp_identity d) = pf_backend p
                \<and> deployment_id_of sha p = Some (dp_deployment_id d))"
    and cov: "\<forall>p \<in> set (advertised sha inp). \<exists>d \<in> set ds. dp_alias d = pf_alias p
           \<and> deployment_id_of sha p = Some (dp_deployment_id d)"
    and aliases: "distinct (map dp_alias ds)" and len: "length ds \<le> 10000"
    using deployments_published [OF assms(3) inv assms(5,4)] all by force+
  have idn: "node_id_error inp = None" using assms(4) by (simp add: inputs_in_range_def)
  have "find_error (deployment_error sha) (sn_deployments ?s) = None" using ds by (simp add: find_error_None)
  moreover have "validate_admission_capacity ?s = None"
    by (rule admission_capacity_published [OF inv view assms(6,7) cap(2,3,4) ds cov aliases])
  moreover have "node_descriptor_error (sn_node ?s) = None" "usage_delivery_error (sn_usage_delivery ?s) = None"
    using assms(4) idn
    by (auto simp: published_def node_descriptor_error_def usage_delivery_error_def inputs_in_range_def node_id_error_def
        str_len_def int_between_def Let_def Suc_le_eq split: if_splits)
  ultimately show ?thesis
    using health_published [OF inv view] residency_published [OF assms(3) inv view assms(4,6)]
      admission_published [OF assms(3) inv assms(5,4,6)] cap(1) len assms(4,8)
    by (simp add: snapshot_error_def) (simp add: published_def inputs_in_range_def)
qed

text \<open>
  C3: what the node publishes is what the gateway accepts. The conditions: the coordinator has run
  without the event by which a failed load reopens a barrier; SHA-256 has its documented form; the
  inputs and the coordinator's numbers are within the protocol's ranges and the selected files are
  plain relative paths (the node's own check lets others through); the deployments the coordinator
  mentions are advertised, and advertised identities with the same identifier are the same. Then the
  snapshot endpoint answers, takes the next sequence number and leaves the coordinator alone; its
  document conforms to the wire schema, and wherever pydantic decodes that document to the snapshot,
  the gateway's \<open>validate_snapshot\<close> under the node's own identity accepts it.
\<close>

theorem node_snapshot_accepted:
  assumes "reach coord_init guarded_step c" and "sha_format sha" and "inputs_in_range sha inp" and "coord_in_range c"
    and "covered sha prof inp c" and "unambiguous sha inp" and "0 \<le> seq"
  shows "\<exists>snap. fleet_snapshot sha prof inp seq c = (Inr snap, seq + 1, c) \<and> sn_snapshot_sequence snap = seq
    \<and> snapshot_schema (snapshot_json snap) \<and> snapshot_error sha snap = None
    \<and> (\<forall>decode. decode (snapshot_json snap) = Some snap \<longrightarrow>
         validate_snapshot sha decode (snapshot_json snap) (fleet_node_id_of (ni_config inp)) = Inr snap)"
proof -
  have inv: "coord_inv c" by (rule residency.inv_reach [OF assms(1)])
  have "reach coord_init coord_step c" using assms(1) unfolding guarded_step_def by (rule reach_restrict)
  then have view: "view_inv c" by (rule view.inv_reach)
  note st = status_of_fields [OF inv]
  have q: "0 \<le> int (length (cr_queue c))" "int (length (cr_queue c)) \<le> 1000000"
    using assms(4) by (simp_all add: coord_in_range_def)
  obtain cap where cap: "capacity_dict (cr_capacity c) (cr_configured_max_concurrency c) (cr_active c)
        (int (length (cr_queue c))) (root_admission_open (ni_engine_alive inp) (status_of c)) = Inr cap"
      "capacity_error cap = None" "cp_queued cap = int (length (cr_queue c))" "cp_active cap = cr_active c"
      "cp_available cap = (if root_admission_open (ni_engine_alive inp) (status_of c)
            then max 0 (cp_effective_limit cap - cr_active c) else 0)"
    using root_capacity_published [OF inv assms(4) q] by blast
  obtain ds where all: "all_right (snapshot_deployment sha inp (status_of c)) (advertised sha inp) = Inr ds"
    using deployments_published [OF assms(2) inv assms(4,3)] by blast
  have idn: "node_id_error inp = None" using assms(3) by (simp add: inputs_in_range_def)
  let ?s = "published prof inp seq c cap ds"
  have snap: "fleet_snapshot sha prof inp seq c = (Inr ?s, seq + 1, c)"
    unfolding fleet_snapshot_def idn option.case st(1) prod.case st(6,7,14,15) cap(1) sum.case
      advertised_def [symmetric] all next_fleet_snapshot_sequence_def published_def by (simp add: st)
  have ok: "snapshot_error sha ?s = None"
    by (rule published_accepted [OF inv view assms(2-7) all cap(2-5)])
  have wire: "wire_ok ?s" by (rule published_wire [OF assms(2) inv assms(3,5) all])
  have node: "nd_node_id (sn_node ?s) = fleet_node_id_of (ni_config inp)" "sn_snapshot_sequence ?s = seq"
    by (simp_all add: published_def)
  show ?thesis
    using snap node(2) ok snapshot_conforms [OF ok wire] validate_snapshot_json [OF ok wire _ node(1)] by blast
qed

section \<open>A concrete node\<close>

definition demo_id :: string where
  "demo_id = ''sha256:'' @ replicate 63 (CHR ''0'') @ ''1''"

definition demo_published_profile :: resolved_profile where
  "demo_published_profile = demo_resolved\<lparr>pf_extra_args := [''--max-num-seqs'', ''4''], pf_revision := ''main'',
     pf_capabilities := [''chat.completions'', ''completions'', ''embeddings'', ''responses'']\<rparr>"

definition demo_inputs :: node_inputs where
  "demo_inputs =
     \<lparr>ni_inference_api_key = ''k'', ni_config = demo_accepted, ni_catalog = None, ni_isfile = (\<lambda>_. False),
      ni_engine_alive = True, ni_observed_at = 100, ni_instance_id = ''i1'', ni_writer_ready = False,
      ni_outbox_pending = 0, ni_last_flush_at = None, ni_delivery_failed = False\<rparr>"

text \<open>The coordinator after the model has been loaded for a first request.\<close>

definition demo_loaded :: coord where
  "demo_loaded = demo_end guarded_step
     [EvAcquire ''m'' demo_id, EvDrive, EvDrvLock, EvDrvStopped None,
      EvDrvStarted (Inr (4, ''vllm-max-num-seqs'', ''configured'')), EvDrvPublish, EvDrive]"

lemma demo_loaded_fields:
  "reach coord_init guarded_step demo_loaded" "cr_resident_profile demo_loaded = Some ''m''"
  "cr_resident_deployment_id demo_loaded = Some demo_id" "cr_transition_target demo_loaded = None"
  "cr_queue demo_loaded = []" "cr_active demo_loaded = 1"
  "cr_capacity demo_loaded = \<lparr>cs_derived_limit = 4, cs_source = ''vllm-max-num-seqs'', cs_confidence = ''configured''\<rparr>"
  "cr_state demo_loaded = READY" "cr_configured_max_concurrency demo_loaded = None" "cr_max_queue_depth demo_loaded = 8"
proof -
  show "reach coord_init guarded_step demo_loaded" unfolding demo_loaded_def by (rule demo_reach) code_simp
qed code_simp+

lemma demo_sha_nonempty: "t \<noteq> [] \<Longrightarrow> sha256_text demo_sha t = demo_id"
proof -
  assume "t \<noteq> []"
  then have "utf8 t \<noteq> []" by (cases t) (simp_all add: utf8_def utf8_char_def Let_def)
  then show ?thesis by (simp add: sha256_text_def demo_sha_def demo_id_def)
qed

lemma demo_resolves: "resolve_profile (\<lambda>_. False) demo_accepted None ''m'' = Inr demo_published_profile"
  by (simp add: resolve_profile_def resolve_configured_def config_paths_def config_revision_def demo_accepted_def
      demo_node_config_def demo_profile_def default_node_defaults_def demo_published_profile_def demo_resolved_def
      storage_locations_def effective_backend_capabilities_def dict_get_Cons Let_def)

lemma demo_published_deployment:
  obtains ident where "profile_deployment demo_sha demo_published_profile = Inr (demo_id, ident, False)" and "advertisable ident"
proof -
  let ?p = demo_published_profile
  have n: "normalize_capabilities (pf_capabilities ?p) = Inr [''chat/completions'', ''completions'', ''embeddings'', ''responses'']"
    unfolding demo_published_profile_def by (simp add: demo_resolved_def) code_simp
  have "json_finite (semantic_load_config ?p)"
    by (rule vllm_load_finite) (simp add: demo_published_profile_def demo_resolved_def)
  then obtain i ident auth where pd: "profile_deployment demo_sha ?p = Inr (i, ident, auth)"
    by (auto simp: profile_deployment_def node_deployment_identity_def n sha256_id_def json_finite_identity Let_def)
  note f = profile_deployment_fields [OF pd]
  have port: "portable_upstream ?p" using demo_portable by (simp add: portable_upstream_def demo_published_profile_def)
  have rev: "profile_revision ?p = Some ''main''" by (simp add: profile_revision_def demo_published_profile_def)
  have art: "profile_artifact ?p = \<lparr>ar_format = ''safetensors'', ar_selected_files = [],
      ar_quantization = None, ar_content_digest = None\<rparr>"
    by (simp add: profile_artifact_def demo_published_profile_def demo_resolved_def truthy_def)
  have up: "fleet_upstream demo_sha ?p = ''org/model''"
    using port by (simp add: fleet_upstream_def demo_published_profile_def demo_resolved_def or_text_def truthy_def)
  have "i = demo_id" unfolding f(1) by (rule demo_sha_nonempty) (simp add: identity_json_def)
  moreover have "\<not> auth" by (simp add: f(10) rev art identity_is_authoritative_def immutable_revision_re_def)
  moreover have "advertisable ident" by (simp add: advertisable_def f(4,5,6) up rev art immutable_revision_re_def)
  ultimately show ?thesis using that pd by simp
qed

lemma demo_advertised: "advertised demo_sha demo_inputs = [demo_published_profile]"
proof -
  obtain ident where "profile_deployment demo_sha demo_published_profile = Inr (demo_id, ident, False)" "advertisable ident"
    by (rule demo_published_deployment)
  then have "fleet_profile demo_sha (\<lambda>_. False) demo_accepted None ''m'' = Some demo_published_profile"
    by (simp add: fleet_profile_def demo_resolves)
  moreover have "fleet_aliases demo_accepted None = [''m'']"
    by (simp add: fleet_aliases_def demo_accepted_def demo_profile_def)
  ultimately show ?thesis
    by (simp add: advertised_def fleet_profiles_def demo_inputs_def List.map_filter_simps)
qed

lemma demo_publishable:
  "inputs_in_range demo_sha demo_inputs" "coord_in_range demo_loaded"
  "covered demo_sha (\<lambda>_. demo_published_profile) demo_inputs demo_loaded" "unambiguous demo_sha demo_inputs"
proof -
  have l: "cuda_limit ''vllm'' [''--max-num-seqs'', ''4''] = (4, ''vllm-max-num-seqs'', ''configured'')" by code_simp
  have "profile_in_range demo_published_profile"
    by (simp add: profile_in_range_def demo_published_profile_def demo_resolved_def l str_len_def profile_artifact_def)
  moreover have "node_id_error demo_inputs = None"
    by (simp add: demo_inputs_def node_id_error_def fleet_node_id_of_def demo_accepted_def demo_node_config_def
        py_strip_def py_isspace_def Let_def)
  ultimately show "inputs_in_range demo_sha demo_inputs"
    unfolding inputs_in_range_def demo_advertised
    by (simp add: demo_inputs_def str_len_def demo_accepted_def demo_node_config_def default_server_def)
  show "coord_in_range demo_loaded" by (simp add: coord_in_range_def demo_loaded_fields str_len_def)
  have id: "deployment_id_of demo_sha demo_published_profile = Some demo_id"
    using demo_published_deployment by (metis (no_types, lifting) deployment_id_of_def prod.case sum.case(2))
  have "queued_by demo_loaded = []" by (simp add: queued_by_def demo_loaded_fields)
  then show "covered demo_sha (\<lambda>_. demo_published_profile) demo_inputs demo_loaded"
    by (simp add: covered_def demo_advertised demo_loaded_fields id)
  show "unambiguous demo_sha demo_inputs" by (simp add: unambiguous_def demo_advertised)
qed

theorem node_snapshot_accepted_witness:
  "\<exists>snap decode. fleet_snapshot demo_sha (\<lambda>_. demo_published_profile) demo_inputs 7 demo_loaded = (Inr snap, 8, demo_loaded)
     \<and> validate_snapshot demo_sha decode (snapshot_json snap) (fleet_node_id_of (ni_config demo_inputs)) = Inr snap"
proof -
  obtain snap where "fleet_snapshot demo_sha (\<lambda>_. demo_published_profile) demo_inputs 7 demo_loaded = (Inr snap, 8, demo_loaded)"
    and "\<forall>decode. decode (snapshot_json snap) = Some snap \<longrightarrow> validate_snapshot demo_sha decode (snapshot_json snap)
      (fleet_node_id_of (ni_config demo_inputs)) = Inr snap"
    using node_snapshot_accepted [OF demo_loaded_fields(1) demo_sha_ok demo_publishable, of 7] by auto
  then show ?thesis by (intro exI [of _ snap] exI [of _ "\<lambda>_. Some snap"]) simp
qed

text \<open>
  C34: the conditions are needed. The gateway rejects the whole snapshot of a node whose resident
  model is not advertised (a raw model name was loaded, or its alias was removed), whose queue is
  longer than its limit (the limit was lowered meanwhile), or that advertises a profile with a
  selected file such as \<open>./model.gguf\<close>, which the node's own path check lets through.
\<close>

theorem node_snapshot_rejected:
  assumes "reach coord_init guarded_step c" and "fleet_snapshot sha prof inp seq c = (Inr snap, seq', c')"
    and "(\<exists>i. cr_resident_deployment_id c = Some i \<and> Some i \<notin> deployment_id_of sha ` set (advertised sha inp))
       \<or> cr_max_queue_depth c < int (length (cr_queue c))
       \<or> (\<exists>p \<in> set (advertised sha inp). \<not> list_all safe_path (ar_selected_files (profile_artifact p)))"
  shows "snapshot_error sha snap \<noteq> None"
proof
  assume ok: "snapshot_error sha snap = None"
  have inv: "coord_inv c" by (rule residency.inv_reach [OF assms(1)])
  note f = fleet_snapshot_fields [OF inv assms(2)] and st = status_of_fields [OF inv]
  obtain ds where ds: "all_right (snapshot_deployment sha inp (status_of c)) (advertised sha inp) = Inr ds"
    and set: "set (sn_deployments snap) = set ds" using f(3) by blast
  have ids: "Some (dp_deployment_id d) \<in> deployment_id_of sha ` set (advertised sha inp)" if "d \<in> set ds" for d
    using all_right_set [OF ds, of d] that snapshot_deployment_fields(1) by (metis imageI)
  show False using assms(3)
  proof (elim disjE exE conjE bexE)
    fix i
    assume i: "cr_resident_deployment_id c = Some i" "Some i \<notin> deployment_id_of sha ` set (advertised sha inp)"
    have "residency_consistent snap = None" using ok by (simp add: snapshot_error_def validate_admission_capacity_def Let_def)
    moreover have "filter (\<lambda>d. Some (dp_deployment_id d) = Some i) (filter dp_warm (sn_deployments snap)) = []"
      using i(2) ids set by (auto simp: filter_empty_conv)
    ultimately show False
      by (auto simp: residency_consistent_def f(1) snapshot_residency_def st i(1) Let_def split: if_splits)
  next
    assume "cr_max_queue_depth c < int (length (cr_queue c))"
    then show False using ok by (simp add: snapshot_error_def admission_error_def admission_is_consistent_def f(2) split: if_splits)
  next
    fix p
    assume p: "p \<in> set (advertised sha inp)" "\<not> list_all safe_path (ar_selected_files (profile_artifact p))"
    obtain d where d: "snapshot_deployment sha inp (status_of c) p = Inr d" "d \<in> set ds"
      using ds p(1) unfolding all_right_map by (metis (no_types, lifting) imageE image_eqI list.set_map)
    then have "deployment_error sha d = None" using ok set by (simp add: snapshot_error_def find_error_None)
    then have "validate_selected_files (ar_selected_files (profile_artifact p)) = None"
      using snapshot_deployment_fields(2) [OF d(1)] by (simp add: deployment_error_def identity_error_def artifact_error_def)
    then show False using p(2) by (auto simp: validate_selected_files_def find_error_None list_all_iff split: if_splits)
  qed
qed

text \<open>The resident of the sample node, were its configuration to lose the model.\<close>

theorem node_snapshot_rejected_witness:
  "\<exists>snap. fleet_snapshot demo_sha (\<lambda>_. demo_published_profile)
       (demo_inputs\<lparr>ni_config := demo_node_config\<rparr>) 7 demo_loaded = (Inr snap, 8, demo_loaded)
     \<and> snapshot_error demo_sha snap \<noteq> None"
proof -
  let ?inp = "demo_inputs\<lparr>ni_config := demo_node_config\<rparr>"
  have adv: "advertised demo_sha ?inp = []"
    by (simp add: advertised_def fleet_profiles_def fleet_aliases_def demo_inputs_def demo_node_config_def List.map_filter_simps)
  have inv: "coord_inv demo_loaded" by (rule residency.inv_reach [OF demo_loaded_fields(1)])
  note st = status_of_fields [OF inv]
  have q: "0 \<le> int (length (cr_queue demo_loaded))" "int (length (cr_queue demo_loaded)) \<le> 1000000"
    by (simp_all add: demo_loaded_fields)
  obtain cap where cap: "capacity_dict (cr_capacity demo_loaded) (cr_configured_max_concurrency demo_loaded) (cr_active demo_loaded)
      (int (length (cr_queue demo_loaded))) (root_admission_open (ni_engine_alive ?inp) (status_of demo_loaded)) = Inr cap"
    using root_capacity_published [OF inv demo_publishable(2) q] by blast
  have idn: "node_id_error ?inp = None"
    by (simp add: demo_inputs_def node_id_error_def fleet_node_id_of_def demo_node_config_def py_strip_def py_isspace_def Let_def)
  have all: "all_right (snapshot_deployment demo_sha ?inp (status_of demo_loaded)) (advertised demo_sha ?inp) = Inr []"
    by (simp add: adv)
  have snap: "fleet_snapshot demo_sha (\<lambda>_. demo_published_profile) ?inp 7 demo_loaded
      = (Inr (published (\<lambda>_. demo_published_profile) ?inp 7 demo_loaded cap []), 8, demo_loaded)"
    unfolding fleet_snapshot_def idn option.case st(1) prod.case st(6,7,14,15) cap sum.case
      advertised_def [symmetric] all next_fleet_snapshot_sequence_def published_def by (simp add: st)
  from node_snapshot_rejected [OF demo_loaded_fields(1) snap] have
    "snapshot_error demo_sha (published (\<lambda>_. demo_published_profile) ?inp 7 demo_loaded cap []) \<noteq> None"
    using demo_loaded_fields(3) adv by simp
  with snap show ?thesis by blast
qed

text \<open>
  The node's own check of selected files is weaker than the gateway's: it lets through paths
  with empty or \<open>.\<close> segments, which the gateway refuses.
\<close>

theorem selected_file_checks_differ:
  "\<forall>item \<in> set [''./m.gguf'', ''a//m.gguf'', ''a/./m.gguf'']. \<not> unsafe_selected item \<and> \<not> safe_path item"
  by code_simp

theorem selected_file_checks_differ_witness: "\<not> unsafe_selected ''./m.gguf'' \<and> \<not> safe_path ''./m.gguf''"
  using selected_file_checks_differ by simp

end
