(* ===== verification/Token_Usage.thy ===== *)
theory Token_Usage
  imports Py_Text
begin

text \<open>
  Token accounting: how both node managers turn an engine's answer into prompt, completion and total
  tokens, \<open>src/usage_normalization.py\<close> for CUDA nodes and
  \<open>src/macos/service/src/mnemosyne_macos/usage.py\<close> for macOS nodes. Where the two modules have the
  same function it is modelled once. The incremental parser of server-sent events keeps its byte
  buffer, the latest totals and, for the Messages dialect, the counters merged so far; its loop is a
  partial function whose value \<open>None\<close> means that it does not end.

  Parameters: \<open>dec\<close> is \<open>bytes.decode("utf-8", errors="replace")\<close> and \<open>loads\<close> is \<open>json.loads\<close>, with
  \<open>None\<close> where it raises a \<open>ValueError\<close>. Every result holds for all of them. Outside the model are
  events nested so deeply that \<open>json.loads\<close> raises \<open>RecursionError\<close>, which the parser does not catch.
\<close>

section \<open>Counters\<close>

datatype usage_protocol = OPENAI | OPENAI_RESPONSES | ANTHROPIC_MESSAGES

record normalized_usage =
  us_prompt_tokens :: int
  us_completion_tokens :: int
  us_total_tokens :: int
  us_raw :: mapping_json

definition TOKEN_KEYS :: "string list" where
  "TOKEN_KEYS = [''prompt_tokens'', ''completion_tokens'', ''input_tokens'', ''output_tokens'', ''total_tokens'',
     ''cache_creation_input_tokens'', ''cache_read_input_tokens'']"

text \<open>\<open>value\<close> is what \<open>usage.get(key)\<close> returns, so a missing key is \<open>None\<close> like a null.\<close>

definition optional_token_int :: "json option \<Rightarrow> int option" where
  "optional_token_int value =
     (let converted = (case value of
          None \<Rightarrow> None
        | Some JNull \<Rightarrow> None
        | Some (JBool b) \<Rightarrow> None
        | Some (JFloat (Fin x)) \<Rightarrow> if x = of_int \<lfloor>x\<rfloor> then Some \<lfloor>x\<rfloor> else None
        | Some (JFloat _) \<Rightarrow> None
        | Some (JInt i) \<Rightarrow> Some i
        | Some (JStr s) \<Rightarrow> py_int s
        | Some (JArr _) \<Rightarrow> None
        | Some (JObj _) \<Rightarrow> None)
      in case converted of None \<Rightarrow> None | Some c \<Rightarrow> if 0 \<le> c then Some c else None)"

definition token_int :: "json option \<Rightarrow> int" where
  "token_int value = (case optional_token_int value of Some parsed \<Rightarrow> parsed | None \<Rightarrow> 0)"

definition endpoint_protocol :: "string \<Rightarrow> usage_protocol option" where
  "endpoint_protocol endpoint =
     (let endpoint_name = last_segment (CHR ''/'') (py_lower (py_rstrip_of (CHR ''/'') endpoint))
      in if endpoint_name = ''messages'' then Some ANTHROPIC_MESSAGES
         else if endpoint_name = ''responses'' then Some OPENAI_RESPONSES
         else None)"

definition protocol_for_endpoint :: "string option \<Rightarrow> usage_protocol" where
  "protocol_for_endpoint endpoint =
     (case endpoint_protocol (case endpoint of None \<Rightarrow> [] | Some e \<Rightarrow> e) of
        Some p \<Rightarrow> p
      | None \<Rightarrow> OPENAI)"

definition has_token_key :: "mapping_json \<Rightarrow> bool" where
  "has_token_key payload = list_ex (dict_has payload) TOKEN_KEYS"

fun envelope_usage :: "mapping_json \<Rightarrow> string list \<Rightarrow> mapping_json option" where
  "envelope_usage payload [] = None"
| "envelope_usage payload (envelope_name # names) =
     (case as_mapping (dict_get payload envelope_name) of
        None \<Rightarrow> envelope_usage payload names
      | Some envelope \<Rightarrow>
          (case as_mapping (dict_get envelope ''usage'') of
             None \<Rightarrow> envelope_usage payload names
           | Some usage \<Rightarrow> Some usage))"

definition usage_block :: "mapping_json \<Rightarrow> mapping_json option" where
  "usage_block payload =
     (case as_mapping (dict_get payload ''usage'') of
        Some direct \<Rightarrow> Some direct
      | None \<Rightarrow>
          (case envelope_usage payload [''response'', ''message'', ''delta''] of
             Some usage \<Rightarrow> Some usage
           | None \<Rightarrow> if has_token_key payload then Some payload else None))"

definition normalize_usage_block :: "usage_protocol \<Rightarrow> mapping_json \<Rightarrow> normalized_usage option" where
  "normalize_usage_block protocol usage =
     (if \<not> has_token_key usage then None
      else
        let (prompt, completion) =
              (if protocol = ANTHROPIC_MESSAGES then
                 (token_int (dict_get usage ''input_tokens'')
                    + token_int (dict_get usage ''cache_creation_input_tokens'')
                    + token_int (dict_get usage ''cache_read_input_tokens''),
                  token_int (dict_get usage ''output_tokens''))
               else
                 (token_int (dict_get usage (if dict_has usage ''prompt_tokens'' then ''prompt_tokens'' else ''input_tokens'')),
                  token_int (dict_get usage
                    (if dict_has usage ''completion_tokens'' then ''completion_tokens'' else ''output_tokens''))));
            total = (case optional_token_int (dict_get usage ''total_tokens'') of
                       Some reported \<Rightarrow> reported
                     | None \<Rightarrow> prompt + completion)
        in Some \<lparr>us_prompt_tokens = prompt, us_completion_tokens = completion, us_total_tokens = total, us_raw = usage\<rparr>)"

definition normalize_usage :: "string option \<Rightarrow> mapping_json \<Rightarrow> normalized_usage option" where
  "normalize_usage endpoint payload =
     (case usage_block payload of
        None \<Rightarrow> None
      | Some usage \<Rightarrow> normalize_usage_block (protocol_for_endpoint endpoint) usage)"

section \<open>The event stream\<close>

definition SSE_BOUNDARY_RE :: rx where
  "SSE_BOUNDARY_RE =
     rx_all [rx_opt (rx_text [CHR 0x0D]), rx_text [CHR 0x0A], rx_opt (rx_text [CHR 0x0D]), rx_text [CHR 0x0A]]"

definition decode_sse_payload ::
  "(string \<Rightarrow> string) \<Rightarrow> (string \<Rightarrow> json option) \<Rightarrow> string \<Rightarrow> mapping_json option" where
  "decode_sse_payload dec loads event =
     (let data_lines = map (\<lambda>raw_line. py_lstrip (drop 5 raw_line))
                         (filter (\<lambda>raw_line. py_startswith raw_line ''data:'') (py_splitlines (dec event)))
      in if data_lines = [] then None
         else let data = py_join [CHR 0x0A] data_lines
              in if py_strip data = ''[DONE]'' then None else as_mapping (loads data))"

record usage_parser =
  sp_protocol :: usage_protocol
  sp_buffer :: string
  sp_latest :: "normalized_usage option"
  sp_anthropic_usage :: mapping_json

definition new_usage_parser :: "usage_protocol \<Rightarrow> usage_parser" where
  "new_usage_parser protocol =
     \<lparr>sp_protocol = protocol, sp_buffer = [], sp_latest = None, sp_anthropic_usage = []\<rparr>"

definition merge_token_keys :: "mapping_json \<Rightarrow> mapping_json \<Rightarrow> mapping_json" where
  "merge_token_keys block acc = fold (\<lambda>(key, v) acc. if key \<in> set TOKEN_KEYS then dict_put key v acc else acc) block acc"

definition consume_event ::
  "(string \<Rightarrow> string) \<Rightarrow> (string \<Rightarrow> json option) \<Rightarrow> string \<Rightarrow> usage_parser
     \<Rightarrow> normalized_usage option \<times> usage_parser" where
  "consume_event dec loads event p =
     (case Option.bind (decode_sse_payload dec loads event) usage_block of
        None \<Rightarrow> (None, p)
      | Some block \<Rightarrow>
          let p1 = (if sp_protocol p = ANTHROPIC_MESSAGES
                    then p\<lparr>sp_anthropic_usage := merge_token_keys block (sp_anthropic_usage p)\<rparr> else p);
              normalized = (if sp_protocol p = ANTHROPIC_MESSAGES
                    then normalize_usage_block ANTHROPIC_MESSAGES (sp_anthropic_usage p1)
                    else normalize_usage_block (sp_protocol p) block)
          in (normalized, case normalized of None \<Rightarrow> p1 | Some u \<Rightarrow> p1\<lparr>sp_latest := Some u\<rparr>))"

text \<open>The loop of \<open>feed\<close>; \<open>found\<close> is the list that the macOS parser returns.\<close>

partial_function (option) feed_loop ::
  "(string \<Rightarrow> string) \<Rightarrow> (string \<Rightarrow> json option) \<Rightarrow> normalized_usage list \<Rightarrow> usage_parser
     \<Rightarrow> (normalized_usage list \<times> usage_parser) option" where
  "feed_loop dec loads found p =
     (case rx_search SSE_BOUNDARY_RE True (sp_buffer p) of
        None \<Rightarrow> Some (found, p)
      | Some (event, rest) \<Rightarrow>
          (case consume_event dec loads event (p\<lparr>sp_buffer := rest\<rparr>) of
             (usage, p') \<Rightarrow> feed_loop dec loads (case usage of None \<Rightarrow> found | Some u \<Rightarrow> found @ [u]) p'))"

declare feed_loop.simps [code]

definition mac_feed ::
  "(string \<Rightarrow> string) \<Rightarrow> (string \<Rightarrow> json option) \<Rightarrow> string \<Rightarrow> usage_parser
     \<Rightarrow> (normalized_usage list \<times> usage_parser) option" where
  "mac_feed dec loads chunk p = feed_loop dec loads [] (p\<lparr>sp_buffer := sp_buffer p @ chunk\<rparr>)"

definition feed ::
  "(string \<Rightarrow> string) \<Rightarrow> (string \<Rightarrow> json option) \<Rightarrow> string \<Rightarrow> usage_parser \<Rightarrow> usage_parser option" where
  "feed dec loads chunk p = map_option snd (feed_loop dec loads [] (p\<lparr>sp_buffer := sp_buffer p @ chunk\<rparr>))"

definition finish ::
  "(string \<Rightarrow> string) \<Rightarrow> (string \<Rightarrow> json option) \<Rightarrow> usage_parser \<Rightarrow> normalized_usage option \<times> usage_parser" where
  "finish dec loads p =
     (if sp_buffer p = [] then (sp_latest p, p)
      else let p' = snd (consume_event dec loads (sp_buffer p) (p\<lparr>sp_buffer := []\<rparr>)) in (sp_latest p', p'))"

text \<open>What the proxy does with a stream: feed every chunk as it arrives, then finish.\<close>

fun feed_all ::
  "(string \<Rightarrow> string) \<Rightarrow> (string \<Rightarrow> json option) \<Rightarrow> string list \<Rightarrow> usage_parser \<Rightarrow> usage_parser option" where
  "feed_all dec loads [] p = Some p"
| "feed_all dec loads (chunk # chunks) p =
     (case feed dec loads chunk p of None \<Rightarrow> None | Some p' \<Rightarrow> feed_all dec loads chunks p')"

section \<open>The macOS service's variant\<close>

text \<open>
  The service's functions also take the dialect by name. \<open>str(payload.get("type") or "")\<close> of anything
  but a string starts with none of the prefixes that are looked for.
\<close>

definition protocol_names :: "(string, usage_protocol) dict" where
  "protocol_names =
     [(''openai'', OPENAI), (''responses'', OPENAI_RESPONSES), (''openai-responses'', OPENAI_RESPONSES),
      (''anthropic'', ANTHROPIC_MESSAGES), (''messages'', ANTHROPIC_MESSAGES),
      (''anthropic-messages'', ANTHROPIC_MESSAGES)]"

fun protocol_name :: "usage_protocol \<Rightarrow> string" where
  "protocol_name OPENAI = ''openai''"
| "protocol_name OPENAI_RESPONSES = ''openai-responses''"
| "protocol_name ANTHROPIC_MESSAGES = ''anthropic-messages''"

definition payload_protocol :: "mapping_json \<Rightarrow> usage_protocol" where
  "payload_protocol payload =
     (let event_type = (case dict_get payload ''type'' of Some (JStr s) \<Rightarrow> py_lower s | _ \<Rightarrow> [])
      in if event_type = ''message'' \<or> py_startswith event_type ''message_''
              \<or> py_startswith event_type ''content_block_'' then ANTHROPIC_MESSAGES
         else if py_startswith event_type ''response.'' then OPENAI_RESPONSES
         else OPENAI)"

definition coerce_protocol :: "string option \<Rightarrow> string option \<Rightarrow> mapping_json \<Rightarrow> string + usage_protocol" where
  "coerce_protocol protocol endpoint payload =
     (case protocol of
        Some name \<Rightarrow>
          (case dict_get protocol_names (map (\<lambda>c. if c = CHR ''_'' then CHR ''-'' else c) (py_lower name)) of
             None \<Rightarrow> Inl ''unsupported usage protocol''
           | Some p \<Rightarrow> Inr p)
      | None \<Rightarrow>
          (case endpoint_protocol (case endpoint of None \<Rightarrow> [] | Some e \<Rightarrow> e) of
             Some p \<Rightarrow> Inr p
           | None \<Rightarrow> Inr (payload_protocol payload)))"

text \<open>\<open>NormalizedUsage.__post_init__\<close> and \<open>raw_json\<close>.\<close>

definition post_init :: "normalized_usage \<Rightarrow> string + normalized_usage" where
  "post_init u =
     (if us_prompt_tokens u < 0 then Inl ''prompt_tokens must be a non-negative integer''
      else if us_completion_tokens u < 0 then Inl ''completion_tokens must be a non-negative integer''
      else if us_total_tokens u < 0 then Inl ''total_tokens must be a non-negative integer''
      else Inr u)"

definition raw_json :: "normalized_usage \<Rightarrow> string option" where
  "raw_json u = (if us_raw u = [] then None else Some (canonical_json (JObj (us_raw u))))"

definition mac_normalize_usage_block :: "string \<Rightarrow> mapping_json \<Rightarrow> string + normalized_usage option" where
  "mac_normalize_usage_block protocol usage =
     (case coerce_protocol (Some protocol) None usage of
        Inl e \<Rightarrow> Inl e
      | Inr dialect \<Rightarrow>
          (case normalize_usage_block dialect usage of
             None \<Rightarrow> Inr None
           | Some u \<Rightarrow> (case post_init u of Inl e \<Rightarrow> Inl e | Inr v \<Rightarrow> Inr (Some v))))"

definition mac_normalize_usage ::
  "string option \<Rightarrow> string option \<Rightarrow> mapping_json \<Rightarrow> string + normalized_usage option" where
  "mac_normalize_usage protocol endpoint payload =
     (case coerce_protocol protocol endpoint payload of
        Inl e \<Rightarrow> Inl e
      | Inr dialect \<Rightarrow>
          (case usage_block payload of
             None \<Rightarrow> Inr None
           | Some usage \<Rightarrow> mac_normalize_usage_block (protocol_name dialect) usage))"

record usage_event =
  ue_usage :: normalized_usage
  ue_endpoint :: string
  ue_engine :: string
  ue_requested_model :: "string option"
  ue_alias :: "string option"
  ue_streamed :: bool
  ue_response_ms :: pyfloat
  ue_status_code :: int
  ue_event_id :: string
  ue_timestamp :: pyfloat

fun is_finite :: "pyfloat \<Rightarrow> bool" where
  "is_finite (Fin x) = True"
| "is_finite _ = False"

fun negative :: "pyfloat \<Rightarrow> bool" where
  "negative (Fin x) = (x < 0)"
| "negative NInf = True"
| "negative _ = False"

definition usage_event_error :: "usage_event \<Rightarrow> string option" where
  "usage_event_error e = first_error
     [(py_strip (ue_event_id e) = [], ''event_id must not be empty''),
      (py_strip (ue_engine e) = [], ''engine must not be empty''),
      (py_strip (ue_endpoint e) = [], ''endpoint must not be empty''),
      (\<not> is_finite (ue_timestamp e), ''timestamp must be finite''),
      (\<not> is_finite (ue_response_ms e) \<or> negative (ue_response_ms e), ''response_ms must be finite and non-negative'')]"

definition normalized_endpoint :: "usage_event \<Rightarrow> string" where
  "normalized_endpoint e =
     (let endpoint = py_strip (ue_endpoint e)
      in if py_startswith endpoint ''/'' then endpoint else CHR ''/'' # endpoint)"

text \<open>\<open>event_id\<close> and \<open>timestamp\<close> are the given values or, by default, a fresh identifier and the clock.\<close>

definition usage_event_from_payload ::
  "string option \<Rightarrow> mapping_json \<Rightarrow> usage_event \<Rightarrow> string + usage_event option" where
  "usage_event_from_payload protocol payload e =
     (case mac_normalize_usage protocol (Some (ue_endpoint e)) payload of
        Inl err \<Rightarrow> Inl err
      | Inr None \<Rightarrow> Inr None
      | Inr (Some u) \<Rightarrow>
          (let ev = e\<lparr>ue_usage := u\<rparr>
           in case usage_event_error ev of Some err \<Rightarrow> Inl err | None \<Rightarrow> Inr (Some ev)))"

section \<open>Specification\<close>

text \<open>
  What accounting a stream means, independently of how it arrives: split the bytes at blank lines,
  find the usage blocks in order; the last one that has a counter wins, and in the Messages dialect
  the counters of all blocks are merged first.
\<close>

definition line_end :: "string \<Rightarrow> string option" where
  "line_end s =
     (case s of
        [] \<Rightarrow> None
      | c # cs \<Rightarrow>
          if c = CHR 0x0A then Some cs
          else if c = CHR 0x0D \<and> py_startswith cs [CHR 0x0A] then Some (drop 1 cs) else None)"

definition blank_line :: "string \<Rightarrow> string option" where
  "blank_line s = Option.bind (line_end s) line_end"

fun cut_event :: "string \<Rightarrow> (string \<times> string) option" where
  "cut_event [] = None"
| "cut_event (c # cs) =
     (case blank_line (c # cs) of
        Some rest \<Rightarrow> Some ([], rest)
      | None \<Rightarrow> map_option (\<lambda>(e, rest). (c # e, rest)) (cut_event cs))"

function sse_events :: "string \<Rightarrow> string list \<times> string" where
  "sse_events s =
     (case cut_event s of
        None \<Rightarrow> ([], s)
      | Some (e, rest) \<Rightarrow>
          if length rest < length s then (case sse_events rest of (es, q) \<Rightarrow> (e # es, q)) else ([], s))"
  by pat_completeness auto
termination by (relation "measure length") auto

declare sse_events.simps [simp del]

definition stream_blocks ::
  "(string \<Rightarrow> string) \<Rightarrow> (string \<Rightarrow> json option) \<Rightarrow> string \<Rightarrow> mapping_json list" where
  "stream_blocks dec loads bytes =
     (case sse_events bytes of
        (es, rest) \<Rightarrow> List.map_filter (\<lambda>e. Option.bind (decode_sse_payload dec loads e) usage_block)
                        (es @ (if rest = [] then [] else [rest])))"

definition reference_usage ::
  "(string \<Rightarrow> string) \<Rightarrow> (string \<Rightarrow> json option) \<Rightarrow> usage_protocol \<Rightarrow> string \<Rightarrow> normalized_usage option" where
  "reference_usage dec loads protocol bytes =
     (let blocks = stream_blocks dec loads bytes
      in if protocol = ANTHROPIC_MESSAGES
         then normalize_usage_block protocol (fold merge_token_keys blocks [])
         else (case rev (List.map_filter (normalize_usage_block protocol) blocks) of [] \<Rightarrow> None | u # _ \<Rightarrow> Some u))"

section \<open>Splitting the stream\<close>

lemma boundary_ends:
  "rx_ends SSE_BOUNDARY_RE (b, s) = (case blank_line s of None \<Rightarrow> [] | Some rest \<Rightarrow> [(False, rest)])"
proof -
  have nl: "rx_ends (rx_text [c]) (b, s) = (case s of [] \<Rightarrow> [] | d # ds \<Rightarrow> if d = c then [(False, ds)] else [])" for b s c
    by (simp add: rx_text_def split: list.split)
  have line: "rx_ends (RxSeq (rx_opt (rx_text [CHR 0x0D])) (RxSeq (rx_text [CHR 0x0A]) r)) (b, s)
      = (case line_end s of None \<Rightarrow> [] | Some rest \<Rightarrow> rx_ends r (False, rest))" for b s r
    by (auto simp: rx_opt_def rx_ends.simps(5) nl line_end_def py_startswith_def split: list.splits)
  have last: "rx_ends (RxSeq (rx_opt (rx_text [CHR 0x0D])) (rx_text [CHR 0x0A])) (b, s)
      = (case line_end s of None \<Rightarrow> [] | Some rest \<Rightarrow> [(False, rest)])" for b s
    by (auto simp: rx_opt_def rx_ends.simps(5) nl line_end_def py_startswith_def split: list.splits)
  show ?thesis by (simp add: SSE_BOUNDARY_RE_def line last blank_line_def split: option.split)
qed

lemma blank_line_Nil [simp]: "blank_line [] = None"
  by (simp add: blank_line_def line_end_def)

lemma search_boundary: "rx_search SSE_BOUNDARY_RE b s = cut_event s"
  by (induction s arbitrary: b) (simp_all add: boundary_ends split: option.split)

lemma line_end_shorter: "line_end s = Some r \<Longrightarrow> length r < length s"
  by (auto simp: line_end_def split: list.splits if_splits)

lemma blank_line_shorter: "blank_line s = Some r \<Longrightarrow> length r < length s"
  by (auto simp: blank_line_def bind_eq_Some_conv dest!: line_end_shorter)

lemma cut_event_shorter: "cut_event s = Some (e, r) \<Longrightarrow> length r < length s"
  by (induction s arbitrary: e) (auto split: option.splits dest: blank_line_shorter)

lemma line_end_append: "line_end s = Some r \<Longrightarrow> line_end (s @ t) = Some (r @ t)"
  by (auto simp: line_end_def py_startswith_def split: list.splits if_splits)

lemma blank_line_append: "blank_line s = Some r \<Longrightarrow> blank_line (s @ t) = Some (r @ t)"
  by (auto simp: blank_line_def bind_eq_Some_conv line_end_append)

text \<open>More input cannot move a boundary that is already complete.\<close>

lemma blank_line_stable:
  assumes "blank_line s = None" and "cut_event s = Some er"
  shows "blank_line (s @ t) = None"
proof -
  consider "s = []" | a where "s = [a]" | a b where "s = [a, b]" | a b c where "s = [a, b, c]"
    | a b c d u where "s = a # b # c # d # u" by (metis list.exhaust)
  then show ?thesis
  proof cases
    case 5
    have four: "blank_line (a # b # c # d # u @ t) = None \<longleftrightarrow> blank_line (a # b # c # d # u) = None"
      by (simp add: blank_line_def line_end_def py_startswith_def)
    show ?thesis using assms(1) 5 four by simp
  qed (use assms in \<open>simp_all add: blank_line_def line_end_def py_startswith_def split: if_splits\<close>)
qed

lemma cut_event_append: "cut_event s = Some (e, r) \<Longrightarrow> cut_event (s @ t) = Some (e, r @ t)"
proof (induction s arbitrary: e)
  case (Cons c cs)
  show ?case
  proof (cases "blank_line (c # cs)")
    case None
    then obtain e' where e: "cut_event cs = Some (e', r)" "e = c # e'" using Cons.prems by auto
    have "blank_line ((c # cs) @ t) = None" by (rule blank_line_stable [OF None Cons.prems])
    with Cons.IH [OF e(1)] e show ?thesis by simp
  next
    case (Some q)
    with blank_line_append [OF Some, of t] Cons.prems show ?thesis by simp
  qed
qed simp

lemma sse_events_None: "cut_event s = None \<Longrightarrow> sse_events s = ([], s)"
  by (subst sse_events.simps) simp

lemma sse_events_Some:
  "cut_event s = Some (e, r) \<Longrightarrow> sse_events s = (e # fst (sse_events r), snd (sse_events r))"
  using cut_event_shorter [of s e r] by (subst sse_events.simps) (simp split: prod.split)

lemma sse_events_append:
  "sse_events (s @ t) = (fst (sse_events s) @ fst (sse_events (snd (sse_events s) @ t)),
     snd (sse_events (snd (sse_events s) @ t)))"
proof (induction s rule: length_induct)
  case (1 s)
  show ?case
  proof (cases "cut_event s")
    case None
    then show ?thesis by (simp add: sse_events_None)
  next
    case (Some er)
    obtain e r where er: "er = (e, r)" by (cases er)
    note cut = Some [unfolded er]
    have "sse_events (r @ t) = (fst (sse_events r) @ fst (sse_events (snd (sse_events r) @ t)),
        snd (sse_events (snd (sse_events r) @ t)))"
      using 1 cut_event_shorter [OF cut] by blast
    then show ?thesis using sse_events_Some [OF cut] sse_events_Some [OF cut_event_append [OF cut, of t]] by simp
  qed
qed

lemma line_end_parts: "line_end s = Some r \<Longrightarrow> \<exists>u. s = u @ r \<and> 1 \<le> length u"
proof (cases s)
  case (Cons c cs)
  assume "line_end s = Some r"
  then have "s = take (length s - length r) s @ r \<and> 1 \<le> length (take (length s - length r) s)"
    using Cons by (cases cs) (auto simp: line_end_def py_startswith_def split: if_splits)
  then show ?thesis by blast
qed (simp add: line_end_def)

lemma blank_line_parts: "blank_line s = Some r \<Longrightarrow> \<exists>u. s = u @ r \<and> 2 \<le> length u"
  by (force simp: blank_line_def bind_eq_Some_conv dest!: line_end_parts)

lemma cut_event_parts: "cut_event s = Some (e, r) \<Longrightarrow> \<exists>u. s = e @ u @ r \<and> 2 \<le> length u"
  by (induction s arbitrary: e) (auto split: option.splits dest: blank_line_parts)

lemma sse_events_parts:
  "\<exists>consumed. s = consumed @ snd (sse_events s) \<and> 2 * length (fst (sse_events s)) \<le> length consumed"
proof (induction s rule: length_induct)
  case (1 s)
  show ?case
  proof (cases "cut_event s")
    case None
    then show ?thesis by (simp add: sse_events_None)
  next
    case (Some er)
    obtain e r where er: "er = (e, r)" by (cases er)
    note cut = Some [unfolded er]
    obtain v where v: "r = v @ snd (sse_events r)" "2 * length (fst (sse_events r)) \<le> length v"
      using 1 cut_event_shorter [OF cut] by blast
    obtain u where u: "s = e @ u @ r" "2 \<le> length u" using cut_event_parts [OF cut] by blast
    have "s = (e @ u @ v) @ snd (sse_events r)" using u(1) v(1) by (metis append.assoc)
    then show ?thesis using u(2) v(2) sse_events_Some [OF cut] by (intro exI [of _ "e @ u @ v"]) simp
  qed
qed

lemma sse_events_rest: "cut_event (snd (sse_events s)) = None"
proof (induction s rule: length_induct)
  case (1 s)
  show ?case
  proof (cases "cut_event s")
    case None
    then show ?thesis by (simp add: sse_events_None)
  next
    case (Some er)
    obtain e r where er: "er = (e, r)" by (cases er)
    note cut = Some [unfolded er]
    show ?thesis using 1 cut_event_shorter [OF cut] sse_events_Some [OF cut] by simp
  qed
qed

section \<open>The incremental parser\<close>

fun consume_events ::
  "(string \<Rightarrow> string) \<Rightarrow> (string \<Rightarrow> json option) \<Rightarrow> string list \<Rightarrow> usage_parser
     \<Rightarrow> normalized_usage list \<times> usage_parser" where
  "consume_events dec loads [] p = ([], p)"
| "consume_events dec loads (e # es) p =
     (case consume_event dec loads e p of
        (n, p') \<Rightarrow> (case consume_events dec loads es p' of
           (found, q) \<Rightarrow> ((case n of None \<Rightarrow> found | Some u \<Rightarrow> u # found), q)))"

lemma consume_event_buffer:
  "consume_event dec loads e (p\<lparr>sp_buffer := b\<rparr>) = apsnd (\<lambda>q. q\<lparr>sp_buffer := b\<rparr>) (consume_event dec loads e p)"
  by (simp add: consume_event_def Let_def split: option.split)

lemma consume_event_frame [simp]:
  "sp_buffer (snd (consume_event dec loads e p)) = sp_buffer p"
  "sp_protocol (snd (consume_event dec loads e p)) = sp_protocol p"
  by (simp_all add: consume_event_def Let_def split: option.split)

lemma consume_events_buffer:
  "consume_events dec loads es (p\<lparr>sp_buffer := b\<rparr>) = apsnd (\<lambda>q. q\<lparr>sp_buffer := b\<rparr>) (consume_events dec loads es p)"
proof (induction es arbitrary: p)
  case (Cons e es)
  show ?case
    by (cases "consume_event dec loads e p", cases "consume_events dec loads es (snd (consume_event dec loads e p))")
      (simp add: consume_event_buffer Cons.IH)
qed simp

lemma consume_events_append:
  "consume_events dec loads (es @ fs) p =
     (fst (consume_events dec loads es p) @ fst (consume_events dec loads fs (snd (consume_events dec loads es p))),
      snd (consume_events dec loads fs (snd (consume_events dec loads es p))))"
  by (induction es arbitrary: p) (simp_all split: prod.split option.split)

lemma consume_events_length: "length (fst (consume_events dec loads es p)) \<le> length es"
proof (induction es arbitrary: p)
  case (Cons e es)
  obtain n q where "consume_event dec loads e p = (n, q)" by (cases "consume_event dec loads e p")
  then show ?case using Cons.IH [of q] by (auto split: prod.splits option.splits)
qed simp

text \<open>The loop ends, having consumed every complete event of the buffer in order.\<close>

lemma feed_loop_eq:
  "feed_loop dec loads found p =
     Some (found @ fst (consume_events dec loads (fst (sse_events (sp_buffer p))) p),
       (snd (consume_events dec loads (fst (sse_events (sp_buffer p))) p))\<lparr>sp_buffer := snd (sse_events (sp_buffer p))\<rparr>)"
proof (induction "length (sp_buffer p)" arbitrary: found p rule: less_induct)
  case less
  show ?case
  proof (cases "cut_event (sp_buffer p)")
    case None
    then show ?thesis by (subst feed_loop.simps) (simp add: search_boundary sse_events_None)
  next
    case (Some er)
    obtain e r where er: "er = (e, r)" by (cases er)
    note cut = Some [unfolded er]
    obtain n p' where c: "consume_event dec loads e p = (n, p')" by (cases "consume_event dec loads e p")
    let ?q = "p'\<lparr>sp_buffer := r\<rparr>" and ?found = "case n of None \<Rightarrow> found | Some u \<Rightarrow> found @ [u]"
    have "feed_loop dec loads found p = feed_loop dec loads ?found ?q"
      by (subst feed_loop.simps) (simp add: search_boundary cut consume_event_buffer c)
    also have "\<dots> = Some (?found @ fst (consume_events dec loads (fst (sse_events r)) p'),
       (snd (consume_events dec loads (fst (sse_events r)) p'))\<lparr>sp_buffer := snd (sse_events r)\<rparr>)"
      using less [of ?q ?found] cut_event_shorter [OF cut] by (simp add: consume_events_buffer)
    finally show ?thesis by (simp add: sse_events_Some [OF cut] c split: prod.split option.split)
  qed
qed

lemma feed_eq:
  "feed dec loads chunk p = Some
     ((snd (consume_events dec loads (fst (sse_events (sp_buffer p @ chunk))) p))
        \<lparr>sp_buffer := snd (sse_events (sp_buffer p @ chunk))\<rparr>)"
  by (simp add: feed_def feed_loop_eq consume_events_buffer)

lemma feed_all_eq:
  assumes "cut_event (sp_buffer p) = None"
  shows "feed_all dec loads chunks p = Some
     ((snd (consume_events dec loads (fst (sse_events (sp_buffer p @ concat chunks))) p))
        \<lparr>sp_buffer := snd (sse_events (sp_buffer p @ concat chunks))\<rparr>)"
  using assms
proof (induction chunks arbitrary: p)
  case Nil
  then show ?case by (simp add: sse_events_None)
next
  case (Cons c cs)
  let ?b = "sp_buffer p @ c"
  let ?p = "(snd (consume_events dec loads (fst (sse_events ?b)) p))\<lparr>sp_buffer := snd (sse_events ?b)\<rparr>"
  have "cut_event (sp_buffer ?p) = None" by (simp add: sse_events_rest)
  from Cons.IH [OF this] show ?case
    using sse_events_append [of ?b "concat cs"]
    by (simp add: feed_eq consume_events_buffer consume_events_append)
qed

section \<open>Which totals win\<close>

lemma has_token_key_get: "has_token_key u \<longleftrightarrow> (\<exists>k \<in> set TOKEN_KEYS. dict_get u k \<noteq> None)"
  by (auto simp: has_token_key_def list_ex_iff dict_get_None_iff)

lemma normalize_None: "normalize_usage_block p u = None \<longleftrightarrow> \<not> has_token_key u"
  by (simp add: normalize_usage_block_def Let_def split: prod.split)

lemma normalize_Nil [simp]: "normalize_usage_block p [] = None"
  by (simp add: normalize_None has_token_key_get)

text \<open>One event after another, seen from the usage blocks.\<close>

definition latest_of :: "usage_protocol \<Rightarrow> mapping_json list \<Rightarrow> normalized_usage option" where
  "latest_of protocol blocks =
     (if protocol = ANTHROPIC_MESSAGES then normalize_usage_block protocol (fold merge_token_keys blocks [])
      else (case rev (List.map_filter (normalize_usage_block protocol) blocks) of [] \<Rightarrow> None | u # _ \<Rightarrow> Some u))"

definition parser_at :: "usage_protocol \<Rightarrow> mapping_json list \<Rightarrow> usage_parser \<Rightarrow> bool" where
  "parser_at protocol blocks p =
     (sp_protocol p = protocol \<and> sp_latest p = latest_of protocol blocks
      \<and> (protocol = ANTHROPIC_MESSAGES \<longrightarrow> sp_anthropic_usage p = fold merge_token_keys blocks []))"

lemma merge_keeps: "dict_get acc k \<noteq> None \<Longrightarrow> dict_get (merge_token_keys block acc) k \<noteq> None"
  unfolding merge_token_keys_def by (induction block arbitrary: acc) auto

lemma merge_has_token_key: "has_token_key acc \<Longrightarrow> has_token_key (merge_token_keys block acc)"
  unfolding has_token_key_get using merge_keeps by blast

lemma consume_event_at:
  assumes "parser_at protocol blocks p"
  shows "parser_at protocol
    (blocks @ (case Option.bind (decode_sse_payload dec loads e) usage_block of None \<Rightarrow> [] | Some b \<Rightarrow> [b]))
    (snd (consume_event dec loads e p))"
proof (cases "Option.bind (decode_sse_payload dec loads e) usage_block")
  case None
  then show ?thesis using assms by (simp add: consume_event_def)
next
  case (Some b)
  show ?thesis
  proof (cases "protocol = ANTHROPIC_MESSAGES")
    case True
    let ?m = "fold merge_token_keys blocks []"
    have "normalize_usage_block ANTHROPIC_MESSAGES (merge_token_keys b ?m) = None
        \<Longrightarrow> normalize_usage_block ANTHROPIC_MESSAGES ?m = None"
      using merge_has_token_key [of ?m b] by (auto simp: normalize_None)
    then show ?thesis using assms Some True
      by (auto simp: parser_at_def latest_of_def consume_event_def Let_def split: option.split)
  next
    case False
    then show ?thesis using assms Some
      by (auto simp: parser_at_def latest_of_def consume_event_def Let_def List.map_filter_def split: option.split)
  qed
qed

lemma consume_events_at:
  "parser_at protocol blocks p \<Longrightarrow>
     parser_at protocol (blocks @ List.map_filter (\<lambda>e. Option.bind (decode_sse_payload dec loads e) usage_block) es)
       (snd (consume_events dec loads es p))"
proof (induction es arbitrary: blocks p)
  case (Cons e es)
  from Cons.IH [OF consume_event_at [OF Cons.prems, of dec loads e]] show ?case
    by (simp add: List.map_filter_simps split: prod.split option.split) (auto split: option.splits)
qed (simp add: List.map_filter_simps)

lemma parser_at_buffer [simp]: "parser_at protocol blocks (p\<lparr>sp_buffer := b\<rparr>) = parser_at protocol blocks p"
  by (simp add: parser_at_def)

lemma finish_eq:
  "fst (finish dec loads p) =
     sp_latest (snd (consume_events dec loads (if sp_buffer p = [] then [] else [sp_buffer p]) p))"
  by (simp add: finish_def Let_def consume_event_buffer split: prod.split)

lemma map_filter_append: "List.map_filter f (xs @ ys) = List.map_filter f xs @ List.map_filter f ys"
  by (simp add: List.map_filter_def)

lemma finish_at:
  "parser_at protocol blocks p \<Longrightarrow> fst (finish dec loads p) = latest_of protocol
     (blocks @ List.map_filter (\<lambda>e. Option.bind (decode_sse_payload dec loads e) usage_block)
        (if sp_buffer p = [] then [] else [sp_buffer p]))"
  using consume_events_at [of protocol blocks p dec loads "if sp_buffer p = [] then [] else [sp_buffer p]"]
  unfolding finish_eq parser_at_def by blast

lemma token_int_nonneg [simp]: "0 \<le> token_int v"
  by (auto simp: token_int_def optional_token_int_def Let_def split: option.split if_splits)

lemma optional_token_int_nonneg: "optional_token_int v = Some n \<Longrightarrow> 0 \<le> n"
  by (auto simp: optional_token_int_def Let_def split: option.splits if_splits)

lemma normalize_nonneg:
  assumes "normalize_usage_block p u = Some n"
  shows "0 \<le> us_prompt_tokens n \<and> 0 \<le> us_completion_tokens n \<and> 0 \<le> us_total_tokens n"
  using assms optional_token_int_nonneg
  by (force simp: normalize_usage_block_def Let_def split: if_splits option.splits)

lemma coerce_protocol_name [simp]: "coerce_protocol (Some (protocol_name p)) endpoint payload = Inr p"
  by (cases p) (simp_all, code_simp+)

lemma mac_normalize_usage_block_eq: "mac_normalize_usage_block (protocol_name p) u = Inr (normalize_usage_block p u)"
  using normalize_nonneg [of p u]
  by (auto simp: mac_normalize_usage_block_def post_init_def split: option.splits)

section \<open>Properties\<close>

text \<open>
  C12: however the bytes of a stream are cut into chunks, feeding them to the incremental parser ends
  and gives the totals that the whole stream means: blank lines separate events, the last block with
  a counter wins, and in the Messages dialect the counters of all blocks are merged.
\<close>

theorem streaming_usage_correct:
  "\<exists>p. feed_all dec loads chunks (new_usage_parser protocol) = Some p
     \<and> fst (finish dec loads p) = reference_usage dec loads protocol (concat chunks)"
proof -
  let ?p = "new_usage_parser protocol" and ?s = "sse_events (concat chunks)"
  let ?q = "snd (consume_events dec loads (fst ?s) ?p)\<lparr>sp_buffer := snd ?s\<rparr>"
  have "cut_event (sp_buffer ?p) = None" by (simp add: new_usage_parser_def)
  from feed_all_eq [OF this] have f: "feed_all dec loads chunks ?p = Some ?q" by (simp add: new_usage_parser_def)
  have "parser_at protocol [] ?p" by (simp add: parser_at_def latest_of_def new_usage_parser_def List.map_filter_simps)
  from consume_events_at [OF this, of dec loads "fst ?s"]
  have "parser_at protocol (List.map_filter (\<lambda>e. Option.bind (decode_sse_payload dec loads e) usage_block) (fst ?s)) ?q"
    by simp
  from finish_at [OF this] have "fst (finish dec loads ?q) = reference_usage dec loads protocol (concat chunks)"
    by (simp add: reference_usage_def latest_of_def stream_blocks_def Let_def map_filter_append split: prod.split)
  with f show ?thesis by blast
qed

text \<open>
  C36: the loop of \<open>feed\<close> ends on every input: it leaves a buffer without an event boundary that is
  a suffix of what was buffered, at the latest after one round per two bytes.
\<close>

theorem feed_terminates:
  "\<exists>found p'. mac_feed dec loads chunk p = Some (found, p') \<and> feed dec loads chunk p = Some p'
     \<and> rx_search SSE_BOUNDARY_RE True (sp_buffer p') = None
     \<and> (\<exists>consumed. sp_buffer p @ chunk = consumed @ sp_buffer p' \<and> 2 * length found \<le> length consumed)"
proof -
  let ?s = "sse_events (sp_buffer p @ chunk)"
  obtain consumed where c: "sp_buffer p @ chunk = consumed @ snd ?s" "2 * length (fst ?s) \<le> length consumed"
    using sse_events_parts by blast
  have "length (fst (consume_events dec loads (fst ?s) p)) \<le> length (fst ?s)" by (rule consume_events_length)
  with c show ?thesis
    by (auto simp: mac_feed_def feed_eq feed_loop_eq consume_events_buffer search_boundary sse_events_rest)
qed

text \<open>
  The two node managers account alike, and their counts are never negative. For a block, the
  service's function, called with the name of a dialect, returns what the CUDA manager's returns and
  does not raise; for an answer the two can differ only where the endpoint names no dialect and the
  answer's type does.
\<close>

theorem platforms_account_alike:
  "mac_normalize_usage_block (protocol_name dialect) usage = Inr (normalize_usage_block dialect usage)
   \<and> mac_normalize_usage None endpoint payload =
       Inr (case endpoint_protocol (case endpoint of None \<Rightarrow> [] | Some e \<Rightarrow> e) of
              Some _ \<Rightarrow> normalize_usage endpoint payload
            | None \<Rightarrow> Option.bind (usage_block payload) (normalize_usage_block (payload_protocol payload)))
   \<and> (case normalize_usage endpoint payload of
        None \<Rightarrow> True
      | Some u \<Rightarrow> 0 \<le> us_prompt_tokens u \<and> 0 \<le> us_completion_tokens u \<and> 0 \<le> us_total_tokens u)"
  using normalize_nonneg
  by (auto simp: mac_normalize_usage_block_eq mac_normalize_usage_def coerce_protocol_def normalize_usage_def
      protocol_for_endpoint_def split: option.split)

end
