(* ===== verification/Image_Requests.thy ===== *)
theory Image_Requests
  imports Py_Text
begin

text \<open>
  The image endpoints' request contract: \<open>normalize_image_request\<close> of \<open>src/image_api.py\<close> (CUDA nodes)
  and of \<open>src/macos/service/src/mnemosyne_macos/image_api.py\<close>. Every check is modelled in the order of
  the source; the result is the rewritten payload, printed as JSON and encoded. \<open>loads\<close> stands for
  \<open>json.loads\<close> (\<open>None\<close> where it raises, \<open>too_deep\<close> telling whether that is a \<open>RecursionError\<close>, which is
  no \<open>ValueError\<close>); \<open>NaN\<close> and the infinities are values that it can return.

  An exception that is no \<open>ImageRequestError\<close> is \<open>Uncaught\<close>: the callers only expect the former.
\<close>

datatype image_error = ImageRequestError string | Uncaught string

section \<open>Scalars\<close>

definition integer_field :: "json \<Rightarrow> int \<Rightarrow> int \<Rightarrow> image_error + int" where
  "integer_field v minimum maximum =
     (case v of
        JInt i \<Rightarrow> if i < minimum \<or> maximum < i then Inl (ImageRequestError ''must be between'') else Inr i
      | _ \<Rightarrow> Inl (ImageRequestError ''must be an integer''))"

text \<open>\<open>float(value)\<close>: an integer that is too large raises \<open>OverflowError\<close>.\<close>

definition float_of_json :: "json \<Rightarrow> image_error + pyfloat" where
  "float_of_json v =
     (case v of
        JInt i \<Rightarrow> (case to_double (of_int i) of Fin x \<Rightarrow> Inr (Fin x) | _ \<Rightarrow> Inl (Uncaught ''OverflowError''))
      | JFloat x \<Rightarrow> Inr x
      | _ \<Rightarrow> Inl (ImageRequestError ''must be a number''))"

text \<open>Comparisons of floats: with \<open>NaN\<close> each of them is false.\<close>

fun float_less :: "pyfloat \<Rightarrow> rat \<Rightarrow> bool" where
  "float_less (Fin x) y = (x < y)"
| "float_less NInf y = True"
| "float_less PInf y = False"
| "float_less NaN y = False"

fun float_greater :: "pyfloat \<Rightarrow> rat \<Rightarrow> bool" where
  "float_greater (Fin x) y = (y < x)"
| "float_greater NInf y = False"
| "float_greater PInf y = True"
| "float_greater NaN y = False"

fun float_between :: "rat \<Rightarrow> pyfloat \<Rightarrow> rat \<Rightarrow> bool" where
  "float_between lo (Fin x) hi = (lo \<le> x \<and> x \<le> hi)"
| "float_between lo _ hi = False"

definition number_field :: "json \<Rightarrow> rat \<Rightarrow> rat \<Rightarrow> image_error + pyfloat" where
  "number_field v minimum maximum =
     bind_result (float_of_json v) (\<lambda>result.
       if float_less result minimum \<or> float_greater result maximum
       then Inl (ImageRequestError ''must be between'') else Inr result)"

definition mac_number_field :: "json \<Rightarrow> rat \<Rightarrow> rat \<Rightarrow> image_error + pyfloat" where
  "mac_number_field v minimum maximum =
     bind_result (float_of_json v) (\<lambda>result.
       if \<not> float_between minimum result maximum
       then Inl (ImageRequestError ''must be between'') else Inr result)"

text \<open>\<open>value == i\<close> for an integer \<open>i\<close>; \<open>payload.get(key)\<close> in \<open>(None, i)\<close>.\<close>

fun json_eq_int :: "json \<Rightarrow> int \<Rightarrow> bool" where
  "json_eq_int (JInt j) i = (j = i)"
| "json_eq_int (JBool b) i = ((if b then 1 else 0) = i)"
| "json_eq_int (JFloat (Fin x)) i = (x = of_int i)"
| "json_eq_int _ i = False"

definition none_or_int :: "json option \<Rightarrow> int \<Rightarrow> bool" where
  "none_or_int v i = (case v of None \<Rightarrow> True | Some JNull \<Rightarrow> True | Some j \<Rightarrow> json_eq_int j i)"

definition get_or_json :: "mapping_json \<Rightarrow> string \<Rightarrow> json \<Rightarrow> json" where
  "get_or_json payload k d = (case dict_get payload k of None \<Rightarrow> d | Some v \<Rightarrow> v)"

fun nonblank :: "json option \<Rightarrow> bool" where
  "nonblank (Some (JStr s)) = (py_strip s \<noteq> [])"
| "nonblank _ = False"

section \<open>The request\<close>

definition image_guards :: "mapping_json \<Rightarrow> image_error option" where
  "image_guards payload = first_error
     [(\<not> nonblank (dict_get payload ''model''), ImageRequestError ''request body must contain a non-empty model string''),
      (\<not> nonblank (dict_get payload ''prompt''), ImageRequestError ''request body must contain a non-empty prompt string''),
      (get_or_json payload ''n'' (JInt 1) \<noteq> JInt 1, ImageRequestError ''only n=1 is supported''),
      (\<not> none_or_int (dict_get payload ''stream'') 0, ImageRequestError ''streaming image generation is not supported''),
      (get_or_json payload ''response_format'' (JStr ''b64_json'') \<noteq> JStr ''b64_json'',
         ImageRequestError ''only response_format=b64_json is supported''),
      (get_or_json payload ''output_format'' (JStr ''png'') \<notin> {JNull, JStr ''png''},
         ImageRequestError ''only PNG image output is supported'')]"

definition SIZE_RE :: rx where
  "SIZE_RE =
     (let d = RxClass is_digit; d24 = rx_all [d, d, rx_opt (RxSeq d (rx_opt d))]
      in rx_all [RxStart, d24, rx_text ''x'', d24, RxEnd])"

text \<open>\<open>match.group(1)\<close> and \<open>match.group(2)\<close>: the digits before and after the first \<open>x\<close>.\<close>

definition size_groups :: "string \<Rightarrow> int \<times> int" where
  "size_groups s =
     (let w = takeWhile is_digit s in (digits_int w, digits_int (drop (length w + 1) s)))"

definition image_size :: "mapping_json \<Rightarrow> json \<Rightarrow> json \<Rightarrow> image_error + (json \<times> json)" where
  "image_size payload default_width default_height =
     (case get_or_json payload ''size'' JNull of
        JNull \<Rightarrow> Inr (get_or_json payload ''width'' default_width, get_or_json payload ''height'' default_height)
      | JStr s \<Rightarrow>
          if \<not> rx_fullmatch SIZE_RE s then Inl (ImageRequestError ''size must use WIDTHxHEIGHT format'')
          else (case size_groups s of
                  (width, height) \<Rightarrow>
                    if \<not> none_or_int (dict_get payload ''width'') width \<or> \<not> none_or_int (dict_get payload ''height'') height
                    then Inl (ImageRequestError ''size conflicts with explicit width or height'')
                    else Inr (JInt width, JInt height))
      | _ \<Rightarrow> Inl (ImageRequestError ''size must use WIDTHxHEIGHT format''))"

definition dimensions :: "int \<Rightarrow> json \<times> json \<Rightarrow> image_error + (int \<times> int)" where
  "dimensions max_pixels wh =
     bind_result (integer_field (fst wh) 64 4096) (\<lambda>width.
     bind_result (integer_field (snd wh) 64 4096) (\<lambda>height.
       if width mod 16 \<noteq> 0 \<or> height mod 16 \<noteq> 0
       then Inl (ImageRequestError ''image width and height must be multiples of 16'')
       else if max_pixels < width * height then Inl (ImageRequestError ''requested image has too many pixels'')
       else Inr (width, height)))"

definition seed_field :: "mapping_json \<Rightarrow> image_error + int option" where
  "seed_field payload =
     (case get_or_json payload ''seed'' JNull of
        JNull \<Rightarrow> Inr None
      | v \<Rightarrow> bind_result (integer_field v 0 4294967295) (\<lambda>i. Inr (Some i)))"

definition negative_prompt_field :: "mapping_json \<Rightarrow> image_error + string option" where
  "negative_prompt_field payload =
     (case get_or_json payload ''negative_prompt'' JNull of
        JNull \<Rightarrow> Inr None
      | JStr s \<Rightarrow> Inr (Some s)
      | _ \<Rightarrow> Inl (ImageRequestError ''negative_prompt must be a string''))"

definition size_text :: "int \<Rightarrow> int \<Rightarrow> string" where
  "size_text width height = int_str width @ ''x'' @ int_str height"

text \<open>The common part of the two \<open>payload.update\<close> calls, and the optional fields at the end.\<close>

definition put_all :: "(string \<times> json) list \<Rightarrow> mapping_json \<Rightarrow> mapping_json" where
  "put_all kvs payload = fold (\<lambda>kv p. dict_put (fst kv) (snd kv) p) kvs payload"

definition updated_fields :: "string \<Rightarrow> json \<Rightarrow> int \<Rightarrow> int \<Rightarrow> int \<Rightarrow> (string \<times> json) list" where
  "updated_fields wire_model prompt width height steps =
     [(''model'', JStr wire_model), (''prompt'', prompt), (''n'', JInt 1), (''size'', JStr (size_text width height)),
      (''width'', JInt width), (''height'', JInt height), (''response_format'', JStr ''b64_json''),
      (''output_format'', JStr ''png''), (''num_inference_steps'', JInt steps)]"

definition optional_fields :: "int option \<Rightarrow> string option \<Rightarrow> (string \<times> json) list" where
  "optional_fields seed negative_prompt =
     (case seed of None \<Rightarrow> [] | Some i \<Rightarrow> [(''seed'', JInt i)])
     @ (case negative_prompt of None \<Rightarrow> [] | Some s \<Rightarrow> [(''negative_prompt'', JStr s)])"

text \<open>\<open>int(value)\<close> of a profile's default.\<close>

definition int_of_json :: "json \<Rightarrow> image_error + int" where
  "int_of_json v =
     (case v of
        JInt i \<Rightarrow> Inr i
      | JBool b \<Rightarrow> Inr (if b then 1 else 0)
      | JFloat (Fin x) \<Rightarrow> Inr (py_trunc x)
      | JFloat NaN \<Rightarrow> Inl (Uncaught ''ValueError'')
      | JFloat _ \<Rightarrow> Inl (Uncaught ''OverflowError'')
      | JStr s \<Rightarrow> (case py_int s of Some i \<Rightarrow> Inr i | None \<Rightarrow> Inl (Uncaught ''ValueError''))
      | _ \<Rightarrow> Inl (Uncaught ''TypeError''))"

definition guidance_parameter :: "mapping_json \<Rightarrow> image_error + string" where
  "guidance_parameter defaults =
     (case get_or_json defaults ''guidance_parameter'' (JStr ''guidance_scale'') of
        JStr s \<Rightarrow> if s = ''guidance_scale'' \<or> s = ''true_cfg_scale'' then Inr s
                  else Inl (ImageRequestError ''profile has an invalid guidance parameter'')
      | JArr _ \<Rightarrow> Inl (Uncaught ''TypeError'')
      | JObj _ \<Rightarrow> Inl (Uncaught ''TypeError'')
      | _ \<Rightarrow> Inl (ImageRequestError ''profile has an invalid guidance parameter''))"

definition request_object ::
  "(string \<Rightarrow> json option) \<Rightarrow> (string \<Rightarrow> bool) \<Rightarrow> string \<Rightarrow> image_error + mapping_json" where
  "request_object loads too_deep body =
     (case loads body of
        None \<Rightarrow> Inl (if too_deep body then Uncaught ''RecursionError''
                     else ImageRequestError ''request body must be valid JSON'')
      | Some (JObj payload) \<Rightarrow> Inr payload
      | Some _ \<Rightarrow> Inl (ImageRequestError ''request body must be a JSON object''))"

text \<open>The two final payloads.\<close>

definition image_out ::
  "string \<Rightarrow> mapping_json \<Rightarrow> int \<Rightarrow> int \<Rightarrow> int \<Rightarrow> string \<Rightarrow> pyfloat \<Rightarrow> int option \<Rightarrow> string option \<Rightarrow> mapping_json" where
  "image_out wire_model payload width height steps parameter guidance seed negative_prompt =
     put_all (optional_fields seed negative_prompt) (dict_put parameter (JFloat guidance)
       (dict_pop ''true_cfg_scale'' (dict_pop ''guidance_scale''
         (put_all (updated_fields wire_model (get_or_json payload ''prompt'' JNull) width height steps) payload))))"

definition mac_image_out ::
  "string \<Rightarrow> mapping_json \<Rightarrow> int \<Rightarrow> int \<Rightarrow> int \<Rightarrow> pyfloat \<Rightarrow> int option \<Rightarrow> string option \<Rightarrow> mapping_json" where
  "mac_image_out wire_model payload width height steps guidance seed negative_prompt =
     put_all (optional_fields seed negative_prompt)
       (put_all (updated_fields wire_model (get_or_json payload ''prompt'' JNull) width height steps
          @ [(''guidance_scale'', JFloat guidance)]) payload)"

definition image_payload :: "string \<Rightarrow> mapping_json \<Rightarrow> int \<Rightarrow> mapping_json \<Rightarrow> image_error + mapping_json" where
  "image_payload wire_model defaults max_pixels payload =
     (case image_guards payload of
        Some e \<Rightarrow> Inl e
      | None \<Rightarrow>
          bind_result (int_of_json (get_or_json defaults ''width'' (JInt 1024))) (\<lambda>dw.
          bind_result (int_of_json (get_or_json defaults ''height'' (JInt 1024))) (\<lambda>dh.
          bind_result (bind_result (image_size payload (JInt dw) (JInt dh)) (dimensions max_pixels)) (\<lambda>(width, height).
          bind_result (integer_field (get_or_json payload ''num_inference_steps''
              (get_or_json defaults ''num_inference_steps'' (JInt 30))) 1 200) (\<lambda>steps.
          bind_result (number_field (get_or_json payload ''guidance_scale''
              (get_or_json defaults ''guidance_scale'' (JFloat (Fin 4)))) 0 50) (\<lambda>guidance.
          bind_result (seed_field payload) (\<lambda>seed.
          bind_result (negative_prompt_field payload) (\<lambda>negative_prompt.
          bind_result (guidance_parameter defaults) (\<lambda>parameter.
            Inr (image_out wire_model payload width height steps parameter guidance seed negative_prompt))))))))))"

definition normalize_image_request ::
  "(string \<Rightarrow> json option) \<Rightarrow> (string \<Rightarrow> bool) \<Rightarrow> string \<Rightarrow> mapping_json \<Rightarrow> int \<Rightarrow> string
   \<Rightarrow> image_error + string" where
  "normalize_image_request loads too_deep wire_model defaults max_pixels body =
     bind_result (request_object loads too_deep body) (\<lambda>payload.
     bind_result (image_payload wire_model defaults max_pixels payload) (\<lambda>out.
       Inr (utf8 (json_text quoted (JObj out)))))"

text \<open>The macOS service's function.\<close>

definition mac_image_payload :: "string \<Rightarrow> mapping_json \<Rightarrow> int \<Rightarrow> mapping_json \<Rightarrow> image_error + mapping_json" where
  "mac_image_payload wire_model defaults max_pixels payload =
     (case image_guards payload of
        Some e \<Rightarrow> Inl e
      | None \<Rightarrow>
          bind_result (bind_result (image_size payload (get_or_json defaults ''width'' (JInt 1024))
              (get_or_json defaults ''height'' (JInt 1024))) (dimensions max_pixels)) (\<lambda>(width, height).
          bind_result (integer_field (get_or_json payload ''num_inference_steps''
              (get_or_json defaults ''num_inference_steps'' (JInt 30))) 1 200) (\<lambda>steps.
          bind_result (mac_number_field (get_or_json payload ''guidance_scale''
              (get_or_json defaults ''guidance_scale'' (JFloat (Fin 4)))) 0 50) (\<lambda>guidance.
          bind_result (seed_field payload) (\<lambda>seed.
          bind_result (negative_prompt_field payload) (\<lambda>negative_prompt.
            Inr (mac_image_out wire_model payload width height steps guidance seed negative_prompt)))))))"

definition mac_normalize_image_request ::
  "(string \<Rightarrow> json option) \<Rightarrow> (string \<Rightarrow> bool) \<Rightarrow> string \<Rightarrow> mapping_json \<Rightarrow> int \<Rightarrow> string
   \<Rightarrow> image_error + string" where
  "mac_normalize_image_request loads too_deep wire_model defaults max_pixels body =
     bind_result (request_object loads too_deep body) (\<lambda>payload.
     bind_result (mac_image_payload wire_model defaults max_pixels payload) (\<lambda>out.
       Inr (utf8 (json_text quoted (JObj out)))))"

section \<open>Lemmas\<close>

lemma integer_field_Inr: "integer_field v lo hi = Inr i \<longleftrightarrow> v = JInt i \<and> lo \<le> i \<and> i \<le> hi"
  by (cases v) (auto simp: integer_field_def)

lemma number_field_Inr:
  "number_field v lo hi = Inr x \<longleftrightarrow>
     float_of_json v = Inr x \<and> (float_between lo x hi \<or> x = NaN)"
  by (cases x) (auto simp: number_field_def bind_result_def split: sum.splits if_splits)

lemma mac_number_field_Inr: "mac_number_field v lo hi = Inr x \<longleftrightarrow> float_of_json v = Inr x \<and> float_between lo x hi"
  by (auto simp: mac_number_field_def bind_result_def split: sum.splits if_splits)

lemma dimensions_Inr:
  "dimensions max_pixels wh = Inr (w, h) \<longleftrightarrow>
     wh = (JInt w, JInt h) \<and> 64 \<le> w \<and> w \<le> 4096 \<and> 64 \<le> h \<and> h \<le> 4096
     \<and> w mod 16 = 0 \<and> h mod 16 = 0 \<and> w * h \<le> max_pixels"
  by (cases wh) (auto simp: dimensions_def integer_field_def bind_result_def split: sum.splits json.splits if_splits)

lemma seed_field_Inr: "seed_field payload = Inr (Some i) \<Longrightarrow> 0 \<le> i \<and> i \<le> 4294967295"
  by (auto simp: seed_field_def integer_field_Inr split: json.splits)

lemma dict_get_put_all: "dict_get (put_all kvs payload) k = (case map_of (rev kvs) k of Some v \<Rightarrow> Some v | None \<Rightarrow> dict_get payload k)"
  unfolding put_all_def
  by (induction kvs arbitrary: payload) (auto simp: map_add_def split: option.splits)

lemma dict_has_put [simp]: "dict_has (dict_put k v d) k' \<longleftrightarrow> k' = k \<or> dict_has d k'"
  by (metis dict_get_None_iff dict_get_put option.distinct(1))

text \<open>What an accepted request decodes to, for both managers.\<close>

lemma image_payload_Inr:
  assumes "image_payload wire_model defaults max_pixels payload = Inr out"
  obtains width height steps guidance seed negative_prompt parameter where
    "64 \<le> width" "width \<le> 4096" "64 \<le> height" "height \<le> 4096" "width mod 16 = 0" "height mod 16 = 0"
    "width * height \<le> max_pixels" "1 \<le> steps" "steps \<le> 200" "float_between 0 guidance 50 \<or> guidance = NaN"
    "seed_field payload = Inr seed" "negative_prompt_field payload = Inr negative_prompt"
    "guidance_parameter defaults = Inr parameter" "image_guards payload = None"
    "out = image_out wire_model payload width height steps parameter guidance seed negative_prompt"
  using assms
  by (auto simp: image_payload_def dimensions_Inr integer_field_Inr number_field_Inr split: option.splits intro: that)

lemma guidance_parameter_cases:
  "guidance_parameter defaults = Inr s \<Longrightarrow> s = ''guidance_scale'' \<or> s = ''true_cfg_scale''"
  by (auto simp: guidance_parameter_def split: json.splits if_splits)

text \<open>Reading a field that only the last update or only the fixed part writes.\<close>

lemma optional_fields_get:
  "map_of (rev (optional_fields seed negative_prompt)) k =
     (if k = ''negative_prompt'' \<and> negative_prompt \<noteq> None then map_option JStr negative_prompt
      else if k = ''seed'' then map_option JInt seed else None)"
  by (auto simp: optional_fields_def split: option.split)

lemma seed_written:
  assumes "seed_field payload = Inr seed"
  shows "(case seed of None \<Rightarrow> dict_get payload ''seed'' \<in> {None, Some JNull} | Some i \<Rightarrow> 0 \<le> i \<and> i \<le> 4294967295)"
  using assms by (auto simp: seed_field_def integer_field_Inr get_or_json_def split: json.splits option.splits)

lemma image_out_get:
  "dict_get (image_out wire_model payload w h steps parameter g seed np) k =
     (case map_of (rev (optional_fields seed np)) k of Some v \<Rightarrow> Some v | None \<Rightarrow>
        if k = parameter then Some (JFloat g) else if k = ''true_cfg_scale'' \<or> k = ''guidance_scale'' then None
        else (case map_of (rev (updated_fields wire_model (get_or_json payload ''prompt'' JNull) w h steps)) k of
                Some v \<Rightarrow> Some v | None \<Rightarrow> dict_get payload k))"
  unfolding image_out_def dict_get_put_all dict_get_put dict_get_pop by (auto split: option.split)

lemma image_out_guidance: "dict_get (image_out wire_model payload w h steps ''guidance_scale'' g seed np) ''guidance_scale'' = Some (JFloat g)"
  by (simp add: image_out_get optional_fields_get)

lemma image_outs_agree:
  "dict_get (image_out wire_model payload w h steps ''guidance_scale'' g seed np) =
     (dict_get (mac_image_out wire_model payload w h steps g seed np))(''true_cfg_scale'' := None)"
proof
  fix k
  show "dict_get (image_out wire_model payload w h steps ''guidance_scale'' g seed np) k =
     ((dict_get (mac_image_out wire_model payload w h steps g seed np))(''true_cfg_scale'' := None)) k"
    unfolding image_out_get mac_image_out_def dict_get_put_all
    by (cases "k = ''true_cfg_scale''"; cases "k = ''guidance_scale''") (simp_all add: optional_fields_get split: option.split)
qed

lemma number_fields_agree:
  "case mac_number_field v lo hi of
     Inr x \<Rightarrow> number_field v lo hi = Inr x
   | Inl e \<Rightarrow> (\<exists>e'. number_field v lo hi = Inl e') \<or> number_field v lo hi = Inr NaN"
  unfolding mac_number_field_def number_field_def bind_result_def
  by (auto split: sum.splits if_splits) (case_tac x2; auto)+

section \<open>Properties\<close>

text \<open>
  What a CUDA node sends to its image engine is bounded, whatever the client sent: the served
  model's name, one image, both sides between 64 and 4096 and multiples of 16 with the same size text,
  at most the configured number of pixels, 1 to 200 steps, a seed of 32 bits if any, and exactly one
  guidance parameter. Its value is between 0 and 50 or it is not a number: \<open>NaN\<close> passes the comparison.
\<close>

theorem image_request_bounded:
  assumes "normalize_image_request loads too_deep wire_model defaults max_pixels body = Inr text"
  shows "\<exists>out w h steps g. text = utf8 (json_text quoted (JObj out))
    \<and> dict_get out ''model'' = Some (JStr wire_model) \<and> dict_get out ''n'' = Some (JInt 1)
    \<and> dict_get out ''width'' = Some (JInt w) \<and> dict_get out ''height'' = Some (JInt h)
    \<and> dict_get out ''size'' = Some (JStr (size_text w h))
    \<and> 64 \<le> w \<and> w \<le> 4096 \<and> 64 \<le> h \<and> h \<le> 4096 \<and> w mod 16 = 0 \<and> h mod 16 = 0 \<and> w * h \<le> max_pixels
    \<and> dict_get out ''num_inference_steps'' = Some (JInt steps) \<and> 1 \<le> steps \<and> steps \<le> 200
    \<and> {dict_get out ''guidance_scale'', dict_get out ''true_cfg_scale''} = {Some (JFloat g), None}
    \<and> (float_between 0 g 50 \<or> g = NaN)
    \<and> (case dict_get out ''seed'' of None \<Rightarrow> True | Some v \<Rightarrow>
         v = JNull \<or> (\<exists>i. v = JInt i \<and> 0 \<le> i \<and> i \<le> 4294967295))"
proof -
  obtain payload out where p: "image_payload wire_model defaults max_pixels payload = Inr out"
    and t: "text = utf8 (json_text quoted (JObj out))"
    using assms by (auto simp: normalize_image_request_def)
  from p show ?thesis
  proof (rule image_payload_Inr)
    fix w h steps g seed np parameter
    assume b: "64 \<le> w" "w \<le> 4096" "64 \<le> h" "h \<le> 4096" "w mod 16 = 0" "h mod 16 = 0" "w * h \<le> max_pixels"
      "1 \<le> steps" "steps \<le> 200" "float_between 0 g 50 \<or> g = NaN"
      and s: "seed_field payload = Inr seed" and gp: "guidance_parameter defaults = Inr parameter"
      and out: "out = image_out wire_model payload w h steps parameter g seed np"
    note get = image_out_get [of wire_model payload w h steps parameter g seed np, folded out]
    have fixed: "dict_get out k = (case map_of (rev (updated_fields wire_model (get_or_json payload ''prompt'' JNull) w h steps)) k of
        Some v \<Rightarrow> Some v | None \<Rightarrow> dict_get payload k)"
      if "k \<noteq> ''seed''" "k \<noteq> ''negative_prompt''" "k \<noteq> ''guidance_scale''" "k \<noteq> ''true_cfg_scale''" for k
      using that guidance_parameter_cases [OF gp] by (auto simp: get optional_fields_get)
    have "dict_get out ''model'' = Some (JStr wire_model)" "dict_get out ''n'' = Some (JInt 1)"
      "dict_get out ''width'' = Some (JInt w)" "dict_get out ''height'' = Some (JInt h)"
      "dict_get out ''size'' = Some (JStr (size_text w h))" "dict_get out ''num_inference_steps'' = Some (JInt steps)"
      by (simp_all add: fixed updated_fields_def)
    moreover have "{dict_get out ''guidance_scale'', dict_get out ''true_cfg_scale''} = {Some (JFloat g), None}"
      using guidance_parameter_cases [OF gp] by (elim disjE) (simp_all add: get optional_fields_get doubleton_eq_iff)
    moreover have "dict_get out ''seed'' = (case seed of Some i \<Rightarrow> Some (JInt i) | None \<Rightarrow> dict_get payload ''seed'')"
      using guidance_parameter_cases [OF gp]
      by (elim disjE) (simp_all add: get optional_fields_get updated_fields_def split: option.split)
    then have "(case dict_get out ''seed'' of None \<Rightarrow> True | Some v \<Rightarrow>
         v = JNull \<or> (\<exists>i. v = JInt i \<and> 0 \<le> i \<and> i \<le> 4294967295))"
      using seed_written [OF s] by (cases seed) auto
    ultimately show ?thesis using b t by - (intro exI conjI, assumption+)
  qed
qed

text \<open>
  C37: where a profile uses the plain guidance parameter and integral sizes, the macOS service accepts
  exactly the requests that a CUDA node accepts with a guidance that is a number, and sends the same
  fields; only a client's \<open>true_cfg_scale\<close> is dropped on CUDA nodes and passed on by the service.
\<close>

theorem image_platforms_agree:
  assumes "guidance_parameter defaults = Inr ''guidance_scale''"
    and "get_or_json defaults ''width'' (JInt 1024) = JInt dw" and "get_or_json defaults ''height'' (JInt 1024) = JInt dh"
  shows "(case mac_image_payload wire_model defaults max_pixels payload of
       Inr out \<Rightarrow> \<exists>out'. image_payload wire_model defaults max_pixels payload = Inr out'
          \<and> dict_get out' = (dict_get out)(''true_cfg_scale'' := None)
     | Inl e \<Rightarrow> (\<exists>e'. image_payload wire_model defaults max_pixels payload = Inl e')
          \<or> (\<exists>out'. image_payload wire_model defaults max_pixels payload = Inr out'
               \<and> dict_get out' ''guidance_scale'' = Some (JFloat NaN)))"
proof (cases "image_guards payload")
  case (Some e)
  then show ?thesis by (simp add: mac_image_payload_def image_payload_def)
next
  case None
  let ?dims = "bind_result (image_size payload (JInt dw) (JInt dh)) (dimensions max_pixels)"
    and ?steps = "integer_field (get_or_json payload ''num_inference_steps''
      (get_or_json defaults ''num_inference_steps'' (JInt 30))) 1 200"
    and ?v = "get_or_json payload ''guidance_scale'' (get_or_json defaults ''guidance_scale'' (JFloat (Fin 4)))"
  define rest where "rest w h steps g = bind_result (seed_field payload) (\<lambda>seed.
      bind_result (negative_prompt_field payload) (\<lambda>np.
        Inr (image_out wire_model payload w h steps ''guidance_scale'' g seed np)))" for w h steps g
  define mac_rest where "mac_rest w h steps g = bind_result (seed_field payload) (\<lambda>seed.
      bind_result (negative_prompt_field payload) (\<lambda>np.
        Inr (mac_image_out wire_model payload w h steps g seed np)))" for w h steps g
  have cuda: "image_payload wire_model defaults max_pixels payload =
      bind_result ?dims (\<lambda>(w, h). bind_result ?steps (\<lambda>steps. bind_result (number_field ?v 0 50) (rest w h steps)))"
    and mac: "mac_image_payload wire_model defaults max_pixels payload =
      bind_result ?dims (\<lambda>(w, h). bind_result ?steps (\<lambda>steps. bind_result (mac_number_field ?v 0 50) (mac_rest w h steps)))"
    using assms None
    by (simp_all add: image_payload_def mac_image_payload_def int_of_json_def rest_def [abs_def] mac_rest_def [abs_def])
  have agree: "case mac_rest w h steps g of
      Inr out \<Rightarrow> \<exists>out'. rest w h steps g = Inr out' \<and> dict_get out' = (dict_get out)(''true_cfg_scale'' := None)
    | Inl e \<Rightarrow> \<exists>e'. rest w h steps g = Inl e'" for w h steps g
    unfolding rest_def mac_rest_def bind_result_def
    by (auto simp: image_outs_agree split: sum.split)
  have nan: "(\<exists>e'. rest w h steps NaN = Inl e') \<or> (\<exists>out'. rest w h steps NaN = Inr out'
      \<and> dict_get out' ''guidance_scale'' = Some (JFloat NaN))" for w h steps
    unfolding rest_def bind_result_def by (auto simp: image_out_guidance split: sum.split)
  show ?thesis
  proof (cases "\<exists>w h steps. ?dims = Inr (w, h) \<and> ?steps = Inr steps")
    case True
    then obtain w h steps where ok: "?dims = Inr (w, h)" "?steps = Inr steps" by blast
    show ?thesis
    proof (cases "mac_number_field ?v 0 50")
      case (Inl e)
      then show ?thesis
        using number_fields_agree [of ?v 0 50] nan [of w h steps] unfolding cuda mac ok by auto
    next
      case (Inr g)
      then show ?thesis
        using number_fields_agree [of ?v 0 50] agree [of w h steps g] unfolding cuda mac ok by (simp split: sum.splits)
    qed
  next
    case False
    then show ?thesis
      unfolding cuda mac bind_result_def by (auto split: sum.splits)
  qed
qed

section \<open>A concrete request\<close>

definition demo_image_request :: mapping_json where
  "demo_image_request =
     [(''model'', JStr ''flux''), (''prompt'', JStr ''a lighthouse''), (''size'', JStr ''512x768''), (''seed'', JInt 7),
      (''guidance_scale'', JFloat (Fin 5))]"

lemma demo_image_accepted:
  "\<exists>out. image_payload ''m'' [] 4194304 demo_image_request = Inr out"
  "\<exists>out. mac_image_payload ''m'' [] 4194304 demo_image_request = Inr out"
proof -
  have "case image_payload ''m'' [] 4194304 demo_image_request of Inl _ \<Rightarrow> False | Inr _ \<Rightarrow> True"
    "case mac_image_payload ''m'' [] 4194304 demo_image_request of Inl _ \<Rightarrow> False | Inr _ \<Rightarrow> True" by code_simp+
  then show "\<exists>out. image_payload ''m'' [] 4194304 demo_image_request = Inr out"
    "\<exists>out. mac_image_payload ''m'' [] 4194304 demo_image_request = Inr out" by (auto split: sum.splits)
qed

theorem image_request_bounded_witness:
  "\<exists>sent out. normalize_image_request (\<lambda>_. Some (JObj demo_image_request)) (\<lambda>_. False) ''m'' [] 4194304 [] = Inr sent
     \<and> sent = utf8 (json_text quoted (JObj out)) \<and> dict_get out ''model'' = Some (JStr ''m'')"
proof -
  obtain sent where t: "normalize_image_request (\<lambda>_. Some (JObj demo_image_request)) (\<lambda>_. False) ''m'' [] 4194304 [] = Inr sent"
    using demo_image_accepted(1) by (auto simp: normalize_image_request_def request_object_def)
  from image_request_bounded [OF t] obtain out where out:
    "sent = utf8 (json_text quoted (JObj out))" "dict_get out ''model'' = Some (JStr ''m'')" by (elim exE conjE)
  with t show ?thesis by (intro exI conjI)
qed

theorem image_platforms_agree_witness:
  "\<exists>out out'. mac_image_payload ''m'' [] 4194304 demo_image_request = Inr out
     \<and> image_payload ''m'' [] 4194304 demo_image_request = Inr out'
     \<and> dict_get out' = (dict_get out)(''true_cfg_scale'' := None)"
proof -
  have "guidance_parameter [] = Inr ''guidance_scale''" "get_or_json [] ''width'' (JInt 1024) = JInt 1024"
    "get_or_json [] ''height'' (JInt 1024) = JInt 1024" by code_simp+
  from image_platforms_agree [OF this, of "''m''" 4194304 demo_image_request] demo_image_accepted(2)
  show ?thesis by (auto simp del: bind_result_Inr)
qed

end
