(* ===== verification/Node_Proxy.thy ===== *)
theory Node_Proxy
  imports Token_Usage Image_Requests Node_Identity Cuda_Residency
begin

text \<open>
  The inference proxy of the CUDA manager (\<open>src/vllm_manager.py\<close>, lines 782-836 and 3046-3840): reading
  and rewriting the request body, admission through the residency coordinator with its error answers,
  forwarding to the engine, accounting and forwarding of event streams, and the ownership of the
  admission lease on every way out.

  A request handler is a function of what the outside world does (\<open>proxy_env\<close>): the result of the
  coordinator's \<open>acquire\<close>, the engine's answer, \<open>json.loads\<close> and UTF-8 decoding. Its value is the answer
  and the list of its effects in order. Exceptions that no handler turns into an answer are \<open>Raised\<close>.
\<close>

section \<open>Request bodies\<close>

definition USAGE_ENDPOINTS :: "string list" where
  "USAGE_ENDPOINTS =
     [''v1/chat/completions'', ''v1/completions'', ''v1/embeddings'', ''v1/messages'', ''v1/rerank'', ''v1/responses'']"

definition FORCED_STREAM_USAGE_ENDPOINTS :: "string list" where
  "FORCED_STREAM_USAGE_ENDPOINTS = [''v1/chat/completions'', ''v1/completions'']"

text \<open>\<open>payload.get\<close> is outside the \<open>try\<close>: a JSON value that is no object raises.\<close>

definition peek_model_field :: "(string \<Rightarrow> json option) \<Rightarrow> string \<Rightarrow> string + string option" where
  "peek_model_field loads body =
     (if body = [] then Inr None
      else case loads body of
             None \<Rightarrow> Inr None
           | Some (JObj payload) \<Rightarrow>
               Inr (case dict_get payload ''model'' of Some (JStr s) \<Rightarrow> Some s | _ \<Rightarrow> None)
           | Some _ \<Rightarrow> Inl ''AttributeError'')"

definition canonicalize_model_field :: "(string \<Rightarrow> json option) \<Rightarrow> string \<Rightarrow> resolved_profile option \<Rightarrow> string" where
  "canonicalize_model_field loads body profile =
     (case profile of
        None \<Rightarrow> body
      | Some p \<Rightarrow>
          (if body = [] then body
           else case as_mapping (loads body) of
                  None \<Rightarrow> body
                | Some payload \<Rightarrow>
                    (case dict_get payload ''model'' of
                       Some (JStr s) \<Rightarrow>
                         if s = pf_served_model_name p then body
                         else json_text ascii_quoted (JObj (dict_put ''model'' (JStr (pf_served_model_name p)) payload))
                     | _ \<Rightarrow> body)))"

definition ensure_stream_usage :: "(string \<Rightarrow> json option) \<Rightarrow> string \<Rightarrow> string \<Rightarrow> string \<times> bool" where
  "ensure_stream_usage loads body path =
     (if body = [] then (body, False)
      else case as_mapping (loads body) of
             None \<Rightarrow> (body, False)
           | Some payload \<Rightarrow>
               (if \<not> json_truthy (get_or_json payload ''stream'' JNull) then (body, False)
                else
                  let opts = as_mapping (dict_get payload ''stream_options'');
                      client_asked_for_usage =
                        (case opts of None \<Rightarrow> False | Some o' \<Rightarrow> dict_get o' ''include_usage'' = Some (JBool True))
                  in if path \<notin> set FORCED_STREAM_USAGE_ENDPOINTS then (body, client_asked_for_usage)
                     else if client_asked_for_usage then (body, True)
                     else let new_opts = dict_put ''include_usage'' (JBool True) (case opts of None \<Rightarrow> [] | Some o' \<Rightarrow> o')
                          in (json_text ascii_quoted (JObj (dict_put ''stream_options'' (JObj new_opts) payload)), False)))"

section \<open>Forwarding an event stream\<close>

definition strip_line_end :: "string \<Rightarrow> string" where
  "strip_line_end s = rev (dropWhile (\<lambda>c. c = CHR 0x0D \<or> c = CHR 0x0A) (rev s))"

definition sse_data_lines :: "(string \<Rightarrow> string) \<Rightarrow> string \<Rightarrow> string list" where
  "sse_data_lines dec event_bytes =
     map (\<lambda>line. py_lstrip (drop 5 line))
       (filter (\<lambda>line. py_startswith line ''data:'')
         (map (py_rstrip_of (CHR 0x0D)) (py_split (CHR 0x0A) (strip_line_end (dec event_bytes)))))"

text \<open>Whether an event is forwarded, and the usage it carries.\<close>

definition process_sse_event ::
  "(string \<Rightarrow> string) \<Rightarrow> (string \<Rightarrow> json option) \<Rightarrow> string \<Rightarrow> bool \<Rightarrow> bool \<times> mapping_json option" where
  "process_sse_event dec loads event_bytes client_asked_for_usage =
     (let data_lines = sse_data_lines dec event_bytes; data = py_join [CHR 0x0A] data_lines
      in if data_lines = [] \<or> data = ''[DONE]'' then (True, None)
         else case as_mapping (loads data) of
                None \<Rightarrow> (True, None)
              | Some payload \<Rightarrow>
                  (case as_mapping (dict_get payload ''usage'') of
                     None \<Rightarrow> (True, None)
                   | Some usage \<Rightarrow>
                       (if \<not> client_asked_for_usage \<and> dict_get payload ''choices'' = Some (JArr [])
                        then (False, Some usage) else (True, Some usage))))"

text \<open>A type that is no string differs from both names, as does its text.\<close>

definition sse_event_completes_usage ::
  "(string \<Rightarrow> string) \<Rightarrow> (string \<Rightarrow> json option) \<Rightarrow> string \<Rightarrow> string \<Rightarrow> bool" where
  "sse_event_completes_usage dec loads event_bytes path =
     (let data_lines = sse_data_lines dec event_bytes
      in data_lines \<noteq> []
         \<and> (case as_mapping (loads (py_join [CHR 0x0A] data_lines)) of
              None \<Rightarrow> False
            | Some payload \<Rightarrow>
                normalize_usage (Some (CHR ''/'' # path)) payload \<noteq> None
                \<and> (if path = ''v1/responses'' then dict_get payload ''type'' = Some (JStr ''response.completed'')
                   else if path = ''v1/messages'' then dict_get payload ''type'' = Some (JStr ''message_delta'')
                   else True)))"

text \<open>\<open>buffer.find(pattern)\<close>.\<close>

fun py_find :: "string \<Rightarrow> string \<Rightarrow> nat option" where
  "py_find pat [] = (if pat = [] then Some 0 else None)"
| "py_find pat (c # cs) = (if py_startswith (c # cs) pat then Some 0 else map_option Suc (py_find pat cs))"

text \<open>The end of the first complete event in the buffer.\<close>

definition event_end :: "string \<Rightarrow> nat option" where
  "event_end buffer =
     (case (py_find [CHR 0x0A, CHR 0x0A] buffer, py_find [CHR 0x0D, CHR 0x0A, CHR 0x0D, CHR 0x0A] buffer) of
        (None, None) \<Rightarrow> None
      | (None, Some idx_crlf) \<Rightarrow> Some (idx_crlf + 4)
      | (Some idx, None) \<Rightarrow> Some (idx + 2)
      | (Some idx, Some idx_crlf) \<Rightarrow> Some (if idx_crlf < idx then idx_crlf + 4 else idx + 2))"

lemma py_find_le: "py_find pat s = Some n \<Longrightarrow> n + length pat \<le> length s"
  by (induction s arbitrary: n) (auto simp: py_startswith_def split: if_splits dest: arg_cong [where f = length])

lemma event_end_le: "event_end buffer = Some n \<Longrightarrow> 2 \<le> n \<and> n \<le> length buffer"
  by (auto simp: event_end_def split: option.splits if_splits dest!: py_find_le)

text \<open>The part of \<open>_StreamingProxyOwnership\<close> and of the iterator's locals that accounting uses.\<close>

record proxy_stream =
  px_path :: string
  px_track_usage :: bool
  px_buffer :: string
  px_parser :: usage_parser
  px_last_usage :: "normalized_usage option"
  px_usage_recorded :: bool
  px_recorded :: "normalized_usage list"

definition new_proxy_stream :: "string \<Rightarrow> int \<Rightarrow> proxy_stream" where
  "new_proxy_stream path status_code =
     \<lparr>px_path = path, px_track_usage = (200 \<le> status_code \<and> status_code < 300 \<and> path \<in> set USAGE_ENDPOINTS),
      px_buffer = [], px_parser = new_usage_parser (protocol_for_endpoint (Some (CHR ''/'' # path))),
      px_last_usage = None, px_usage_recorded = False, px_recorded = []\<rparr>"

definition record_usage :: "proxy_stream \<Rightarrow> proxy_stream" where
  "record_usage px =
     (if px_usage_recorded px \<or> \<not> px_track_usage px then px
      else case px_last_usage px of
             None \<Rightarrow> px
           | Some u \<Rightarrow> px\<lparr>px_usage_recorded := True, px_recorded := px_recorded px @ [u]\<rparr>)"

definition forward_event ::
  "(string \<Rightarrow> string) \<Rightarrow> (string \<Rightarrow> json option) \<Rightarrow> bool \<Rightarrow> string \<Rightarrow> proxy_stream \<Rightarrow> string list \<times> proxy_stream" where
  "forward_event dec loads asked event_bytes px =
     (let forward = fst (process_sse_event dec loads event_bytes
                      (asked \<or> px_path px \<notin> set FORCED_STREAM_USAGE_ENDPOINTS));
          px' = (if sse_event_completes_usage dec loads event_bytes (px_path px)
                 then record_usage (px\<lparr>px_last_usage := sp_latest (px_parser px)\<rparr>) else px)
      in (if forward then [event_bytes] else [], px'))"

lemma forward_event_buffer [simp]: "px_buffer (snd (forward_event dec loads asked e px)) = px_buffer px"
  by (simp add: forward_event_def record_usage_def Let_def split: option.split)

function forward_events ::
  "(string \<Rightarrow> string) \<Rightarrow> (string \<Rightarrow> json option) \<Rightarrow> bool \<Rightarrow> proxy_stream \<Rightarrow> string list \<times> proxy_stream" where
  "forward_events dec loads asked px =
     (case event_end (px_buffer px) of
        None \<Rightarrow> ([], px)
      | Some n \<Rightarrow>
          (case forward_event dec loads asked (take n (px_buffer px)) (px\<lparr>px_buffer := drop n (px_buffer px)\<rparr>) of
             (out, px1) \<Rightarrow> (case forward_events dec loads asked px1 of (outs, px2) \<Rightarrow> (out @ outs, px2))))"
  by pat_completeness auto
termination
proof (relation "measure (\<lambda>(dec, loads, asked, px). length (px_buffer px))")
  fix dec loads asked px n out px1
  assume n: "event_end (px_buffer px) = Some n"
    and f: "(out, px1) = forward_event dec loads asked (take n (px_buffer px)) (px\<lparr>px_buffer := drop n (px_buffer px)\<rparr>)"
  have "px_buffer px1 = drop n (px_buffer px)" using arg_cong [OF f, of "\<lambda>x. px_buffer (snd x)"] by simp
  then show "((dec, loads, asked, px1), dec, loads, asked, px) \<in> measure (\<lambda>(dec, loads, asked, px). length (px_buffer px))"
    using event_end_le [OF n] by auto
qed simp

declare forward_events.simps [simp del]

definition forward_chunk ::
  "(string \<Rightarrow> string) \<Rightarrow> (string \<Rightarrow> json option) \<Rightarrow> bool \<Rightarrow> string \<Rightarrow> proxy_stream
     \<Rightarrow> (string list \<times> proxy_stream) option" where
  "forward_chunk dec loads asked chunk px =
     (if \<not> px_track_usage px then Some ([chunk], px)
      else case feed dec loads chunk (px_parser px) of
             None \<Rightarrow> None
           | Some p \<Rightarrow> Some (forward_events dec loads asked (px\<lparr>px_parser := p, px_buffer := px_buffer px @ chunk\<rparr>)))"

definition end_stream ::
  "(string \<Rightarrow> string) \<Rightarrow> (string \<Rightarrow> json option) \<Rightarrow> proxy_stream \<Rightarrow> string list \<times> proxy_stream" where
  "end_stream dec loads px =
     (if \<not> px_track_usage px then ([], px)
      else case finish dec loads (px_parser px) of
             (u, p) \<Rightarrow>
               (if px_buffer px = [] then [] else [px_buffer px],
                record_usage (px\<lparr>px_parser := p, px_last_usage := u\<rparr>)))"

fun wrap_stream ::
  "(string \<Rightarrow> string) \<Rightarrow> (string \<Rightarrow> json option) \<Rightarrow> bool \<Rightarrow> string list \<Rightarrow> proxy_stream
     \<Rightarrow> (string list \<times> proxy_stream) option" where
  "wrap_stream dec loads asked [] px = Some (end_stream dec loads px)"
| "wrap_stream dec loads asked (chunk # chunks) px =
     (case forward_chunk dec loads asked chunk px of
        None \<Rightarrow> None
      | Some (out, px1) \<Rightarrow>
          (case wrap_stream dec loads asked chunks px1 of
             None \<Rightarrow> None
           | Some (outs, px2) \<Rightarrow> Some (out @ outs, px2)))"

section \<open>The request handler\<close>

record http_error =
  he_status :: int
  he_code :: string
  he_headers :: "(string \<times> string) list"

definition http_error :: "int \<Rightarrow> string \<Rightarrow> http_error" where
  "http_error status code = \<lparr>he_status = status, he_code = code, he_headers = []\<rparr>"

definition admission_http_exception :: "exn \<Rightarrow> http_error" where
  "admission_http_exception e =
     (case e of
        QueueFull \<Rightarrow> (http_error 429 ''node_busy'')\<lparr>he_headers := [(''Retry-After'', ''1''), (''X-Mnemosyne-Error'', ''node_busy'')]\<rparr>
      | QueueTimeout \<Rightarrow> http_error 504 ''node_queue_timeout''
      | NotAccepting \<Rightarrow> (http_error 503 ''node_not_accepting'')\<lparr>he_headers := [(''Retry-After'', ''1'')]\<rparr>
      | _ \<Rightarrow> http_error 503 ''engine load failed'')"

record upstream_response =
  ur_status :: int
  ur_headers :: "(string \<times> string) list"
  ur_content_type :: string

datatype upstream_failure = UpstreamTimeout | UpstreamOther string

record proxy_env =
  pe_loads :: "string \<Rightarrow> json option"
  pe_too_deep :: "string \<Rightarrow> bool"
  pe_decode :: "string \<Rightarrow> string"
  pe_sha :: "string \<Rightarrow> string"
  pe_resolve :: "string \<Rightarrow> resolve_error + resolved_profile"
  pe_has_resident :: bool
  pe_acquire :: "(resolved_profile \<times> string) option \<Rightarrow> exn + resolved_profile"
  pe_max_pixels :: int
  pe_send :: "string \<Rightarrow> upstream_failure + upstream_response"
  pe_read :: "upstream_response \<Rightarrow> upstream_failure + string"

text \<open>The answer: an \<open>HTTPException\<close>, another exception, a JSON document, or an event stream.\<close>

datatype answer =
    HttpError http_error
  | Raised string
  | JsonAnswer int json
  | StreamAnswer int "(string \<times> string) list" bool

datatype proxy_effect =
    AcquireLease | ReleaseLease | SendUpstream string | CloseResponse | CloseClient | CountRequest
  | RecordUsageRow normalized_usage

definition required_capability :: "string \<Rightarrow> string" where
  "required_capability path =
     (if path = ''v1/images/generations'' then ''images.generations''
      else map (\<lambda>c. if c = CHR ''/'' then CHR ''.'' else c) (py_removeprefix ''v1/'' path))"

definition unsupported :: "string \<Rightarrow> resolved_profile \<Rightarrow> bool" where
  "unsupported path p =
     (required_capability path \<in> set SUPPORTED_MODEL_CAPABILITIES \<and> required_capability path \<notin> set (pf_capabilities p))"

text \<open>
  \<open>_acquire_profile_lease\<close>, or \<open>acquire_current\<close> where the request names no model. An \<open>HTTPException\<close>
  of the start callback (\<open>HttpErr\<close>) goes to the client as it is.
\<close>

definition lease_error :: "exn \<Rightarrow> http_error" where
  "lease_error e = (case e of HttpErr status detail \<Rightarrow> http_error status detail | _ \<Rightarrow> admission_http_exception e)"

definition raised_answer :: "exn \<Rightarrow> answer" where
  "raised_answer e = (case e of HttpErr status detail \<Rightarrow> HttpError (http_error status detail) | _ \<Rightarrow> Raised ''coordinator'')"

definition acquire_lease :: "proxy_env \<Rightarrow> resolved_profile option \<Rightarrow> answer + resolved_profile" where
  "acquire_lease env profile =
     (case profile of
        None \<Rightarrow>
          (case pe_acquire env None of
             Inr wire \<Rightarrow> Inr wire
           | Inl e \<Rightarrow> Inl (if e \<in> {QueueFull, QueueTimeout, NotAccepting} then HttpError (admission_http_exception e)
                         else raised_answer e))
      | Some p \<Rightarrow>
          (case profile_deployment (pe_sha env) p of
             Inl e \<Rightarrow> Inl (Raised e)
           | Inr (deployment_id, _, _) \<Rightarrow>
               (case pe_acquire env (Some (p, deployment_id)) of
                  Inr wire \<Rightarrow> Inr wire
                | Inl e \<Rightarrow> Inl (HttpError (lease_error e)))))"

definition requested_profile :: "proxy_env \<Rightarrow> string \<Rightarrow> string option \<Rightarrow> answer + resolved_profile option" where
  "requested_profile env path requested =
     (case requested of
        None \<Rightarrow> if \<not> pe_has_resident env then Inl (HttpError (http_error 503 ''no model loaded'')) else Inr None
      | Some name \<Rightarrow>
          (case pe_resolve env name of
             Inl ResolveKeyError \<Rightarrow> Inl (HttpError (http_error 404 ''unknown alias''))
           | Inl (HttpConflict e) \<Rightarrow> Inl (HttpError (http_error 409 e))
           | Inl _ \<Rightarrow> Inl (Raised ''resolve'')
           | Inr p \<Rightarrow>
               (if unsupported path p then Inl (HttpError (http_error 400 ''model does not support''))
                else if path \<noteq> ''v1/images/generations'' \<and> pf_kind p = ''image''
                then Inl (HttpError (http_error 400 ''image model only supports images''))
                else Inr (Some p))))"

text \<open>The body that is sent, once a lease is held: \<open>Inl\<close> with whether the lease is given back first.\<close>

definition upstream_body :: "proxy_env \<Rightarrow> string \<Rightarrow> string \<Rightarrow> resolved_profile \<Rightarrow> (answer \<times> bool) + string \<times> bool" where
  "upstream_body env path body wire =
     (if unsupported path wire then Inl (HttpError (http_error 400 ''model does not support''), True)
      else if path = ''v1/images/generations'' then
        (if pf_kind wire \<noteq> ''image'' \<or> ''images.generations'' \<notin> set (pf_capabilities wire)
         then Inl (HttpError (http_error 400 ''the selected model does not support image generation''), True)
         else case normalize_image_request (pe_loads env) (pe_too_deep env) (pf_served_model_name wire)
                     (case pf_image_defaults wire of Some (JObj d) \<Rightarrow> d | _ \<Rightarrow> []) (pe_max_pixels env) body of
                Inr sent \<Rightarrow> Inr (sent, False)
              | Inl (ImageRequestError e) \<Rightarrow> Inl (HttpError (http_error 400 e), True)
              | Inl (Uncaught e) \<Rightarrow> Inl (Raised e, False))
      else Inr (ensure_stream_usage (pe_loads env) (canonicalize_model_field (pe_loads env) body (Some wire)) path))"

text \<open>Stripping the header that proves a rejection before any work from the engine's answers.\<close>

definition downstream_proxy_headers :: "(string \<times> string) list \<Rightarrow> (string \<times> string) list" where
  "downstream_proxy_headers incoming = filter (\<lambda>kv. py_lower (fst kv) \<noteq> ''x-mnemosyne-error'') incoming"

text \<open>\<open>substring in content\<close>.\<close>

definition contains :: "string \<Rightarrow> string \<Rightarrow> bool" where
  "contains pat s = (py_find pat s \<noteq> None)"

definition read_usage :: "proxy_env \<Rightarrow> string \<Rightarrow> upstream_response \<Rightarrow> string \<Rightarrow> proxy_effect list" where
  "read_usage env path r content =
     (if 200 \<le> ur_status r \<and> ur_status r < 300 \<and> path \<in> set USAGE_ENDPOINTS then
        (case as_mapping (pe_loads env content) of
           None \<Rightarrow> []
         | Some payload \<Rightarrow>
             (case normalize_usage (Some (CHR ''/'' # path)) payload of None \<Rightarrow> [] | Some u \<Rightarrow> [RecordUsageRow u]))
      else [])"

text \<open>
  The body of an answer that is no event stream: the engine's JSON document, or its text under \<open>raw\<close>.
  \<open>JSONResponse\<close> refuses to print \<open>NaN\<close> and the infinities, which \<open>json.loads\<close> reads.
\<close>

definition answer_body :: "proxy_env \<Rightarrow> string \<Rightarrow> json" where
  "answer_body env content =
     (case pe_loads env content of Some j \<Rightarrow> j | None \<Rightarrow> JObj [(''raw'', JStr (pe_decode env content))])"

text \<open>From \<open>_open_upstream\<close> to the \<open>finally\<close> clause.\<close>

definition exchange :: "proxy_env \<Rightarrow> string \<Rightarrow> string \<Rightarrow> bool \<Rightarrow> answer \<times> proxy_effect list" where
  "exchange env path sent asked =
     (let failed = (\<lambda>e. if e = UpstreamTimeout \<and> path = ''v1/images/generations''
                        then HttpError (http_error 504 ''image generation timed out'') else Raised ''upstream'')
      in case pe_send env sent of
           Inl e \<Rightarrow> (failed e, [SendUpstream sent, CloseClient, ReleaseLease])
         | Inr r \<Rightarrow>
             if contains ''text/event-stream'' (ur_content_type r)
             then (StreamAnswer (ur_status r) (downstream_proxy_headers (ur_headers r)) asked, [SendUpstream sent])
             else (case pe_read env r of
                     Inl e \<Rightarrow> (failed e, [SendUpstream sent, CountRequest, CloseResponse, CloseClient, ReleaseLease])
                   | Inr content \<Rightarrow>
                       (if json_finite (answer_body env content) then JsonAnswer (ur_status r) (answer_body env content)
                        else Raised ''ValueError'',
                        [SendUpstream sent] @ read_usage env path r content
                          @ [CountRequest, CloseResponse, CloseClient, ReleaseLease])))"

definition proxy :: "proxy_env \<Rightarrow> string \<Rightarrow> string \<Rightarrow> answer \<times> proxy_effect list" where
  "proxy env path body =
     (case peek_model_field (pe_loads env) body of
        Inl e \<Rightarrow> (Raised e, [])
      | Inr requested \<Rightarrow>
          (case requested_profile env path requested of
             Inl a \<Rightarrow> (a, [])
           | Inr profile \<Rightarrow>
               (case acquire_lease env profile of
                  Inl a \<Rightarrow> (a, [])
                | Inr wire \<Rightarrow>
                    (case upstream_body env path body wire of
                       Inl (a, give_back) \<Rightarrow> (a, AcquireLease # (if give_back then [ReleaseLease] else []))
                     | Inr (sent, asked) \<Rightarrow>
                         (case exchange env path sent asked of (a, effects) \<Rightarrow> (a, AcquireLease # effects))))))"

text \<open>
  \<open>_StreamingProxyOwnership.complete\<close>: only the first call creates the finishing task, which accounts
  and then closes and releases everything.
\<close>

definition stream_finish :: "proxy_stream \<Rightarrow> proxy_effect list" where
  "stream_finish px =
     CountRequest # map RecordUsageRow (drop (length (px_recorded px)) (px_recorded (record_usage px)))
       @ [CloseResponse, CloseClient, ReleaseLease]"

definition stream_complete :: "bool \<times> proxy_stream \<Rightarrow> (bool \<times> proxy_stream) \<times> proxy_effect list" where
  "stream_complete o' =
     (case o' of (started, px) \<Rightarrow> if started then ((True, px), []) else ((True, record_usage px), stream_finish px))"

fun completions :: "nat \<Rightarrow> bool \<times> proxy_stream \<Rightarrow> proxy_effect list" where
  "completions 0 o' = []"
| "completions (Suc n) o' = (case stream_complete o' of (o'', effects) \<Rightarrow> effects @ completions n o'')"

section \<open>Lemmas\<close>

lemma record_usage_frame [simp]:
  "px_buffer (record_usage px) = px_buffer px" "px_path (record_usage px) = px_path px"
  "px_track_usage (record_usage px) = px_track_usage px" "px_parser (record_usage px) = px_parser px"
  "px_last_usage (record_usage px) = px_last_usage px"
  by (simp_all add: record_usage_def split: option.split)

lemma forward_event_frame [simp]:
  "px_path (snd (forward_event dec loads asked e px)) = px_path px"
  "px_track_usage (snd (forward_event dec loads asked e px)) = px_track_usage px"
  by (simp_all add: forward_event_def Let_def)

text \<open>What accounting keeps: at most one row, and the flag says whether there is one.\<close>

definition recorded_once :: "proxy_stream \<Rightarrow> bool" where
  "recorded_once px = (length (px_recorded px) = (if px_usage_recorded px then 1 else 0))"

lemma recorded_once_record [simp]: "recorded_once px \<Longrightarrow> recorded_once (record_usage px)"
  by (auto simp: recorded_once_def record_usage_def split: option.split if_splits)

lemma recorded_once_updates [simp]:
  "recorded_once (px\<lparr>px_buffer := b\<rparr>) = recorded_once px" "recorded_once (px\<lparr>px_parser := p\<rparr>) = recorded_once px"
  "recorded_once (px\<lparr>px_last_usage := u\<rparr>) = recorded_once px"
  by (simp_all add: recorded_once_def)

lemma recorded_once_event [simp]: "recorded_once px \<Longrightarrow> recorded_once (snd (forward_event dec loads asked e px))"
  by (simp add: forward_event_def Let_def)

text \<open>
  How an input was forwarded: it is cut into segments, each kept or dropped as the event rule says, and
  what is still in the buffer.
\<close>

definition hides :: "(string \<Rightarrow> string) \<Rightarrow> (string \<Rightarrow> json option) \<Rightarrow> bool \<Rightarrow> string \<Rightarrow> string \<Rightarrow> bool" where
  "hides dec loads asked path e =
     (\<not> asked \<and> path \<in> set FORCED_STREAM_USAGE_ENDPOINTS
      \<and> (\<exists>payload usage. as_mapping (loads (py_join [CHR 0x0A] (sse_data_lines dec e))) = Some payload
           \<and> as_mapping (dict_get payload ''usage'') = Some usage \<and> dict_get payload ''choices'' = Some (JArr [])))"

definition cut_as :: "(string \<Rightarrow> bool) \<Rightarrow> string \<Rightarrow> string list \<Rightarrow> string \<Rightarrow> bool" where
  "cut_as hidden given outs kept =
     (\<exists>segs. given = concat (map snd segs) @ kept \<and> outs = map snd (filter fst segs)
        \<and> (\<forall>s \<in> set segs. \<not> fst s \<longrightarrow> hidden (snd s)))"

lemma cut_as_Nil [simp]: "cut_as hidden b [] b"
  unfolding cut_as_def by (intro exI [of _ "[]"]) simp

lemma cut_as_append: "cut_as hidden a outs b \<Longrightarrow> cut_as hidden (b @ c) outs' d \<Longrightarrow> cut_as hidden (a @ c) (outs @ outs') d"
proof -
  assume "cut_as hidden a outs b" and "cut_as hidden (b @ c) outs' d"
  then obtain s t where s: "a = concat (map snd s) @ b" "outs = map snd (filter fst s)" "\<forall>x \<in> set s. \<not> fst x \<longrightarrow> hidden (snd x)"
    and t: "b @ c = concat (map snd t) @ d" "outs' = map snd (filter fst t)" "\<forall>x \<in> set t. \<not> fst x \<longrightarrow> hidden (snd x)"
    unfolding cut_as_def by blast
  have "a @ c = concat (map snd (s @ t)) @ d" using s(1) t(1) by simp
  then show ?thesis unfolding cut_as_def using s(2,3) t(2,3) by (intro exI [of _ "s @ t"]) auto
qed

lemma cut_as_one: "(\<not> f \<Longrightarrow> hidden e) \<Longrightarrow> cut_as hidden (e @ r) (if f then [e] else []) r"
  unfolding cut_as_def by (intro exI [of _ "[(f, e)]"]) auto

lemma forward_event_hides:
  "cut_as (hides dec loads asked (px_path px)) (e @ r) (fst (forward_event dec loads asked e px)) r"
  unfolding forward_event_def Let_def fst_conv
  by (rule cut_as_one)
    (auto simp: process_sse_event_def hides_def Let_def split: option.splits if_splits)

lemma forward_events_cut:
  "cut_as (hides dec loads asked (px_path px)) (px_buffer px) (fst (forward_events dec loads asked px))
     (px_buffer (snd (forward_events dec loads asked px)))
   \<and> px_path (snd (forward_events dec loads asked px)) = px_path px
   \<and> px_track_usage (snd (forward_events dec loads asked px)) = px_track_usage px
   \<and> (recorded_once px \<longrightarrow> recorded_once (snd (forward_events dec loads asked px)))"
proof (induction dec loads asked px rule: forward_events.induct)
  case (1 dec loads asked px)
  show ?case
  proof (cases "event_end (px_buffer px)")
    case None
    then show ?thesis by (subst (1 2 3 4 5) forward_events.simps) simp
  next
    case (Some n)
    let ?px = "px\<lparr>px_buffer := drop n (px_buffer px)\<rparr>"
    obtain out px1 where f: "forward_event dec loads asked (take n (px_buffer px)) ?px = (out, px1)"
      by (cases "forward_event dec loads asked (take n (px_buffer px)) ?px")
    have fr: "px_buffer px1 = drop n (px_buffer px)" "px_path px1 = px_path px" "px_track_usage px1 = px_track_usage px"
      "recorded_once px \<longrightarrow> recorded_once px1"
      using forward_event_buffer [of dec loads asked "take n (px_buffer px)" ?px]
        forward_event_frame [of dec loads asked "take n (px_buffer px)" ?px]
        recorded_once_event [of ?px dec loads asked "take n (px_buffer px)"] by (simp_all add: f)
    have "cut_as (hides dec loads asked (px_path px)) (px_buffer px) out (px_buffer px1)"
      using forward_event_hides [of dec loads asked ?px "take n (px_buffer px)" "drop n (px_buffer px)"] by (simp add: f fr)
    moreover note 1 [OF Some f [symmetric]]
    ultimately show ?thesis
      using cut_as_append [of "hides dec loads asked (px_path px)" "px_buffer px" out "px_buffer px1" "[]"] fr
      by (subst (1 2 3 4 5) forward_events.simps) (auto simp: Some f split: prod.split)
  qed
qed

text \<open>A tracked stream, from any point on.\<close>

lemma wrap_stream_tracked:
  assumes "px_track_usage px" and "recorded_once px"
  shows "\<exists>outs px'. wrap_stream dec loads asked chunks px = Some (outs, px')
    \<and> cut_as (hides dec loads asked (px_path px)) (px_buffer px @ concat chunks) outs []
    \<and> recorded_once px' \<and> px_track_usage px'"
  using assms
proof (induction chunks arbitrary: px)
  case Nil
  have "cut_as h b [b] []" for h b using cut_as_one [of True h b "[]"] by simp
  then show ?case using Nil by (auto simp: end_stream_def split: prod.split)
next
  case (Cons c cs)
  obtain p where p: "feed dec loads c (px_parser px) = Some p" by (simp add: feed_eq)
  let ?px = "px\<lparr>px_parser := p, px_buffer := px_buffer px @ c\<rparr>"
  obtain out px1 where f: "forward_events dec loads asked ?px = (out, px1)" by (cases "forward_events dec loads asked ?px")
  from forward_events_cut [of dec loads asked ?px] Cons.prems
  have px1: "cut_as (hides dec loads asked (px_path px)) (px_buffer px @ c) out (px_buffer px1)" "px_path px1 = px_path px"
    "px_track_usage px1" "recorded_once px1"
    by (simp_all add: f)
  from Cons.IH [OF px1(3,4)] obtain outs px' where
    w: "wrap_stream dec loads asked cs px1 = Some (outs, px')" and "recorded_once px'" "px_track_usage px'"
      "cut_as (hides dec loads asked (px_path px)) (px_buffer px1 @ concat cs) outs []" using px1(2) by auto
  moreover have "wrap_stream dec loads asked (c # cs) px = Some (out @ outs, px')"
    using Cons.prems(1) by (simp add: forward_chunk_def p f w)
  ultimately show ?case using cut_as_append [OF px1(1)] by auto
qed

lemma wrap_stream_untracked:
  "\<not> px_track_usage px \<Longrightarrow> wrap_stream dec loads asked chunks px = Some (chunks, px)"
  by (induction chunks) (simp_all add: end_stream_def forward_chunk_def)

lemma completions_started: "completions n (True, px) = []"
  by (induction n) (simp_all add: stream_complete_def)

lemma completions_Suc: "completions (Suc n) (False, px) = stream_finish px"
  by (simp add: stream_complete_def completions_started)

lemma count_rows [simp]:
  "count_if ((=) AcquireLease) (map RecordUsageRow us) = 0" "count_if ((=) ReleaseLease) (map RecordUsageRow us) = 0"
  by (induction us) simp_all

lemma stream_finish_counts [simp]:
  "count_if ((=) AcquireLease) (stream_finish px) = 0" "count_if ((=) ReleaseLease) (stream_finish px) = 1"
  by (simp_all add: stream_finish_def)

lemma read_usage_counts [simp]:
  "count_if ((=) AcquireLease) (read_usage env path r c) = 0" "count_if ((=) ReleaseLease) (read_usage env path r c) = 0"
  by (simp_all add: read_usage_def split: option.split)

fun is_stream :: "answer \<Rightarrow> bool" where
  "is_stream (StreamAnswer s h a) = True"
| "is_stream _ = False"

lemma exchange_counts:
  "count_if ((=) AcquireLease) (snd (exchange env path sent asked)) = 0
   \<and> count_if ((=) ReleaseLease) (snd (exchange env path sent asked))
       = (if is_stream (fst (exchange env path sent asked)) then 0 else 1)"
  by (auto simp: exchange_def Let_def split: sum.split)

lemma raised_answer_cases: "(\<exists>s d. raised_answer e = HttpError (http_error s d)) \<or> raised_answer e = Raised ''coordinator''"
  by (cases e) (auto simp: raised_answer_def)

lemma raised_no_stream [simp]: "\<not> is_stream (raised_answer e)"
  using raised_answer_cases [of e] by auto

lemma rejected_no_stream:
  "requested_profile env path r = Inl a \<Longrightarrow> \<not> is_stream a" "acquire_lease env p = Inl a \<Longrightarrow> \<not> is_stream a"
  by (auto simp: requested_profile_def acquire_lease_def split: option.splits sum.splits resolve_error.splits if_splits prod.splits)

lemma upstream_body_rejected:
  assumes "upstream_body env path body wire = Inl (a, give_back)"
  shows "\<not> is_stream a" and "give_back \<or> path = ''v1/images/generations''
      \<and> (\<exists>e w d. normalize_image_request (pe_loads env) (pe_too_deep env) w d (pe_max_pixels env) body = Inl (Uncaught e) \<and> a = Raised e)"
  using assms unfolding upstream_body_def by (auto split: if_splits sum.splits image_error.splits prod.splits)

fun answer_headers :: "answer \<Rightarrow> (string \<times> string) list" where
  "answer_headers (HttpError e) = he_headers e"
| "answer_headers (StreamAnswer s h a) = h"
| "answer_headers _ = []"

lemma requested_rejected: "requested_profile env path r = Inl a \<Longrightarrow> answer_headers a = []"
  by (auto simp: requested_profile_def http_error_def split: option.splits sum.splits resolve_error.splits if_splits)

lemma acquire_rejected:
  assumes "acquire_lease env p = Inl a" and "(k, v) \<in> set (answer_headers a)" and "py_lower k = ''x-mnemosyne-error''"
  shows "a = HttpError (admission_http_exception QueueFull)"
proof -
  have "py_lower ''Retry-After'' \<noteq> ''x-mnemosyne-error''" by code_simp
  then have full: "e = QueueFull" if "(k, v) \<in> set (he_headers (lease_error e))" for e
    using that assms(3) by (auto simp: lease_error_def admission_http_exception_def http_error_def split: exn.splits)
  have raised: "answer_headers (raised_answer e) = []" for e
    using raised_answer_cases [of e] by (auto simp: http_error_def)
  have "admission_http_exception e = lease_error e" if "e \<in> {QueueFull, QueueTimeout, NotAccepting}" for e
    using that by (auto simp: lease_error_def)
  with assms(1) raised have "(\<exists>e. a = HttpError (lease_error e)) \<or> answer_headers a = []"
    by (auto simp: acquire_lease_def split: option.splits sum.splits prod.splits if_splits)
  then obtain e where a: "a = HttpError (lease_error e)" using assms(2) by fastforce
  then have "e = QueueFull" using assms(2) full by simp
  then show ?thesis by (simp add: a lease_error_def)
qed

section \<open>Properties\<close>

text \<open>
  C5: on every way through the request handler the admission lease is given back exactly as often as
  it was taken, where for a stream the response's owner completes at least once, however often it is
  told to. The only other way out is an image request whose normalization raises something else than
  an \<open>ImageRequestError\<close>.
\<close>

theorem lease_balanced:
  "(case proxy env path body of
     (a, effects) \<Rightarrow>
       count_if ((=) AcquireLease) effects
         = count_if ((=) ReleaseLease) (effects @ (if is_stream a then completions (Suc n) (False, px) else []))
       \<or> (path = ''v1/images/generations''
          \<and> (\<exists>e wire defaults. normalize_image_request (pe_loads env) (pe_too_deep env) wire defaults (pe_max_pixels env) body = Inl (Uncaught e)
               \<and> a = Raised e \<and> effects = [AcquireLease])))"
proof (cases "peek_model_field (pe_loads env) body")
  case requested: (Inr requested)
  show ?thesis
  proof (cases "requested_profile env path requested")
    case profile: (Inr profile)
    show ?thesis
    proof (cases "acquire_lease env profile")
      case wire: (Inr wire)
      show ?thesis
      proof (cases "upstream_body env path body wire")
        case (Inl ag)
        obtain a g where ag: "ag = (a, g)" by (cases ag)
        show ?thesis using upstream_body_rejected [OF Inl [unfolded ag]]
          by (auto simp: proxy_def requested profile wire Inl ag)
      next
        case (Inr sa)
        obtain sent asked where sa: "sa = (sent, asked)" by (cases sa)
        obtain a effects where e: "exchange env path sent asked = (a, effects)" by (cases "exchange env path sent asked")
        show ?thesis using exchange_counts [of env path sent asked] unfolding proxy_def completions_Suc
          by (auto simp: requested profile wire Inr sa e)
      qed
    qed (simp add: proxy_def requested profile rejected_no_stream)
  qed (simp add: proxy_def requested rejected_no_stream)
qed (simp add: proxy_def)

text \<open>
  C23: what a client receives of an event stream. The answer's bytes are the engine's bytes, cut into
  segments some of which are left out; left out are only events that the proxy itself asked for (the
  client did not, on an endpoint where usage is forced): with usage and without choices. At most one
  usage row is recorded, and none for a stream that is not accounted, which is forwarded chunk by chunk.
\<close>

theorem stream_forwarded:
  "\<exists>outs px. wrap_stream dec loads asked chunks (new_proxy_stream path status) = Some (outs, px)
     \<and> cut_as (hides dec loads asked path) (concat chunks) outs []
     \<and> (if px_track_usage px then length (px_recorded px) \<le> 1 else outs = chunks \<and> px_recorded px = [])"
proof (cases "px_track_usage (new_proxy_stream path status)")
  case True
  have "recorded_once (new_proxy_stream path status)" by (simp add: new_proxy_stream_def recorded_once_def)
  from wrap_stream_tracked [OF True this, of dec loads asked chunks] obtain outs px where
    w: "wrap_stream dec loads asked chunks (new_proxy_stream path status) = Some (outs, px)"
      "cut_as (hides dec loads asked path) (concat chunks) outs []" "recorded_once px" "px_track_usage px"
    by (auto simp: new_proxy_stream_def)
  then show ?thesis using w by (auto simp: recorded_once_def split: if_splits)
next
  case False
  have "cut_as h (concat cs) cs []" for h cs
    unfolding cut_as_def by (intro exI [of _ "map (Pair True) cs"]) (simp add: filter_map comp_def)
  then show ?thesis using wrap_stream_untracked [OF False] False by (auto simp: new_proxy_stream_def)
qed

lemma busy_no_effects:
  assumes "proxy env path body = (a, effects)" and "(k, v) \<in> set (answer_headers a)"
    and "py_lower k = ''x-mnemosyne-error''"
  shows "effects = [] \<and> a = HttpError (admission_http_exception QueueFull)"
proof (cases "peek_model_field (pe_loads env) body")
  case requested: (Inr requested)
  show ?thesis
  proof (cases "requested_profile env path requested")
    case profile: (Inr profile)
    show ?thesis
    proof (cases "acquire_lease env profile")
      case wire: (Inr wire)
      show ?thesis
      proof (cases "upstream_body env path body wire")
        case (Inl bg)
        then have "answer_headers (fst bg) = []" unfolding upstream_body_def
          by (auto simp: http_error_def split: if_splits sum.splits image_error.splits prod.splits)
        then show ?thesis using assms(1,2) by (cases bg) (simp add: proxy_def requested profile wire Inl)
      next
        case (Inr sa)
        have "(k, v) \<notin> set (answer_headers (fst (exchange env path sent asked)))" for sent asked
          using assms(3) by (auto simp: exchange_def Let_def http_error_def downstream_proxy_headers_def split: sum.split)
        from this [of "fst sa" "snd sa"] show ?thesis using assms(1,2)
          by (cases sa; cases "exchange env path (fst sa) (snd sa)") (simp add: proxy_def requested profile wire Inr)
      qed
    next
      case (Inl b)
      then show ?thesis using assms acquire_rejected [OF Inl] by (auto simp: proxy_def requested profile)
    qed
  qed (use assms in \<open>simp_all add: proxy_def requested requested_rejected\<close>)
qed (use assms in \<open>auto simp: proxy_def\<close>)

text \<open>
  An answer of the proxy with the header that the gateway takes as proof of a rejection comes from
  a full admission queue: no lease was taken and nothing was sent to the engine. The engine cannot
  forge it.
\<close>

theorem busy_header_honest:
  assumes "proxy env path body = (a, effects)" and "(k, v) \<in> set (answer_headers a)"
    and "py_lower k = ''x-mnemosyne-error''"
  shows "effects = [] \<and> a = HttpError (admission_http_exception QueueFull)"
  by (rule busy_no_effects [OF assms])

text \<open>
  A request that takes a lease and never gives it back: the guidance is an integer that no double can
  hold, so \<open>float\<close> raises \<open>OverflowError\<close>, which the handler does not expect.
\<close>

definition huge_guidance :: int where
  "huge_guidance = 10 ^ 400"

lemma oversized_double: "float_of_json (JInt huge_guidance) = Inl (Uncaught ''OverflowError'')"
proof -
  let ?x = "of_int (10 ^ 400) :: rat"
  have big: "(2 :: rat) ^ 1024 < ?x / 2" by simp
  have "\<bar>fl ?x - ?x\<bar> \<le> \<bar>?x\<bar> / 2 ^ 53 + 2 powi (-1075)" by (rule fl_error)
  also have "\<dots> \<le> ?x / 2"
    using tiny by simp
  finally have "?x / 2 \<le> fl ?x" by (simp only: abs_le_iff) linarith
  with big have "2 ^ 1024 < fl ?x" by (rule less_le_trans)
  then have "to_double ?x = PInf" by (simp add: to_double_def Let_def del: of_int_power of_int_numeral)
  then show ?thesis by (simp add: float_of_json_def huge_guidance_def del: of_int_power of_int_numeral)
qed

definition oversized_request :: mapping_json where
  "oversized_request =
     [(''model'', JStr ''m''), (''prompt'', JStr ''a lighthouse''), (''guidance_scale'', JInt huge_guidance)]"

definition demo_image_profile :: resolved_profile where
  "demo_image_profile = demo_resolved\<lparr>pf_kind := ''image'', pf_capabilities := [''images.generations''], pf_image_defaults := None\<rparr>"

definition demo_proxy_env :: "mapping_json \<Rightarrow> proxy_env" where
  "demo_proxy_env payload =
     \<lparr>pe_loads = (\<lambda>_. Some (JObj payload)), pe_too_deep = (\<lambda>_. False), pe_decode = id, pe_sha = demo_sha, pe_resolve = (\<lambda>_. Inr demo_image_profile), pe_has_resident = True,
      pe_acquire = (\<lambda>_. Inr demo_image_profile), pe_max_pixels = 4194304, pe_send = (\<lambda>_. Inl UpstreamTimeout),
      pe_read = (\<lambda>_. Inr [])\<rparr>"

lemma demo_image_deployment: "\<exists>d. profile_deployment demo_sha demo_image_profile = Inr d"
proof -
  have "case profile_deployment demo_sha demo_image_profile of Inl _ \<Rightarrow> False | Inr _ \<Rightarrow> True" by code_simp
  then show ?thesis by (auto split: sum.splits)
qed

lemma oversized_payload: "image_payload wire [] 4194304 oversized_request = Inl (Uncaught ''OverflowError'')"
proof -
  have "py_strip ''m'' \<noteq> []" "py_strip ''a lighthouse'' \<noteq> []" by code_simp+
  then have "image_guards oversized_request = None"
    by (simp add: image_guards_def oversized_request_def dict_get_Cons get_or_json_def none_or_int_def)
  then show ?thesis
    by (simp add: image_payload_def oversized_request_def get_or_json_def dict_get_Cons int_of_json_def image_size_def
        dimensions_def integer_field_def number_field_def oversized_double)
qed

lemma demo_image_fields:
  "pf_kind demo_image_profile = ''image''" "pf_capabilities demo_image_profile = [''images.generations'']"
  "pf_image_defaults demo_image_profile = None"
  by (simp_all add: demo_image_profile_def)

theorem oversized_guidance_leaks_lease:
  "proxy (demo_proxy_env oversized_request) ''v1/images/generations'' ''{}'' = (Raised ''OverflowError'', [AcquireLease])"
proof -
  obtain i ident auth where d: "profile_deployment demo_sha demo_image_profile = Inr (i, ident, auth)"
    using demo_image_deployment by auto
  have m: "dict_get oversized_request ''model'' = Some (JStr ''m'')" by (simp add: oversized_request_def dict_get_Cons)
  have cap: "required_capability ''v1/images/generations'' = ''images.generations''" by (simp add: required_capability_def)
  show ?thesis
    by (simp add: proxy_def peek_model_field_def demo_proxy_env_def m requested_profile_def unsupported_def cap
        demo_image_fields acquire_lease_def d upstream_body_def normalize_image_request_def request_object_def oversized_payload)
qed

text \<open>
  What is recorded for a stream depends on how the engine's bytes were cut: with usage on every event,
  as an engine reports it continuously, the first event that completes a chunk's accounting wins.
\<close>

definition demo_usage_event :: "char \<Rightarrow> string" where
  "demo_usage_event n = ''data:'' @ [n, CHR 0x0A, CHR 0x0A]"

definition demo_usage_loads :: "string \<Rightarrow> json option" where
  "demo_usage_loads data =
     (case data of
        [n] \<Rightarrow> Some (JObj [(''usage'', JObj [(''prompt_tokens'', JInt 3), (''completion_tokens'', JInt (int (of_char n) - 48))])])
      | _ \<Rightarrow> None)"

definition demo_recorded :: "string list \<Rightarrow> int list" where
  "demo_recorded chunks =
     (case wrap_stream id demo_usage_loads True chunks (new_proxy_stream ''v1/completions'' 200) of
        None \<Rightarrow> [] | Some (_, px) \<Rightarrow> map us_completion_tokens (px_recorded px))"

theorem accounting_depends_on_chunks:
  "demo_recorded [demo_usage_event (CHR ''1''), demo_usage_event (CHR ''9'')] = [1]
   \<and> demo_recorded [demo_usage_event (CHR ''1'') @ demo_usage_event (CHR ''9'')] = [9]"
  by code_simp

theorem busy_header_honest_witness:
  "\<exists>a effects. proxy ((demo_proxy_env oversized_request)\<lparr>pe_acquire := \<lambda>_. Inl QueueFull\<rparr>) ''v1/images/generations'' ''{}'' = (a, effects)
     \<and> (''X-Mnemosyne-Error'', ''node_busy'') \<in> set (answer_headers a) \<and> effects = []"
proof -
  let ?env = "(demo_proxy_env oversized_request)\<lparr>pe_acquire := \<lambda>_. Inl QueueFull\<rparr>"
  obtain i ident auth where d: "profile_deployment demo_sha demo_image_profile = Inr (i, ident, auth)"
    using demo_image_deployment by auto
  have m: "dict_get oversized_request ''model'' = Some (JStr ''m'')" by (simp add: oversized_request_def dict_get_Cons)
  have cap: "required_capability ''v1/images/generations'' = ''images.generations''" by (simp add: required_capability_def)
  obtain effects where p: "proxy ?env ''v1/images/generations'' ''{}'' = (HttpError (admission_http_exception QueueFull), effects)"
    by (simp add: proxy_def peek_model_field_def demo_proxy_env_def m requested_profile_def unsupported_def cap
        demo_image_fields acquire_lease_def lease_error_def d)
  have h: "(''X-Mnemosyne-Error'', ''node_busy'') \<in> set (answer_headers (HttpError (admission_http_exception QueueFull)))"
    by (simp add: admission_http_exception_def http_error_def)
  have "py_lower ''X-Mnemosyne-Error'' = ''x-mnemosyne-error''" by code_simp
  from busy_header_honest [OF p h this] p h show ?thesis by blast
qed

end
