(* ===== verification/Fleet_Config.thy ===== *)
theory Fleet_Config
  imports Fleet_Wire
begin

text \<open>
  The gateway's configuration, \<open>fleet/src/mnemosyne_fleet/config.py\<close>: the typed configuration
  records and the loader, from the parsed TOML document and the environment. Errors are values:
  \<open>ConfigError\<close> with its message (interpolated values left out), and the exceptions of the language
  that the loader does not convert. \<open>urllib.parse.urlsplit\<close> is modelled; whether a bracketed host is
  an IP address is a parameter, as is the text of a non-string value passed to \<open>str\<close>.
\<close>

section \<open>Data\<close>

datatype toml =
    TStr string
  | TInt int
  | TFloat pyfloat
  | TBool bool
  | TTime string
  | TArr "toml list"
  | TTable "(string \<times> toml) list"

datatype config_error =
    ConfigError string
  | OverflowErr
  | ValueErrorExc
  | TypeErrorExc

record server_config =
  sc_host :: string
  sc_port :: int
  sc_api_key :: string
  sc_admin_api_key :: string
  sc_database_path :: string
  sc_request_timeout_seconds :: rat
  sc_max_body_bytes :: int
  sc_route_history_limit :: int
  sc_poll_interval_seconds :: rat
  sc_snapshot_ttl_seconds :: rat

record node_config =
  nc_node_id :: string
  nc_url :: string
  nc_fleet_token :: string
  nc_inference_token :: string
  nc_routing_weight :: "rat option"

record model_config =
  mc_name :: string
  mc_deployment_id :: string
  mc_capabilities :: "string list"
  mc_queue_depth :: int
  mc_queue_timeout_seconds :: rat

record fleet_config =
  fc_server :: server_config
  fc_nodes :: "node_config list"
  fc_models :: "model_config list"
  fc_ledger_dsn :: "string option"

section \<open>Scalar validators\<close>

text \<open>\<open>int(value)\<close> and \<open>float(value)\<close> with the exceptions the validators catch turned into messages.\<close>

definition toml_int :: "toml \<Rightarrow> config_error + int" where
  "toml_int v =
     (case v of
        TInt i \<Rightarrow> Inr i
      | TStr s \<Rightarrow> (case py_int s of Some i \<Rightarrow> Inr i | None \<Rightarrow> Inl (ConfigError ''must be an integer''))
      | TFloat (Fin x) \<Rightarrow> Inr (py_trunc x)
      | TFloat NaN \<Rightarrow> Inl (ConfigError ''must be an integer'')
      | TFloat _ \<Rightarrow> Inl OverflowErr
      | _ \<Rightarrow> Inl (ConfigError ''must be an integer''))"

definition bounded_int :: "toml \<Rightarrow> int \<Rightarrow> int \<Rightarrow> config_error + int" where
  "bounded_int v minimum maximum =
     (case v of
        TBool b \<Rightarrow> Inl (ConfigError ''must be an integer'')
      | _ \<Rightarrow> bind_result (toml_int v)
               (\<lambda>parsed. if parsed < minimum \<or> maximum < parsed
                         then Inl (ConfigError ''must be between the bounds'') else Inr parsed))"

definition toml_float :: "toml \<Rightarrow> config_error + pyfloat" where
  "toml_float v =
     (case v of
        TFloat x \<Rightarrow> Inr x
      | TInt i \<Rightarrow> (case to_double (of_int i) of Fin x \<Rightarrow> Inr (Fin x) | _ \<Rightarrow> Inl OverflowErr)
      | TStr s \<Rightarrow> (case py_float s of Some x \<Rightarrow> Inr x
                                    | None \<Rightarrow> Inl (ConfigError ''must be a finite number''))
      | _ \<Rightarrow> Inl (ConfigError ''must be a finite number''))"

definition positive_float :: "toml \<Rightarrow> rat \<Rightarrow> config_error + rat" where
  "positive_float v maximum =
     (case v of
        TBool b \<Rightarrow> Inl (ConfigError ''must be a finite number'')
      | _ \<Rightarrow> bind_result (toml_float v)
               (\<lambda>parsed. case parsed of
                           Fin x \<Rightarrow> if x \<le> 0 \<or> maximum < x
                                    then Inl (ConfigError ''must be greater than zero and at most the maximum'')
                                    else Inr x
                         | _ \<Rightarrow> Inl (ConfigError ''must be a finite number'')))"

definition secret :: "(string, string) dict \<Rightarrow> toml option \<Rightarrow> config_error + string" where
  "secret env name =
     (case name of
        Some (TStr n) \<Rightarrow>
          if py_strip n = [] then Inl (ConfigError ''must name an environment variable'')
          else (case dict_get env n of
                  None \<Rightarrow> Inl (ConfigError ''environment variable is required'')
                | Some v \<Rightarrow> if py_strip v = [] then Inl (ConfigError ''environment variable is required'')
                            else Inr v)
      | _ \<Rightarrow> Inl (ConfigError ''must name an environment variable''))"

section \<open>URLs\<close>

record url_parts =
  up_scheme :: string
  up_netloc :: string
  up_query :: string
  up_fragment :: string

text \<open>\<open>s.partition(c)\<close> and \<open>s.rpartition(c)\<close>: the part before, whether found, the part after.\<close>

definition partition_at :: "char \<Rightarrow> string \<Rightarrow> string \<times> bool \<times> string" where
  "partition_at c s =
     (let before = takeWhile (\<lambda>x. x \<noteq> c) s; rest = dropWhile (\<lambda>x. x \<noteq> c) s
      in (before, rest \<noteq> [], drop 1 rest))"

definition rpartition_at :: "char \<Rightarrow> string \<Rightarrow> string \<times> bool \<times> string" where
  "rpartition_at c s =
     (case partition_at c (rev s) of
        (after, found, before) \<Rightarrow> if found then (rev before, True, rev after) else ([], False, s))"

definition scheme_char :: "char \<Rightarrow> bool" where
  "scheme_char c =
     (let n = (of_char c :: nat)
      in (97 \<le> n \<and> n \<le> 122) \<or> (65 \<le> n \<and> n \<le> 90) \<or> is_digit c \<or> c \<in> set ''+-.'')"

definition split_scheme :: "string \<Rightarrow> string \<times> string" where
  "split_scheme s =
     (case partition_at (CHR '':'') s of
        (before, found, after) \<Rightarrow>
          if found \<and> before \<noteq> [] \<and> (of_char (hd before) :: nat) < 128 \<and> py_isalpha (hd before)
             \<and> list_all scheme_char before
          then (py_lower before, after) else ([], s))"

text \<open>
  \<open>urlsplit\<close> (its scheme, netloc, query and fragment): \<open>None\<close> when it raises \<open>ValueError\<close>.
\<close>

definition urlsplit :: "(string \<Rightarrow> bool) \<Rightarrow> string \<Rightarrow> url_parts option" where
  "urlsplit bracketed_ok url =
     (let u = filter (\<lambda>c. c \<notin> {CHR 0x09, CHR 0x0A, CHR 0x0D})
                (dropWhile (\<lambda>c. (of_char c :: nat) \<le> 32) url);
          (scheme, rest) = split_scheme u;
          has_netloc = py_startswith rest ''//'';
          after = drop 2 rest;
          netloc = (if has_netloc then takeWhile (\<lambda>c. c \<notin> set ''/?#'') after else []);
          tail = (if has_netloc then dropWhile (\<lambda>c. c \<notin> set ''/?#'') after else rest);
          (tail1, _, fragment) = partition_at (CHR ''#'') tail;
          (_, _, query) = partition_at (CHR ''?'') tail1;
          lb = (CHR ''['' \<in> set netloc); rb = (CHR '']'' \<in> set netloc)
      in if lb \<noteq> rb \<or> (lb \<and> rb \<and> \<not> bracketed_ok netloc) then None
         else Some \<lparr>up_scheme = scheme, up_netloc = netloc, up_query = query, up_fragment = fragment\<rparr>)"

text \<open>The \<open>username\<close>, \<open>password\<close> and \<open>hostname\<close> of the result; \<open>''''\<close> stands for \<open>None\<close> too.\<close>

definition url_userinfo :: "string \<Rightarrow> string \<times> string" where
  "url_userinfo netloc =
     (case rpartition_at (CHR ''@'') netloc of
        (userinfo, have_info, _) \<Rightarrow>
          if have_info then (case partition_at (CHR '':'') userinfo of (user, _, pw) \<Rightarrow> (user, pw))
          else ([], []))"

definition url_hostname :: "string \<Rightarrow> string" where
  "url_hostname netloc =
     (case rpartition_at (CHR ''@'') netloc of
        (_, _, hostinfo) \<Rightarrow>
          (case partition_at (CHR ''['') hostinfo of
             (_, have_open_br, bracketed) \<Rightarrow>
               if have_open_br then fst (partition_at (CHR '']'') bracketed)
               else fst (partition_at (CHR '':'') hostinfo)))"

definition rstrip_slash :: "string \<Rightarrow> string" where
  "rstrip_slash s = rev (dropWhile (\<lambda>c. c = CHR ''/'') (rev s))"

definition safe_base_url :: "(string \<Rightarrow> bool) \<Rightarrow> toml option \<Rightarrow> config_error + string" where
  "safe_base_url bracketed_ok raw =
     (case raw of
        Some (TStr s) \<Rightarrow>
          let value = rstrip_slash s in
          (case urlsplit bracketed_ok value of
             None \<Rightarrow> Inl ValueErrorExc
           | Some p \<Rightarrow>
               if up_scheme p \<notin> {''http'', ''https''} \<or> url_hostname (up_netloc p) = []
                  \<or> fst (url_userinfo (up_netloc p)) \<noteq> [] \<or> snd (url_userinfo (up_netloc p)) \<noteq> []
                  \<or> up_query p \<noteq> [] \<or> up_fragment p \<noteq> []
               then Inl (ConfigError ''must be an http(s) URL without credentials, query, or fragment'')
               else Inr value)
      | _ \<Rightarrow> Inl (ConfigError ''url must be a string''))"

section \<open>The document\<close>

definition get_or :: "(string, toml) dict \<Rightarrow> string \<Rightarrow> toml \<Rightarrow> toml" where
  "get_or d k dflt = (case dict_get d k of Some v \<Rightarrow> v | None \<Rightarrow> dflt)"

definition py_str :: "(toml \<Rightarrow> string) \<Rightarrow> toml \<Rightarrow> string" where
  "py_str other v =
     (case v of
        TStr s \<Rightarrow> s
      | TInt i \<Rightarrow> int_str i
      | TBool b \<Rightarrow> if b then ''True'' else ''False''
      | _ \<Rightarrow> other v)"

fun tables :: "toml list \<Rightarrow> (string, toml) dict list option" where
  "tables [] = Some []"
| "tables (v # vs) =
     (case v of TTable d \<Rightarrow> map_option (\<lambda>ds. d # ds) (tables vs) | _ \<Rightarrow> None)"

definition expect_list :: "(string, toml) dict \<Rightarrow> string \<Rightarrow> config_error + (string, toml) dict list" where
  "expect_list data key =
     (case get_or data key (TArr []) of
        TArr vs \<Rightarrow> (case tables vs of Some ds \<Rightarrow> Inr ds
                                    | None \<Rightarrow> Inl (ConfigError ''must be an array of tables''))
      | _ \<Rightarrow> Inl (ConfigError ''must be an array of tables''))"

definition load_server ::
  "(toml \<Rightarrow> string) \<Rightarrow> (string, string) dict \<Rightarrow> (string, toml) dict \<Rightarrow> config_error + server_config" where
  "load_server other env raw =
     (case dict_get raw ''server'' of
        Some (TTable sv) \<Rightarrow>
          bind_result (bounded_int (get_or sv ''port'' (TInt 17400)) 1 65535) (\<lambda>port.
          bind_result (secret env (dict_get sv ''api_key_env'')) (\<lambda>api_key.
          bind_result (secret env (dict_get sv ''admin_api_key_env'')) (\<lambda>admin.
          bind_result (positive_float (get_or sv ''request_timeout_seconds'' (TInt 300)) 86400) (\<lambda>timeout.
          bind_result (bounded_int (get_or sv ''max_body_bytes'' (TInt (16 * 1024 * 1024))) 1024
                         (256 * 1024 * 1024)) (\<lambda>body.
          bind_result (bounded_int (get_or sv ''route_history_limit'' (TInt 10000)) 100 1000000) (\<lambda>hist.
          bind_result (positive_float (get_or sv ''poll_interval_seconds'' (TInt 2)) 300) (\<lambda>poll.
          bind_result (positive_float (get_or sv ''snapshot_ttl_seconds'' (TInt 10)) 3600) (\<lambda>ttl.
            if ttl \<le> poll then Inl (ConfigError ''snapshot_ttl_seconds must exceed poll_interval_seconds'')
            else Inr \<lparr>sc_host = py_str other (get_or sv ''host'' (TStr ''127.0.0.1'')), sc_port = port,
              sc_api_key = api_key, sc_admin_api_key = admin,
              sc_database_path = py_str other (get_or sv ''database_path'' (TStr ''/var/lib/mnemosyne-fleet/fleet.db'')),
              sc_request_timeout_seconds = timeout, sc_max_body_bytes = body,
              sc_route_history_limit = hist, sc_poll_interval_seconds = poll,
              sc_snapshot_ttl_seconds = ttl\<rparr>))))))))
      | _ \<Rightarrow> Inl (ConfigError ''[server] is required''))"

definition load_node ::
  "(string \<Rightarrow> bool) \<Rightarrow> (string, string) dict \<Rightarrow> string list \<Rightarrow> (string, toml) dict
   \<Rightarrow> config_error + node_config" where
  "load_node bracketed_ok env seen nd =
     (case dict_get nd ''node_id'' of
        Some (TStr node_id) \<Rightarrow>
          if py_strip node_id = [] \<or> 128 < length node_id then Inl (ConfigError ''node_id is invalid'')
          else if node_id \<in> set seen then Inl (ConfigError ''duplicate node_id'')
          else
            bind_result (case dict_get nd ''routing_weight'' of
                           None \<Rightarrow> Inr None
                         | Some w \<Rightarrow> bind_result (positive_float w 100000) (\<lambda>x. Inr (Some x))) (\<lambda>weight.
            bind_result (secret env (dict_get nd ''fleet_token_env'')) (\<lambda>fleet_token.
            bind_result (secret env (dict_get nd ''inference_token_env'')) (\<lambda>inference_token.
            bind_result (safe_base_url bracketed_ok (dict_get nd ''url'')) (\<lambda>url.
              Inr \<lparr>nc_node_id = node_id, nc_url = url, nc_fleet_token = fleet_token,
                   nc_inference_token = inference_token, nc_routing_weight = weight\<rparr>))))
      | _ \<Rightarrow> Inl (ConfigError ''node_id is invalid''))"

fun load_nodes ::
  "(string \<Rightarrow> bool) \<Rightarrow> (string, string) dict \<Rightarrow> string list \<Rightarrow> (string, toml) dict list
   \<Rightarrow> config_error + node_config list" where
  "load_nodes bok env seen [] = Inr []"
| "load_nodes bok env seen (nd # nds) =
     bind_result (load_node bok env seen nd) (\<lambda>n.
     bind_result (load_nodes bok env (nc_node_id n # seen) nds) (\<lambda>ns. Inr (n # ns)))"

text \<open>
  \<open>hmac.compare_digest\<close> on strings: a \<open>TypeError\<close> unless both are ASCII. The loop compares every
  credential with those before it.
\<close>

definition is_ascii :: "string \<Rightarrow> bool" where
  "is_ascii s = list_all (\<lambda>c. (of_char c :: nat) < 128) s"

definition hmac_compare :: "string \<Rightarrow> string \<Rightarrow> config_error + bool" where
  "hmac_compare l r = (if is_ascii l \<and> is_ascii r then Inr (l = r) else Inl TypeErrorExc)"

fun any_equal :: "string \<Rightarrow> string list \<Rightarrow> config_error + bool" where
  "any_equal c [] = Inr False"
| "any_equal c (p # ps) =
     bind_result (hmac_compare c p) (\<lambda>eq. if eq then Inr True else any_equal c ps)"

fun distinct_credentials :: "string list \<Rightarrow> string list \<Rightarrow> config_error option" where
  "distinct_credentials before [] = None"
| "distinct_credentials before (c # cs) =
     (case any_equal c before of
        Inl e \<Rightarrow> Some e
      | Inr True \<Rightarrow> Some (ConfigError ''all configured credentials must be distinct'')
      | Inr False \<Rightarrow> distinct_credentials (before @ [c]) cs)"

definition credential_values :: "server_config \<Rightarrow> node_config list \<Rightarrow> string list" where
  "credential_values sv nodes =
     [sc_api_key sv, sc_admin_api_key sv]
     @ concat (map (\<lambda>n. [nc_fleet_token n, nc_inference_token n]) nodes)"

fun toml_strings :: "toml list \<Rightarrow> string list option" where
  "toml_strings [] = Some []"
| "toml_strings (v # vs) =
     (case v of TStr s \<Rightarrow> if s = [] then None else map_option (\<lambda>ss. s # ss) (toml_strings vs)
              | _ \<Rightarrow> None)"

definition load_capabilities :: "toml option \<Rightarrow> config_error + string list" where
  "load_capabilities raw =
     (case raw of
        Some (TArr vs) \<Rightarrow>
          (if vs = [] then Inl (ConfigError ''capabilities must be a non-empty string array'')
           else case toml_strings vs of
                  None \<Rightarrow> Inl (ConfigError ''capabilities must be a non-empty string array'')
                | Some ss \<Rightarrow>
                    if length (remdups ss) \<noteq> length ss then Inl (ConfigError ''capabilities must be unique'')
                    else if \<not> set ss \<subseteq> set CAPABILITIES
                    then Inl (ConfigError ''capabilities contains an unsupported route'')
                    else Inr ss)
      | _ \<Rightarrow> Inl (ConfigError ''capabilities must be a non-empty string array''))"

definition load_deployment_id :: "toml option \<Rightarrow> config_error + string" where
  "load_deployment_id raw =
     (case raw of
        Some (TStr s) \<Rightarrow>
          if \<not> py_startswith s ''sha256:'' \<or> length s \<noteq> 71
          then Inl (ConfigError ''deployment_id must be sha256:<64 lowercase hex>'')
          else if py_int16 (drop 7 s) = None then Inl (ConfigError ''deployment_id is invalid'')
          else if s \<noteq> py_lower s then Inl (ConfigError ''deployment_id must be lowercase'')
          else Inr s
      | _ \<Rightarrow> Inl (ConfigError ''deployment_id must be sha256:<64 lowercase hex>''))"

definition load_model :: "string list \<Rightarrow> (string, toml) dict \<Rightarrow> config_error + model_config" where
  "load_model seen md =
     (case dict_get md ''name'' of
        Some (TStr name) \<Rightarrow>
          if py_strip name = [] \<or> 256 < length name then Inl (ConfigError ''name is invalid'')
          else if name \<in> set seen then Inl (ConfigError ''duplicate model name'')
          else
            bind_result (load_deployment_id (dict_get md ''deployment_id'')) (\<lambda>dep.
            bind_result (load_capabilities (dict_get md ''capabilities'')) (\<lambda>caps.
            bind_result (bounded_int (get_or md ''queue_depth'' (TInt 128)) 0 100000) (\<lambda>depth.
            bind_result (positive_float (get_or md ''queue_timeout_seconds'' (TInt 120)) 86400) (\<lambda>timeout.
              Inr \<lparr>mc_name = name, mc_deployment_id = dep, mc_capabilities = caps,
                   mc_queue_depth = depth, mc_queue_timeout_seconds = timeout\<rparr>))))
      | _ \<Rightarrow> Inl (ConfigError ''name is invalid''))"

fun load_models :: "string list \<Rightarrow> (string, toml) dict list \<Rightarrow> config_error + model_config list" where
  "load_models seen [] = Inr []"
| "load_models seen (md # mds) =
     bind_result (load_model seen md) (\<lambda>m.
     bind_result (load_models (mc_name m # seen) mds) (\<lambda>ms. Inr (m # ms)))"

definition load_ledger :: "(string, string) dict \<Rightarrow> (string, toml) dict \<Rightarrow> config_error + string option" where
  "load_ledger env raw =
     (case get_or raw ''ledger'' (TTable []) of
        TTable lg \<Rightarrow>
          (case dict_get lg ''dsn_env'' of
             None \<Rightarrow> Inr None
           | Some n \<Rightarrow> bind_result (secret env (Some n)) (\<lambda>s. Inr (Some s)))
      | _ \<Rightarrow> Inl (ConfigError ''[ledger] must be a table''))"

definition load_config ::
  "(toml \<Rightarrow> string) \<Rightarrow> (string \<Rightarrow> bool) \<Rightarrow> (string, string) dict \<Rightarrow> (string, toml) dict
   \<Rightarrow> config_error + fleet_config" where
  "load_config other bracketed_ok env raw =
     bind_result (load_server other env raw) (\<lambda>server.
     bind_result (expect_list raw ''nodes'') (\<lambda>node_rows.
     bind_result (load_nodes bracketed_ok env [] node_rows) (\<lambda>nodes.
       if nodes = [] then Inl (ConfigError ''at least one [[nodes]] enrollment is required'')
       else case distinct_credentials [] (credential_values server nodes) of
              Some e \<Rightarrow> Inl e
            | None \<Rightarrow>
                bind_result (expect_list raw ''models'') (\<lambda>model_rows.
                bind_result (load_models [] model_rows) (\<lambda>models.
                  if models = [] then Inl (ConfigError ''at least one [[models]] mapping is required'')
                  else bind_result (load_ledger env raw) (\<lambda>dsn.
                         Inr \<lparr>fc_server = server, fc_nodes = nodes, fc_models = models,
                              fc_ledger_dsn = dsn\<rparr>))))))"

text \<open>What an accepted configuration guarantees to the rest of the gateway.\<close>

definition node_config_ok :: "node_config \<Rightarrow> bool" where
  "node_config_ok n =
     (py_strip (nc_node_id n) \<noteq> [] \<and> length (nc_node_id n) \<le> 128
      \<and> opt_all (\<lambda>w. 0 < w \<and> w \<le> 100000) (nc_routing_weight n)
      \<and> py_strip (nc_fleet_token n) \<noteq> [] \<and> py_strip (nc_inference_token n) \<noteq> [])"

definition model_config_ok :: "model_config \<Rightarrow> bool" where
  "model_config_ok m =
     (py_strip (mc_name m) \<noteq> [] \<and> length (mc_name m) \<le> 256
      \<and> validate_sha256 (mc_deployment_id m) = None
      \<and> mc_capabilities m \<noteq> [] \<and> distinct (mc_capabilities m)
      \<and> set (mc_capabilities m) \<subseteq> set CAPABILITIES
      \<and> 0 \<le> mc_queue_depth m \<and> mc_queue_depth m \<le> 100000
      \<and> 0 < mc_queue_timeout_seconds m \<and> mc_queue_timeout_seconds m \<le> 86400)"

definition server_config_ok :: "server_config \<Rightarrow> bool" where
  "server_config_ok s =
     (1 \<le> sc_port s \<and> sc_port s \<le> 65535
      \<and> py_strip (sc_api_key s) \<noteq> [] \<and> py_strip (sc_admin_api_key s) \<noteq> []
      \<and> 0 < sc_request_timeout_seconds s \<and> sc_request_timeout_seconds s \<le> 86400
      \<and> 1024 \<le> sc_max_body_bytes s \<and> sc_max_body_bytes s \<le> 268435456
      \<and> 100 \<le> sc_route_history_limit s \<and> sc_route_history_limit s \<le> 1000000
      \<and> 0 < sc_poll_interval_seconds s \<and> sc_poll_interval_seconds s \<le> 300
      \<and> sc_poll_interval_seconds s < sc_snapshot_ttl_seconds s \<and> sc_snapshot_ttl_seconds s \<le> 3600)"

text \<open>
  The address of a node: an http(s) URL with a host, without credentials, query, fragment or final slash.
\<close>

definition node_url_ok :: "(string \<Rightarrow> bool) \<Rightarrow> string \<Rightarrow> bool" where
  "node_url_ok bracketed_ok url =
     ((case urlsplit bracketed_ok url of
         None \<Rightarrow> False
       | Some p \<Rightarrow> up_scheme p \<in> {''http'', ''https''} \<and> url_hostname (up_netloc p) \<noteq> []
           \<and> url_userinfo (up_netloc p) = ([], []) \<and> up_query p = [] \<and> up_fragment p = [])
      \<and> (url = [] \<or> last url \<noteq> CHR ''/''))"

definition config_ok :: "fleet_config \<Rightarrow> bool" where
  "config_ok c =
     (server_config_ok (fc_server c)
      \<and> fc_nodes c \<noteq> [] \<and> distinct (map nc_node_id (fc_nodes c)) \<and> list_all node_config_ok (fc_nodes c)
      \<and> distinct (credential_values (fc_server c) (fc_nodes c))
      \<and> fc_models c \<noteq> [] \<and> distinct (map mc_name (fc_models c)) \<and> list_all model_config_ok (fc_models c))"

definition demo_env :: "(string, string) dict" where
  "demo_env = [(''K'', ''key''), (''A'', ''admin''), (''F'', ''ft''), (''I'', ''it'')]"

definition demo_toml :: "(string, toml) dict" where
  "demo_toml =
     [(''server'', TTable [(''api_key_env'', TStr ''K''), (''admin_api_key_env'', TStr ''A'')]),
      (''nodes'', TArr [TTable [(''node_id'', TStr ''n1''), (''url'', TStr ''http://h:1/''),
         (''fleet_token_env'', TStr ''F''), (''inference_token_env'', TStr ''I'')]]),
      (''models'', TArr [TTable [(''name'', TStr ''m''),
         (''deployment_id'', TStr (''sha256:'' @ replicate 64 (CHR ''0''))),
         (''capabilities'', TArr [TStr ''completions'']) ]])]"

section \<open>Lemmas\<close>

lemma bounded_int_range: "bounded_int v lo hi = Inr i \<Longrightarrow> lo \<le> i \<and> i \<le> hi"
  by (auto simp: bounded_int_def split: toml.splits if_splits)

lemma positive_float_range: "positive_float v m = Inr x \<Longrightarrow> 0 < x \<and> x \<le> m"
proof -
  assume "positive_float v m = Inr x"
  then obtain p where "(case p of
        Fin y \<Rightarrow> if y \<le> 0 \<or> m < y
                 then Inl (ConfigError ''must be greater than zero and at most the maximum'') else Inr y
      | _ \<Rightarrow> Inl (ConfigError ''must be a finite number'')) = Inr x"
    by (auto simp: positive_float_def split: toml.splits)
  then show ?thesis by (cases p) (auto split: if_splits)
qed

lemma secret_nonblank: "secret env n = Inr s \<Longrightarrow> py_strip s \<noteq> []"
  by (auto simp: secret_def split: option.splits toml.splits if_splits)

lemma rstrip_slash_last: "rstrip_slash s = [] \<or> last (rstrip_slash s) \<noteq> CHR ''/''"
  using hd_dropWhile [of "\<lambda>c. c = CHR ''/''" "rev s"] by (auto simp: rstrip_slash_def last_rev)

lemma safe_base_url_ok: "safe_base_url bok raw = Inr url \<Longrightarrow> node_url_ok bok url"
  using rstrip_slash_last
  by (auto simp: safe_base_url_def node_url_ok_def Let_def prod_eq_iff split: option.splits toml.splits if_splits)

lemma load_server_ok: "load_server other env raw = Inr s \<Longrightarrow> server_config_ok s"
  by (auto simp: load_server_def server_config_ok_def
      dest!: bounded_int_range positive_float_range secret_nonblank split: option.splits toml.splits if_splits)

lemma load_node_ok:
  "load_node bok env seen nd = Inr n \<Longrightarrow> node_config_ok n \<and> node_url_ok bok (nc_url n) \<and> nc_node_id n \<notin> set seen"
  by (auto simp: load_node_def node_config_ok_def opt_all_def
      dest!: positive_float_range secret_nonblank safe_base_url_ok split: option.splits toml.splits if_splits)

lemma load_nodes_ok:
  "load_nodes bok env seen nds = Inr ns \<Longrightarrow>
     list_all node_config_ok ns \<and> list_all (\<lambda>n. node_url_ok bok (nc_url n)) ns
     \<and> distinct (map nc_node_id ns) \<and> set (map nc_node_id ns) \<inter> set seen = {}"
proof (induction nds arbitrary: seen ns)
  case (Cons nd nds)
  then obtain n ns' where n: "load_node bok env seen nd = Inr n"
    and ns': "load_nodes bok env (nc_node_id n # seen) nds = Inr ns'" and ns: "ns = n # ns'" by auto
  show ?case using load_node_ok [OF n] Cons.IH [OF ns'] ns by auto
qed simp

lemma load_deployment_id_ok: "load_deployment_id raw = Inr s \<Longrightarrow> validate_sha256 s = None"
  by (auto simp: load_deployment_id_def validate_sha256_def split: option.splits toml.splits if_splits)

lemma length_remdups_distinct: "length (remdups xs) = length xs \<Longrightarrow> distinct xs"
  by (simp add: card_distinct length_remdups_card_conv)

lemma toml_strings_nonempty: "toml_strings vs = Some ss \<Longrightarrow> vs \<noteq> [] \<Longrightarrow> ss \<noteq> []"
  by (cases vs) (auto split: toml.splits if_splits)

lemma load_capabilities_ok:
  "load_capabilities raw = Inr ss \<Longrightarrow> ss \<noteq> [] \<and> distinct ss \<and> set ss \<subseteq> set CAPABILITIES"
  by (auto simp: load_capabilities_def dest: length_remdups_distinct toml_strings_nonempty
      split: option.splits toml.splits if_splits)

lemma load_model_ok:
  "load_model seen md = Inr m \<Longrightarrow> model_config_ok m \<and> mc_name m \<notin> set seen"
  by (auto simp: load_model_def model_config_ok_def
      dest!: positive_float_range bounded_int_range load_deployment_id_ok load_capabilities_ok
      split: option.splits toml.splits if_splits)

lemma load_models_ok:
  "load_models seen mds = Inr ms \<Longrightarrow>
     list_all model_config_ok ms \<and> distinct (map mc_name ms) \<and> set (map mc_name ms) \<inter> set seen = {}"
proof (induction mds arbitrary: seen ms)
  case (Cons md mds)
  then obtain m ms' where m: "load_model seen md = Inr m"
    and ms': "load_models (mc_name m # seen) mds = Inr ms'" and ms: "ms = m # ms'" by auto
  show ?case using load_model_ok [OF m] Cons.IH [OF ms'] ms by auto
qed simp

lemma any_equal_False: "any_equal c ps = Inr False \<Longrightarrow> c \<notin> set ps"
  by (induction ps) (auto simp: hmac_compare_def split: if_splits)

lemma distinct_credentials_ok:
  "distinct_credentials before cs = None \<Longrightarrow> distinct cs \<and> set cs \<inter> set before = {}"
proof (induction cs arbitrary: before)
  case (Cons c cs)
  then have a: "any_equal c before = Inr False" and r: "distinct_credentials (before @ [c]) cs = None"
    by (auto split: sum.splits bool.splits)
  show ?case using any_equal_False [OF a] Cons.IH [OF r] by auto
qed simp

section \<open>Properties\<close>

text \<open>
  C29: a configuration that the loader accepts is safe for the gateway: port, timeouts, body size,
  history and poll interval between their lower and upper bounds, a snapshot lifetime longer than the
  poll interval, at least one node and one model, unique node identifiers and model names, node
  addresses that are http(s) URLs without credentials, query or fragment, positive bounded routing
  weights, capabilities from the supported routes, well-formed deployment references, and all
  credentials non-blank and pairwise distinct.
\<close>

theorem accepted_config_safe:
  assumes "load_config other bracketed_ok env raw = Inr c"
  shows "config_ok c \<and> (\<forall>n \<in> set (fc_nodes c). node_url_ok bracketed_ok (nc_url n))"
proof -
  obtain sv rows ns mrows ms dsn where
    "load_server other env raw = Inr sv" and n: "load_nodes bracketed_ok env [] rows = Inr ns" and "ns \<noteq> []"
    and d: "distinct_credentials [] (credential_values sv ns) = None"
    and m: "load_models [] mrows = Inr ms" and "ms \<noteq> []"
    and c: "c = \<lparr>fc_server = sv, fc_nodes = ns, fc_models = ms, fc_ledger_dsn = dsn\<rparr>"
    using assms by (auto simp: load_config_def split: if_splits option.splits)
  then show ?thesis
    using load_server_ok load_nodes_ok [OF n] distinct_credentials_ok [OF d] load_models_ok [OF m]
    by (simp add: config_ok_def list_all_iff)
qed

theorem accepted_config_safe_witness:
  "\<exists>c. load_config (\<lambda>_. []) (\<lambda>_. False) demo_env demo_toml = Inr c \<and> config_ok c"
proof -
  note eval = dict_get_Cons get_or_def secret_def py_strip_def py_isspace_def bounded_int_def toml_int_def
    positive_float_def toml_float_def to_double_def
  let ?sv = "\<lparr>sc_host = ''127.0.0.1'', sc_port = 17400, sc_api_key = ''key'', sc_admin_api_key = ''admin'',
     sc_database_path = ''/var/lib/mnemosyne-fleet/fleet.db'', sc_request_timeout_seconds = 300,
     sc_max_body_bytes = 16777216, sc_route_history_limit = 10000, sc_poll_interval_seconds = 2,
     sc_snapshot_ttl_seconds = 10\<rparr>"
  have sv: "load_server (\<lambda>_. []) demo_env demo_toml = Inr ?sv"
    by (simp add: load_server_def demo_toml_def demo_env_def eval py_str_def)
  have url: "safe_base_url (\<lambda>_. False) (Some (TStr ''http://h:1/'')) = Inr ''http://h:1''" by code_simp
  have nodes: "\<exists>rows ns. expect_list demo_toml ''nodes'' = Inr rows
      \<and> load_nodes (\<lambda>_. False) demo_env [] rows = Inr ns \<and> ns \<noteq> []
      \<and> distinct_credentials [] (credential_values ?sv ns) = None"
    by (simp add: expect_list_def demo_toml_def demo_env_def eval load_node_def url credential_values_def
        hmac_compare_def is_ascii_def)
  have dep: "load_deployment_id (Some (TStr (''sha256:'' @ replicate 64 (CHR ''0''))))
      = Inr (''sha256:'' @ replicate 64 (CHR ''0''))" by code_simp
  have models: "\<exists>rows ms. expect_list demo_toml ''models'' = Inr rows \<and> load_models [] rows = Inr ms \<and> ms \<noteq> []"
    using dep by (simp add: expect_list_def demo_toml_def eval load_model_def load_capabilities_def CAPABILITIES_def)
  have ledger: "load_ledger demo_env demo_toml = Inr None" by (simp add: load_ledger_def demo_toml_def eval)
  from nodes models obtain rows ns mrows ms where
    "expect_list demo_toml ''nodes'' = Inr rows" "load_nodes (\<lambda>_. False) demo_env [] rows = Inr ns" "ns \<noteq> []"
    "distinct_credentials [] (credential_values ?sv ns) = None"
    "expect_list demo_toml ''models'' = Inr mrows" "load_models [] mrows = Inr ms" "ms \<noteq> []" by blast
  then have "load_config (\<lambda>_. []) (\<lambda>_. False) demo_env demo_toml
      = Inr \<lparr>fc_server = ?sv, fc_nodes = ns, fc_models = ms, fc_ledger_dsn = None\<rparr>"
    by (simp add: load_config_def sv ledger del: bind_result_Inr)
  then show ?thesis using accepted_config_safe by blast
qed

end
