(* ===== verification/Fleet_Registry.thy ===== *)
theory Fleet_Registry
  imports Fleet_Config
begin

text \<open>
  The gateway's view of the nodes, \<open>fleet/src/mnemosyne_fleet/registry.py\<close>: one poll of a node, from
  the response it gets to the record it keeps, the replay fences (snapshot sequence and retired
  process instances), the live records and the operator's status view. A poll changes the registry
  in one atomic section once the body has been read; the response, with the way its stream ends, is
  carried by the event, as are the clock readings. The JSON decoder, pydantic's decoding and SHA-256
  are parameters, bundled in \<open>codec\<close>; the wire schema is \<open>snapshot_schema\<close>.
\<close>

section \<open>Data\<close>

definition MAX_SNAPSHOT_BYTES :: nat where
  "MAX_SNAPSHOT_BYTES = 8 * 1024 * 1024"

definition MAX_RETIRED_INSTANCE_IDS :: nat where
  "MAX_RETIRED_INSTANCE_IDS = 1024"

record node_record =
  nr_enrollment :: node_config
  nr_snapshot :: snapshot
  nr_received_at :: rat
  nr_received_monotonic :: rat
  nr_poll_started_monotonic :: rat

record registry =
  rg_nodes :: "node_config list"
  rg_poll_interval :: rat
  rg_ttl :: rat
  rg_records :: "(string, node_record) dict"
  rg_errors :: "(string, string option) dict"
  rg_retired :: "(string, string list) dict"

record codec =
  cd_sha :: "string \<Rightarrow> string"
  cd_loads :: "string \<Rightarrow> json option"
  cd_decode :: "json \<Rightarrow> snapshot option"

datatype stream_end = StreamDone | StreamTimeout | StreamBroken

record poll_response =
  pr_status :: int
  pr_content_encoding :: "string option"
  pr_content_length :: "string option"
  pr_consumed :: bool
  pr_chunks :: "string list"
  pr_end :: stream_end

datatype fetch = FetchTimeout | FetchHttpError | Fetched poll_response

definition init_registry :: "node_config list \<Rightarrow> rat \<Rightarrow> rat \<Rightarrow> registry" where
  "init_registry nodes poll ttl =
     \<lparr>rg_nodes = nodes, rg_poll_interval = poll, rg_ttl = ttl, rg_records = [],
      rg_errors = map (\<lambda>n. (nc_node_id n, Some ''not_polled'')) nodes,
      rg_retired = map (\<lambda>n. (nc_node_id n, [])) nodes\<rparr>"

section \<open>Polling\<close>

text \<open>The timeout of the request: the poll interval, at least one and at most ten seconds.\<close>

definition poll_timeout :: "registry \<Rightarrow> rat" where
  "poll_timeout r = min (max (rg_poll_interval r) 1) 10"

definition set_error :: "string \<Rightarrow> string option \<Rightarrow> registry \<Rightarrow> registry" where
  "set_error node_id e r = r\<lparr>rg_errors := dict_put node_id e (rg_errors r)\<rparr>"

text \<open>Reading the body: the error code of the poll, or the bytes.\<close>

fun read_chunks :: "string \<Rightarrow> string list \<Rightarrow> stream_end \<Rightarrow> string + string" where
  "read_chunks body [] e =
     (case e of StreamDone \<Rightarrow> Inr body | StreamTimeout \<Rightarrow> Inl ''poll_timeout''
              | StreamBroken \<Rightarrow> Inl ''poll_transport_error'')"
| "read_chunks body (c # cs) e =
     (if MAX_SNAPSHOT_BYTES < length (body @ c) then Inl ''snapshot_too_large''
      else read_chunks (body @ c) cs e)"

definition read_response :: "poll_response \<Rightarrow> string + string" where
  "read_response p =
     (if pr_status p \<noteq> 200 then Inl (''http_'' @ int_str (pr_status p))
      else if (case pr_content_encoding p of
                 None \<Rightarrow> False | Some e \<Rightarrow> e \<noteq> [] \<and> py_lower e \<noteq> ''identity'')
      then Inl ''snapshot_encoding_unsupported''
      else
        case (case pr_content_length p of
                None \<Rightarrow> None
              | Some l \<Rightarrow>
                  (case py_int l of
                     None \<Rightarrow> Some ''invalid_snapshot''
                   | Some n \<Rightarrow> if n < 0 then Some ''invalid_snapshot''
                               else if int MAX_SNAPSHOT_BYTES < n then Some ''snapshot_too_large''
                               else None)) of
          Some e \<Rightarrow> Inl e
        | None \<Rightarrow>
            if pr_consumed p then
              (if MAX_SNAPSHOT_BYTES < length (concat (pr_chunks p)) then Inl ''snapshot_too_large''
               else Inr (concat (pr_chunks p)))
            else read_chunks [] (pr_chunks p) (pr_end p))"

definition instance_of :: "node_record \<Rightarrow> string" where
  "instance_of rec = nd_instance_id (sn_node (nr_snapshot rec))"

definition sequence_of :: "node_record \<Rightarrow> int" where
  "sequence_of rec = sn_snapshot_sequence (nr_snapshot rec)"

definition retired_of :: "registry \<Rightarrow> string \<Rightarrow> string list" where
  "retired_of r node_id = (case dict_get (rg_retired r) node_id of None \<Rightarrow> [] | Some xs \<Rightarrow> xs)"

text \<open>The fences and the publication of a validated snapshot.\<close>

definition accept_snapshot ::
  "node_config \<Rightarrow> snapshot \<Rightarrow> rat \<Rightarrow> rat \<Rightarrow> rat \<Rightarrow> registry \<Rightarrow> bool \<times> registry" where
  "accept_snapshot node snap started wall tick r =
     (let nid = nc_node_id node;
          prior = dict_get (rg_records r) nid;
          inst = nd_instance_id (sn_node snap);
          retired = retired_of r nid;
          publish = (\<lambda>r1. (True, set_error nid None
            (r1\<lparr>rg_records := dict_put nid
                \<lparr>nr_enrollment = node, nr_snapshot = snap, nr_received_at = wall,
                 nr_received_monotonic = tick, nr_poll_started_monotonic = started\<rparr>
                (rg_records r1)\<rparr>)))
      in if inst \<in> set retired then (False, set_error nid (Some ''snapshot_instance_replayed'') r)
         else case prior of
                None \<Rightarrow> publish r
              | Some p \<Rightarrow>
                  if instance_of p = inst then
                    (if sn_snapshot_sequence snap \<le> sequence_of p
                     then (False, set_error nid (Some ''snapshot_sequence_replayed'') r)
                     else publish r)
                  else if MAX_RETIRED_INSTANCE_IDS \<le> length retired
                  then (False, set_error nid (Some ''snapshot_instance_churn_exhausted'') r)
                  else publish (r\<lparr>rg_retired := dict_put nid (List.insert (instance_of p) retired)
                                                  (rg_retired r)\<rparr>))"

definition poll_once ::
  "codec \<Rightarrow> node_config \<Rightarrow> fetch \<Rightarrow> rat \<Rightarrow> rat \<Rightarrow> rat \<Rightarrow> registry \<Rightarrow> bool \<times> registry" where
  "poll_once cd node f started wall tick r =
     (let nid = nc_node_id node; failed = (\<lambda>e. (False, set_error nid (Some e) r))
      in case f of
           FetchTimeout \<Rightarrow> failed ''poll_timeout''
         | FetchHttpError \<Rightarrow> failed ''poll_transport_error''
         | Fetched p \<Rightarrow>
             (case read_response p of
                Inl e \<Rightarrow> failed e
              | Inr body \<Rightarrow>
                  (case cd_loads cd body of
                     None \<Rightarrow> failed ''invalid_snapshot''
                   | Some payload \<Rightarrow>
                       (case validate_snapshot (cd_sha cd) (cd_decode cd) payload nid of
                          Inl e \<Rightarrow> failed ''invalid_snapshot''
                        | Inr snap \<Rightarrow> accept_snapshot node snap started wall tick r))))"

section \<open>Views\<close>

definition is_live :: "registry \<Rightarrow> node_record \<Rightarrow> rat \<Rightarrow> bool" where
  "is_live r rec now = (now - nr_received_monotonic rec \<le> rg_ttl r)"

definition live_records :: "registry \<Rightarrow> rat \<Rightarrow> node_record list" where
  "live_records r now = filter (\<lambda>rec. is_live r rec now) (map snd (rg_records r))"

definition registry_record :: "registry \<Rightarrow> string \<Rightarrow> node_record option" where
  "registry_record r node_id = dict_get (rg_records r) node_id"

definition error_code :: "registry \<Rightarrow> string \<Rightarrow> string option" where
  "error_code r node_id = (case dict_get (rg_errors r) node_id of None \<Rightarrow> None | Some e \<Rightarrow> e)"

record deployment_view =
  dv_alias :: string
  dv_deployment_id :: string
  dv_engine :: string
  dv_upstream_model :: string
  dv_resolved_revision :: "string option"
  dv_artifact_format :: string
  dv_artifact_quantization :: "string option"
  dv_artifact_content_digest :: "string option"
  dv_kind :: string
  dv_capabilities :: "string list"
  dv_load_config_digest :: string
  dv_identity_confidence :: string
  dv_fleet_eligible :: bool
  dv_loadable :: bool
  dv_warm :: bool
  dv_capacity :: capacity

definition deployment_inventory :: "snapshot \<Rightarrow> deployment_view list" where
  "deployment_inventory s =
     map (\<lambda>d. let i = dp_identity d; a = di_artifact i in
            \<lparr>dv_alias = dp_alias d, dv_deployment_id = dp_deployment_id d, dv_engine = di_engine i,
             dv_upstream_model = di_upstream_model i, dv_resolved_revision = di_resolved_revision i,
             dv_artifact_format = ar_format a, dv_artifact_quantization = ar_quantization a,
             dv_artifact_content_digest = ar_content_digest a, dv_kind = di_kind i,
             dv_capabilities = di_capabilities i, dv_load_config_digest = di_load_config_digest i,
             dv_identity_confidence = dp_identity_confidence d, dv_fleet_eligible = dp_fleet_eligible d,
             dv_loadable = dp_loadable d, dv_warm = dp_warm d, dv_capacity = dp_capacity d\<rparr>)
         (sn_deployments s)"

text \<open>One row of \<open>status\<close>: without a record only the first part, else also the snapshot's parts.\<close>

record node_status =
  ns_node_id :: string
  ns_online :: bool
  ns_last_seen :: "rat option"
  ns_error_code :: "string option"
  ns_snapshot :: "(node_descriptor \<times> health \<times> residency \<times> admission \<times> capacity \<times> usage_delivery) option"
  ns_deployments :: "deployment_view list"

definition registry_status :: "registry \<Rightarrow> rat \<Rightarrow> node_status list" where
  "registry_status r now =
     map (\<lambda>n. let nid = nc_node_id n in
            case dict_get (rg_records r) nid of
              None \<Rightarrow> \<lparr>ns_node_id = nid, ns_online = False, ns_last_seen = None,
                       ns_error_code = error_code r nid, ns_snapshot = None, ns_deployments = []\<rparr>
            | Some rec \<Rightarrow>
                let s = nr_snapshot rec in
                \<lparr>ns_node_id = nid, ns_online = is_live r rec now, ns_last_seen = Some (nr_received_at rec),
                 ns_error_code = error_code r nid,
                 ns_snapshot = Some (sn_node s, sn_health s, sn_residency s, sn_admission s,
                                     sn_capacity s, sn_usage_delivery s),
                 ns_deployments = deployment_inventory s\<rparr>)
         (rg_nodes r)"

section \<open>Runs and the invariant\<close>

datatype poll_event = Poll node_config fetch rat rat rat

fun registry_step :: "codec \<Rightarrow> poll_event \<Rightarrow> registry \<Rightarrow> registry option" where
  "registry_step cd (Poll node f started wall tick) r =
     (if node \<in> set (rg_nodes r) then Some (snd (poll_once cd node f started wall tick r)) else None)"

definition registry_init :: "registry \<Rightarrow> bool" where
  "registry_init r = (\<exists>nodes poll ttl. r = init_registry nodes poll ttl)"

text \<open>
  Every record is a validated snapshot of the node it is filed under, its instance is not retired,
  and at most \<open>MAX_RETIRED_INSTANCE_IDS\<close> instances are, each once.
\<close>

definition registry_inv :: "codec \<Rightarrow> registry \<Rightarrow> bool" where
  "registry_inv cd r =
     (\<forall>nid. distinct (retired_of r nid) \<and> length (retired_of r nid) \<le> MAX_RETIRED_INSTANCE_IDS
        \<and> (\<forall>rec. registry_record r nid = Some rec \<longrightarrow>
             instance_of rec \<notin> set (retired_of r nid)
             \<and> nd_node_id (sn_node (nr_snapshot rec)) = nid
             \<and> nc_node_id (nr_enrollment rec) = nid
             \<and> snapshot_error (cd_sha cd) (nr_snapshot rec) = None))"

text \<open>
  How a node's record may evolve: the later record is the earlier one itself, or of the same instance
  with a strictly higher sequence number, or the earlier instance has been retired.
\<close>

definition forward :: "registry \<Rightarrow> registry \<Rightarrow> bool" where
  "forward r r' =
     (\<forall>nid. set (retired_of r nid) \<subseteq> set (retired_of r' nid)
        \<and> (\<forall>rec. registry_record r nid = Some rec \<longrightarrow>
             (\<exists>rec'. registry_record r' nid = Some rec'
                \<and> (rec' = rec \<or> instance_of rec' = instance_of rec \<and> sequence_of rec < sequence_of rec'
                   \<or> instance_of rec \<in> set (retired_of r' nid)))))"

text \<open>The two outcomes of a poll: the node's record is kept, or replaced behind the fences.\<close>

definition kept :: "registry \<Rightarrow> registry \<Rightarrow> bool" where
  "kept r r' = (rg_nodes r' = rg_nodes r \<and> rg_records r' = rg_records r \<and> rg_retired r' = rg_retired r)"

definition replaced :: "node_config \<Rightarrow> node_record \<Rightarrow> registry \<Rightarrow> registry \<Rightarrow> bool" where
  "replaced node rec r r' =
     (let nid = nc_node_id node in
      rg_nodes r' = rg_nodes r \<and> nr_enrollment rec = node
      \<and> registry_record r' nid = Some rec
      \<and> (\<forall>m. m \<noteq> nid \<longrightarrow> registry_record r' m = registry_record r m \<and> retired_of r' m = retired_of r m)
      \<and> instance_of rec \<notin> set (retired_of r nid)
      \<and> (case registry_record r nid of
           None \<Rightarrow> retired_of r' nid = retired_of r nid
         | Some p \<Rightarrow>
             if instance_of p = instance_of rec
             then retired_of r' nid = retired_of r nid \<and> sequence_of p < sequence_of rec
             else length (retired_of r nid) < MAX_RETIRED_INSTANCE_IDS
                  \<and> retired_of r' nid = List.insert (instance_of p) (retired_of r nid)))"

definition demo_node :: node_config where
  "demo_node = \<lparr>nc_node_id = ''n1'', nc_url = ''http://h:1'', nc_fleet_token = ''ft'',
     nc_inference_token = ''it'', nc_routing_weight = None\<rparr>"

text \<open>A decoder for two documents: the sample snapshot, and one of a restarted node process.\<close>

definition demo_restarted :: snapshot where
  "demo_restarted = demo_snapshot
     \<lparr>sn_node := (sn_node demo_snapshot)\<lparr>nd_instance_id := ''i2''\<rparr>, sn_snapshot_sequence := 0\<rparr>"

definition demo_codec :: codec where
  "demo_codec =
     \<lparr>cd_sha = demo_sha,
      cd_loads = (\<lambda>p. if p = ''a'' then Some (snapshot_json demo_snapshot)
                       else if p = ''b'' then Some (snapshot_json demo_restarted) else None),
      cd_decode = (\<lambda>j. case j of
          JObj kvs \<Rightarrow> (case dict_get kvs ''snapshot_sequence'' of
              Some (JInt n) \<Rightarrow> if n = 7 then Some demo_snapshot else Some demo_restarted
            | _ \<Rightarrow> None)
        | _ \<Rightarrow> None)\<rparr>"

definition demo_response :: "string \<Rightarrow> fetch" where
  "demo_response body = Fetched \<lparr>pr_status = 200, pr_content_encoding = None, pr_content_length = None,
     pr_consumed = False, pr_chunks = [body], pr_end = StreamDone\<rparr>"

definition demo_polls :: "poll_event list" where
  "demo_polls = [Poll demo_node (demo_response ''a'') 1 1 1, Poll demo_node (demo_response ''b'') 2 2 2,
                 Poll demo_node (demo_response ''a'') 3 3 3]"

section \<open>Lemmas\<close>

lemma validate_snapshot_Inr:
  "validate_snapshot sha dec payload nid = Inr s \<Longrightarrow>
     snapshot_error sha s = None \<and> nd_node_id (sn_node s) = nid"
  by (auto simp: validate_snapshot_def split: if_splits option.splits)

lemma set_error_frame [simp]:
  "rg_nodes (set_error n e r) = rg_nodes r" "rg_ttl (set_error n e r) = rg_ttl r"
  "rg_records (set_error n e r) = rg_records r" "rg_retired (set_error n e r) = rg_retired r"
  "rg_poll_interval (set_error n e r) = rg_poll_interval r"
  "registry_record (set_error n e r) = registry_record r" "retired_of (set_error n e r) = retired_of r"
  "error_code (set_error n e r) n = e"
  by (auto simp: set_error_def registry_record_def retired_of_def error_code_def fun_eq_iff)

lemma kept_same: "kept r r' \<Longrightarrow> registry_record r' = registry_record r \<and> retired_of r' = retired_of r"
  by (simp add: kept_def registry_record_def retired_of_def fun_eq_iff)

lemma retired_of_put [simp]:
  "retired_of (r\<lparr>rg_retired := dict_put nid xs (rg_retired r)\<rparr>) m = (if m = nid then xs else retired_of r m)"
  by (simp add: retired_of_def)

lemma registry_frame [simp]:
  "retired_of (r\<lparr>rg_records := x\<rparr>) = retired_of r"
  "registry_record (r\<lparr>rg_retired := y\<rparr>) = registry_record r"
  "registry_record (r\<lparr>rg_records := dict_put nid rec d\<rparr>) m = (if m = nid then Some rec else dict_get d m)"
  by (simp_all add: retired_of_def registry_record_def fun_eq_iff)

lemma retired_of_both [simp]:
  "retired_of (r\<lparr>rg_retired := dict_put nid xs (rg_retired r), rg_records := x\<rparr>) m
     = (if m = nid then xs else retired_of r m)"
  by (simp add: retired_of_def)

lemma accept_snapshot_effect:
  assumes "accept_snapshot node snap started wall tick r = (ok, r')"
  shows "if ok then error_code r' (nc_node_id node) = None
           \<and> replaced node \<lparr>nr_enrollment = node, nr_snapshot = snap, nr_received_at = wall,
               nr_received_monotonic = tick, nr_poll_started_monotonic = started\<rparr> r r'
         else error_code r' (nc_node_id node) \<noteq> None \<and> kept r r'"
  using assms
  by (auto simp: accept_snapshot_def Let_def replaced_def kept_def instance_of_def sequence_of_def
      registry_record_def split: if_splits option.splits)

lemma poll_once_effect:
  assumes "poll_once cd node f started wall tick r = (ok, r')"
  shows "if ok then error_code r' (nc_node_id node) = None
           \<and> (\<exists>rec. replaced node rec r r' \<and> nr_poll_started_monotonic rec = started
                \<and> nr_received_monotonic rec = tick
                \<and> snapshot_error (cd_sha cd) (nr_snapshot rec) = None
                \<and> nd_node_id (sn_node (nr_snapshot rec)) = nc_node_id node
                \<and> (\<exists>p body payload. f = Fetched p \<and> read_response p = Inr body \<and> cd_loads cd body = Some payload
                     \<and> snapshot_schema payload \<and> cd_decode cd payload = Some (nr_snapshot rec)))
         else error_code r' (nc_node_id node) \<noteq> None \<and> kept r r'"
proof -
  consider e where "ok = False" and "r' = set_error (nc_node_id node) (Some e) r"
    | p body payload snap where "f = Fetched p" "read_response p = Inr body" "cd_loads cd body = Some payload"
      and "validate_snapshot (cd_sha cd) (cd_decode cd) payload (nc_node_id node) = Inr snap"
      and "accept_snapshot node snap started wall tick r = (ok, r')"
    using assms unfolding poll_once_def Let_def by (auto split: fetch.splits sum.splits option.splits)
  then show ?thesis
  proof cases
    case 1
    then show ?thesis by (simp add: kept_def)
  next
    case 2
    note v = validate_snapshot_Inr [OF 2(4)]
    have "snapshot_schema payload" "cd_decode cd payload = Some snap"
      using 2(4) by (auto simp: validate_snapshot_def split: if_splits option.splits)
    then show ?thesis using accept_snapshot_effect [OF 2(5)] v 2(1-3) by (cases ok) auto
  qed
qed

lemma length_insert: "length (List.insert x xs) \<le> Suc (length xs)"
  by (simp add: List.insert_def)

lemma replaced_inv:
  assumes "registry_inv cd r" and "replaced node rec r r'"
    and "snapshot_error (cd_sha cd) (nr_snapshot rec) = None"
    and "nd_node_id (sn_node (nr_snapshot rec)) = nc_node_id node"
  shows "registry_inv cd r'"
  unfolding registry_inv_def
proof
  fix nid
  show "distinct (retired_of r' nid) \<and> length (retired_of r' nid) \<le> MAX_RETIRED_INSTANCE_IDS
    \<and> (\<forall>x. registry_record r' nid = Some x \<longrightarrow> instance_of x \<notin> set (retired_of r' nid)
         \<and> nd_node_id (sn_node (nr_snapshot x)) = nid \<and> nc_node_id (nr_enrollment x) = nid
         \<and> snapshot_error (cd_sha cd) (nr_snapshot x) = None)"
  proof (cases "nid = nc_node_id node")
    case True
    have "distinct (retired_of r nid)" "length (retired_of r nid) \<le> MAX_RETIRED_INSTANCE_IDS"
      using assms(1) by (auto simp: registry_inv_def)
    then show ?thesis using assms(2-4) True
      by (auto simp: replaced_def Let_def intro: order_trans [OF length_insert]
          split: option.splits if_splits)
  next
    case False
    then have "registry_record r' nid = registry_record r nid" "retired_of r' nid = retired_of r nid"
      using assms(2) by (auto simp: replaced_def Let_def)
    then show ?thesis using assms(1) by (auto simp: registry_inv_def)
  qed
qed

lemma registry_step_inv:
  assumes "registry_inv cd r" and "registry_step cd e r = Some r'"
  shows "registry_inv cd r'"
proof -
  obtain node f st w t ok where p: "poll_once cd node f st w t r = (ok, r')"
    using assms(2) by (cases e) (auto simp: prod_eq_iff split: if_splits)
  show ?thesis
  proof (cases ok)
    case True
    then show ?thesis using poll_once_effect [OF p] assms(1) by (auto intro: replaced_inv)
  next
    case False
    then have "kept r r'" using poll_once_effect [OF p] by simp
    then show ?thesis using assms(1) kept_same by (simp add: registry_inv_def)
  qed
qed

lemma init_registry_inv: "registry_init r \<Longrightarrow> registry_inv cd r"
  by (auto simp: registry_init_def init_registry_def registry_inv_def retired_of_def registry_record_def
      dict_get_def split: option.splits dest!: map_of_SomeD)

lemma forward_refl: "forward r r"
  by (auto simp: forward_def)

lemma forward_trans: "forward r r' \<Longrightarrow> forward r' r'' \<Longrightarrow> forward r r''"
proof -
  assume a: "forward r r'" and b: "forward r' r''"
  show ?thesis unfolding forward_def
  proof (intro allI conjI impI)
    fix nid
    have sub: "set (retired_of r' nid) \<subseteq> set (retired_of r'' nid)" using b by (simp add: forward_def)
    then show "set (retired_of r nid) \<subseteq> set (retired_of r'' nid)"
      using a by (auto simp: forward_def)
    fix rec assume "registry_record r nid = Some rec"
    then obtain x where x: "registry_record r' nid = Some x"
      and xr: "x = rec \<or> instance_of x = instance_of rec \<and> sequence_of rec < sequence_of x
        \<or> instance_of rec \<in> set (retired_of r' nid)"
      using a unfolding forward_def by blast
    then obtain y where "registry_record r'' nid = Some y"
      and "y = x \<or> instance_of y = instance_of x \<and> sequence_of x < sequence_of y
        \<or> instance_of x \<in> set (retired_of r'' nid)"
      using b unfolding forward_def by blast
    then show "\<exists>y. registry_record r'' nid = Some y \<and> (y = rec \<or> instance_of y = instance_of rec
        \<and> sequence_of rec < sequence_of y \<or> instance_of rec \<in> set (retired_of r'' nid))"
      using xr sub by auto
  qed
qed

lemma registry_step_forward:
  assumes "registry_step cd e r = Some r'"
  shows "forward r r'"
proof -
  obtain node f st w t ok where p: "poll_once cd node f st w t r = (ok, r')"
    using assms by (cases e) (auto simp: prod_eq_iff split: if_splits)
  show ?thesis
  proof (cases ok)
    case True
    then obtain rec where R: "replaced node rec r r'" using poll_once_effect [OF p] by auto
    show ?thesis unfolding forward_def
    proof
      fix nid
      show "set (retired_of r nid) \<subseteq> set (retired_of r' nid) \<and>
        (\<forall>x. registry_record r nid = Some x \<longrightarrow> (\<exists>y. registry_record r' nid = Some y
           \<and> (y = x \<or> instance_of y = instance_of x \<and> sequence_of x < sequence_of y
              \<or> instance_of x \<in> set (retired_of r' nid))))"
        using R by (cases "nid = nc_node_id node")
          (auto simp: replaced_def Let_def split: option.splits if_splits)
    qed
  next
    case False
    then have "kept r r'" using poll_once_effect [OF p] by simp
    then show ?thesis using kept_same [of r r'] forward_refl by (simp add: forward_def)
  qed
qed

lemma run_forward: "run (registry_step cd) es r = Some r' \<Longrightarrow> forward r r'"
  by (induction es arbitrary: r)
    (auto split: option.splits intro: forward_refl forward_trans registry_step_forward)

interpretation registry: inductive_invariant registry_init "registry_step cd" "registry_inv cd" for cd
  by unfold_locales (auto intro: registry_step_inv init_registry_inv)

subsection \<open>A concrete run\<close>

lemma demo_restarted_valid: "snapshot_error demo_sha demo_restarted = None"
  using demo_snapshot_valid
  by (simp add: snapshot_error_def demo_restarted_def node_descriptor_error_def str_len_def
      validate_admission_capacity_def residency_consistent_def transition_consistent_def
      health_consistent_def availability_consistent_def demo_snapshot_def)

lemma demo_wire: "wire_ok demo_snapshot" "wire_ok demo_restarted"
proof -
  have d: "is_digest (sha256_text demo_sha t)" for t
    using demo_sha_format by (simp add: is_digest_def sha256_text_def py_startswith_def)
  have "wire_deployment demo_deployment"
    by (simp add: wire_deployment_def demo_deployment_def demo_identity_def d upstream_pattern_def py_startswith_def
        ascii_letter_def opt_all_def)
  then show "wire_ok demo_snapshot" by (simp add: wire_ok_def demo_snapshot_def opt_all_def) (simp add: demo_deployment_def d)
  then show "wire_ok demo_restarted" by (simp add: wire_ok_def demo_restarted_def)
qed

lemma demo_decoded:
  "cd_loads demo_codec ''a'' = Some (snapshot_json demo_snapshot)" "cd_loads demo_codec ''b'' = Some (snapshot_json demo_restarted)"
  "cd_decode demo_codec (snapshot_json demo_snapshot) = Some demo_snapshot"
  "cd_decode demo_codec (snapshot_json demo_restarted) = Some demo_restarted"
proof -
  have s: "sn_snapshot_sequence demo_snapshot = 7" "sn_snapshot_sequence demo_restarted = 0"
    by (simp_all add: demo_snapshot_def demo_restarted_def)
  show "cd_decode demo_codec (snapshot_json demo_snapshot) = Some demo_snapshot"
    "cd_decode demo_codec (snapshot_json demo_restarted) = Some demo_restarted"
    by (simp_all add: demo_codec_def snapshot_json_def dict_get_Cons s)
qed (simp_all add: demo_codec_def)

lemma demo_read: "read_response \<lparr>pr_status = 200, pr_content_encoding = None, pr_content_length = None,
     pr_consumed = False, pr_chunks = [[c]], pr_end = StreamDone\<rparr> = Inr [c]"
  by (simp add: read_response_def MAX_SNAPSHOT_BYTES_def)

lemma demo_poll:
  "poll_once demo_codec demo_node (demo_response ''a'') st w t r = accept_snapshot demo_node demo_snapshot st w t r"
  "poll_once demo_codec demo_node (demo_response ''b'') st w t r = accept_snapshot demo_node demo_restarted st w t r"
proof -
  have n: "nc_node_id demo_node = ''n1''" "nd_node_id (sn_node demo_snapshot) = ''n1''"
    "nd_node_id (sn_node demo_restarted) = ''n1''"
    by (simp_all add: demo_node_def demo_snapshot_def demo_restarted_def)
  show "poll_once demo_codec demo_node (demo_response ''a'') st w t r = accept_snapshot demo_node demo_snapshot st w t r"
    "poll_once demo_codec demo_node (demo_response ''b'') st w t r = accept_snapshot demo_node demo_restarted st w t r"
    using validate_snapshot_json [where decode = "cd_decode demo_codec", OF demo_snapshot_valid demo_wire(1) demo_decoded(3) n(2)]
      validate_snapshot_json [where decode = "cd_decode demo_codec", OF demo_restarted_valid demo_wire(2) demo_decoded(4) n(3)]
    by (simp_all add: poll_once_def demo_response_def demo_read demo_decoded n) (simp_all add: demo_codec_def)
qed

lemma demo_accept:
  "nd_instance_id (sn_node demo_snapshot) = ''i1''" "sn_snapshot_sequence demo_snapshot = 7"
  "nd_instance_id (sn_node demo_restarted) = ''i2''" "sn_snapshot_sequence demo_restarted = 0"
  "nc_node_id demo_node = ''n1''"
  by (simp_all add: demo_snapshot_def demo_restarted_def demo_node_def)

lemma demo_registry_run:
  "\<exists>r1 r3 a b. run (registry_step demo_codec) [hd demo_polls] (init_registry [demo_node] 2 10) = Some r1
     \<and> run (registry_step demo_codec) (tl demo_polls) r1 = Some r3
     \<and> registry_record r1 ''n1'' = Some a \<and> instance_of a = ''i1''
     \<and> registry_record r3 ''n1'' = Some b \<and> instance_of b = ''i2''
     \<and> error_code r3 ''n1'' = Some ''snapshot_instance_replayed''"
  by (simp add: demo_polls_def demo_poll accept_snapshot_def init_registry_def retired_of_def
      registry_record_def instance_of_def sequence_of_def demo_accept set_error_def error_code_def
      MAX_RETIRED_INSTANCE_IDS_def dict_get_Cons List.insert_def Let_def)

section \<open>Properties\<close>

text \<open>
  C6: snapshots only move forward. Along every sequence of polls, a node's record is kept as it is, or
  replaced by one of the same process instance with a strictly higher sequence number, or by one of
  another instance; in the latter case the old instance is retired, and a retired instance is never
  accepted again.
\<close>

theorem no_snapshot_rollback:
  assumes "reach registry_init (registry_step cd) r" and "run (registry_step cd) es r = Some r'"
    and "registry_record r nid = Some rec" and "registry_record r' nid = Some rec'"
  shows "(rec' = rec \<or> instance_of rec' = instance_of rec \<and> sequence_of rec < sequence_of rec'
          \<or> instance_of rec \<in> set (retired_of r' nid))
    \<and> instance_of rec' \<notin> set (retired_of r nid) \<and> instance_of rec' \<notin> set (retired_of r' nid)"
proof -
  have "registry_inv cd r'"
    using registry.inv_run [OF registry.inv_reach [OF assms(1)] assms(2)] .
  then have "instance_of rec' \<notin> set (retired_of r' nid)" using assms(4) by (auto simp: registry_inv_def)
  moreover have "forward r r'" by (rule run_forward [OF assms(2)])
  ultimately show ?thesis using assms(3,4) by (fastforce simp: forward_def)
qed

theorem no_snapshot_rollback_witness:
  "\<exists>r r' a b. run (registry_step demo_codec) (tl demo_polls) r = Some r'
     \<and> registry_record r ''n1'' = Some a \<and> registry_record r' ''n1'' = Some b
     \<and> instance_of a = ''i1'' \<and> instance_of b = ''i2'' \<and> ''i1'' \<in> set (retired_of r' ''n1'')"
proof -
  obtain r1 r3 a b where run1: "run (registry_step demo_codec) [hd demo_polls] (init_registry [demo_node] 2 10) = Some r1"
    and run2: "run (registry_step demo_codec) (tl demo_polls) r1 = Some r3"
    and ab: "registry_record r1 ''n1'' = Some a" "registry_record r3 ''n1'' = Some b"
      "instance_of a = ''i1''" "instance_of b = ''i2''"
    using demo_registry_run by (elim exE conjE) (rule that)
  have "registry_init (init_registry [demo_node] 2 10)" by (auto simp: registry_init_def)
  then have "reach registry_init (registry_step demo_codec) r1"
    by (intro reach_run [OF _ run1] reach_init)
  from no_snapshot_rollback [OF this run2 ab(1,2)] have "''i1'' \<in> set (retired_of r3 ''n1'')"
    using ab(3,4) by auto
  with run2 ab show ?thesis by blast
qed



text \<open>
  The replay fence is bounded and complete: in every reachable registry each node has at most
  1024 retired instances, without duplicates, and every record is a validated snapshot of its node.
\<close>

theorem replay_fence_bounded:
  assumes "reach registry_init (registry_step cd) r"
  shows "length (retired_of r nid) \<le> 1024 \<and> distinct (retired_of r nid)
    \<and> (\<forall>rec. registry_record r nid = Some rec \<longrightarrow>
          snapshot_error (cd_sha cd) (nr_snapshot rec) = None \<and> nd_node_id (sn_node (nr_snapshot rec)) = nid)"
  using registry.inv_reach [OF assms] by (auto simp: registry_inv_def MAX_RETIRED_INSTANCE_IDS_def)

theorem replay_fence_bounded_witness:
  "length (retired_of (init_registry [demo_node] 2 10) ''n1'') \<le> 1024"
proof -
  have "registry_init (init_registry [demo_node] 2 10)" by (auto simp: registry_init_def)
  then have "reach registry_init (registry_step demo_codec) (init_registry [demo_node] 2 10)" by (rule reach_init)
  from replay_fence_bounded [OF this] show ?thesis by blast
qed

end
