(* ===== verification/Fleet_Scheduler.thy ===== *)
theory Fleet_Scheduler
  imports Fleet_Registry "HOL-Library.Product_Lexorder"
begin

text \<open>
  The gateway's scheduler, \<open>fleet/src/mnemosyne_fleet/scheduler.py\<close>: warm-first selection among the
  live nodes with a correction for reservations the snapshots cannot have seen, a bounded FIFO of
  tickets per public model, reservations and their release, and the operator's views. An atomic
  section of \<open>acquire\<close> (the code between two suspensions under the condition) is one function; the
  readings of the monotonic clock inside it and the random identifiers are its arguments. A ticket
  may take a turn at any time: the model has every wake-up the code has, and spurious ones.
\<close>

section \<open>Data\<close>

record candidate =
  ca_record :: node_record
  ca_deployment :: fleet_deployment
  ca_tier :: int
  ca_load_score :: rat

record reservation =
  rv_route_id :: string
  rv_public_model :: string
  rv_capability :: string
  rv_node_id :: string
  rv_instance_id :: string
  rv_deployment_id :: string
  rv_local_alias :: string
  rv_reserved_at :: rat
  rv_queue_ms :: rat
  rv_admitted_at :: "rat option"

record ticket =
  tk_ticket_id :: string
  tk_capability :: string
  tk_enqueued_at :: rat
  tk_excluded_nodes :: "string list"

record scheduler =
  sch_models :: "(string, model_config) dict"
  sch_nodes :: "(string, node_config) dict"
  sch_queues :: "(string, ticket list) dict"
  sch_reservations :: "(string, reservation) dict"
  sch_selection_counter :: int
  sch_last_selected :: "(string, int) dict"

datatype acquire_outcome =
    UnknownModel
  | CapabilityUnsupported
  | FleetBusy string
  | Reserved reservation
  | Waiting

definition init_scheduler :: "model_config list \<Rightarrow> node_config list \<Rightarrow> scheduler" where
  "init_scheduler models nodes =
     \<lparr>sch_models = map (\<lambda>m. (mc_name m, m)) models, sch_nodes = map (\<lambda>n. (nc_node_id n, n)) nodes,
      sch_queues = [], sch_reservations = [], sch_selection_counter = 0, sch_last_selected = []\<rparr>"

text \<open>The default dictionaries: a missing key reads as an empty queue or as zero.\<close>

definition queue_of :: "scheduler \<Rightarrow> string \<Rightarrow> ticket list" where
  "queue_of sch m = (case dict_get (sch_queues sch) m of None \<Rightarrow> [] | Some q \<Rightarrow> q)"

definition set_queue :: "string \<Rightarrow> ticket list \<Rightarrow> scheduler \<Rightarrow> scheduler" where
  "set_queue m q sch = sch\<lparr>sch_queues := dict_put m q (sch_queues sch)\<rparr>"

definition last_selected :: "scheduler \<Rightarrow> string \<Rightarrow> int" where
  "last_selected sch nid = (case dict_get (sch_last_selected sch) nid of None \<Rightarrow> 0 | Some n \<Rightarrow> n)"

section \<open>Selection\<close>

definition mark_admitted :: "rat \<Rightarrow> reservation \<Rightarrow> reservation" where
  "mark_admitted t rv = (if rv_admitted_at rv = None then rv\<lparr>rv_admitted_at := Some t\<rparr> else rv)"

text \<open>A reservation on the record's process that the record's snapshot cannot account for.\<close>

definition unaccounted :: "node_record \<Rightarrow> reservation \<Rightarrow> bool" where
  "unaccounted rec rv =
     (rv_node_id rv = nc_node_id (nr_enrollment rec) \<and> rv_instance_id rv = instance_of rec
      \<and> (case rv_admitted_at rv of None \<Rightarrow> True | Some t \<Rightarrow> nr_poll_started_monotonic rec \<le> t))"

definition unaccounted_reservations :: "scheduler \<Rightarrow> node_record \<Rightarrow> int" where
  "unaccounted_reservations sch rec = count_if (unaccounted rec) (map snd (sch_reservations sch))"

definition id_deployments :: "node_record \<Rightarrow> model_config \<Rightarrow> fleet_deployment list" where
  "id_deployments rec m =
     filter (\<lambda>d. dp_deployment_id d = mc_deployment_id m) (sn_deployments (nr_snapshot rec))"

definition strict_deployments :: "node_record \<Rightarrow> model_config \<Rightarrow> fleet_deployment list" where
  "strict_deployments rec m =
     filter (\<lambda>d. set (di_capabilities (dp_identity d)) = set (mc_capabilities m)) (id_deployments rec m)"

definition candidate_deployment :: "node_record \<Rightarrow> model_config \<Rightarrow> string \<Rightarrow> fleet_deployment option" where
  "candidate_deployment rec m cap =
     find (\<lambda>d. dp_identity_confidence d = ''authoritative'' \<and> dp_fleet_eligible d
               \<and> cap \<in> set (di_capabilities (dp_identity d)) \<and> dp_loadable d)
       (strict_deployments rec m)"

definition schedulable_health :: "health \<Rightarrow> bool" where
  "schedulable_health h =
     (h_accepting h \<and> h_authoritative h \<and> h_state h \<notin> {''degraded'', ''stopping''})"

text \<open>The permits and the queue places a node has left for this gateway, and its tier.\<close>

definition is_resident :: "node_record \<Rightarrow> model_config \<Rightarrow> bool" where
  "is_resident rec m = (rs_deployment_id (sn_residency (nr_snapshot rec)) = Some (mc_deployment_id m))"

definition available_permits :: "scheduler \<Rightarrow> node_record \<Rightarrow> model_config \<Rightarrow> fleet_deployment \<Rightarrow> int" where
  "available_permits sch rec m d =
     max 0 ((if is_resident rec m then cp_available (sn_capacity (nr_snapshot rec))
             else cp_available (dp_capacity d)) - unaccounted_reservations sch rec)"

definition node_queue_room :: "scheduler \<Rightarrow> node_record \<Rightarrow> int" where
  "node_queue_room sch rec =
     (let a = sn_admission (nr_snapshot rec)
      in max 0 (ad_queue_limit a - ad_queue_depth a - unaccounted_reservations sch rec))"

definition tier_of :: "scheduler \<Rightarrow> node_record \<Rightarrow> model_config \<Rightarrow> fleet_deployment \<Rightarrow> int option" where
  "tier_of sch rec m d =
     (let resident = is_resident rec m; room = node_queue_room sch rec;
          usable = 0 < cp_effective_limit (dp_capacity d)
      in if resident \<and> 0 < available_permits sch rec m d then Some 1
         else if resident \<and> 0 < room then Some 2
         else if rs_deployment_id (sn_residency (nr_snapshot rec)) = None \<and> 0 < room \<and> usable then Some 3
         else if 0 < room \<and> usable then Some 4
         else None)"

definition load_score :: "scheduler \<Rightarrow> node_record \<Rightarrow> fleet_deployment \<Rightarrow> rat" where
  "load_score sch rec d =
     (let limit = fl (of_int (cp_effective_limit (dp_capacity d)));
          configured = (case dict_get (sch_nodes sch) (nc_node_id (nr_enrollment rec)) of
                          None \<Rightarrow> None | Some n \<Rightarrow> nc_routing_weight n);
          weight = (case configured of None \<Rightarrow> limit | Some w \<Rightarrow> min limit w);
          outstanding = cp_active (sn_capacity (nr_snapshot rec))
                        + ad_queue_depth (sn_admission (nr_snapshot rec)) + unaccounted_reservations sch rec
      in fl (fl (of_int outstanding) / max weight (fl (1 / 1000000000))))"

definition candidate_of ::
  "scheduler \<Rightarrow> model_config \<Rightarrow> string \<Rightarrow> string list \<Rightarrow> node_record \<Rightarrow> candidate option" where
  "candidate_of sch m cap excluded rec =
     (if nc_node_id (nr_enrollment rec) \<in> set excluded
         \<or> \<not> schedulable_health (sn_health (nr_snapshot rec)) then None
      else case candidate_deployment rec m cap of
             None \<Rightarrow> None
           | Some d \<Rightarrow>
               map_option (\<lambda>t. \<lparr>ca_record = rec, ca_deployment = d, ca_tier = t,
                               ca_load_score = load_score sch rec d\<rparr>)
                 (tier_of sch rec m d))"

definition candidate_key :: "scheduler \<Rightarrow> candidate \<Rightarrow> int \<times> rat \<times> int \<times> string" where
  "candidate_key sch c =
     (let nid = nc_node_id (nr_enrollment (ca_record c))
      in (ca_tier c, ca_load_score c, last_selected sch nid, nid))"

definition select ::
  "registry \<Rightarrow> scheduler \<Rightarrow> model_config \<Rightarrow> string \<Rightarrow> string list \<Rightarrow> rat \<Rightarrow> candidate option" where
  "select reg sch m cap excluded now =
     py_min (candidate_key sch)
       (List.map_filter (candidate_of sch m cap excluded) (live_records reg now))"

section \<open>Reservations and queues\<close>

definition reserve ::
  "candidate \<Rightarrow> model_config \<Rightarrow> string \<Rightarrow> rat \<Rightarrow> rat \<Rightarrow> string \<Rightarrow> scheduler \<Rightarrow> reservation \<times> scheduler" where
  "reserve cand m cap queued_at reserved_at route sch =
     (let rec = ca_record cand;
          rv = \<lparr>rv_route_id = route, rv_public_model = mc_name m, rv_capability = cap,
                rv_node_id = nc_node_id (nr_enrollment rec), rv_instance_id = instance_of rec,
                rv_deployment_id = mc_deployment_id m, rv_local_alias = dp_alias (ca_deployment cand),
                rv_reserved_at = reserved_at, rv_queue_ms = max 0 ((reserved_at - queued_at) * 1000),
                rv_admitted_at = None\<rparr>;
          n = sch_selection_counter sch + 1
      in (rv, sch\<lparr>sch_reservations := dict_put route rv (sch_reservations sch),
                  sch_selection_counter := n,
                  sch_last_selected := dict_put (rv_node_id rv) n (sch_last_selected sch)\<rparr>))"

definition leave_queue :: "string \<Rightarrow> ticket \<Rightarrow> scheduler \<Rightarrow> scheduler" where
  "leave_queue m tk sch =
     (if tk \<in> set (queue_of sch m) then set_queue m (remove1 tk (queue_of sch m)) sch else sch)"

text \<open>
  One turn of the waiting loop: at \<open>t_sel\<close> the ticket at the head looks for a node, at \<open>t_res\<close> it is
  reserved; otherwise at \<open>t_left\<close> the deadline is checked, and passing it leaves the queue.
\<close>

definition ticket_turn ::
  "registry \<Rightarrow> model_config \<Rightarrow> ticket \<Rightarrow> rat \<Rightarrow> rat \<Rightarrow> rat \<Rightarrow> string \<Rightarrow> scheduler
   \<Rightarrow> acquire_outcome \<times> scheduler" where
  "ticket_turn reg m tk t_sel t_res t_left route sch =
     (let q = queue_of sch (mc_name m);
          found = (if q \<noteq> [] \<and> tk_ticket_id (hd q) = tk_ticket_id tk
                   then select reg sch m (tk_capability tk) (tk_excluded_nodes tk) t_sel else None)
      in case found of
           Some cand \<Rightarrow>
             (case reserve cand m (tk_capability tk) (tk_enqueued_at tk) t_res route
                     (set_queue (mc_name m) (tl q) sch) of
                (rv, sch') \<Rightarrow> (Reserved rv, sch'))
         | None \<Rightarrow>
             if tk_enqueued_at tk + mc_queue_timeout_seconds m - t_left \<le> 0
             then (FleetBusy ''fleet_queue_timeout'', leave_queue (mc_name m) tk sch)
             else (Waiting, sch))"

definition acquire ::
  "registry \<Rightarrow> string \<Rightarrow> string \<Rightarrow> string list \<Rightarrow> rat \<Rightarrow> rat \<Rightarrow> rat \<Rightarrow> rat \<Rightarrow> rat \<Rightarrow> string \<Rightarrow> string \<Rightarrow> scheduler
   \<Rightarrow> acquire_outcome \<times> scheduler" where
  "acquire reg public_model cap excluded started t_first t_sel t_res t_left route tid sch =
     (case dict_get (sch_models sch) public_model of
        None \<Rightarrow> (UnknownModel, sch)
      | Some m \<Rightarrow>
          if cap \<notin> set (mc_capabilities m) then (CapabilityUnsupported, sch)
          else
            let q = queue_of sch public_model in
            case (if q = [] then select reg sch m cap excluded t_first else None) of
              Some cand \<Rightarrow>
                (case reserve cand m cap started started route sch of (rv, sch') \<Rightarrow> (Reserved rv, sch'))
            | None \<Rightarrow>
                if mc_queue_depth m \<le> int (length q) then (FleetBusy ''fleet_queue_full'', sch)
                else
                  let tk = \<lparr>tk_ticket_id = tid, tk_capability = cap, tk_enqueued_at = started,
                            tk_excluded_nodes = excluded\<rparr>
                  in ticket_turn reg m tk t_sel t_res t_left route (set_queue public_model (q @ [tk]) sch))"

definition release :: "string \<Rightarrow> scheduler \<Rightarrow> scheduler" where
  "release route sch = sch\<lparr>sch_reservations := dict_pop route (sch_reservations sch)\<rparr>"

definition admit :: "string \<Rightarrow> rat \<Rightarrow> scheduler \<Rightarrow> scheduler" where
  "admit route t sch =
     (case dict_get (sch_reservations sch) route of
        None \<Rightarrow> sch
      | Some rv \<Rightarrow> sch\<lparr>sch_reservations := dict_put route (mark_admitted t rv) (sch_reservations sch)\<rparr>)"

section \<open>Views\<close>

definition count_by :: "(reservation \<Rightarrow> string) \<Rightarrow> reservation list \<Rightarrow> (string, int) dict" where
  "count_by f rvs =
     fold (\<lambda>rv d. dict_put (f rv) ((case dict_get d (f rv) of None \<Rightarrow> 0 | Some n \<Rightarrow> n) + 1) d) rvs []"

record queue_status =
  qs_depth :: int
  qs_limit :: int
  qs_timeout_seconds :: rat

record scheduler_status =
  ss_active_total :: int
  ss_active_by_node :: "(string, int) dict"
  ss_active_by_model :: "(string, int) dict"
  ss_queues :: "(string, queue_status) dict"

definition scheduler_status_of :: "scheduler \<Rightarrow> scheduler_status" where
  "scheduler_status_of sch =
     (let rvs = map snd (sch_reservations sch)
      in \<lparr>ss_active_total = int (length rvs), ss_active_by_node = count_by rv_node_id rvs,
          ss_active_by_model = count_by rv_public_model rvs,
          ss_queues = map (\<lambda>nm. (fst nm, \<lparr>qs_depth = int (length (queue_of sch (fst nm))),
                                          qs_limit = mc_queue_depth (snd nm),
                                          qs_timeout_seconds = mc_queue_timeout_seconds (snd nm)\<rparr>))
                        (sch_models sch)\<rparr>)"

record node_row =
  nw_node_id :: string
  nw_online :: bool
  nw_eligible :: bool
  nw_strict_match :: bool
  nw_warm :: bool
  nw_alias :: "string option"
  nw_aliases :: "string list"
  nw_capacity :: "capacity option"
  nw_reason_codes :: "string list"
  nw_snapshot_error_code :: "string option"

record model_row =
  mw_name :: string
  mw_deployment_id :: string
  mw_capabilities :: "string list"
  mw_strict_replica_count :: int
  mw_online_strict_replica_count :: int
  mw_eligible_replica_count :: int
  mw_nodes :: "node_row list"

definition routable_deployments :: "node_record \<Rightarrow> model_config \<Rightarrow> fleet_deployment list" where
  "routable_deployments rec m =
     filter dp_loadable (filter dp_fleet_eligible
       (filter (\<lambda>d. dp_identity_confidence d = ''authoritative'') (strict_deployments rec m)))"

definition reason_codes :: "registry \<Rightarrow> node_record \<Rightarrow> model_config \<Rightarrow> rat \<Rightarrow> string list" where
  "reason_codes reg rec m now =
     (let ids = id_deployments rec m; strict = strict_deployments rec m;
          authoritative = filter (\<lambda>d. dp_identity_confidence d = ''authoritative'') strict;
          eligible = filter dp_fleet_eligible authoritative;
          h = sn_health (nr_snapshot rec)
      in (if \<not> is_live reg rec now then [''snapshot_stale''] else [])
         @ (if ids = [] then [''deployment_not_advertised'']
            else if strict = [] then [''capabilities_mismatch'']
            else if authoritative = [] then [''identity_unverified'']
            else if eligible = [] then [''fleet_ineligible'']
            else if filter dp_loadable eligible = [] then [''not_loadable''] else [])
         @ (if \<not> h_authoritative h then [''node_not_authoritative''] else [])
         @ (if h_state h = ''degraded'' then [''node_degraded'']
            else if h_state h = ''stopping'' then [''node_stopping''] else [])
         @ (if \<not> h_accepting h then [''node_not_accepting''] else []))"

definition matrix_node :: "registry \<Rightarrow> model_config \<Rightarrow> rat \<Rightarrow> string \<Rightarrow> node_row" where
  "matrix_node reg m now nid =
     (case registry_record reg nid of
        None \<Rightarrow>
          \<lparr>nw_node_id = nid, nw_online = False, nw_eligible = False, nw_strict_match = False,
           nw_warm = False, nw_alias = None, nw_aliases = [], nw_capacity = None,
           nw_reason_codes = [''snapshot_unavailable''], nw_snapshot_error_code = error_code reg nid\<rparr>
      | Some rec \<Rightarrow>
          let strict = strict_deployments rec m; routable = routable_deployments rec m;
              display = (if routable \<noteq> [] then Some (hd routable)
                         else if strict \<noteq> [] then Some (hd strict) else None)
          in \<lparr>nw_node_id = nid, nw_online = is_live reg rec now,
              nw_eligible = (routable \<noteq> [] \<and> is_live reg rec now
                             \<and> schedulable_health (sn_health (nr_snapshot rec))),
              nw_strict_match = (strict \<noteq> []), nw_warm = list_ex dp_warm strict,
              nw_alias = map_option dp_alias display, nw_aliases = sort (map dp_alias strict),
              nw_capacity = map_option dp_capacity display,
              nw_reason_codes = reason_codes reg rec m now,
              nw_snapshot_error_code = error_code reg nid\<rparr>)"

definition model_matrix :: "registry \<Rightarrow> scheduler \<Rightarrow> rat \<Rightarrow> model_row list" where
  "model_matrix reg sch now =
     map (\<lambda>nm. let m = snd nm; nodes = map (matrix_node reg m now) (map fst (sch_nodes sch))
               in \<lparr>mw_name = mc_name m, mw_deployment_id = mc_deployment_id m,
                   mw_capabilities = sort (remdups (mc_capabilities m)),
                   mw_strict_replica_count = count_if nw_strict_match nodes,
                   mw_online_strict_replica_count = count_if (\<lambda>n. nw_strict_match n \<and> nw_online n) nodes,
                   mw_eligible_replica_count = count_if nw_eligible nodes, mw_nodes = nodes\<rparr>)
         (sch_models sch)"

end
