(* ===== verification/Fleet_Scheduler_Safety.thy ===== *)
theory Fleet_Scheduler_Safety
  imports Fleet_Scheduler "HOL-Library.Sublist"
begin

text \<open>
  The gateway as one state machine, polls of the registry interleaved with the atomic sections of the
  scheduler, and its properties: reservations stay within what the snapshots advertise, selection is
  warm-first and least-loaded, the queues are bounded and first-in first-out, and the operator's
  matrix agrees with what the scheduler would select.
\<close>

section \<open>The gateway's steps\<close>

record gateway =
  gw_registry :: registry
  gw_sched :: scheduler

datatype gw_event =
    GPoll poll_event
  | GAcquire string string "string list" rat rat rat rat rat string string
  | GTurn string ticket rat rat rat string
  | GGiveUp string ticket
  | GAdmit string rat
  | GRelease string

text \<open>A fresh random identifier: not the key of a reservation, not the identifier of a ticket.\<close>

definition fresh_route :: "string \<Rightarrow> scheduler \<Rightarrow> bool" where
  "fresh_route route sch = (\<not> dict_has (sch_reservations sch) route)"

definition fresh_ticket :: "string \<Rightarrow> string \<Rightarrow> scheduler \<Rightarrow> bool" where
  "fresh_ticket m tid sch = (\<forall>tk \<in> set (queue_of sch m). tk_ticket_id tk \<noteq> tid)"

fun sched_event :: "registry \<Rightarrow> gw_event \<Rightarrow> scheduler \<Rightarrow> scheduler option" where
  "sched_event reg (GAcquire pm cap ex started t1 t2 t3 t4 route tid) sch =
     (if fresh_route route sch \<and> fresh_ticket pm tid sch
      then Some (snd (acquire reg pm cap ex started t1 t2 t3 t4 route tid sch)) else None)"
| "sched_event reg (GTurn pm tk t1 t2 t3 route) sch =
     (case dict_get (sch_models sch) pm of
        None \<Rightarrow> None
      | Some m \<Rightarrow> if fresh_route route sch \<and> tk \<in> set (queue_of sch pm)
                  then Some (snd (ticket_turn reg m tk t1 t2 t3 route sch)) else None)"
| "sched_event reg (GGiveUp pm tk) sch =
     (if tk \<in> set (queue_of sch pm) then Some (leave_queue pm tk sch) else None)"
| "sched_event reg (GAdmit route t) sch = Some (admit route t sch)"
| "sched_event reg (GRelease route) sch = Some (release route sch)"
| "sched_event reg (GPoll e) sch = None"

definition gw_step :: "codec \<Rightarrow> gw_event \<Rightarrow> gateway \<Rightarrow> gateway option" where
  "gw_step cd e g =
     (case e of
        GPoll p \<Rightarrow> map_option (\<lambda>r. g\<lparr>gw_registry := r\<rparr>) (registry_step cd p (gw_registry g))
      | _ \<Rightarrow> map_option (\<lambda>s. g\<lparr>gw_sched := s\<rparr>) (sched_event (gw_registry g) e (gw_sched g)))"

definition gw_init :: "gateway \<Rightarrow> bool" where
  "gw_init g =
     (\<exists>c. config_ok c \<and> g = \<lparr>gw_registry = init_registry (fc_nodes c)
              (sc_poll_interval_seconds (fc_server c)) (sc_snapshot_ttl_seconds (fc_server c)),
            gw_sched = init_scheduler (fc_models c) (fc_nodes c)\<rparr>)"

text \<open>The scheduler's invariant: reservations, queues and the selection counter.\<close>

definition reservation_ok :: "scheduler \<Rightarrow> string \<times> reservation \<Rightarrow> bool" where
  "reservation_ok sch e =
     (rv_route_id (snd e) = fst e
      \<and> (\<exists>m. dict_get (sch_models sch) (rv_public_model (snd e)) = Some m
           \<and> rv_deployment_id (snd e) = mc_deployment_id m \<and> rv_capability (snd e) \<in> set (mc_capabilities m)))"

definition ticket_queue_ok :: "scheduler \<Rightarrow> string \<Rightarrow> bool" where
  "ticket_queue_ok sch name =
     (distinct (map tk_ticket_id (queue_of sch name))
      \<and> (queue_of sch name \<noteq> [] \<longrightarrow>
           (\<exists>m. dict_get (sch_models sch) name = Some m
              \<and> int (length (queue_of sch name)) \<le> mc_queue_depth m
              \<and> (\<forall>tk \<in> set (queue_of sch name). tk_capability tk \<in> set (mc_capabilities m)))))"

definition sched_inv :: "scheduler \<Rightarrow> bool" where
  "sched_inv sch =
     ((\<forall>name m. dict_get (sch_models sch) name = Some m \<longrightarrow> mc_name m = name)
      \<and> distinct (map fst (sch_reservations sch))
      \<and> list_all (reservation_ok sch) (sch_reservations sch)
      \<and> (\<forall>name. ticket_queue_ok sch name)
      \<and> 0 \<le> sch_selection_counter sch
      \<and> (\<forall>nid. last_selected sch nid \<le> sch_selection_counter sch))"

text \<open>How a queue may evolve: some tickets leave, the others keep their order, new ones go last.\<close>

definition fifo_step :: "ticket list \<Rightarrow> ticket list \<Rightarrow> bool" where
  "fifo_step q q' = (\<exists>old new. q' = old @ new \<and> subseq old q)"

text \<open>
  What selection promises, stated on its own. A node qualifies with a deployment when it is not
  excluded, takes requests, and the deployment is the first it advertises under the model's identifier
  with exactly the model's capabilities, authoritatively identified, eligible and loadable. \<open>warmth\<close> is
  the tier: by what is resident and where there is room for one more request beyond the reservations
  that the snapshot cannot have seen. \<open>node_load\<close> is the work outstanding at the node per unit of its limit,
  or of the operator's weight where that is smaller.
\<close>

definition qualifies :: "model_config \<Rightarrow> string \<Rightarrow> string list \<Rightarrow> node_record \<Rightarrow> fleet_deployment \<Rightarrow> bool" where
  "qualifies m cap excluded rec d =
     (let s = nr_snapshot rec; h = sn_health s
      in nc_node_id (nr_enrollment rec) \<notin> set excluded
         \<and> h_accepting h \<and> h_authoritative h \<and> h_state h \<noteq> ''degraded'' \<and> h_state h \<noteq> ''stopping''
         \<and> find (\<lambda>x. dp_deployment_id x = mc_deployment_id m
                     \<and> set (di_capabilities (dp_identity x)) = set (mc_capabilities m)
                     \<and> dp_identity_confidence x = ''authoritative'' \<and> dp_fleet_eligible x
                     \<and> cap \<in> set (di_capabilities (dp_identity x)) \<and> dp_loadable x)
              (sn_deployments s) = Some d)"

definition warmth :: "scheduler \<Rightarrow> model_config \<Rightarrow> node_record \<Rightarrow> fleet_deployment \<Rightarrow> int option" where
  "warmth sch m rec d =
     (let s = nr_snapshot rec; pending = unaccounted_reservations sch rec;
          place = (pending < ad_queue_limit (sn_admission s) - ad_queue_depth (sn_admission s))
      in case rs_deployment_id (sn_residency s) of
           Some i \<Rightarrow>
             if i = mc_deployment_id m
             then (if pending < cp_available (sn_capacity s) then Some 1 else if place then Some 2 else None)
             else (if place \<and> 0 < cp_effective_limit (dp_capacity d) then Some 4 else None)
         | None \<Rightarrow> if place \<and> 0 < cp_effective_limit (dp_capacity d) then Some 3 else None)"

definition node_load :: "scheduler \<Rightarrow> node_record \<Rightarrow> fleet_deployment \<Rightarrow> rat" where
  "node_load sch rec d =
     (let s = nr_snapshot rec; limit = fl (of_int (cp_effective_limit (dp_capacity d)));
          share = (case Option.bind (dict_get (sch_nodes sch) (nc_node_id (nr_enrollment rec))) nc_routing_weight of
                     Some w \<Rightarrow> if w < limit then w else limit
                   | None \<Rightarrow> limit);
          least = fl (1 / 10 ^ 9)
      in fl (fl (of_int (cp_active (sn_capacity s) + ad_queue_depth (sn_admission s)
                          + unaccounted_reservations sch rec))
              / (if share < least then least else share)))"

text \<open>The order of preference: warmth, load, least recently selected, and the identifier to decide ties.\<close>

definition preferred ::
  "scheduler \<Rightarrow> node_record \<times> fleet_deployment \<times> int \<Rightarrow> node_record \<times> fleet_deployment \<times> int \<Rightarrow> bool" where
  "preferred sch x y =
     (case x of (rec, d, t) \<Rightarrow> case y of (rec', d', t') \<Rightarrow>
        let nid = nc_node_id (nr_enrollment rec); nid' = nc_node_id (nr_enrollment rec');
            used = (\<lambda>n. case dict_get (sch_last_selected sch) n of None \<Rightarrow> 0 | Some k \<Rightarrow> k)
        in t < t' \<or> t = t' \<and>
             (node_load sch rec d < node_load sch rec' d' \<or> node_load sch rec d = node_load sch rec' d' \<and>
               (used nid < used nid' \<or> used nid = used nid' \<and> nid \<le> nid')))"

definition demo_model :: model_config where
  "demo_model = \<lparr>mc_name = ''m'', mc_deployment_id = dp_deployment_id demo_deployment,
     mc_capabilities = [''chat/completions''], mc_queue_depth = 2, mc_queue_timeout_seconds = 60\<rparr>"

definition demo_record :: node_record where
  "demo_record = \<lparr>nr_enrollment = demo_node, nr_snapshot = demo_snapshot, nr_received_at = 1,
     nr_received_monotonic = 1, nr_poll_started_monotonic = 1\<rparr>"

definition demo_registry :: registry where
  "demo_registry = (init_registry [demo_node] 2 10)\<lparr>rg_records := [(''n1'', demo_record)]\<rparr>"

definition demo_scheduler :: scheduler where
  "demo_scheduler = init_scheduler [demo_model] [demo_node]"

definition demo_candidate :: candidate where
  "demo_candidate = \<lparr>ca_record = demo_record, ca_deployment = demo_deployment, ca_tier = 1, ca_load_score = 0\<rparr>"

definition demo_ticket :: "string \<Rightarrow> ticket" where
  "demo_ticket tid = \<lparr>tk_ticket_id = tid, tk_capability = ''chat/completions'', tk_enqueued_at = 0,
     tk_excluded_nodes = []\<rparr>"

section \<open>Lemmas\<close>

subsection \<open>Selection\<close>

lemma map_filter_Some: "x \<in> set (List.map_filter f xs) \<longleftrightarrow> (\<exists>y \<in> set xs. f y = Some x)"
  by (force simp: List.map_filter_def)

lemma select_Some:
  assumes "select reg sch m cap ex now = Some c"
  shows "ca_record c \<in> set (live_records reg now) \<and> candidate_of sch m cap ex (ca_record c) = Some c"
    and "rec \<in> set (live_records reg now) \<Longrightarrow> candidate_of sch m cap ex rec = Some c' \<Longrightarrow>
           candidate_key sch c \<le> candidate_key sch c'"
proof -
  have m: "c \<in> set (List.map_filter (candidate_of sch m cap ex) (live_records reg now))"
    and least: "\<forall>y \<in> set (List.map_filter (candidate_of sch m cap ex) (live_records reg now)).
      candidate_key sch c \<le> candidate_key sch y"
    using py_min_Some [OF assms [unfolded select_def]] by simp_all
  from m obtain r where "r \<in> set (live_records reg now)" and "candidate_of sch m cap ex r = Some c"
    by (auto simp: map_filter_Some)
  moreover from this have "ca_record c = r"
    by (auto simp: candidate_of_def split: if_splits option.splits)
  ultimately show "ca_record c \<in> set (live_records reg now) \<and> candidate_of sch m cap ex (ca_record c) = Some c"
    by simp
  show "rec \<in> set (live_records reg now) \<Longrightarrow> candidate_of sch m cap ex rec = Some c' \<Longrightarrow>
           candidate_key sch c \<le> candidate_key sch c'"
    using least by (auto simp: map_filter_Some)
qed

lemma select_None: "select reg sch m cap ex now = None \<longleftrightarrow>
    (\<forall>rec \<in> set (live_records reg now). candidate_of sch m cap ex rec = None)"
proof -
  have "List.map_filter f xs = [] \<longleftrightarrow> (\<forall>x \<in> set xs. f x = None)" for f :: "'a \<Rightarrow> 'b option" and xs
    by (induction xs) (auto simp: List.map_filter_simps split: option.splits)
  then show ?thesis by (simp add: select_def)
qed

lemma candidate_tier: "candidate_of sch m cap ex rec = Some c \<Longrightarrow>
    ca_record c = rec \<and> tier_of sch rec m (ca_deployment c) = Some (ca_tier c)
    \<and> candidate_deployment rec m cap = Some (ca_deployment c)"
  by (auto simp: candidate_of_def split: if_splits option.splits)

lemma tier_room:
  assumes "tier_of sch rec m d = Some t"
  shows "t \<in> {1, 2, 3, 4}"
    and "t = 1 \<Longrightarrow> is_resident rec m \<and>
           unaccounted_reservations sch rec + 1 \<le> cp_available (sn_capacity (nr_snapshot rec))"
    and "t \<noteq> 1 \<Longrightarrow> unaccounted_reservations sch rec + 1
           \<le> ad_queue_limit (sn_admission (nr_snapshot rec)) - ad_queue_depth (sn_admission (nr_snapshot rec))"
  using assms by (auto simp: tier_of_def Let_def available_permits_def node_queue_room_def split: if_splits)

subsection \<open>Selection meets its promise\<close>

lemma find_filter: "find P (filter Q xs) = find (\<lambda>x. Q x \<and> P x) xs"
  by (induction xs) auto

lemma qualifies_candidate:
  "qualifies m cap excluded rec d \<longleftrightarrow> nc_node_id (nr_enrollment rec) \<notin> set excluded
     \<and> schedulable_health (sn_health (nr_snapshot rec)) \<and> candidate_deployment rec m cap = Some d"
  by (simp add: qualifies_def schedulable_health_def candidate_deployment_def strict_deployments_def id_deployments_def
      find_filter conj_assoc Let_def)

lemma tier_of_warmth: "tier_of sch rec m d = warmth sch m rec d"
  by (auto simp: tier_of_def warmth_def is_resident_def available_permits_def node_queue_room_def Let_def split: option.split)

lemma load_score_node_load: "load_score sch rec d = node_load sch rec d"
  by (auto simp: load_score_def node_load_def Let_def min_def max_def split: option.split)

lemma candidate_of_spec:
  "candidate_of sch m cap excluded rec = Some c \<longleftrightarrow>
     (\<exists>d t. qualifies m cap excluded rec d \<and> warmth sch m rec d = Some t
        \<and> c = \<lparr>ca_record = rec, ca_deployment = d, ca_tier = t, ca_load_score = node_load sch rec d\<rparr>)"
  "candidate_of sch m cap excluded rec = None \<longleftrightarrow> (\<forall>d. qualifies m cap excluded rec d \<longrightarrow> warmth sch m rec d = None)"
  by (auto simp: candidate_of_def qualifies_candidate tier_of_warmth load_score_node_load split: option.split)

lemma candidate_key_preferred:
  "candidate_key sch \<lparr>ca_record = rec, ca_deployment = d, ca_tier = t, ca_load_score = node_load sch rec d\<rparr>
     \<le> candidate_key sch \<lparr>ca_record = rec', ca_deployment = d', ca_tier = t', ca_load_score = node_load sch rec' d'\<rparr>
   \<longleftrightarrow> preferred sch (rec, d, t) (rec', d', t')"
  by (auto simp: candidate_key_def preferred_def last_selected_def less_eq_prod_def Let_def)

subsection \<open>Reservations\<close>

lemma dict_put_new_snd: "\<not> dict_has d k \<Longrightarrow> map snd (dict_put k v d) = map snd d @ [v]"
  by (simp add: dict_put_fresh)

lemma reserve_unaccounted:
  assumes "reserve cand m cap qa ra route sch = (rv, sch')" and "fresh_route route sch"
  shows "unaccounted_reservations sch' (ca_record cand) = unaccounted_reservations sch (ca_record cand) + 1"
  using assms
  by (auto simp: reserve_def Let_def unaccounted_reservations_def fresh_route_def dict_put_new_snd unaccounted_def)

lemma set_queue_frame [simp]:
  "sch_models (set_queue m q sch) = sch_models sch"
  "sch_nodes (set_queue m q sch) = sch_nodes sch"
  "sch_reservations (set_queue m q sch) = sch_reservations sch"
  "sch_selection_counter (set_queue m q sch) = sch_selection_counter sch"
  "sch_last_selected (set_queue m q sch) = sch_last_selected sch"
  "queue_of (set_queue m q sch) m' = (if m' = m then q else queue_of sch m')"
  "unaccounted_reservations (set_queue m q sch) = unaccounted_reservations sch"
  "last_selected (set_queue m q sch) = last_selected sch"
  by (simp_all add: set_queue_def queue_of_def unaccounted_reservations_def last_selected_def fun_eq_iff)

lemma select_set_queue [simp]: "select reg (set_queue n q sch) m cap ex now = select reg sch m cap ex now"
proof -
  have t: "tier_of (set_queue n q sch) = tier_of sch"
    by (simp add: fun_eq_iff tier_of_def available_permits_def node_queue_room_def)
  have l: "load_score (set_queue n q sch) = load_score sch"
    by (simp add: fun_eq_iff load_score_def)
  have "candidate_of (set_queue n q sch) m cap ex = candidate_of sch m cap ex"
    by (simp add: fun_eq_iff candidate_of_def t l split: option.split)
  moreover have "candidate_key (set_queue n q sch) = candidate_key sch"
    by (simp add: fun_eq_iff candidate_key_def)
  ultimately show ?thesis by (simp add: select_def)
qed

lemma reserve_frame:
  assumes "reserve cand m cap qa ra route sch = (rv, sch')"
  shows "sch_models sch' = sch_models sch" "queue_of sch' = queue_of sch"
    "sch_reservations sch' = dict_put route rv (sch_reservations sch)"
    "sch_selection_counter sch' = sch_selection_counter sch + 1"
    "last_selected sch' nid = (if nid = rv_node_id rv then sch_selection_counter sch + 1 else last_selected sch nid)"
    "rv_route_id rv = route" "rv_public_model rv = mc_name m" "rv_capability rv = cap"
    "rv_deployment_id rv = mc_deployment_id m"
  using assms by (auto simp: reserve_def Let_def queue_of_def last_selected_def fun_eq_iff)

subsection \<open>The invariant\<close>

lemma sched_invD:
  assumes "sched_inv sch"
  shows "dict_get (sch_models sch) name = Some m \<Longrightarrow> mc_name m = name"
    and "distinct (map fst (sch_reservations sch))"
    and "list_all (reservation_ok sch) (sch_reservations sch)"
    and "ticket_queue_ok sch name" and "0 \<le> sch_selection_counter sch"
    and "last_selected sch nid \<le> sch_selection_counter sch"
  using assms by (simp_all add: sched_inv_def)

lemma list_all_dict_put:
  "list_all P d \<Longrightarrow> P (k, v) \<Longrightarrow> list_all P (dict_put k v d)"
  by (induction d) auto

lemma reserve_inv:
  assumes inv: "sched_inv sch" and r: "reserve cand m cap qa ra route sch = (rv, sch')"
    and m: "dict_get (sch_models sch) (mc_name m) = Some m" and cap: "cap \<in> set (mc_capabilities m)"
  shows "sched_inv sch'"
proof -
  note f = reserve_frame [OF r]
  have ok: "reservation_ok sch' = reservation_ok sch" by (simp add: reservation_ok_def fun_eq_iff f)
  have q: "ticket_queue_ok sch' = ticket_queue_ok sch" by (simp add: ticket_queue_ok_def fun_eq_iff f)
  have "list_all (reservation_ok sch) (dict_put route rv (sch_reservations sch))"
    using sched_invD(3) [OF inv] m cap by (intro list_all_dict_put) (auto simp: reservation_ok_def f)
  moreover have "last_selected sch' nid \<le> sch_selection_counter sch + 1" for nid
    using sched_invD(6) [OF inv, of nid] by (simp add: f)
  ultimately show ?thesis
    using inv by (simp add: sched_inv_def f ok q dict_put_distinct)
qed

lemma set_queue_inv:
  assumes inv: "sched_inv sch" and m: "dict_get (sch_models sch) name = Some m"
    and d: "distinct (map tk_ticket_id q)" and l: "q \<noteq> [] \<Longrightarrow> int (length q) \<le> mc_queue_depth m"
    and c: "\<forall>tk \<in> set q. tk_capability tk \<in> set (mc_capabilities m)"
  shows "sched_inv (set_queue name q sch)"
proof -
  have ok: "reservation_ok (set_queue name q sch) = reservation_ok sch" by (simp add: reservation_ok_def fun_eq_iff)
  have "ticket_queue_ok (set_queue name q sch) n" for n
    using sched_invD(4) [OF inv, of n] m d l c by (auto simp: ticket_queue_ok_def)
  then show ?thesis using inv by (simp add: sched_inv_def ok)
qed

lemma leave_queue_inv:
  assumes inv: "sched_inv sch"
  shows "sched_inv (leave_queue name tk sch)"
proof (cases "tk \<in> set (queue_of sch name)")
  case True
  then obtain m where m: "dict_get (sch_models sch) name = Some m"
    and l: "int (length (queue_of sch name)) \<le> mc_queue_depth m"
    and c: "\<forall>tk \<in> set (queue_of sch name). tk_capability tk \<in> set (mc_capabilities m)"
    and d: "distinct (map tk_ticket_id (queue_of sch name))"
    using sched_invD(4) [OF inv, of name] by (auto simp: ticket_queue_ok_def)
  have "distinct (map tk_ticket_id (remove1 tk (queue_of sch name)))"
    using d by (auto simp: distinct_map distinct_remove1 intro: inj_on_subset dest: set_remove1_subset [THEN subsetD])
  moreover have "int (length (remove1 tk (queue_of sch name))) \<le> mc_queue_depth m"
    using l length_remove1 [of tk "queue_of sch name"] by (simp split: if_splits)
  ultimately show ?thesis
    using True set_queue_inv [OF inv m] c by (auto simp: leave_queue_def dest: set_remove1_subset [THEN subsetD])
qed (simp add: leave_queue_def inv)

lemma ticket_turn_inv:
  assumes inv: "sched_inv sch" and m: "dict_get (sch_models sch) (mc_name m) = Some m"
    and tk: "tk_capability tk \<in> set (mc_capabilities m)"
    and turn: "ticket_turn reg m tk t1 t2 t3 route sch = (out, sch')"
  shows "sched_inv sch'"
proof -
  let ?q = "queue_of sch (mc_name m)"
  have tl: "sched_inv (set_queue (mc_name m) (tl ?q) sch)"
    using sched_invD(4) [OF inv, of "mc_name m"] m
    by (intro set_queue_inv [OF inv m]; cases ?q) (auto simp: ticket_queue_ok_def)
  consider cand rv where "reserve cand m (tk_capability tk) (tk_enqueued_at tk) t2 route
        (set_queue (mc_name m) (tl ?q) sch) = (rv, sch')"
    | "sch' = leave_queue (mc_name m) tk sch" | "sch' = sch"
    using turn by (auto simp: ticket_turn_def Let_def split: option.splits if_splits prod.splits)
  then show ?thesis
  proof cases
    case 1
    show ?thesis by (rule reserve_inv [OF tl 1]) (use m tk in simp_all)
  qed (use inv leave_queue_inv in auto)
qed

lemma acquire_inv:
  assumes inv: "sched_inv sch" and fresh: "fresh_ticket pm tid sch"
    and a: "acquire reg pm cap ex started t1 t2 t3 t4 route tid sch = (out, sch')"
  shows "sched_inv sch'"
proof (cases "dict_get (sch_models sch) pm")
  case None
  then show ?thesis using a inv by (simp add: acquire_def)
next
  case (Some m)
  have name: "mc_name m = pm" by (rule sched_invD(1) [OF inv Some])
  let ?q = "queue_of sch pm"
  let ?tk = "\<lparr>tk_ticket_id = tid, tk_capability = cap, tk_enqueued_at = started, tk_excluded_nodes = ex\<rparr>"
  consider "sch' = sch" | cand rv where "cap \<in> set (mc_capabilities m)"
      and "reserve cand m cap started started route sch = (rv, sch')"
    | "cap \<in> set (mc_capabilities m)" and "int (length ?q) < mc_queue_depth m"
      and "ticket_turn reg m ?tk t2 t3 t4 route (set_queue pm (?q @ [?tk]) sch) = (out, sch')"
    using a Some by (auto simp: acquire_def Let_def not_le split: option.splits if_splits prod.splits)
  then show ?thesis
  proof cases
    case 1
    then show ?thesis using inv by simp
  next
    case 2
    show ?thesis by (rule reserve_inv [OF inv 2(2)]) (use Some name 2(1) in simp_all)
  next
    case 3
    have "ticket_queue_ok sch pm" by (rule sched_invD(4) [OF inv])
    then have "sched_inv (set_queue pm (?q @ [?tk]) sch)"
      using Some 3 fresh by (intro set_queue_inv [OF inv Some]) (auto simp: ticket_queue_ok_def fresh_ticket_def)
    from ticket_turn_inv [OF this _ _ 3(3)] show ?thesis using Some name 3(1) by simp
  qed
qed

lemma release_inv: "sched_inv sch \<Longrightarrow> sched_inv (release route sch)"
proof -
  assume inv: "sched_inv sch"
  have "reservation_ok (release route sch) = reservation_ok sch"
    and "ticket_queue_ok (release route sch) = ticket_queue_ok sch"
    and "last_selected (release route sch) = last_selected sch"
    by (simp_all add: reservation_ok_def ticket_queue_ok_def queue_of_def release_def last_selected_def fun_eq_iff)
  then show ?thesis using inv
    by (simp add: sched_inv_def release_def dict_pop_distinct) (simp add: dict_pop_def list_all_iff)
qed

lemma admit_inv: "sched_inv sch \<Longrightarrow> sched_inv (admit route t sch)"
proof (cases "dict_get (sch_reservations sch) route")
  case (Some rv)
  assume inv: "sched_inv sch"
  let ?s = "admit route t sch"
  have s: "?s = sch\<lparr>sch_reservations := dict_put route (mark_admitted t rv) (sch_reservations sch)\<rparr>"
    by (simp add: admit_def Some)
  have "reservation_ok ?s = reservation_ok sch" and "ticket_queue_ok ?s = ticket_queue_ok sch"
    and "last_selected ?s = last_selected sch"
    by (simp_all add: s reservation_ok_def ticket_queue_ok_def queue_of_def last_selected_def fun_eq_iff)
  moreover have "reservation_ok sch (route, mark_admitted t rv)"
    using sched_invD(3) [OF inv] dict_get_in [OF Some]
    by (auto simp: list_all_iff reservation_ok_def mark_admitted_def)
  ultimately show ?thesis using inv
    by (simp add: sched_inv_def s dict_put_distinct list_all_dict_put)
qed (simp add: admit_def)

lemma sched_event_inv:
  assumes inv: "sched_inv sch" and "sched_event reg e sch = Some sch'"
  shows "sched_inv sch'"
  using assms(2)
proof (cases "(reg, e, sch)" rule: sched_event.cases)
  case (1 reg pm cap ex started t1 t2 t3 t4 route tid sch)
  then show ?thesis using assms
    by (auto split: if_splits intro: acquire_inv [OF _ _ surjective_pairing])
next
  case (2 reg pm tk t1 t2 t3 route sch)
  then obtain m where m: "dict_get (sch_models sch) pm = Some m" and q: "tk \<in> set (queue_of sch pm)"
    and s: "sch' = snd (ticket_turn reg m tk t1 t2 t3 route sch)"
    using assms(2) by (auto split: option.splits if_splits)
  have "sched_inv sch" using inv 2 by simp
  have n: "mc_name m = pm" by (rule sched_invD(1) [OF \<open>sched_inv sch\<close> m])
  have "tk_capability tk \<in> set (mc_capabilities m)"
    using sched_invD(4) [OF \<open>sched_inv sch\<close>, of pm] q m by (auto simp: ticket_queue_ok_def)
  then show ?thesis
    unfolding s using m n by (intro ticket_turn_inv [OF \<open>sched_inv sch\<close> _ _ surjective_pairing]) simp_all
qed (use assms leave_queue_inv release_inv admit_inv in \<open>auto split: if_splits\<close>)

lemma gw_step_cases:
  assumes "gw_step cd e g = Some g'"
  obtains (poll) p r where "registry_step cd p (gw_registry g) = Some r" and "g' = g\<lparr>gw_registry := r\<rparr>"
  | (sched) sch where "sched_event (gw_registry g) e (gw_sched g) = Some sch" and "g' = g\<lparr>gw_sched := sch\<rparr>"
  using assms unfolding gw_step_def
  by (cases e; simp del: sched_event.simps registry_step.simps; elim exE conjE; blast)

interpretation schedule: inductive_invariant gw_init "gw_step cd" "\<lambda>g. sched_inv (gw_sched g)" for cd
proof
  fix g assume "gw_init g"
  then obtain c where c: "config_ok c" and g: "gw_sched g = init_scheduler (fc_models c) (fc_nodes c)"
    by (auto simp: gw_init_def)
  have "dict_get (map (\<lambda>m. (mc_name m, m)) ms) n = Some x \<Longrightarrow> mc_name x = n" for ms :: "model_config list" and n x
    by (auto simp: dict_get_def dest!: map_of_SomeD)
  then show "sched_inv (gw_sched g)"
    by (auto simp: g init_scheduler_def sched_inv_def ticket_queue_ok_def queue_of_def last_selected_def)
next
  fix g e g' assume "sched_inv (gw_sched g)" and "gw_step cd e g = Some g'"
  then show "sched_inv (gw_sched g')" by (auto elim!: gw_step_cases intro: sched_event_inv)
qed

subsection \<open>The registry files every record under its node\<close>

definition records_keyed :: "registry \<Rightarrow> bool" where
  "records_keyed r =
     (distinct (map fst (rg_records r)) \<and> (\<forall>e \<in> set (rg_records r). nc_node_id (nr_enrollment (snd e)) = fst e))"

lemma dict_put_set: "set (dict_put k v d) \<subseteq> insert (k, v) (set d)"
  by (induction k v d rule: dict_put.induct) auto

lemma accept_snapshot_records:
  "rg_records (snd (accept_snapshot node snap st w t r)) = rg_records r
   \<or> (\<exists>rec. nr_enrollment rec = node
        \<and> rg_records (snd (accept_snapshot node snap st w t r)) = dict_put (nc_node_id node) rec (rg_records r))"
proof -
  let ?rec = "\<lparr>nr_enrollment = node, nr_snapshot = snap, nr_received_at = w, nr_received_monotonic = t,
      nr_poll_started_monotonic = st\<rparr>"
  have "rg_records (snd (accept_snapshot node snap st w t r)) \<in> {rg_records r, dict_put (nc_node_id node) ?rec (rg_records r)}"
    by (simp add: accept_snapshot_def Let_def split: option.split)
  then show ?thesis by (metis insertE node_record.select_convs(1) singletonD)
qed

lemma poll_once_records:
  "rg_records (snd (poll_once cd node f st w t r)) = rg_records r
   \<or> (\<exists>rec. nr_enrollment rec = node
        \<and> rg_records (snd (poll_once cd node f st w t r)) = dict_put (nc_node_id node) rec (rg_records r))"
proof -
  have "(\<exists>e. poll_once cd node f st w t r = (False, set_error (nc_node_id node) e r))
      \<or> (\<exists>snap. poll_once cd node f st w t r = accept_snapshot node snap st w t r)"
    unfolding poll_once_def Let_def by (auto split: fetch.split sum.split option.split)
  then show ?thesis
  proof (elim disjE exE)
    fix snap
    assume p: "poll_once cd node f st w t r = accept_snapshot node snap st w t r"
    show ?thesis unfolding p by (rule accept_snapshot_records)
  qed simp
qed

lemma registry_step_keyed:
  assumes "records_keyed r" and "registry_step cd e r = Some r'"
  shows "records_keyed r'"
proof -
  obtain node f st w t where "r' = snd (poll_once cd node f st w t r)"
    using assms(2) by (cases e) (auto split: if_splits)
  then consider "rg_records r' = rg_records r"
    | rec where "nr_enrollment rec = node" and "rg_records r' = dict_put (nc_node_id node) rec (rg_records r)"
    using poll_once_records [of cd node f st w t r] by blast
  then show ?thesis
  proof cases
    case 1
    then show ?thesis using assms(1) by (simp add: records_keyed_def)
  next
    case 2
    have d: "distinct (map fst (dict_put (nc_node_id node) rec (rg_records r)))"
      using assms(1) by (intro dict_put_distinct) (simp add: records_keyed_def)
    have "nc_node_id (nr_enrollment (snd e)) = fst e" if "e \<in> set (dict_put (nc_node_id node) rec (rg_records r))" for e
      using subsetD [OF dict_put_set that] assms(1) 2(1) by (auto simp: records_keyed_def)
    then show ?thesis unfolding records_keyed_def 2(2) using d by blast
  qed
qed

interpretation keyed: inductive_invariant gw_init "gw_step cd" "\<lambda>g. records_keyed (gw_registry g)" for cd
proof
  fix g assume "gw_init g"
  then show "records_keyed (gw_registry g)" by (auto simp: gw_init_def init_registry_def records_keyed_def)
next
  fix g e g' assume "records_keyed (gw_registry g)" and "gw_step cd e g = Some g'"
  then show "records_keyed (gw_registry g')" by (auto elim!: gw_step_cases intro: registry_step_keyed)
qed

lemma live_record:
  assumes "records_keyed reg"
  shows "rec \<in> set (live_records reg now) \<longleftrightarrow>
    registry_record reg (nc_node_id (nr_enrollment rec)) = Some rec \<and> is_live reg rec now"
proof -
  have get: "(k, rec) \<in> set (rg_records reg) \<longleftrightarrow> dict_get (rg_records reg) k = Some rec" for k
    using assms by (simp add: records_keyed_def dict_get_def)
  have "rec \<in> snd ` set (rg_records reg) \<longleftrightarrow> (nc_node_id (nr_enrollment rec), rec) \<in> set (rg_records reg)"
  proof
    assume "rec \<in> snd ` set (rg_records reg)"
    then obtain e where "e \<in> set (rg_records reg)" "rec = snd e" by (elim imageE)
    moreover from this have "nc_node_id (nr_enrollment rec) = fst e" using assms by (simp add: records_keyed_def)
    ultimately show "(nc_node_id (nr_enrollment rec), rec) \<in> set (rg_records reg)" by simp
  qed (metis imageI snd_conv)
  then show ?thesis by (simp add: live_records_def registry_record_def get)
qed

lemma find_hd: "find P xs = (if filter P xs = [] then None else Some (hd (filter P xs)))"
  by (induction xs) auto

lemma candidate_deployment_first:
  assumes "cap \<in> set (mc_capabilities m)"
  shows "candidate_deployment rec m cap = (if routable_deployments rec m = [] then None else Some (hd (routable_deployments rec m)))"
proof -
  have "filter (\<lambda>d. dp_identity_confidence d = ''authoritative'' \<and> dp_fleet_eligible d
         \<and> cap \<in> set (di_capabilities (dp_identity d)) \<and> dp_loadable d) (strict_deployments rec m)
      = routable_deployments rec m"
    using assms unfolding routable_deployments_def filter_filter
    by (intro filter_cong refl) (auto simp: strict_deployments_def)
  then show ?thesis unfolding candidate_deployment_def find_hd by simp
qed

subsection \<open>First in, first out\<close>

lemma fifo_refl: "fifo_step q q"
  unfolding fifo_step_def by (intro exI [of _ q] exI [of _ "[]"]) simp

lemma fifo_trans: "fifo_step q q' \<Longrightarrow> fifo_step q' q'' \<Longrightarrow> fifo_step q q''"
proof -
  assume "fifo_step q q'" and "fifo_step q' q''"
  then obtain a b c d where q': "q' = a @ b" "subseq a q" and q'': "q'' = c @ d" "subseq c q'"
    by (auto simp: fifo_step_def)
  from q''(2) q'(1) obtain c1 c2 where "c = c1 @ c2" "subseq c1 a" by (auto simp: subseq_append_iff)
  then have "q'' = c1 @ (c2 @ d)" and "subseq c1 q" using q'' q'(2) by (auto intro: subseq_order.trans)
  then show ?thesis unfolding fifo_step_def by blast
qed

lemma subseq_remove1: "subseq (remove1 x xs) xs"
  by (induction xs) auto

lemma fifo_subseq: "subseq q' q \<Longrightarrow> fifo_step q q'"
  unfolding fifo_step_def by (intro exI [of _ q'] exI [of _ "[]"]) simp

lemma leave_queue_fifo: "fifo_step (queue_of sch n) (queue_of (leave_queue m tk sch) n)"
  by (auto simp: leave_queue_def intro: fifo_refl fifo_subseq subseq_remove1)

lemma subseq_tl: "subseq (tl q) q"
  by (cases q) auto

lemma ticket_turn_fifo: "fifo_step (queue_of sch n) (queue_of (snd (ticket_turn reg m tk t1 t2 t3 route sch)) n)"
  using leave_queue_fifo
  by (auto simp: ticket_turn_def Let_def reserve_frame(2) intro: fifo_refl fifo_subseq subseq_tl
      split: option.splits prod.splits)

lemma acquire_fifo:
  "fifo_step (queue_of sch n) (queue_of (snd (acquire reg pm cap ex st t1 t2 t3 t4 route tid sch)) n)"
proof -
  have push: "fifo_step (queue_of sch n) (queue_of (set_queue pm (queue_of sch pm @ [tk]) sch) n)" for tk
    unfolding fifo_step_def by (cases "n = pm") (auto intro: exI [of _ "[]"])
  have first: "fifo_step (queue_of sch n) (queue_of (set_queue pm [tk] sch) n)" if "queue_of sch pm = []" for tk
    using push [of tk] that by simp
  show ?thesis
    by (auto simp: acquire_def Let_def reserve_frame(2)
        intro: fifo_refl fifo_trans [OF push ticket_turn_fifo] fifo_trans [OF first ticket_turn_fifo]
        split: option.splits prod.splits)
qed

lemma queue_of_release [simp]: "queue_of (release route sch) = queue_of sch"
  by (simp add: release_def queue_of_def fun_eq_iff)

lemma queue_of_admit [simp]: "queue_of (admit route t sch) = queue_of sch"
  by (simp add: admit_def queue_of_def fun_eq_iff split: option.splits)

lemma sched_event_fifo:
  assumes "sched_event reg e sch = Some sch'"
  shows "fifo_step (queue_of sch n) (queue_of sch' n)"
  using assms
  by (cases "(reg, e, sch)" rule: sched_event.cases)
    (auto intro: fifo_refl acquire_fifo ticket_turn_fifo leave_queue_fifo split: option.splits if_splits)

lemma run_fifo:
  "run (gw_step cd) es g = Some g' \<Longrightarrow> fifo_step (queue_of (gw_sched g) n) (queue_of (gw_sched g') n)"
proof (induction es arbitrary: g)
  case (Cons e es)
  then obtain h where h: "gw_step cd e g = Some h" and "run (gw_step cd) es h = Some g'"
    by (auto split: option.splits)
  have "fifo_step (queue_of (gw_sched g) n) (queue_of (gw_sched h) n)"
    using h by (auto elim!: gw_step_cases intro: fifo_refl sched_event_fifo)
  then show ?case using Cons.IH \<open>run (gw_step cd) es h = Some g'\<close> by (auto intro: fifo_trans)
qed (simp add: fifo_refl)

subsection \<open>Counting reservations\<close>

lemma count_by_get: "dict_get (fold (\<lambda>rv d. dict_put (f rv) ((case dict_get d (f rv) of None \<Rightarrow> 0 | Some n \<Rightarrow> n) + 1) d) rvs d0) k
    = (if k \<in> f ` set rvs
       then Some ((case dict_get d0 k of None \<Rightarrow> 0 | Some n \<Rightarrow> n) + count_if (\<lambda>rv. f rv = k) rvs)
       else dict_get d0 k)"
proof (induction rvs arbitrary: d0)
  case (Cons rv rvs)
  show ?case unfolding fold_simps(2) Cons.IH by (auto simp: count_if_def filter_empty_conv image_iff split: option.splits)
qed simp

lemma filter_nonempty: "filter P xs \<noteq> [] \<Longrightarrow> xs \<noteq> []"
  by auto

lemma find_Some_iff: "(\<exists>x. find P xs = Some x) \<longleftrightarrow> filter P xs \<noteq> []"
  by (induction xs) auto

section \<open>Properties\<close>

text \<open>
  C8: a reservation never exceeds what the node advertised. When the scheduler selects a node and
  reserves it under a fresh route, the reservations that the node's snapshot cannot have accounted
  for grow by one and stay within the advertised free permits of a resident model (first tier), or
  within the free places of the node's queue (all other tiers).
\<close>

theorem reservation_within_advertised:
  assumes "select reg sch m cap excluded now = Some cand" and "fresh_route route sch"
    and "reserve cand m cap queued_at reserved_at route sch = (rv, sch')"
  shows "let rec = ca_record cand; snap = nr_snapshot rec; n = unaccounted_reservations sch' rec
         in n = unaccounted_reservations sch rec + 1
            \<and> (if ca_tier cand = 1 then n \<le> cp_available (sn_capacity snap)
               else n \<le> ad_queue_limit (sn_admission snap) - ad_queue_depth (sn_admission snap))"
proof -
  have "tier_of sch (ca_record cand) m (ca_deployment cand) = Some (ca_tier cand)"
    using candidate_tier select_Some(1) [OF assms(1)] by blast
  from tier_room [OF this] reserve_unaccounted [OF assms(3,2)] show ?thesis by (auto simp: Let_def)
qed

text \<open>
  C30: selection is warm-first and least loaded. What is selected is a live node that qualifies, with
  its tier, and no live node that qualifies and has room is preferred to it: tiers go by what is
  resident (the model with a free permit, the model with a place in the queue, nothing, another
  model), then the lower load, then the node selected less recently, then the identifier. Nothing is
  selected only when no live node that qualifies has room.
\<close>

theorem selection_optimal:
  shows "case select reg sch m cap excluded now of
           None \<Rightarrow> \<forall>rec \<in> set (live_records reg now). \<forall>d. qualifies m cap excluded rec d \<longrightarrow> warmth sch m rec d = None
         | Some c \<Rightarrow>
             ca_record c \<in> set (live_records reg now)
             \<and> qualifies m cap excluded (ca_record c) (ca_deployment c)
             \<and> warmth sch m (ca_record c) (ca_deployment c) = Some (ca_tier c)
             \<and> (\<forall>rec \<in> set (live_records reg now). \<forall>d t. qualifies m cap excluded rec d \<longrightarrow> warmth sch m rec d = Some t \<longrightarrow>
                  preferred sch (ca_record c, ca_deployment c, ca_tier c) (rec, d, t))"
proof (cases "select reg sch m cap excluded now")
  case None
  then show ?thesis using select_None [THEN iffD1, OF None] by (auto simp: candidate_of_spec)
next
  case (Some c)
  note c = select_Some(1) [OF Some]
  then obtain d t where d: "qualifies m cap excluded (ca_record c) d" "warmth sch m (ca_record c) d = Some t"
    and cd: "c = \<lparr>ca_record = ca_record c, ca_deployment = d, ca_tier = t, ca_load_score = node_load sch (ca_record c) d\<rparr>"
    by (auto simp: candidate_of_spec)
  have "preferred sch (ca_record c, d, t) (rec, d', t')"
    if "rec \<in> set (live_records reg now)" "qualifies m cap excluded rec d'" "warmth sch m rec d' = Some t'" for rec d' t'
  proof -
    have "candidate_of sch m cap excluded rec = Some \<lparr>ca_record = rec, ca_deployment = d', ca_tier = t',
        ca_load_score = node_load sch rec d'\<rparr>" using that(2,3) by (simp add: candidate_of_spec)
    from select_Some(2) [OF Some that(1) this] show ?thesis by (subst (asm) cd) (simp add: candidate_key_preferred)
  qed
  moreover have "ca_deployment c = d" "ca_tier c = t" using arg_cong [OF cd, of ca_deployment] arg_cong [OF cd, of ca_tier] by simp_all
  ultimately show ?thesis using Some c d by auto
qed

text \<open>
  C31: the queues are bounded: in every reachable gateway state, the queue of every configured model
  is at most as long as its configured depth, its tickets are distinct, and every reservation is
  for the deployment and a capability of its configured model.
\<close>

theorem queues_bounded:
  assumes "reach gw_init (gw_step cd) g" and "dict_get (sch_models (gw_sched g)) name = Some m"
  shows "(queue_of (gw_sched g) name = [] \<or> int (length (queue_of (gw_sched g) name)) \<le> mc_queue_depth m)
    \<and> distinct (map tk_ticket_id (queue_of (gw_sched g) name))
    \<and> (\<forall>e \<in> set (sch_reservations (gw_sched g)). rv_public_model (snd e) = name \<longrightarrow>
          rv_deployment_id (snd e) = mc_deployment_id m \<and> rv_capability (snd e) \<in> set (mc_capabilities m))"
proof -
  have inv: "sched_inv (gw_sched g)" by (rule schedule.inv_reach [OF assms(1)])
  show ?thesis using sched_invD(3,4) [OF inv] assms(2)
    by (fastforce simp: ticket_queue_ok_def list_all_iff reservation_ok_def)
qed

text \<open>
  The queues are first-in first-out: along every run of the gateway, the tickets that are still
  queued keep their order and newcomers stand behind all of them.
\<close>

theorem queue_order_kept:
  assumes "run (gw_step cd) es g = Some g'"
  shows "\<exists>old new. queue_of (gw_sched g') name = old @ new \<and> subseq old (queue_of (gw_sched g) name)"
  using run_fifo [OF assms] by (simp add: fifo_step_def)

text \<open>
  C32: nobody overtakes: a waiting ticket gets a reservation only when it is at the head of its queue,
  and a new request is served at once only when its queue is empty.
\<close>

theorem no_overtaking:
  assumes "sched_inv sch" and "fresh_ticket pm tid sch"
  shows "(fst (ticket_turn reg m tk t1 t2 t3 route sch) = Reserved rv \<longrightarrow>
           queue_of sch (mc_name m) \<noteq> [] \<and> tk_ticket_id (hd (queue_of sch (mc_name m))) = tk_ticket_id tk)
    \<and> (fst (acquire reg pm cap ex st u1 u2 u3 u4 route tid sch) = Reserved rv' \<longrightarrow> queue_of sch pm = [])"
proof -
  have turn: "queue_of s (mc_name x) \<noteq> [] \<and> tk_ticket_id (hd (queue_of s (mc_name x))) = tk_ticket_id k"
    if "fst (ticket_turn reg x k v1 v2 v3 route s) = Reserved y" for x k v1 v2 v3 y s
    using that by (auto simp: ticket_turn_def Let_def split: option.splits if_splits prod.splits)
  have "queue_of sch pm = []" if a: "fst (acquire reg pm cap ex st u1 u2 u3 u4 route tid sch) = Reserved rv'"
  proof (rule ccontr)
    assume ne: "queue_of sch pm \<noteq> []"
    let ?tk = "\<lparr>tk_ticket_id = tid, tk_capability = cap, tk_enqueued_at = st, tk_excluded_nodes = ex\<rparr>"
    obtain x where x: "dict_get (sch_models sch) pm = Some x"
      and r: "fst (ticket_turn reg x ?tk u2 u3 u4 route (set_queue pm (queue_of sch pm @ [?tk]) sch)) = Reserved rv'"
      using a ne by (auto simp: acquire_def Let_def split: option.splits if_splits)
    have "mc_name x = pm" by (rule sched_invD(1) [OF assms(1) x])
    with turn [OF r] ne have "tk_ticket_id (hd (queue_of sch pm)) = tid" by simp
    with assms(2) ne show False by (simp add: fresh_ticket_def)
  qed
  with turn show ?thesis by blast
qed

lemma matrix_row:
  assumes "registry_record reg nid = Some rec"
  shows "nw_eligible (matrix_node reg m now nid) \<longleftrightarrow> routable_deployments rec m \<noteq> [] \<and> is_live reg rec now
      \<and> schedulable_health (sn_health (nr_snapshot rec))"
    and "nw_eligible (matrix_node reg m now nid) \<longleftrightarrow> nw_reason_codes (matrix_node reg m now nid) = []"
    and "routable_deployments rec m \<noteq> [] \<Longrightarrow>
      nw_alias (matrix_node reg m now nid) = Some (dp_alias (hd (routable_deployments rec m)))"
proof -
  let ?row = "matrix_node reg m now nid"
  show e: "nw_eligible ?row \<longleftrightarrow> routable_deployments rec m \<noteq> [] \<and> is_live reg rec now
      \<and> schedulable_health (sn_health (nr_snapshot rec))"
    and "routable_deployments rec m \<noteq> [] \<Longrightarrow> nw_alias ?row = Some (dp_alias (hd (routable_deployments rec m)))"
    by (simp_all add: matrix_node_def assms(1) Let_def)
  have r: "nw_reason_codes ?row = reason_codes reg rec m now" by (simp add: matrix_node_def assms(1) Let_def)
  define a where "a = filter (\<lambda>d. dp_identity_confidence d = ''authoritative'') (strict_deployments rec m)"
  define b where "b = filter dp_fleet_eligible a"
  define c where "c = filter dp_loadable b"
  have ne: "c \<noteq> [] \<Longrightarrow> b \<noteq> []" "b \<noteq> [] \<Longrightarrow> a \<noteq> []" "a \<noteq> [] \<Longrightarrow> strict_deployments rec m \<noteq> []"
    "strict_deployments rec m \<noteq> [] \<Longrightarrow> id_deployments rec m \<noteq> []"
    unfolding a_def b_def c_def strict_deployments_def by - (erule filter_nonempty)+
  have route: "routable_deployments rec m = c" by (simp only: routable_deployments_def a_def b_def c_def)
  have "reason_codes reg rec m now = [] \<longleftrightarrow> routable_deployments rec m \<noteq> [] \<and> is_live reg rec now
      \<and> schedulable_health (sn_health (nr_snapshot rec))"
    unfolding reason_codes_def Let_def route schedulable_health_def
      a_def [symmetric] b_def [symmetric] c_def [symmetric] using ne by auto
  then show "nw_eligible ?row \<longleftrightarrow> nw_reason_codes ?row = []" unfolding e r by blast
qed

lemma candidate_iff:
  assumes "cap \<in> set (mc_capabilities m)"
  shows "candidate_of sch m cap excluded rec \<noteq> None \<longleftrightarrow> nc_node_id (nr_enrollment rec) \<notin> set excluded
    \<and> schedulable_health (sn_health (nr_snapshot rec)) \<and> routable_deployments rec m \<noteq> []
    \<and> tier_of sch rec m (hd (routable_deployments rec m)) \<noteq> None"
  by (auto simp: candidate_of_def candidate_deployment_first [OF assms] split: if_splits)

lemma selected_row:
  assumes "records_keyed reg" and "cap \<in> set (mc_capabilities m)" and "select reg sch m cap excluded now = Some c"
  defines "row \<equiv> matrix_node reg m now (nc_node_id (nr_enrollment (ca_record c)))"
  shows "nw_online row \<and> nw_eligible row \<and> nw_reason_codes row = [] \<and> nw_alias row = Some (dp_alias (ca_deployment c))"
proof -
  note c = select_Some(1) [OF assms(3)]
  have rec: "registry_record reg (nc_node_id (nr_enrollment (ca_record c))) = Some (ca_record c)"
    "is_live reg (ca_record c) now" using c live_record [OF assms(1)] by blast+
  have r: "routable_deployments (ca_record c) m \<noteq> []" "schedulable_health (sn_health (nr_snapshot (ca_record c)))"
    using c candidate_iff [OF assms(2), of sch excluded "ca_record c"] by auto
  have "ca_deployment c = hd (routable_deployments (ca_record c) m)"
    using candidate_tier [of sch m cap excluded "ca_record c" c] c r by (simp add: candidate_deployment_first [OF assms(2)])
  moreover have "nw_online row" using rec by (simp add: row_def matrix_node_def Let_def)
  ultimately show ?thesis using matrix_row [OF rec(1), of m now] rec(2) r by (simp add: row_def)
qed

lemma eligible_row_selects:
  assumes "records_keyed reg" and "cap \<in> set (mc_capabilities m)" and "registry_record reg nid = Some rec"
    and "nw_eligible (matrix_node reg m now nid)" and "nid \<notin> set excluded"
    and "tier_of sch rec m (hd (routable_deployments rec m)) \<noteq> None"
  shows "select reg sch m cap excluded now \<noteq> None"
proof -
  have nid: "nc_node_id (nr_enrollment rec) = nid"
    using assms(1,3) dict_get_in [of "rg_records reg" nid rec] by (force simp: records_keyed_def registry_record_def)
  have "rec \<in> set (live_records reg now)" "candidate_of sch m cap excluded rec \<noteq> None"
    using assms(3-6) matrix_row(1) [OF assms(3), of m now] live_record [OF assms(1), of rec now] nid
      candidate_iff [OF assms(2), of sch excluded rec] by auto
  then show ?thesis by (auto simp: select_None)
qed

text \<open>
  C33: the operator's matrix tells what the scheduler does. In every reachable state of the gateway and
  for every capability of a model: the node that selection returns is shown as online, eligible and
  without a reason against it, under the alias the request is sent to; a node shown as eligible that
  is not excluded and has room for a request of the model (a tier) is a candidate, so that selection
  does not come back empty-handed; a node shown as not eligible is no candidate; and a row is
  eligible exactly when it shows no reason. A node without a record is shown as not eligible, for
  want of a snapshot.
\<close>

theorem matrix_agrees_with_selection:
  assumes "reach gw_init (gw_step cd) g" and "cap \<in> set (mc_capabilities m)"
  shows "(\<forall>c. select (gw_registry g) (gw_sched g) m cap excluded now = Some c \<longrightarrow>
       (let row = matrix_node (gw_registry g) m now (nc_node_id (nr_enrollment (ca_record c)))
        in nw_online row \<and> nw_eligible row \<and> nw_reason_codes row = [] \<and> nw_alias row = Some (dp_alias (ca_deployment c))))
   \<and> (\<forall>nid. let row = matrix_node (gw_registry g) m now nid
        in (nw_eligible row \<longleftrightarrow> nw_reason_codes row = [])
           \<and> (case registry_record (gw_registry g) nid of
                None \<Rightarrow> \<not> nw_eligible row \<and> nw_reason_codes row = [''snapshot_unavailable'']
              | Some rec \<Rightarrow>
                  (is_live (gw_registry g) rec now \<and> candidate_of (gw_sched g) m cap [] rec \<noteq> None
                     \<longleftrightarrow> nw_eligible row \<and> tier_of (gw_sched g) rec m (hd (routable_deployments rec m)) \<noteq> None)
                  \<and> (nw_eligible row \<and> nid \<notin> set excluded
                       \<and> tier_of (gw_sched g) rec m (hd (routable_deployments rec m)) \<noteq> None
                     \<longrightarrow> select (gw_registry g) (gw_sched g) m cap excluded now \<noteq> None)))"
proof (intro conjI allI impI)
  let ?reg = "gw_registry g" and ?sch = "gw_sched g"
  have k: "records_keyed ?reg" by (rule keyed.inv_reach [OF assms(1)])
  show "let row = matrix_node ?reg m now (nc_node_id (nr_enrollment (ca_record c)))
        in nw_online row \<and> nw_eligible row \<and> nw_reason_codes row = [] \<and> nw_alias row = Some (dp_alias (ca_deployment c))"
    if "select ?reg ?sch m cap excluded now = Some c" for c
    unfolding Let_def by (rule selected_row [OF k assms(2) that])
  show "let row = matrix_node ?reg m now nid
        in (nw_eligible row \<longleftrightarrow> nw_reason_codes row = [])
           \<and> (case registry_record ?reg nid of
                None \<Rightarrow> \<not> nw_eligible row \<and> nw_reason_codes row = [''snapshot_unavailable'']
              | Some rec \<Rightarrow>
                  (is_live ?reg rec now \<and> candidate_of ?sch m cap [] rec \<noteq> None
                     \<longleftrightarrow> nw_eligible row \<and> tier_of ?sch rec m (hd (routable_deployments rec m)) \<noteq> None)
                  \<and> (nw_eligible row \<and> nid \<notin> set excluded
                       \<and> tier_of ?sch rec m (hd (routable_deployments rec m)) \<noteq> None
                     \<longrightarrow> select ?reg ?sch m cap excluded now \<noteq> None))" for nid
  proof (cases "registry_record ?reg nid")
    case None
    then show ?thesis by (simp add: matrix_node_def)
  next
    case (Some rec)
    then show ?thesis
      using matrix_row(1,2) [OF Some, of m now] candidate_iff [OF assms(2), of ?sch "[]" rec]
        eligible_row_selects [OF k assms(2) Some] by (auto simp: Let_def)
  qed
qed

text \<open>
  A release returns exactly its own reservation: the others stay, the corrected load of a node
  drops by one if the reservation was still unaccounted there and not otherwise, and releasing again
  changes nothing.
\<close>

theorem release_returns_one:
  assumes "sched_inv sch" and "dict_get (sch_reservations sch) route = Some rv"
  shows "unaccounted_reservations (release route sch) rec
       = unaccounted_reservations sch rec - (if unaccounted rec rv then 1 else 0)
    \<and> (\<forall>other. other \<noteq> route \<longrightarrow>
          dict_get (sch_reservations (release route sch)) other = dict_get (sch_reservations sch) other)
    \<and> release route (release route sch) = release route sch"
proof -
  have pop: "count_if P (map snd (dict_pop k d)) = count_if P (map snd d) - (if P v then 1 else 0)"
    if "distinct (map fst d)" "dict_get d k = Some v" for P :: "reservation \<Rightarrow> bool" and d k v
    using that
  proof (induction d)
    case (Cons e d)
    show ?case
    proof (cases "fst e = k")
      case True
      then have "\<forall>kv \<in> set d. fst kv \<noteq> k" using Cons.prems(1) by (auto simp: image_iff)
      then have "dict_pop k d = d" by (simp add: dict_pop_def filter_id_conv)
      with True Cons.prems(2) show ?thesis by (cases e) (simp add: dict_pop_def dict_get_Cons)
    next
      case False
      then show ?thesis using Cons by (cases e) (simp add: dict_pop_def dict_get_Cons)
    qed
  qed simp
  have "unaccounted_reservations (release route sch) rec
      = unaccounted_reservations sch rec - (if unaccounted rec rv then 1 else 0)"
    unfolding unaccounted_reservations_def using pop [OF sched_invD(2) [OF assms(1)] assms(2)]
    by (simp add: release_def)
  then show ?thesis by (simp add: release_def) (simp add: dict_pop_def)
qed

section \<open>Concrete runs\<close>

lemma demo_fields:
  "rs_deployment_id (sn_residency demo_snapshot) = Some (dp_deployment_id demo_deployment)"
  "sn_deployments demo_snapshot = [demo_deployment]" "sn_capacity demo_snapshot = demo_capacity"
  "schedulable_health (sn_health demo_snapshot)" "nc_node_id demo_node = ''n1''" "nc_routing_weight demo_node = None"
  "nr_snapshot demo_record = demo_snapshot" "nr_enrollment demo_record = demo_node"
  "di_capabilities (dp_identity demo_deployment) = [''chat/completions'']"
  "dp_identity_confidence demo_deployment = ''authoritative''" "dp_fleet_eligible demo_deployment"
  "dp_loadable demo_deployment" "dp_capacity demo_deployment = demo_capacity"
  "cp_available demo_capacity = 4" "cp_active demo_capacity = 0" "cp_effective_limit demo_capacity = 4"
  "ad_queue_depth (sn_admission demo_snapshot) = 0" "nr_received_monotonic demo_record = 1"
  "mc_deployment_id demo_model = dp_deployment_id demo_deployment"
  "mc_capabilities demo_model = [''chat/completions'']"
  "live_records demo_registry 5 = [demo_record]" "sch_reservations demo_scheduler = []"
  by (simp_all add: demo_snapshot_def demo_deployment_def demo_identity_def demo_capacity_def demo_node_def
      demo_record_def schedulable_health_def live_records_def is_live_def demo_registry_def init_registry_def
      demo_scheduler_def init_scheduler_def demo_model_def)

lemma demo_select_live:
  "live_records reg now = [demo_record] \<Longrightarrow> select reg demo_scheduler demo_model ''chat/completions'' [] now = Some demo_candidate"
proof -
  assume live: "live_records reg now = [demo_record]"
  have strict: "strict_deployments demo_record demo_model = [demo_deployment]"
    by (simp add: strict_deployments_def id_deployments_def demo_fields)
  have un: "unaccounted_reservations demo_scheduler demo_record = 0"
    by (simp add: unaccounted_reservations_def demo_fields)
  have "candidate_of demo_scheduler demo_model ''chat/completions'' [] demo_record = Some demo_candidate"
    by (simp add: candidate_of_def demo_fields candidate_deployment_def strict tier_of_def is_resident_def
        available_permits_def un load_score_def demo_candidate_def)
  then show ?thesis by (simp add: select_def live py_min_def List.map_filter_simps)
qed

lemma demo_select: "select demo_registry demo_scheduler demo_model ''chat/completions'' [] 5 = Some demo_candidate"
  by (simp add: demo_select_live demo_fields)

lemma demo_inv: "sched_inv demo_scheduler"
  by (simp add: demo_scheduler_def init_scheduler_def sched_inv_def ticket_queue_ok_def queue_of_def
      last_selected_def dict_get_Cons demo_model_def)

theorem reservation_within_advertised_witness:
  "unaccounted_reservations (snd (reserve demo_candidate demo_model ''chat/completions'' 0 0 ''r'' demo_scheduler)) demo_record
     \<le> cp_available (sn_capacity demo_snapshot)"
proof -
  have "fresh_route ''r'' demo_scheduler" by (simp add: fresh_route_def demo_fields dict_has_def)
  from reservation_within_advertised [OF demo_select this surjective_pairing, of 0 0] show ?thesis
    by (simp add: Let_def demo_candidate_def demo_fields)
qed

lemma demo_scheduler_reach:
  "\<exists>c. config_ok c \<and> fc_models c = [demo_model] \<and> fc_nodes c = [demo_node]
     \<and> sc_snapshot_ttl_seconds (fc_server c) = 2"
proof -
  let ?sv = "\<lparr>sc_host = ''h'', sc_port = 1, sc_api_key = ''k'', sc_admin_api_key = ''a'', sc_database_path = [],
     sc_request_timeout_seconds = 1, sc_max_body_bytes = 1024, sc_route_history_limit = 100,
     sc_poll_interval_seconds = 1, sc_snapshot_ttl_seconds = 2\<rparr>"
  have "validate_sha256 (mc_deployment_id demo_model) = None"
    by (simp add: demo_model_def demo_deployment_def demo_sha_valid)
  then have "model_config_ok demo_model"
    by (simp add: model_config_ok_def demo_model_def py_strip_def py_isspace_def CAPABILITIES_def)
  moreover have "node_config_ok demo_node"
    by (simp add: node_config_ok_def demo_node_def py_strip_def py_isspace_def opt_all_def)
  ultimately have "config_ok \<lparr>fc_server = ?sv, fc_nodes = [demo_node], fc_models = [demo_model], fc_ledger_dsn = None\<rparr>"
    by (simp add: config_ok_def server_config_ok_def credential_values_def py_strip_def py_isspace_def) (simp add: demo_node_def)
  then show ?thesis by (intro exI conjI) (assumption, simp_all)
qed

theorem queues_bounded_witness:
  "\<exists>g :: gateway. dict_get (sch_models (gw_sched g)) ''m'' = Some demo_model
     \<and> (queue_of (gw_sched g) ''m'' = [] \<or> int (length (queue_of (gw_sched g) ''m'')) \<le> 2)"
proof -
  obtain c where c: "config_ok c" "fc_models c = [demo_model]" "fc_nodes c = [demo_node]"
    using demo_scheduler_reach by blast
  let ?g = "\<lparr>gw_registry = init_registry (fc_nodes c) (sc_poll_interval_seconds (fc_server c))
      (sc_snapshot_ttl_seconds (fc_server c)), gw_sched = init_scheduler (fc_models c) (fc_nodes c)\<rparr>"
  have r: "reach gw_init (gw_step demo_codec) ?g" using c(1) by (intro reach_init) (auto simp: gw_init_def)
  have m: "dict_get (sch_models (gw_sched ?g)) ''m'' = Some demo_model"
    by (simp add: c init_scheduler_def dict_get_Cons demo_model_def)
  from queues_bounded [OF r m] m show ?thesis by (intro exI [of _ ?g]) (simp add: demo_model_def)
qed

theorem queue_order_kept_witness:
  "\<exists>g'. run (gw_step demo_codec) [GGiveUp ''m'' (demo_ticket ''a'')]
       \<lparr>gw_registry = demo_registry, gw_sched = set_queue ''m'' [demo_ticket ''a'', demo_ticket ''b''] demo_scheduler\<rparr> = Some g'
     \<and> queue_of (gw_sched g') ''m'' = [demo_ticket ''b'']
     \<and> (\<exists>old new. queue_of (gw_sched g') ''m'' = old @ new \<and> subseq old [demo_ticket ''a'', demo_ticket ''b''])"
proof -
  let ?g = "\<lparr>gw_registry = demo_registry, gw_sched = set_queue ''m'' [demo_ticket ''a'', demo_ticket ''b''] demo_scheduler\<rparr>"
  let ?g' = "?g\<lparr>gw_sched := leave_queue ''m'' (demo_ticket ''a'') (gw_sched ?g)\<rparr>"
  have run: "run (gw_step demo_codec) [GGiveUp ''m'' (demo_ticket ''a'')] ?g = Some ?g'"
    by (simp add: gw_step_def)
  have "queue_of (gw_sched ?g') ''m'' = [demo_ticket ''b'']" by (simp add: leave_queue_def)
  then show ?thesis using run queue_order_kept [OF run, of "''m''"] by (intro exI [of _ ?g']) simp
qed

theorem no_overtaking_witness:
  "\<exists>rv. fst (acquire demo_registry ''m'' ''chat/completions'' [] 0 5 5 5 5 ''r'' ''t'' demo_scheduler) = Reserved rv
     \<and> queue_of demo_scheduler ''m'' = []"
proof -
  have "fresh_ticket ''m'' ''t'' demo_scheduler" and m: "dict_get (sch_models demo_scheduler) ''m'' = Some demo_model"
    and q: "queue_of demo_scheduler ''m'' = []"
    by (simp_all add: fresh_ticket_def demo_scheduler_def init_scheduler_def queue_of_def dict_get_Cons demo_model_def)
  moreover obtain rv where "fst (acquire demo_registry ''m'' ''chat/completions'' [] 0 5 5 5 5 ''r'' ''t'' demo_scheduler) = Reserved rv"
    using demo_select by (simp add: acquire_def m q demo_fields case_prod_unfold)
  ultimately show ?thesis using no_overtaking [OF demo_inv] by blast
qed

theorem matrix_agrees_with_selection_witness:
  "\<exists>g. reach gw_init (gw_step demo_codec) g
     \<and> select (gw_registry g) (gw_sched g) demo_model ''chat/completions'' [] 2 = Some demo_candidate
     \<and> nw_eligible (matrix_node (gw_registry g) demo_model 2 ''n1'')
     \<and> nw_alias (matrix_node (gw_registry g) demo_model 2 ''n1'') = Some ''m''
     \<and> nw_reason_codes (matrix_node (gw_registry g) demo_model 2 ''other'') = [''snapshot_unavailable'']"
proof -
  obtain c where c: "config_ok c" "fc_models c = [demo_model]" "fc_nodes c = [demo_node]"
    "sc_snapshot_ttl_seconds (fc_server c) = 2" using demo_scheduler_reach by blast
  let ?r = "init_registry [demo_node] (sc_poll_interval_seconds (fc_server c)) 2"
  let ?g = "\<lparr>gw_registry = ?r, gw_sched = demo_scheduler\<rparr>"
  let ?r1 = "snd (accept_snapshot demo_node demo_snapshot 1 1 1 ?r)"
  let ?g1 = "?g\<lparr>gw_registry := ?r1\<rparr>"
  have "gw_init ?g" using c by (auto simp: gw_init_def demo_scheduler_def intro!: exI [of _ c])
  moreover have "gw_step demo_codec (GPoll (Poll demo_node (demo_response ''a'') 1 1 1)) ?g = Some ?g1"
    by (simp add: gw_step_def demo_poll) (simp add: init_registry_def)
  ultimately have r: "reach gw_init (gw_step demo_codec) ?g1" by (blast intro: reach_init reach_step)
  have recs: "rg_records ?r1 = [(''n1'', demo_record)]" "rg_ttl ?r1 = 2"
    by (simp_all add: accept_snapshot_def init_registry_def retired_of_def demo_fields demo_record_def dict_get_Cons Let_def)
  then have "live_records ?r1 2 = [demo_record]" by (simp add: live_records_def is_live_def demo_fields)
  then have s: "select (gw_registry ?g1) (gw_sched ?g1) demo_model ''chat/completions'' [] 2 = Some demo_candidate"
    by (simp add: demo_select_live)
  have n: "registry_record ?r1 ''other'' = None" by (simp add: registry_record_def recs dict_get_Cons)
  have cap: "''chat/completions'' \<in> set (mc_capabilities demo_model)" by (simp add: demo_fields)
  have id: "nc_node_id (nr_enrollment (ca_record demo_candidate)) = ''n1''" "dp_alias (ca_deployment demo_candidate) = ''m''"
    by (simp_all add: demo_candidate_def demo_fields) (simp add: demo_deployment_def)
  note m = matrix_agrees_with_selection [OF r cap, of "[]" 2]
  have "nw_eligible (matrix_node ?r1 demo_model 2 ''n1'') \<and> nw_alias (matrix_node ?r1 demo_model 2 ''n1'') = Some ''m''"
    using m [THEN conjunct1, rule_format, OF s] by (simp add: id Let_def)
  moreover have "nw_reason_codes (matrix_node ?r1 demo_model 2 ''other'') = [''snapshot_unavailable'']"
    using m [THEN conjunct2, rule_format, of "''other''"] n by (simp add: Let_def)
  ultimately show ?thesis using r s by (intro exI [of _ ?g1]) simp
qed

theorem release_returns_one_witness:
  "let s = snd (reserve demo_candidate demo_model ''chat/completions'' 0 0 ''r'' demo_scheduler)
   in unaccounted_reservations (release ''r'' s) demo_record = unaccounted_reservations s demo_record - 1"
proof -
  define s where "s = snd (reserve demo_candidate demo_model ''chat/completions'' 0 0 ''r'' demo_scheduler)"
  obtain rv where r: "reserve demo_candidate demo_model ''chat/completions'' 0 0 ''r'' demo_scheduler = (rv, s)"
    by (metis s_def prod.collapse)
  have m: "dict_get (sch_models demo_scheduler) (mc_name demo_model) = Some demo_model"
    by (simp add: demo_scheduler_def init_scheduler_def dict_get_Cons)
  have "sched_inv s" by (rule reserve_inv [OF demo_inv r m]) (simp add: demo_fields)
  moreover have "dict_get (sch_reservations s) ''r'' = Some rv" by (simp add: reserve_frame(3) [OF r])
  moreover have "unaccounted demo_record rv"
    using r by (auto simp: reserve_def Let_def unaccounted_def demo_candidate_def)
  ultimately show ?thesis using release_returns_one [of s "''r''" rv demo_record] by (simp add: s_def Let_def)
qed

theorem selection_optimal_witness:
  "qualifies demo_model ''chat/completions'' [] demo_record demo_deployment
   \<and> warmth demo_scheduler demo_model demo_record demo_deployment = Some 1
   \<and> preferred demo_scheduler (demo_record, demo_deployment, 1) (demo_record, demo_deployment, 1)"
proof -
  have "demo_record \<in> set (live_records demo_registry 5)" by (simp add: demo_fields)
  then show ?thesis
    using selection_optimal [where reg = demo_registry and sch = demo_scheduler and m = demo_model
        and cap = "''chat/completions''" and excluded = "[]" and now = 5] demo_select
    by (auto simp: demo_candidate_def)
qed

end
