(* ===== verification/Fleet_Store.thy ===== *)
theory Fleet_Store
  imports Py_Values
begin

text \<open>
  The gateway's route metadata, \<open>fleet/src/mnemosyne_fleet/store.py\<close>. The three SQLite tables are lists
  of rows in the order of insertion; each operation is one transaction under the store's lock, so it
  either happens as a whole or raises and changes nothing. Time stamps are the rationals that SQLite's
  doubles denote. Rows with equal time stamps come in the order of insertion, the order in which the
  index on the time stamp lists them.
\<close>

record route_record =
  ro_route_id :: string
  ro_started_at :: rat
  ro_completed_at :: "rat option"
  ro_public_model :: string
  ro_deployment_id :: string
  ro_node_id :: string
  ro_instance_id :: string
  ro_endpoint :: string
  ro_queue_ms :: rat
  ro_response_ms :: "rat option"
  ro_status_code :: "int option"
  ro_failure_code :: "string option"

record fleet_db =
  db_enrolled_nodes :: "(string, rat) dict"
  db_logical_models :: "(string, string \<times> rat) dict"
  db_routes :: "route_record list"

definition empty_db :: fleet_db where
  "empty_db = \<lparr>db_enrolled_nodes = [], db_logical_models = [], db_routes = []\<rparr>"

section \<open>Transactions\<close>

text \<open>\<open>(? - started_at) * 1000.0\<close> in double arithmetic.\<close>

definition elapsed_ms :: "rat \<Rightarrow> route_record \<Rightarrow> rat" where
  "elapsed_ms ended r = fl (fl (ended - ro_started_at r) * 1000)"

definition restart_route :: "rat \<Rightarrow> route_record \<Rightarrow> route_record" where
  "restart_route now r =
     (if ro_completed_at r = None
      then r\<lparr>ro_completed_at := Some now, ro_response_ms := Some (elapsed_ms now r),
             ro_failure_code := Some ''gateway_restarted''\<rparr>
      else r)"

definition keep_keys :: "string list \<Rightarrow> (string, 'a) dict \<Rightarrow> (string, 'a) dict" where
  "keep_keys ks d = (if ks = [] then d else filter (\<lambda>kv. fst kv \<in> set ks) d)"

definition initialize :: "rat \<Rightarrow> string list \<Rightarrow> (string \<times> string) list \<Rightarrow> fleet_db \<Rightarrow> fleet_db" where
  "initialize now node_ids models db =
     \<lparr>db_enrolled_nodes = keep_keys node_ids
        (fold (\<lambda>n d. if dict_has d n then d else dict_put n now d) node_ids (db_enrolled_nodes db)),
      db_logical_models = keep_keys (map fst models)
        (fold (\<lambda>m d. dict_put (fst m) (snd m, now) d) models (db_logical_models db)),
      db_routes = map (restart_route now) (db_routes db)\<rparr>"

text \<open>\<open>ORDER BY started_at DESC\<close>.\<close>

definition by_recency :: "route_record list \<Rightarrow> route_record list" where
  "by_recency rows = sort_key (\<lambda>r. - ro_started_at r) rows"

definition trim_routes :: "nat \<Rightarrow> route_record list \<Rightarrow> route_record list" where
  "trim_routes history_limit rows =
     (let stale = map ro_route_id (drop history_limit (by_recency rows))
      in filter (\<lambda>r. ro_route_id r \<notin> set stale) rows)"

text \<open>\<open>start_route\<close>: a route identifier that is already there violates the primary key.\<close>

definition start_route :: "nat \<Rightarrow> route_record \<Rightarrow> fleet_db \<Rightarrow> string + fleet_db" where
  "start_route history_limit r db =
     (if ro_route_id r \<in> ro_route_id ` set (db_routes db) then Inl ''IntegrityError''
      else Inr (db\<lparr>db_routes := trim_routes history_limit
             (db_routes db @ [r\<lparr>ro_completed_at := None, ro_response_ms := None, ro_status_code := None,
                               ro_failure_code := None\<rparr>])\<rparr>))"

definition complete_row :: "rat \<Rightarrow> int option \<Rightarrow> string option \<Rightarrow> route_record \<Rightarrow> route_record" where
  "complete_row ended status failure r =
     r\<lparr>ro_completed_at := Some ended, ro_response_ms := Some (elapsed_ms ended r), ro_status_code := status,
       ro_failure_code := failure\<rparr>"

definition finish_route :: "string \<Rightarrow> int option \<Rightarrow> string option \<Rightarrow> rat \<Rightarrow> fleet_db \<Rightarrow> fleet_db" where
  "finish_route route_id status failure ended db =
     db\<lparr>db_routes := map (\<lambda>r. if ro_route_id r = route_id then complete_row ended status failure r else r) (db_routes db)\<rparr>"

definition recent_routes :: "int \<Rightarrow> fleet_db \<Rightarrow> route_record list" where
  "recent_routes limit db = take (nat (max 1 (min limit 1000))) (by_recency (db_routes db))"

section \<open>The store as a transition system\<close>

datatype store_event =
    Initialize rat "string list" "(string \<times> string) list"
  | StartRoute route_record
  | FinishRoute string "int option" "string option" rat

fun store_step :: "nat \<Rightarrow> store_event \<Rightarrow> fleet_db \<Rightarrow> fleet_db option" where
  "store_step limit (Initialize now node_ids models) db = Some (initialize now node_ids models db)"
| "store_step limit (StartRoute r) db = (case start_route limit r db of Inl _ \<Rightarrow> Some db | Inr db' \<Rightarrow> Some db')"
| "store_step limit (FinishRoute rid status failure ended) db = Some (finish_route rid status failure ended db)"

section \<open>Lemmas\<close>

definition open_row :: "route_record \<Rightarrow> bool" where
  "open_row r = (ro_completed_at r = None)"

definition row_ok :: "route_record \<Rightarrow> bool" where
  "row_ok r = (if open_row r then ro_response_ms r = None \<and> ro_status_code r = None \<and> ro_failure_code r = None
               else ro_response_ms r \<noteq> None)"

definition store_inv :: "nat \<Rightarrow> fleet_db \<Rightarrow> bool" where
  "store_inv limit db =
     (distinct (map ro_route_id (db_routes db)) \<and> length (db_routes db) \<le> limit \<and> list_all row_ok (db_routes db)
      \<and> distinct (map fst (db_enrolled_nodes db)) \<and> distinct (map fst (db_logical_models db)))"

lemma rows_simps [simp]:
  "ro_route_id (restart_route now r) = ro_route_id r" "ro_route_id (complete_row ended s f r) = ro_route_id r"
  "row_ok r \<Longrightarrow> row_ok (restart_route now r)" "row_ok (complete_row ended s f r)"
  by (auto simp: restart_route_def complete_row_def row_ok_def open_row_def split: if_splits)

lemma set_by_recency [simp]: "set (by_recency rows) = set rows" "length (by_recency rows) = length rows"
  by (simp_all add: by_recency_def)

lemma distinct_by_recency [simp]: "distinct (map ro_route_id (by_recency rows)) = distinct (map ro_route_id rows)"
  by (simp add: by_recency_def distinct_map)

text \<open>What trimming keeps are the most recent rows, as many as the limit allows.\<close>

lemma trim_routes_set:
  assumes "distinct (map ro_route_id rows)"
  shows "set (trim_routes limit rows) = set (take limit (by_recency rows))"
proof -
  let ?s = "by_recency rows"
  have d: "distinct (map ro_route_id (take limit ?s @ drop limit ?s))" using assms by simp
  have split: "set rows = set (take limit ?s) \<union> set (drop limit ?s)"
    by (metis append_take_drop_id set_append set_by_recency(1))
  have "ro_route_id r \<notin> ro_route_id ` set (drop limit ?s)" if "r \<in> set (take limit ?s)" for r
    using d that unfolding map_append distinct_append by auto
  then show ?thesis unfolding trim_routes_def Let_def using split by auto
qed

lemma trim_routes_length:
  assumes "distinct (map ro_route_id rows)"
  shows "length (trim_routes limit rows) = min limit (length rows)"
proof -
  have "distinct rows" using assms distinct_map by blast
  then have "distinct (trim_routes limit rows)" by (simp add: trim_routes_def Let_def)
  then have "length (trim_routes limit rows) = card (set (take limit (by_recency rows)))"
    using trim_routes_set [OF assms, of limit] by (simp flip: distinct_card)
  also have "\<dots> = length (take limit (by_recency rows))"
    using assms by (intro distinct_card distinct_take) (metis distinct_by_recency distinct_map)
  finally show ?thesis by simp
qed

lemma distinct_fold_put:
  "distinct (map fst d) \<Longrightarrow> distinct (map fst (fold (\<lambda>m d. dict_put (f m) (g m) d) ms d))"
  by (induction ms arbitrary: d) (simp_all add: dict_put_distinct)

lemma distinct_fold_ignore:
  "distinct (map fst d) \<Longrightarrow> distinct (map fst (fold (\<lambda>n d. if dict_has d n then d else dict_put n v d) ns d))"
  by (induction ns arbitrary: d) (simp_all add: dict_put_distinct)

lemma distinct_keep_keys: "distinct (map fst d) \<Longrightarrow> distinct (map fst (keep_keys ks d))"
  by (auto simp: keep_keys_def distinct_map inj_on_def)

lemma trim_routes_map:
  "distinct (map ro_route_id rows) \<Longrightarrow> distinct (map ro_route_id (trim_routes limit rows))"
  by (auto simp: trim_routes_def Let_def distinct_map inj_on_def)

lemma started_row_ok: "row_ok (r\<lparr>ro_completed_at := None, ro_response_ms := None, ro_status_code := None, ro_failure_code := None\<rparr>)"
  by (simp add: row_ok_def open_row_def)

lemma start_route_inv:
  assumes "store_inv limit db" and "start_route limit r db = Inr db'"
  shows "store_inv limit db'"
proof -
  let ?rows = "db_routes db @ [r\<lparr>ro_completed_at := None, ro_response_ms := None, ro_status_code := None, ro_failure_code := None\<rparr>]"
  have d: "distinct (map ro_route_id ?rows)" and db': "db' = db\<lparr>db_routes := trim_routes limit ?rows\<rparr>"
    using assms by (auto simp: store_inv_def start_route_def split: if_splits)
  have "list_all row_ok ?rows" using assms(1) started_row_ok by (simp add: store_inv_def)
  then have "list_all row_ok (trim_routes limit ?rows)" by (auto simp: trim_routes_def Let_def list_all_iff)
  then show ?thesis using assms(1) d unfolding db' store_inv_def
    by (simp add: trim_routes_map trim_routes_length del: map_append)
qed


lemma store_step_inv: "store_inv limit db \<Longrightarrow> store_step limit e db = Some db' \<Longrightarrow> store_inv limit db'"
proof (induction limit e db rule: store_step.induct)
  case (1 limit now node_ids models db)
  then show ?case
    by (auto simp: store_inv_def initialize_def list_all_iff comp_def
        intro!: distinct_keep_keys distinct_fold_put distinct_fold_ignore)
next
  case (2 limit r db)
  then show ?case by (auto split: sum.splits intro: start_route_inv)
next
  case (3 limit rid status failure ended db)
  moreover have "(\<lambda>x. ro_route_id (if ro_route_id x = rid then complete_row ended status failure x else x)) = ro_route_id"
    by auto
  ultimately show ?case by (auto simp: store_inv_def finish_route_def list_all_iff comp_def)
qed

interpretation store: inductive_invariant "(=) empty_db" "store_step limit" "store_inv limit"
proof unfold_locales
  show "empty_db = db \<Longrightarrow> store_inv limit db" for db by (auto simp: store_inv_def empty_db_def)
qed (rule store_step_inv)

lemma recency_order:
  assumes "x \<in> set (drop n (by_recency rows))" and "y \<in> set (take n (by_recency rows))"
  shows "ro_started_at x \<le> ro_started_at y"
proof -
  have "sorted (map (\<lambda>r. - ro_started_at r) (take n (by_recency rows) @ drop n (by_recency rows)))"
    by (simp add: by_recency_def)
  then show ?thesis using assms unfolding map_append sorted_append by force
qed

section \<open>Properties\<close>

text \<open>
  The route history. In every database that the store's operations can reach, route identifiers
  are unique, there are at most as many rows as the history limit, and an open row has no outcome.
  Starting a route keeps as many rows as the limit allows, and a row that is dropped for it started no
  later than any row that stays.
\<close>

theorem route_history_kept:
  assumes "reach ((=) empty_db) (store_step limit) db" and "start_route limit r db = Inr db'"
  shows "distinct (map ro_route_id (db_routes db')) \<and> list_all row_ok (db_routes db')
    \<and> length (db_routes db') = min limit (Suc (length (db_routes db)))
    \<and> (\<forall>x \<in> set (db_routes db). x \<notin> set (db_routes db') \<longrightarrow>
         (\<forall>y \<in> set (db_routes db'). ro_started_at x \<le> ro_started_at y))"
proof -
  have inv: "store_inv limit db" by (rule store.inv_reach [OF assms(1)])
  let ?rows = "db_routes db @ [r\<lparr>ro_completed_at := None, ro_response_ms := None, ro_status_code := None, ro_failure_code := None\<rparr>]"
  have d: "distinct (map ro_route_id ?rows)" and db': "db_routes db' = trim_routes limit ?rows"
    using inv assms(2) by (auto simp: store_inv_def start_route_def split: if_splits)
  have "x \<in> set (drop limit (by_recency ?rows))" if "x \<in> set ?rows" "x \<notin> set (take limit (by_recency ?rows))" for x
    using that by (metis UnE append_take_drop_id set_append set_by_recency(1))
  then have "\<forall>x \<in> set (db_routes db). x \<notin> set (db_routes db') \<longrightarrow>
      (\<forall>y \<in> set (db_routes db'). ro_started_at x \<le> ro_started_at y)"
    using recency_order [of _ limit ?rows] unfolding db' trim_routes_set [OF d] by auto
  moreover have "length (db_routes db') = min limit (Suc (length (db_routes db)))"
    unfolding db' trim_routes_length [OF d] by simp
  ultimately show ?thesis using start_route_inv [OF inv assms(2)] by (simp add: store_inv_def)
qed

definition demo_route :: "string \<Rightarrow> rat \<Rightarrow> route_record" where
  "demo_route rid t =
     \<lparr>ro_route_id = rid, ro_started_at = t, ro_completed_at = None, ro_public_model = ''m'', ro_deployment_id = ''d'',
      ro_node_id = ''n'', ro_instance_id = ''i'', ro_endpoint = ''/v1/completions'', ro_queue_ms = 0,
      ro_response_ms = None, ro_status_code = None, ro_failure_code = None\<rparr>"

theorem route_history_kept_witness:
  "\<exists>db db'. start_route 2 (demo_route ''c'' 3) db = Inr db' \<and> length (db_routes db) = 2
     \<and> map ro_route_id (db_routes db') = [''b'', ''c''] \<and> length (db_routes db') = min 2 (Suc 2)"
proof -
  let ?es = "[StartRoute (demo_route ''a'' 1), StartRoute (demo_route ''b'' 2)]"
  let ?db = "empty_db\<lparr>db_routes := [demo_route ''a'' 1, demo_route ''b'' 2]\<rparr>"
  have "run (store_step 2) ?es empty_db = Some ?db" by code_simp
  then have r: "reach ((=) empty_db) (store_step 2) ?db" by (rule reach_run [OF reach_init, rotated]) simp
  let ?db' = "empty_db\<lparr>db_routes := [demo_route ''b'' 2, demo_route ''c'' 3]\<rparr>"
  have s: "start_route 2 (demo_route ''c'' 3) ?db = Inr ?db'" by code_simp
  have "length (db_routes ?db) = 2" "map ro_route_id (db_routes ?db') = [''b'', ''c'']" by (simp_all add: demo_route_def)
  with s route_history_kept [OF r s] show ?thesis by (intro exI [of _ ?db] exI [of _ ?db']) simp
qed

end
