(* ===== verification/Fleet_Proxy.thy ===== *)
theory Fleet_Proxy
  imports Fleet_Scheduler_Safety Fleet_Store Py_Text
begin

text \<open>
  The gateway's request handler, \<open>fleet/src/mnemosyne_fleet/proxy.py\<close>: reading and checking the body,
  the loop over nodes with its exclusions, one attempt with every way it can end, and the ownership of
  a route (its reservation, the upstream response and the metadata row), which is settled once.

  An attempt is a function of what the outside world does during it (\<open>attempt_env\<close>); its value is a
  result and the list of its effects in order. What the scheduler answers is a parameter of the loop,
  with the contract \<open>route_source\<close>, which the model of the scheduler satisfies. \<open>loads\<close> is the strict
  decoding of the body: \<open>None\<close> for anything that is no valid JSON, has a number that is not finite or
  text that has no UTF-8 encoding.
\<close>

section \<open>Headers and bodies\<close>

definition REQUEST_HEADER_DENYLIST :: "string list" where
  "REQUEST_HEADER_DENYLIST =
     [''authorization'', ''connection'', ''content-length'', ''content-encoding'', ''cookie'', ''host'', ''keep-alive'',
      ''proxy-authenticate'', ''proxy-authorization'', ''proxy-connection'', ''te'', ''trailer'', ''transfer-encoding'',
      ''upgrade'', ''x-api-key'', ''x-mnemosyne-error'', ''x-mnemosyne-fleet-route'']"

definition RESPONSE_HEADER_DENYLIST :: "string list" where
  "RESPONSE_HEADER_DENYLIST =
     [''connection'', ''content-length'', ''keep-alive'', ''proxy-authenticate'', ''proxy-authorization'',
      ''proxy-connection'', ''set-cookie'', ''te'', ''trailer'', ''transfer-encoding'', ''upgrade'', ''x-mnemosyne-error'']"

definition response_headers :: "bool \<Rightarrow> (string, string) dict \<Rightarrow> (string, string) dict" where
  "response_headers decoded headers =
     (let denylist = RESPONSE_HEADER_DENYLIST @ (if decoded then [''content-encoding''] else [])
      in filter (\<lambda>kv. py_lower (fst kv) \<notin> set denylist \<and> \<not> py_startswith (py_lower (fst kv)) ''x-mnemosyne-'') headers)"

definition request_headers :: "string \<Rightarrow> string \<Rightarrow> (string, string) dict \<Rightarrow> (string, string) dict" where
  "request_headers inference_token route_id headers =
     dict_put ''X-Mnemosyne-Fleet-Route'' route_id
       (dict_put ''Content-Type'' ''application/json''
         (dict_put ''Authorization'' (''Bearer '' @ inference_token)
           (filter (\<lambda>kv. py_lower (fst kv) \<notin> set REQUEST_HEADER_DENYLIST
               \<and> \<not> py_startswith (py_lower (fst kv)) ''x-forwarded-''
               \<and> \<not> py_startswith (py_lower (fst kv)) ''x-mnemosyne-'') headers)))"

text \<open>\<open>_read_body\<close>: \<open>None\<close> where \<open>OverflowError\<close> is raised, at the first chunk beyond the limit.\<close>

fun read_body :: "int \<Rightarrow> string \<Rightarrow> string list \<Rightarrow> string option" where
  "read_body max_body_bytes output [] = Some output"
| "read_body max_body_bytes output (chunk # chunks) =
     (if max_body_bytes < int (length (output @ chunk)) then None
      else read_body max_body_bytes (output @ chunk) chunks)"

definition forwarded_body :: "mapping_json \<Rightarrow> string \<Rightarrow> string" where
  "forwarded_body payload local_alias = json_text ascii_quoted (JObj (dict_put ''model'' (JStr local_alias) payload))"

text \<open>\<open>headers.get(name)\<close> of a response: names are compared without case.\<close>

definition header_get :: "string \<Rightarrow> (string \<times> string) list \<Rightarrow> string option" where
  "header_get name headers = map_option snd (find (\<lambda>kv. py_lower (fst kv) = name) headers)"

definition is_node_busy :: "(string \<times> string) list \<Rightarrow> bool" where
  "is_node_busy headers = (header_get ''x-mnemosyne-error'' headers = Some ''node_busy'')"

section \<open>One attempt\<close>

record gateway_error =
  ge_status :: int
  ge_code :: string
  ge_message :: string
  ge_retry_after :: "int option"

text \<open>
  An error answer: its status, the \<open>code\<close> and \<open>message\<close> of the body's \<open>error\<close> object (whose \<open>type\<close> is
  always \<open>fleet_error\<close>) and the value of the \<open>Retry-After\<close> header.
\<close>

definition error_response :: "int \<Rightarrow> string \<Rightarrow> string \<Rightarrow> int option \<Rightarrow> gateway_error" where
  "error_response status code message retry_after =
     \<lparr>ge_status = status, ge_code = code, ge_message = message, ge_retry_after = retry_after\<rparr>"

datatype send_result =
    ConnectFailed
  | UpstreamFailed
  | SendCancelled
  | SendError
  | Headers int "(string \<times> string) list"

datatype consume_result = NotConsumed | Consumed | ConsumeCancelled | ConsumeError

datatype delivery = Delivered | DeliveryCancelled | UpstreamStreamError | DeliveryError

record attempt_env =
  ae_start_ok :: bool
  ae_start_cancelled :: bool
  ae_request_built :: bool
  ae_send :: send_result
  ae_consume :: consume_result
  ae_response_built :: bool
  ae_delivery :: delivery

datatype gateway_answer =
    GatewayError gateway_error
  | GatewayRaised string
  | GatewayStream int "(string \<times> string) list"

datatype attempt_result = Answered gateway_answer | NodeBusyRetry | ConnectRetry

datatype route_effect =
    SentUpstream string string
  | MarkAdmitted string
  | ReleaseReservation string
  | CloseUpstream
  | RouteFinished string "int option" "string option"

text \<open>
  \<open>_RouteOwnership\<close>: the route, whether its row was inserted, whether a response is attached, the first
  stream failure, and whether the completion task exists.
\<close>

record route_owner =
  ow_route_id :: string
  ow_route_started :: bool
  ow_response :: bool
  ow_stream_failure :: "string option"
  ow_completed :: bool

definition note_stream_failure :: "string \<Rightarrow> route_owner \<Rightarrow> route_owner" where
  "note_stream_failure code ow = (if ow_stream_failure ow = None then ow\<lparr>ow_stream_failure := Some code\<rparr> else ow)"

text \<open>\<open>complete\<close> and \<open>_finish_owned\<close>.\<close>

definition finish_owned :: "int option \<Rightarrow> string option \<Rightarrow> route_owner \<Rightarrow> route_effect list" where
  "finish_owned status failure ow =
     [ReleaseReservation (ow_route_id ow)]
     @ (if ow_response ow then [CloseUpstream] else [])
     @ (if ow_route_started ow then [RouteFinished (ow_route_id ow) status failure] else [])"

definition complete :: "int option \<Rightarrow> string option \<Rightarrow> route_owner \<Rightarrow> route_owner \<times> route_effect list" where
  "complete status failure ow =
     (if ow_completed ow then (ow, []) else (ow\<lparr>ow_completed := True\<rparr>, finish_owned status failure ow))"

text \<open>Delivering the response: \<open>body_stream\<close> and \<open>_OwnedStreamingResponse.__call__\<close>.\<close>

definition deliver :: "int \<Rightarrow> delivery \<Rightarrow> route_owner \<Rightarrow> route_owner \<times> route_effect list" where
  "deliver status d ow =
     (let ow' = (case d of
            Delivered \<Rightarrow> ow
          | DeliveryCancelled \<Rightarrow> note_stream_failure ''client_cancelled'' ow
          | UpstreamStreamError \<Rightarrow> note_stream_failure ''stream_delivery_error'' (note_stream_failure ''upstream_stream_error'' ow)
          | DeliveryError \<Rightarrow> note_stream_failure ''stream_delivery_error'' ow)
      in complete (Some status) (ow_stream_failure ow') ow')"

definition upstream_failure :: "string \<Rightarrow> gateway_answer" where
  "upstream_failure message = GatewayError (error_response 502 ''upstream_failure'' message None)"

definition not_created :: string where
  "not_created = ''The selected node request could not be created.''"

definition failed_before_response :: string where
  "failed_before_response = ''The selected node failed before returning a response.''"

definition not_processed :: string where
  "not_processed = ''The selected node response could not be processed.''"

definition after_headers ::
  "attempt_env \<Rightarrow> int \<Rightarrow> (string \<times> string) list \<Rightarrow> route_owner \<Rightarrow> attempt_result \<times> route_owner \<times> route_effect list" where
  "after_headers env status headers ow =
     (if status = 429 \<and> is_node_busy headers then (NodeBusyRetry, complete (Some 429) (Some ''node_busy'') ow)
      else
        let admitted = (\<lambda>(a, ow', effects). (Answered a, ow', MarkAdmitted (ow_route_id ow) # effects))
        in admitted
          (case ae_consume env of
             ConsumeCancelled \<Rightarrow> (GatewayRaised ''CancelledError'', complete (Some status) (Some ''client_cancelled'') ow)
           | ConsumeError \<Rightarrow> (upstream_failure not_processed, complete (Some status) (Some ''upstream_response_error'') ow)
           | c \<Rightarrow>
               (if ae_response_built env then (GatewayStream status (response_headers (c = Consumed) headers), ow, [])
                else (upstream_failure not_processed, complete (Some status) (Some ''gateway_response_build_failed'') ow))))"

definition attempt ::
  "attempt_env \<Rightarrow> mapping_json \<Rightarrow> reservation \<Rightarrow> attempt_result \<times> route_owner \<times> route_effect list" where
  "attempt env payload rv =
     (let ow = \<lparr>ow_route_id = rv_route_id rv, ow_route_started = ae_start_ok env, ow_response = False,
                ow_stream_failure = None, ow_completed = False\<rparr>;
          sent = SentUpstream (rv_node_id rv) (forwarded_body payload (rv_local_alias rv));
          ends = (\<lambda>res failure. (res, apsnd (\<lambda>effects. sent # effects) (complete None (Some failure) ow)))
      in if ae_start_cancelled env
         then (Answered (GatewayRaised ''CancelledError''), complete None (Some ''client_cancelled'') ow)
         else if \<not> ae_request_built env
         then (Answered (upstream_failure not_created), complete None (Some ''gateway_request_build_failed'') ow)
         else case ae_send env of
                SendCancelled \<Rightarrow> ends (Answered (GatewayRaised ''CancelledError'')) ''client_cancelled''
              | ConnectFailed \<Rightarrow> ends ConnectRetry ''connect_before_headers''
              | UpstreamFailed \<Rightarrow> ends (Answered (upstream_failure failed_before_response)) ''ambiguous_upstream_failure''
              | SendError \<Rightarrow> ends (Answered (upstream_failure failed_before_response)) ''gateway_proxy_error''
              | Headers status headers \<Rightarrow>
                  (case after_headers env status headers (ow\<lparr>ow_response := True\<rparr>) of
                     (res, ow', effects) \<Rightarrow> (res, ow', sent # effects)))"

text \<open>A whole attempt: the delivery follows where a response is returned.\<close>

definition attempt_run ::
  "attempt_env \<Rightarrow> mapping_json \<Rightarrow> reservation \<Rightarrow> attempt_result \<times> route_effect list" where
  "attempt_run env payload rv =
     (case attempt env payload rv of
        (Answered (GatewayStream status headers), ow, effects) \<Rightarrow>
          (Answered (GatewayStream status headers), effects @ snd (deliver status (ae_delivery env) ow))
      | (res, ow, effects) \<Rightarrow> (res, effects))"

section \<open>The handler\<close>

record attempt_log =
  al_reservation :: reservation
  al_env :: attempt_env
  al_result :: attempt_result
  al_effects :: "route_effect list"

text \<open>What the scheduler answers the \<open>i\<close>-th call, and what happens in the \<open>i\<close>-th attempt.\<close>

record gateway_env =
  gw_acquire :: "nat \<Rightarrow> string list \<Rightarrow> acquire_outcome"
  gw_attempt :: "nat \<Rightarrow> reservation \<Rightarrow> attempt_env"

fun retry_loop ::
  "gateway_env \<Rightarrow> mapping_json \<Rightarrow> nat \<Rightarrow> nat \<Rightarrow> string list \<Rightarrow> bool \<Rightarrow> gateway_answer \<times> attempt_log list" where
  "retry_loop env payload i 0 excluded all_busy =
     (GatewayError (if excluded \<noteq> [] \<and> all_busy then error_response 429 ''fleet_capacity_busy'' ''Every eligible node is currently at capacity.'' (Some 1)
                    else error_response 503 ''no_eligible_node'' ''No eligible node accepted the request.'' (Some 1)), [])"
| "retry_loop env payload i (Suc n) excluded all_busy =
     (case gw_acquire env i excluded of
        UnknownModel \<Rightarrow> (GatewayError (error_response 404 ''model_not_found'' ''The requested model is unavailable.'' None), [])
      | CapabilityUnsupported \<Rightarrow> (GatewayError (error_response 400 ''capability_not_supported'' ''The requested model does not support this endpoint.'' None), [])
      | FleetBusy code \<Rightarrow> (GatewayError (error_response 429 code ''Fleet capacity is currently unavailable.'' (Some 1)), [])
      | Waiting \<Rightarrow> (GatewayRaised ''CancelledError'', [])
      | Reserved rv \<Rightarrow>
          (let ae = gw_attempt env i rv; (res, effects) = attempt_run ae payload rv;
               log = \<lparr>al_reservation = rv, al_env = ae, al_result = res, al_effects = effects\<rparr>
           in case res of
                Answered a \<Rightarrow> (a, [log])
              | NodeBusyRetry \<Rightarrow>
                  apsnd (\<lambda>logs. log # logs) (retry_loop env payload (Suc i) n (rv_node_id rv # excluded) all_busy)
              | ConnectRetry \<Rightarrow>
                  apsnd (\<lambda>logs. log # logs) (retry_loop env payload (Suc i) n (rv_node_id rv # excluded) False)))"

definition handle ::
  "(string \<Rightarrow> json option) \<Rightarrow> int \<Rightarrow> nat \<Rightarrow> gateway_env \<Rightarrow> string list \<Rightarrow> gateway_answer \<times> attempt_log list" where
  "handle loads max_body_bytes node_count env chunks =
     (case read_body max_body_bytes [] chunks of
        None \<Rightarrow> (GatewayError (error_response 413 ''request_too_large'' ''Request body is too large.'' None), [])
      | Some raw_body \<Rightarrow>
          (case loads raw_body of
             None \<Rightarrow> (GatewayError (error_response 400 ''invalid_json'' ''Request body must be valid JSON.'' None), [])
           | Some (JObj payload) \<Rightarrow>
               (case dict_get payload ''model'' of
                  Some (JStr s) \<Rightarrow>
                    if py_strip s = [] then (GatewayError (error_response 400 ''model_required'' ''A non-empty model is required.'' None), [])
                    else retry_loop env payload 0 (max 1 node_count) [] True
                | _ \<Rightarrow> (GatewayError (error_response 400 ''model_required'' ''A non-empty model is required.'' None), []))
           | Some _ \<Rightarrow> (GatewayError (error_response 400 ''invalid_request'' ''Request body must be a JSON object.'' None), [])))"

section \<open>Settling a route\<close>

text \<open>
  The effects of an attempt end with giving back the reservation, closing a response that is attached
  and completing a row that was inserted, in this order; before that nothing is settled.
\<close>

fun settling :: "route_effect \<Rightarrow> bool" where
  "settling (SentUpstream n b) = False"
| "settling (MarkAdmitted r) = False"
| "settling _ = True"

definition settled :: "string \<Rightarrow> bool \<Rightarrow> bool \<Rightarrow> route_effect list \<Rightarrow> bool" where
  "settled route_id started attached effects =
     (\<exists>pre status failure. effects = pre @ [ReleaseReservation route_id] @ (if attached then [CloseUpstream] else [])
        @ (if started then [RouteFinished route_id status failure] else []) \<and> list_all (\<lambda>e. \<not> settling e) pre)"

fun got_headers :: "attempt_env \<Rightarrow> bool" where
  "got_headers env =
     (\<not> ae_start_cancelled env \<and> ae_request_built env \<and> (case ae_send env of Headers s h \<Rightarrow> True | _ \<Rightarrow> False))"

lemma settled_Cons: "\<not> settling e \<Longrightarrow> settled rid s c effects \<Longrightarrow> settled rid s c (e # effects)"
  unfolding settled_def by (elim exE conjE, rule_tac x = "e # pre" in exI) auto

lemma finish_owned_settled: "settled (ow_route_id ow) (ow_route_started ow) (ow_response ow) (finish_owned status failure ow)"
  unfolding settled_def finish_owned_def by (intro exI [of _ "[]"] exI [of _ status] exI [of _ failure]) simp

lemma complete_settled:
  "\<not> ow_completed ow \<Longrightarrow>
     settled (ow_route_id ow) (ow_route_started ow) (ow_response ow) (snd (complete status failure ow))"
  by (simp add: complete_def finish_owned_settled)

lemma deliver_settled:
  "\<not> ow_completed ow \<Longrightarrow>
     settled (ow_route_id ow) (ow_route_started ow) (ow_response ow) (snd (deliver status d ow))"
  using complete_settled [of "note_stream_failure f ow" for f] complete_settled [of ow]
    complete_settled [of "note_stream_failure f (note_stream_failure g ow)" for f g]
  by (auto simp: deliver_def Let_def note_stream_failure_def split: delivery.split)

text \<open>An attempt whose response is still to be delivered has not completed its route.\<close>

lemma after_headers_cases:
  assumes "after_headers env status headers ow = (res, ow', effects)" and "\<not> ow_completed ow"
  shows "(\<exists>hs. res = Answered (GatewayStream status hs) \<and> ow' = ow \<and> effects = [MarkAdmitted (ow_route_id ow)])
    \<or> (settled (ow_route_id ow) (ow_route_started ow) (ow_response ow) effects \<and> (\<forall>s hs. res \<noteq> Answered (GatewayStream s hs)))"
  using assms
  by (auto simp: after_headers_def Let_def complete_def upstream_failure_def finish_owned_settled settled_Cons
      split: if_splits consume_result.splits)

lemma attempt_run_settled:
  assumes "attempt_run env payload rv = (res, effects)"
  shows "settled (rv_route_id rv) (ae_start_ok env) (got_headers env) effects"
proof -
  define ow where "ow = \<lparr>ow_route_id = rv_route_id rv, ow_route_started = ae_start_ok env, ow_response = False,
                ow_stream_failure = None, ow_completed = False\<rparr>"
  let ?ow = "ow\<lparr>ow_response := True\<rparr>"
  have f: "settled (rv_route_id rv) (ae_start_ok env) False (finish_owned s f ow)" for s f
    using finish_owned_settled [of ow s f] by (simp add: ow_def)
  have d: "settled (rv_route_id rv) (ae_start_ok env) True (snd (deliver s dl ?ow))" for s dl
    using deliver_settled [of ?ow s dl] by (simp add: ow_def)
  show ?thesis
  proof (cases "got_headers env")
    case True
    then obtain status hs where h: "\<not> ae_start_cancelled env" "ae_request_built env" "ae_send env = Headers status hs"
      by (auto split: send_result.splits)
    obtain r ow' es where a: "after_headers env status hs ?ow = (r, ow', es)" by (cases "after_headers env status hs ?ow")
    have at: "attempt env payload rv = (r, ow', SentUpstream (rv_node_id rv) (forwarded_body payload (rv_local_alias rv)) # es)"
      using a h by (simp add: attempt_def Let_def ow_def)
    have "\<not> ow_completed ?ow" by (simp add: ow_def)
    from after_headers_cases [OF a this] show ?thesis
    proof
      assume "\<exists>hs. r = Answered (GatewayStream status hs) \<and> ow' = ?ow \<and> es = [MarkAdmitted (ow_route_id ?ow)]"
      then show ?thesis using assms True d by (auto simp: attempt_run_def at intro!: settled_Cons)
    next
      assume "settled (ow_route_id ?ow) (ow_route_started ?ow) (ow_response ?ow) es \<and> (\<forall>s hs. r \<noteq> Answered (GatewayStream s hs))"
      then show ?thesis using assms True
        by (auto simp: attempt_run_def at ow_def intro!: settled_Cons split: attempt_result.splits gateway_answer.splits)
    qed
  next
    case False
    then show ?thesis using assms f
      by (auto simp: attempt_run_def attempt_def Let_def ow_def complete_def upstream_failure_def
          intro!: settled_Cons split: if_splits send_result.splits)
  qed
qed

text \<open>When an attempt is retried.\<close>

definition no_work_proved :: "attempt_env \<Rightarrow> bool" where
  "no_work_proved env =
     (case ae_send env of ConnectFailed \<Rightarrow> True | Headers status hs \<Rightarrow> status = 429 \<and> is_node_busy hs | _ \<Rightarrow> False)"

lemma retried_no_work:
  assumes "attempt_run env payload rv = (res, effects)" and "res = NodeBusyRetry \<or> res = ConnectRetry"
  shows "no_work_proved env"
  using assms
  by (auto simp: no_work_proved_def attempt_run_def attempt_def after_headers_def Let_def upstream_failure_def
      split: if_splits send_result.splits consume_result.splits prod.splits attempt_result.splits gateway_answer.splits)

section \<open>The loop and its source of nodes\<close>

text \<open>What the loop relies on: the scheduler never reserves a node that the caller excludes.\<close>

locale route_source =
  fixes acq :: "nat \<Rightarrow> string list \<Rightarrow> acquire_outcome"
  assumes not_excluded: "acq i excluded = Reserved rv \<Longrightarrow> rv_node_id rv \<notin> set excluded"
begin

lemma loop_nodes:
  assumes "retry_loop env payload i n excluded b = (a, logs)" and "gw_acquire env = acq"
  shows "distinct (map (\<lambda>l. rv_node_id (al_reservation l)) logs)
    \<and> set (map (\<lambda>l. rv_node_id (al_reservation l)) logs) \<inter> set excluded = {} \<and> length logs \<le> n"
  using assms
proof (induction env payload i n excluded b arbitrary: a logs rule: retry_loop.induct)
  case (2 env payload i n excluded b)
  show ?case
  proof (cases "acq i excluded")
    case (Reserved rv)
    obtain res effects where r: "attempt_run (gw_attempt env i rv) payload rv = (res, effects)"
      by (cases "attempt_run (gw_attempt env i rv) payload rv")
    have rv: "rv_node_id rv \<notin> set excluded" by (rule not_excluded [OF Reserved])
    have acq: "gw_acquire env i excluded = Reserved rv" using 2(4) Reserved by simp
    show ?thesis
    proof (cases res)
      case (Answered x)
      then show ?thesis using 2(3) rv by (auto simp: acq r Let_def)
    next
      case NodeBusyRetry
      then show ?thesis using 2(1) [OF acq refl r [symmetric] refl] 2(3,4) rv
        by (fastforce simp: acq r Let_def apsnd_def map_prod_def split: prod.splits)
    next
      case ConnectRetry
      then show ?thesis using 2(2) [OF acq refl r [symmetric] refl] 2(3,4) rv
        by (fastforce simp: acq r Let_def apsnd_def map_prod_def split: prod.splits)
    qed
  qed (use 2 in \<open>auto\<close>)
qed simp

end

lemma loop_logs:
  assumes "retry_loop env payload i n excluded b = (a, logs)"
  shows "(\<forall>l \<in> set logs. attempt_run (al_env l) payload (al_reservation l) = (al_result l, al_effects l))
    \<and> (\<forall>l \<in> set (butlast logs). al_result l = NodeBusyRetry \<or> al_result l = ConnectRetry)"
  using assms
proof (induction env payload i n excluded b arbitrary: a logs rule: retry_loop.induct)
  case (2 env payload i n excluded b)
  show ?case
  proof (cases "gw_acquire env i excluded")
    case acq: (Reserved rv)
    obtain res effects where r: "attempt_run (gw_attempt env i rv) payload rv = (res, effects)"
      by (cases "attempt_run (gw_attempt env i rv) payload rv")
    show ?thesis
    proof (cases res)
      case (Answered x)
      then show ?thesis using 2(3) by (auto simp: acq r Let_def)
    next
      case NodeBusyRetry
      then show ?thesis using 2(1) [OF acq refl r [symmetric] refl] 2(3)
        by (fastforce simp: acq r Let_def apsnd_def map_prod_def split: prod.splits if_splits)
    next
      case ConnectRetry
      then show ?thesis using 2(2) [OF acq refl r [symmetric] refl] 2(3)
        by (fastforce simp: acq r Let_def apsnd_def map_prod_def split: prod.splits if_splits)
    qed
  qed (use 2 in \<open>auto\<close>)
qed simp

text \<open>A handled request that reaches the loop.\<close>

lemma handle_logs:
  assumes "handle loads limit nodes env chunks = (a, logs)"
  shows "logs = [] \<or> (\<exists>payload. retry_loop env payload 0 (max 1 nodes) [] True = (a, logs))"
  using assms by (auto simp: handle_def split: option.splits json.splits if_splits)

section \<open>The scheduler as the source\<close>

text \<open>
  One call of \<open>acquire\<close> from its first section to its outcome: each section sees the registry and the
  scheduler as the other coroutines left them. When no further section follows, the wait has timed out.
\<close>

record section_view =
  sv_registry :: registry
  sv_scheduler :: scheduler
  sv_selected_at :: rat
  sv_reserved_at :: rat
  sv_left_at :: rat
  sv_route_id :: string

fun wait_turns :: "model_config \<Rightarrow> ticket \<Rightarrow> section_view list \<Rightarrow> acquire_outcome" where
  "wait_turns m tk [] = FleetBusy ''fleet_queue_timeout''"
| "wait_turns m tk (v # vs) =
     (case fst (ticket_turn (sv_registry v) m tk (sv_selected_at v) (sv_reserved_at v) (sv_left_at v)
                  (sv_route_id v) (sv_scheduler v)) of
        Waiting \<Rightarrow> wait_turns m tk vs
      | outcome \<Rightarrow> outcome)"

definition acquire_run ::
  "section_view \<Rightarrow> rat \<Rightarrow> rat \<Rightarrow> string \<Rightarrow> section_view list \<Rightarrow> string \<Rightarrow> string \<Rightarrow> string list \<Rightarrow> acquire_outcome" where
  "acquire_run v started t_first tid vs public_model cap excluded =
     (case fst (acquire (sv_registry v) public_model cap excluded started t_first (sv_selected_at v) (sv_reserved_at v)
                 (sv_left_at v) (sv_route_id v) tid (sv_scheduler v)) of
        Waiting \<Rightarrow>
          (case dict_get (sch_models (sv_scheduler v)) public_model of
             None \<Rightarrow> UnknownModel
           | Some m \<Rightarrow> wait_turns m \<lparr>tk_ticket_id = tid, tk_capability = cap, tk_enqueued_at = started,
                                     tk_excluded_nodes = excluded\<rparr> vs)
      | outcome \<Rightarrow> outcome)"

lemma selected_not_excluded:
  "select reg sch m cap excluded now = Some c \<Longrightarrow> nc_node_id (nr_enrollment (ca_record c)) \<notin> set excluded"
  using select_Some(1) [of reg sch m cap excluded now c] by (auto simp: candidate_of_def split: if_splits)

lemma reserve_node: "reserve c m cap q r route sch = (rv, sch') \<Longrightarrow> rv_node_id rv = nc_node_id (nr_enrollment (ca_record c))"
  by (auto simp: reserve_def Let_def)

lemma ticket_turn_not_excluded:
  "ticket_turn reg m tk t_sel t_res t_left route sch = (Reserved rv, sch') \<Longrightarrow> rv_node_id rv \<notin> set (tk_excluded_nodes tk)"
  by (auto simp: ticket_turn_def Let_def selected_not_excluded dest!: reserve_node split: option.splits prod.splits if_splits)

lemma acquire_not_excluded:
  "acquire reg pm cap ex st t1 t2 t3 t4 route tid sch = (Reserved rv, sch') \<Longrightarrow> rv_node_id rv \<notin> set ex"
  by (auto simp: acquire_def Let_def selected_not_excluded dest!: reserve_node ticket_turn_not_excluded
      split: option.splits prod.splits if_splits)

lemma wait_turns_not_excluded: "wait_turns m tk vs = Reserved rv \<Longrightarrow> rv_node_id rv \<notin> set (tk_excluded_nodes tk)"
proof (induction vs)
  case (Cons v vs)
  obtain o' sch' where t: "ticket_turn (sv_registry v) m tk (sv_selected_at v) (sv_reserved_at v) (sv_left_at v)
      (sv_route_id v) (sv_scheduler v) = (o', sch')" by fastforce
  show ?case using Cons t by (cases o') (auto dest: ticket_turn_not_excluded)
qed simp

lemma acquire_run_not_excluded:
  assumes "acquire_run v started t_first tid vs public_model cap excluded = Reserved rv"
  shows "rv_node_id rv \<notin> set excluded"
proof -
  obtain o' sch' where a: "acquire (sv_registry v) public_model cap excluded started t_first (sv_selected_at v) (sv_reserved_at v)
      (sv_left_at v) (sv_route_id v) tid (sv_scheduler v) = (o', sch')" by fastforce
  show ?thesis using assms a
    by (cases o') (auto simp: acquire_run_def dest: acquire_not_excluded wait_turns_not_excluded split: option.splits)
qed

interpretation scheduled: route_source "\<lambda>i. acquire_run (v i) (s i) (t i) (tid i) (vs i) public_model cap"
  by unfold_locales (rule acquire_run_not_excluded)

lemma filter_put:
  "filter (\<lambda>kv. P (fst kv)) (dict_put k v d) =
     (if P k then dict_put k v (filter (\<lambda>kv. P (fst kv)) d) else filter (\<lambda>kv. P (fst kv)) d)"
  by (induction d) auto

section \<open>Properties\<close>

text \<open>
  C13: every route is settled exactly once. For every request and everything that can happen to it,
  each attempt ends by giving back its own reservation, then closing the upstream response if there is
  one, then completing its metadata row if it was inserted; nothing of this happens earlier, and
  completing again has no effect.
\<close>

theorem routes_settled_once:
  "(case handle loads limit nodes env chunks of
     (a, logs) \<Rightarrow> list_all (\<lambda>l. settled (rv_route_id (al_reservation l)) (ae_start_ok (al_env l))
                             (got_headers (al_env l)) (al_effects l)) logs)
   \<and> snd (complete status failure (fst (complete status' failure' ow))) = []"
proof -
  obtain a logs where h: "handle loads limit nodes env chunks = (a, logs)" by fastforce
  from handle_logs [OF h] have "\<forall>l \<in> set logs. settled (rv_route_id (al_reservation l)) (ae_start_ok (al_env l))
      (got_headers (al_env l)) (al_effects l)"
    using loop_logs attempt_run_settled by fastforce
  then show ?thesis by (simp add: h list_all_iff complete_def)
qed

text \<open>
  C22: the gateway tries each node at most once and at most as often as there are nodes, and it only
  goes on to another node when the connection was not established or the node's manager proved with
  its header that it rejected the request before any work.
\<close>

theorem retries_are_safe:
  "(case handle loads limit nodes (env\<lparr>gw_acquire := \<lambda>i. acquire_run (v i) (s i) (t i) (tid i) (vs i) public_model cap\<rparr>) chunks of
     (a, logs) \<Rightarrow> distinct (map (\<lambda>l. rv_node_id (al_reservation l)) logs) \<and> length logs \<le> max 1 nodes
        \<and> list_all (\<lambda>l. no_work_proved (al_env l)) (butlast logs))"
proof -
  let ?env = "env\<lparr>gw_acquire := \<lambda>i. acquire_run (v i) (s i) (t i) (tid i) (vs i) public_model cap\<rparr>"
  obtain a logs where h: "handle loads limit nodes ?env chunks = (a, logs)" by fastforce
  from handle_logs [OF h] show ?thesis
  proof
    assume "\<exists>payload. retry_loop ?env payload 0 (max 1 nodes) [] True = (a, logs)"
    then obtain payload where l: "retry_loop ?env payload 0 (max 1 nodes) [] True = (a, logs)" ..
    have "\<forall>l \<in> set (butlast logs). no_work_proved (al_env l)"
      using loop_logs [OF l] retried_no_work by (meson in_set_butlastD)
    then show ?thesis using scheduled.loop_nodes [OF l] by (simp add: h list_all_iff)
  qed (simp add: h)
qed

text \<open>
  Credentials and proof headers stay on their side. What a node receives has exactly one
  authorization, the gateway's token for that node, and exactly one route header, its own; no cookie,
  client key or forwarding header passes. What a client receives has no cookie of the node and no
  header of the manager's own.
\<close>

theorem headers_isolated:
  "filter (\<lambda>kv. py_lower (fst kv) = ''authorization'') (request_headers token route headers)
     = [(''Authorization'', ''Bearer '' @ token)]
   \<and> filter (\<lambda>kv. py_startswith (py_lower (fst kv)) ''x-mnemosyne-'') (request_headers token route headers)
     = [(''X-Mnemosyne-Fleet-Route'', route)]
   \<and> filter (\<lambda>kv. py_lower (fst kv) \<in> {''cookie'', ''x-api-key'', ''host'', ''proxy-authorization''}
              \<or> py_startswith (py_lower (fst kv)) ''x-forwarded-'') (request_headers token route headers) = []
   \<and> filter (\<lambda>kv. py_lower (fst kv) = ''set-cookie'' \<or> py_startswith (py_lower (fst kv)) ''x-mnemosyne-'')
       (response_headers decoded headers) = []"
proof -
  let ?base = "filter (\<lambda>kv. py_lower (fst kv) \<notin> set REQUEST_HEADER_DENYLIST
      \<and> \<not> py_startswith (py_lower (fst kv)) ''x-forwarded-'' \<and> \<not> py_startswith (py_lower (fst kv)) ''x-mnemosyne-'') headers"
  have base: "filter (\<lambda>kv. py_lower (fst kv) = ''authorization'') ?base = []"
    "filter (\<lambda>kv. py_startswith (py_lower (fst kv)) ''x-mnemosyne-'') ?base = []"
    "filter (\<lambda>kv. py_lower (fst kv) \<in> {''cookie'', ''x-api-key'', ''host'', ''proxy-authorization''}
        \<or> py_startswith (py_lower (fst kv)) ''x-forwarded-'') ?base = []"
    unfolding filter_filter filter_empty_conv by (auto simp: REQUEST_HEADER_DENYLIST_def)
  have keys: "py_lower ''Authorization'' = ''authorization''" "py_lower ''Content-Type'' = ''content-type''"
    "py_lower ''X-Mnemosyne-Fleet-Route'' = ''x-mnemosyne-fleet-route''" by code_simp+
  have "filter (\<lambda>kv. py_lower (fst kv) = ''set-cookie'' \<or> py_startswith (py_lower (fst kv)) ''x-mnemosyne-'')
      (response_headers decoded headers) = []"
    unfolding response_headers_def Let_def filter_filter filter_empty_conv by (auto simp: RESPONSE_HEADER_DENYLIST_def)
  moreover have "filter (\<lambda>kv. py_lower (fst kv) = ''authorization'') (request_headers token route headers)
      = [(''Authorization'', ''Bearer '' @ token)]"
    unfolding request_headers_def filter_put [where P = "\<lambda>k. py_lower k = ''authorization''"] base keys by simp
  moreover have "filter (\<lambda>kv. py_startswith (py_lower (fst kv)) ''x-mnemosyne-'') (request_headers token route headers)
      = [(''X-Mnemosyne-Fleet-Route'', route)]"
    unfolding request_headers_def filter_put [where P = "\<lambda>k. py_startswith (py_lower k) ''x-mnemosyne-''"] base keys
    by (simp add: py_startswith_def)
  moreover have "filter (\<lambda>kv. py_lower (fst kv) \<in> {''cookie'', ''x-api-key'', ''host'', ''proxy-authorization''}
      \<or> py_startswith (py_lower (fst kv)) ''x-forwarded-'') (request_headers token route headers) = []"
    unfolding request_headers_def base keys
      filter_put [where P = "\<lambda>k. py_lower k \<in> {''cookie'', ''x-api-key'', ''host'', ''proxy-authorization''}
        \<or> py_startswith (py_lower k) ''x-forwarded-''"]
    by (simp add: py_startswith_def)
  ultimately show ?thesis by blast
qed
end
