(* ===== verification/Mac_Models.thy ===== *)
theory Mac_Models
  imports Node_Identity
begin

text \<open>
  The Apple Silicon service's model profiles: the runtime types of
  \<open>src/macos/service/src/mnemosyne_macos/models.py\<close>, the profile part of \<open>config.py\<close> (the checks that a
  profile passes and the target it resolves to), and the capacity derivation of \<open>fleet_protocol.py\<close>.
  A profile is what pydantic parsed from YAML; a raised \<open>ValueError\<close> is the first message that applies.
  The functions that \<open>fleet_protocol.py\<close> repeats line by line from the CUDA manager's module are those of
  \<open>Node_Identity\<close>. SHA-256 and \<open>os.path.abspath\<close> are parameters.
\<close>

section \<open>Runtime types\<close>

datatype engine_name = LLAMA_CPP | OMLX | DS4 | MFLUX | MLXCEL | MISTRAL_RS

fun engine_value :: "engine_name \<Rightarrow> string" where
  "engine_value LLAMA_CPP = ''llama.cpp''"
| "engine_value OMLX = ''omlx''"
| "engine_value DS4 = ''ds4''"
| "engine_value MFLUX = ''mflux''"
| "engine_value MLXCEL = ''mlxcel''"
| "engine_value MISTRAL_RS = ''mistral.rs''"

datatype endpoint =
    CHAT_COMPLETIONS | COMPLETIONS | RESPONSES | MESSAGES | EMBEDDINGS | RERANK | IMAGES_GENERATIONS

fun endpoint_value :: "endpoint \<Rightarrow> string" where
  "endpoint_value CHAT_COMPLETIONS = ''chat/completions''"
| "endpoint_value COMPLETIONS = ''completions''"
| "endpoint_value RESPONSES = ''responses''"
| "endpoint_value MESSAGES = ''messages''"
| "endpoint_value EMBEDDINGS = ''embeddings''"
| "endpoint_value RERANK = ''rerank''"
| "endpoint_value IMAGES_GENERATIONS = ''images/generations''"

datatype model_kind = LANGUAGE | IMAGE

fun kind_value :: "model_kind \<Rightarrow> string" where
  "kind_value LANGUAGE = ''language''"
| "kind_value IMAGE = ''image''"

text \<open>A \<open>frozenset\<close> of endpoints is a list; only membership is ever asked.\<close>

fun DEFAULT_CAPABILITIES :: "engine_name \<Rightarrow> endpoint list" where
  "DEFAULT_CAPABILITIES LLAMA_CPP = [CHAT_COMPLETIONS, COMPLETIONS, RESPONSES]"
| "DEFAULT_CAPABILITIES OMLX = [CHAT_COMPLETIONS, COMPLETIONS, RESPONSES, MESSAGES, EMBEDDINGS, RERANK]"
| "DEFAULT_CAPABILITIES DS4 = [CHAT_COMPLETIONS, COMPLETIONS, RESPONSES, MESSAGES]"
| "DEFAULT_CAPABILITIES MFLUX = [IMAGES_GENERATIONS]"
| "DEFAULT_CAPABILITIES MLXCEL = [CHAT_COMPLETIONS, COMPLETIONS, RESPONSES]"
| "DEFAULT_CAPABILITIES MISTRAL_RS = [CHAT_COMPLETIONS, COMPLETIONS, RESPONSES, MESSAGES]"

record target_key =
  ke_engine :: engine_name
  ke_canonical_model_id :: string
  ke_load_config_digest :: string

record effective_load_key =
  el_key :: target_key
  el_wire_model :: string
  el_process_mode :: "string option"

record mac_target =
  mt_alias :: string
  mt_key :: target_key
  mt_wire_model :: string
  mt_capabilities :: "endpoint list"
  mt_load_options :: mapping_json
  mt_kind :: model_kind
  mt_image_defaults :: mapping_json
  mt_storage_path :: "string option"
  mt_scope_id :: "string option"
  mt_storage_volume_uuid :: "string option"
  mt_context_mode :: string
  mt_native_context_length :: "int option"
  mt_requested_context_length :: "int option"
  mt_context_max_verified_age_hours :: int

definition llama_cpp_process_mode :: "endpoint list \<Rightarrow> string" where
  "llama_cpp_process_mode caps =
     (if list_ex (\<lambda>e. e \<in> set caps) [CHAT_COMPLETIONS, COMPLETIONS, RESPONSES, MESSAGES] then ''generation''
      else if RERANK \<in> set caps then ''rerank''
      else if EMBEDDINGS \<in> set caps then ''embeddings''
      else ''unsupported:'' @ py_join '','' (py_sorted_set (map endpoint_value caps)))"

definition effective_load_identity :: "mac_target \<Rightarrow> effective_load_key" where
  "effective_load_identity t =
     \<lparr>el_key = mt_key t, el_wire_model = mt_wire_model t,
      el_process_mode = (if ke_engine (mt_key t) = LLAMA_CPP
                         then Some (llama_cpp_process_mode (mt_capabilities t)) else None)\<rparr>"

section \<open>Profiles\<close>

record model_load_config =
  ml_context_length :: "int option"
  ml_eval_batch_size :: "int option"
  ml_flash_attention :: "bool option"
  ml_offload_kv_cache_to_gpu :: "bool option"
  ml_projector_path :: "string option"
  ml_gpu_layers :: "int option"
  ml_ubatch_size :: "int option"
  ml_threads :: "int option"
  ml_parallel :: "int option"
  ml_pooling :: "string option"
  ml_kv_disk_directory :: "string option"
  ml_kv_disk_space_mb :: "int option"
  ml_extra_args :: "string list"

definition default_load :: model_load_config where
  "default_load =
     \<lparr>ml_context_length = None, ml_eval_batch_size = None, ml_flash_attention = None,
      ml_offload_kv_cache_to_gpu = None, ml_projector_path = None, ml_gpu_layers = None, ml_ubatch_size = None,
      ml_threads = None, ml_parallel = None, ml_pooling = None, ml_kv_disk_directory = None,
      ml_kv_disk_space_mb = None, ml_extra_args = []\<rparr>"

definition positive_opt :: "int option \<Rightarrow> bool" where
  "positive_opt x = opt_all (\<lambda>n. 0 < n) x"

definition load_error :: "model_load_config \<Rightarrow> string option" where
  "load_error l = first_error
     [(\<not> positive_opt (ml_context_length l), ''context_length''),
      (\<not> positive_opt (ml_eval_batch_size l), ''eval_batch_size''),
      (\<not> opt_all (\<lambda>n. 0 \<le> n) (ml_gpu_layers l), ''gpu_layers''),
      (\<not> positive_opt (ml_ubatch_size l), ''ubatch_size''),
      (\<not> positive_opt (ml_threads l), ''threads''),
      (\<not> positive_opt (ml_parallel l), ''parallel''),
      (\<not> opt_all (\<lambda>p. p \<in> set [''none'', ''mean'', ''cls'', ''last'', ''rank'']) (ml_pooling l), ''pooling''),
      (\<not> positive_opt (ml_kv_disk_space_mb l), ''kv_disk_space_mb'')]"

record image_config =
  mi_family :: string
  mi_quantize :: "int option"
  mi_width :: int
  mi_height :: int
  mi_num_inference_steps :: int
  mi_guidance_scale :: pyfloat

definition IMAGE_FAMILY_RE :: rx where
  "IMAGE_FAMILY_RE =
     (let lower = (\<lambda>c. in_range (CHR ''a'') (CHR ''z'') c \<or> in_range (CHR ''0'') (CHR ''9'') c)
      in rx_all [RxStart, RxClass lower, RxStar (RxClass (\<lambda>c. lower c \<or> c = CHR ''-'')), RxEnd])"

definition image_dimension :: "int \<Rightarrow> bool" where
  "image_dimension n = (64 \<le> n \<and> n \<le> 4096 \<and> n mod 16 = 0)"

definition image_error_of :: "image_config \<Rightarrow> string option" where
  "image_error_of i = first_error
     [(\<not> str_len 1 80 (mi_family i), ''family''),
      (\<not> rx_fullmatch IMAGE_FAMILY_RE (mi_family i), ''image family must contain lowercase letters, digits, and hyphens''),
      (\<not> opt_all (\<lambda>q. q \<in> set [3, 4, 5, 6, 8]) (mi_quantize i), ''quantize''),
      (\<not> image_dimension (mi_width i), ''width''),
      (\<not> image_dimension (mi_height i), ''height''),
      (\<not> int_between 1 200 (mi_num_inference_steps i), ''num_inference_steps''),
      (\<not> (case mi_guidance_scale i of Fin r \<Rightarrow> 0 \<le> r \<and> r \<le> 50 | _ \<Rightarrow> False), ''guidance_scale'')]"

datatype selection_mode = SelFixed | SelBenchmark | SelPinned

record selection_config =
  ms_mode :: selection_mode
  ms_pinned_engine :: "engine_name option"
  ms_objective :: string
  ms_max_benchmark_age_hours :: int
  ms_minimum_samples :: int
  ms_minimum_improvement_percent :: pyfloat
  ms_allow_preview :: bool

definition selection_config_error :: "selection_config \<Rightarrow> string option" where
  "selection_config_error s = first_error
     [(ms_objective s \<notin> set [''balanced'', ''latency'', ''throughput''], ''objective''),
      (\<not> int_between 1 8760 (ms_max_benchmark_age_hours s), ''max_benchmark_age_hours''),
      (\<not> int_between 1 20 (ms_minimum_samples s), ''minimum_samples''),
      (\<not> (case ms_minimum_improvement_percent s of Fin r \<Rightarrow> 0 \<le> r \<and> r \<le> 100 | _ \<Rightarrow> False),
        ''minimum_improvement_percent'')]"

datatype context_mode = CtxAutomatic | CtxNative | CtxFixed

fun context_mode_value :: "context_mode \<Rightarrow> string" where
  "context_mode_value CtxAutomatic = ''automatic''"
| "context_mode_value CtxNative = ''native''"
| "context_mode_value CtxFixed = ''fixed''"

record context_config =
  mc_mode :: context_mode
  mc_native_tokens :: "int option"
  mc_fixed_tokens :: "int option"
  mc_max_verified_age_hours :: int

definition default_context :: context_config where
  "default_context = \<lparr>mc_mode = CtxAutomatic, mc_native_tokens = None, mc_fixed_tokens = None,
                      mc_max_verified_age_hours = 720\<rparr>"

definition context_error :: "context_config \<Rightarrow> string option" where
  "context_error c = first_error
     [(\<not> opt_all (int_between 1 10000000) (mc_native_tokens c), ''native_tokens''),
      (\<not> opt_all (int_between 1 10000000) (mc_fixed_tokens c), ''fixed_tokens''),
      (\<not> int_between 1 8760 (mc_max_verified_age_hours c), ''max_verified_age_hours''),
      (mc_mode c = CtxFixed \<and> mc_fixed_tokens c = None, ''fixed context policy requires fixed_tokens''),
      (mc_mode c \<noteq> CtxFixed \<and> mc_fixed_tokens c \<noteq> None, ''fixed_tokens requires mode='' @ quoted ''fixed''),
      (mc_mode c = CtxNative \<and> mc_native_tokens c = None, ''native context policy requires detected native_tokens''),
      ((case (mc_fixed_tokens c, mc_native_tokens c) of (Some f, Some n) \<Rightarrow> n < f | _ \<Rightarrow> False),
        ''fixed context cannot exceed the detected native limit'')]"

text \<open>\<open>_validate_language_engine_options\<close>.\<close>

definition engine_options_error :: "engine_name \<Rightarrow> model_load_config \<Rightarrow> endpoint list option \<Rightarrow> string option" where
  "engine_options_error engine l caps =
     (let effective = (case caps of Some (c # cs) \<Rightarrow> c # cs | _ \<Rightarrow> DEFAULT_CAPABILITIES LLAMA_CPP);
          generation = list_ex (\<lambda>e. e \<in> set effective) [CHAT_COMPLETIONS, COMPLETIONS, RESPONSES, MESSAGES];
          specialized = list_ex (\<lambda>e. e \<in> set effective) [EMBEDDINGS, RERANK];
          tuned = (ml_eval_batch_size l \<noteq> None \<or> ml_flash_attention l \<noteq> None
                   \<or> ml_offload_kv_cache_to_gpu l \<noteq> None \<or> ml_projector_path l \<noteq> None \<or> ml_gpu_layers l \<noteq> None
                   \<or> ml_ubatch_size l \<noteq> None \<or> ml_threads l \<noteq> None \<or> ml_pooling l \<noteq> None)
      in first_error
        [(caps = Some [], ''capabilities must contain at least one endpoint''),
         ((case caps of Some cs \<Rightarrow> IMAGES_GENERATIONS \<in> set cs | None \<Rightarrow> False),
           ''images/generations capability requires engine=mflux''),
         (engine = MFLUX, ''MFLUX cannot be used as a language-engine candidate''),
         (engine \<noteq> DS4 \<and> (ml_kv_disk_directory l \<noteq> None \<or> ml_kv_disk_space_mb l \<noteq> None),
           ''KV disk settings require engine=ds4''),
         (engine \<notin> {DS4, LLAMA_CPP, MLXCEL, MISTRAL_RS} \<and> ml_extra_args l \<noteq> [],
           ''extra_args settings require a manager-owned language engine''),
         (engine = OMLX \<and> (tuned \<or> ml_context_length l \<noteq> None \<or> ml_parallel l \<noteq> None),
           ''oMLX load settings belong in oMLX per-model settings''),
         (engine \<in> {DS4, MLXCEL, MISTRAL_RS} \<and> tuned, ''llama.cpp-specific load settings are not supported''),
         (engine = MISTRAL_RS \<and> (ml_context_length l \<noteq> None \<or> ml_parallel l \<noteq> None),
           ''mistral.rs context and scheduler tuning must use reviewed extra_args''),
         (engine = LLAMA_CPP \<and> generation \<and> specialized,
           ''llama.cpp generation profiles cannot also advertise embeddings or rerank''),
         (engine = LLAMA_CPP \<and> RERANK \<in> set effective \<and> set effective \<noteq> {RERANK},
           ''llama.cpp rerank profiles must use only the rerank capability''),
         (engine = LLAMA_CPP \<and> ml_projector_path l \<noteq> None \<and> \<not> generation,
           ''llama.cpp projectors require a generation-capable profile'')])"

definition context_engine_error :: "engine_name \<Rightarrow> context_config \<Rightarrow> string option" where
  "context_engine_error engine c = first_error
     [(engine = MISTRAL_RS \<and> mc_mode c \<noteq> CtxAutomatic,
        ''mistral.rs explicit/native context policy requires a reviewed runtime flag contract'')]"

text \<open>\<open>_ALIAS_RE\<close>: dot- or hyphen-separated words of lowercase letters and digits.\<close>

definition MAC_ALIAS_RE :: rx where
  "MAC_ALIAS_RE =
     (let word = rx_plus (RxClass (\<lambda>c. in_range (CHR ''a'') (CHR ''z'') c \<or> in_range (CHR ''0'') (CHR ''9'') c))
      in rx_all [RxStart, word, RxStar (RxSeq (RxClass (\<lambda>c. c \<in> {CHR ''.'', CHR ''-''})) word), RxEnd])"

record alternative =
  ma_engine :: engine_name
  ma_model :: string
  ma_source_alias :: "string option"
  ma_storage :: "string option"
  ma_served_model_name :: "string option"
  ma_capabilities :: "endpoint list option"
  ma_load :: model_load_config
  ma_context :: context_config
  ma_enabled :: bool

definition blank :: "string option \<Rightarrow> bool" where
  "blank s = (case s of None \<Rightarrow> False | Some v \<Rightarrow> py_strip v = [])"

definition alternative_error :: "alternative \<Rightarrow> string option" where
  "alternative_error a = or_error (load_error (ma_load a)) (or_error (context_error (ma_context a))
     (or_error
       (first_error
         [(py_strip (ma_model a) = [], ''model must not be empty''),
          (\<not> opt_all (rx_fullmatch MAC_ALIAS_RE) (ma_source_alias a), ''source_alias must use the same syntax as a model alias''),
          (blank (ma_served_model_name a), ''served_model_name must not be empty'')])
       (or_error (engine_options_error (ma_engine a) (ma_load a) (ma_capabilities a))
                 (context_engine_error (ma_engine a) (ma_context a)))))"

record mac_profile =
  mpf_alias :: string
  mpf_engine :: engine_name
  mpf_model :: string
  mpf_storage :: "string option"
  mpf_served_model_name :: "string option"
  mpf_capabilities :: "endpoint list option"
  mpf_load :: model_load_config
  mpf_context :: context_config
  mpf_kind :: model_kind
  mpf_image :: "image_config option"
  mpf_alternatives :: "alternative list"
  mpf_selection :: selection_config
  mpf_enabled :: bool

definition or_default :: "endpoint list option \<Rightarrow> engine_name \<Rightarrow> endpoint list" where
  "or_default caps engine = (case caps of Some (c # cs) \<Rightarrow> c # cs | _ \<Rightarrow> DEFAULT_CAPABILITIES engine)"

definition image_profile_error :: "mac_profile \<Rightarrow> string option" where
  "image_profile_error p = first_error
     [(mpf_kind p \<noteq> IMAGE \<or> mpf_image p = None, ''MFLUX profiles require kind=image and image settings''),
      (mpf_load p \<noteq> default_load, ''MFLUX profiles use image settings, not language load settings''),
      (mpf_context p \<noteq> default_context, ''MFLUX profiles do not use language context settings''),
      ((case mpf_capabilities p of None \<Rightarrow> False | Some cs \<Rightarrow> set cs \<noteq> {IMAGES_GENERATIONS}),
        ''MFLUX profiles only support images/generations''),
      (mpf_alternatives p \<noteq> [], ''image profiles do not support engine alternatives''),
      (ms_mode (mpf_selection p) \<noteq> SelFixed, ''image profiles use fixed engine selection''),
      (ms_pinned_engine (mpf_selection p) \<noteq> None, ''image profiles cannot retain a pinned language engine'')]"

definition engine_part_error :: "mac_profile \<Rightarrow> string option" where
  "engine_part_error p =
     (if mpf_engine p = MFLUX then image_profile_error p
      else if mpf_kind p = IMAGE \<or> mpf_image p \<noteq> None then Some ''image profiles require engine=mflux''
      else or_error (engine_options_error (mpf_engine p) (mpf_load p) (mpf_capabilities p))
                    (context_engine_error (mpf_engine p) (mpf_context p)))"

text \<open>
  The candidates' load and context settings are compared as canonical texts, which differ where the
  settings differ.
\<close>

definition selection_error :: "mac_profile \<Rightarrow> string option" where
  "selection_error p =
     (let mode = ms_mode (mpf_selection p); enabled = filter ma_enabled (mpf_alternatives p);
          chat = (\<lambda>caps engine. CHAT_COMPLETIONS \<in> set (or_default caps engine))
      in first_error
        [(mode = SelBenchmark \<and> mpf_alternatives p = [], ''benchmark selection requires at least one engine alternative''),
         (mode = SelPinned \<and> ms_pinned_engine (mpf_selection p) = None, ''pinned engine selection requires pinned_engine''),
         (mode = SelPinned
            \<and> the (ms_pinned_engine (mpf_selection p)) \<notin> insert (mpf_engine p) (ma_engine ` set (mpf_alternatives p)),
           ''pinned_engine must name the primary engine or a declared alternative''),
         (mode = SelBenchmark
            \<and> (if chat (mpf_capabilities p) (mpf_engine p) then 1 else 0)
               + length (filter (\<lambda>a. chat (ma_capabilities a) (ma_engine a)) enabled) < (2 :: nat),
           ''benchmark selection requires at least two enabled chat-capable engine candidates''),
         (\<not> distinct (map (\<lambda>a. (ma_engine a, ma_model a, ma_load a, ma_context a)) enabled),
           ''model engine alternatives must be unique''),
         (\<not> distinct (mpf_engine p # map ma_engine enabled),
           ''a model profile may declare at most one candidate per engine'')])"

definition profile_fields_error :: "mac_profile \<Rightarrow> string option" where
  "profile_fields_error p = first_error
     [(128 < length (mpf_alias p), ''alias''),
      (\<not> rx_fullmatch MAC_ALIAS_RE (mpf_alias p), ''alias must contain lowercase letters, digits, dots, and hyphens''),
      (py_strip (mpf_model p) = [], ''model must not be empty''),
      (blank (mpf_served_model_name p), ''served_model_name must not be empty'')]"

text \<open>The parts are validated before the profile's own validators run.\<close>

definition profile_parts_error :: "mac_profile \<Rightarrow> string option" where
  "profile_parts_error p = find_error (\<lambda>e. e)
     [load_error (mpf_load p), context_error (mpf_context p), Option.bind (mpf_image p) image_error_of,
      selection_config_error (mpf_selection p),
      find_error alternative_error (mpf_alternatives p)]"

definition profile_error :: "mac_profile \<Rightarrow> string option" where
  "profile_error p = find_error (\<lambda>e. e)
     [profile_parts_error p, profile_fields_error p, engine_part_error p, selection_error p]"

section \<open>Targets\<close>

text \<open>\<open>json.dumps(value, sort_keys=True, separators=(",", ":"))\<close>.\<close>

fun sort_keys :: "json \<Rightarrow> json" where
  "sort_keys (JObj kvs) = JObj (sort_key fst (map (\<lambda>kv. (fst kv, sort_keys (snd kv))) kvs))"
| "sort_keys (JArr xs) = JArr (map sort_keys xs)"
| "sort_keys v = v"

definition load_digest :: "(string \<Rightarrow> string) \<Rightarrow> json \<Rightarrow> string" where
  "load_digest sha payload = take 16 (sha (json_text ascii_quoted (sort_keys payload)))"

text \<open>\<open>load.model_dump(exclude_none=True, exclude_defaults=True)\<close>.\<close>

definition some_entry :: "string \<Rightarrow> ('a \<Rightarrow> json) \<Rightarrow> 'a option \<Rightarrow> mapping_json" where
  "some_entry name f x = (case x of None \<Rightarrow> [] | Some v \<Rightarrow> [(name, f v)])"

definition dump_load :: "model_load_config \<Rightarrow> mapping_json" where
  "dump_load l =
     some_entry ''context_length'' JInt (ml_context_length l)
     @ some_entry ''eval_batch_size'' JInt (ml_eval_batch_size l)
     @ some_entry ''flash_attention'' JBool (ml_flash_attention l)
     @ some_entry ''offload_kv_cache_to_gpu'' JBool (ml_offload_kv_cache_to_gpu l)
     @ some_entry ''projector_path'' JStr (ml_projector_path l)
     @ some_entry ''gpu_layers'' JInt (ml_gpu_layers l)
     @ some_entry ''ubatch_size'' JInt (ml_ubatch_size l)
     @ some_entry ''threads'' JInt (ml_threads l)
     @ some_entry ''parallel'' JInt (ml_parallel l)
     @ some_entry ''pooling'' JStr (ml_pooling l)
     @ some_entry ''kv_disk_directory'' JStr (ml_kv_disk_directory l)
     @ some_entry ''kv_disk_space_mb'' JInt (ml_kv_disk_space_mb l)
     @ (if ml_extra_args l = [] then [] else [(''extra_args'', JArr (map JStr (ml_extra_args l)))])"

text \<open>\<open>Path(model).name\<close>, and \<open>ds4_wire_model_name\<close>.\<close>

definition path_name :: "string \<Rightarrow> string" where
  "path_name s =
     (case rev (filter (\<lambda>p. p \<noteq> [] \<and> p \<noteq> ''.'') (py_split (CHR ''/'') s)) of [] \<Rightarrow> [] | p # _ \<Rightarrow> p)"

definition ds4_wire_model_name :: "string \<Rightarrow> string" where
  "ds4_wire_model_name model =
     (let basename = py_casefold (path_name model)
      in if sublist ''glm-5.2'' basename then ''glm-5.2''
         else if sublist ''deepseek-v4-pro'' basename then ''deepseek-v4-pro''
         else ''deepseek-v4-flash'')"

definition requested_context :: "model_load_config \<Rightarrow> context_config \<Rightarrow> int option" where
  "requested_context l c =
     (case mc_mode c of
        CtxFixed \<Rightarrow> mc_fixed_tokens c
      | CtxNative \<Rightarrow> mc_native_tokens c
      | CtxAutomatic \<Rightarrow> ml_context_length l)"

definition language_load_options :: "engine_name \<Rightarrow> model_load_config \<Rightarrow> context_config \<Rightarrow> mapping_json" where
  "language_load_options engine l c =
     (if engine \<in> {LLAMA_CPP, DS4, MLXCEL} then
        (case requested_context l c of
           None \<Rightarrow> dict_pop ''context_length'' (dump_load l)
         | Some n \<Rightarrow> dict_put ''context_length'' (JInt n) (dump_load l))
      else dump_load l)"

text \<open>\<open>served_model_name or default\<close>, where an empty name counts as absent.\<close>

definition language_wire_model :: "engine_name \<Rightarrow> string \<Rightarrow> string \<Rightarrow> string option \<Rightarrow> string" where
  "language_wire_model engine al model served =
     (if engine = DS4 then ds4_wire_model_name model
      else if engine = MISTRAL_RS \<and> served = None then ''default''
      else or_text served (if engine \<in> {LLAMA_CPP, MLXCEL} then al else model))"

record storage_place =
  sp_path :: "string option"
  sp_scope_id :: "string option"
  sp_volume_uuid :: "string option"

definition language_target ::
  "(string \<Rightarrow> string) \<Rightarrow> (string \<Rightarrow> string) \<Rightarrow> string \<Rightarrow> engine_name \<Rightarrow> string \<Rightarrow> string option
   \<Rightarrow> endpoint list option \<Rightarrow> model_load_config \<Rightarrow> context_config \<Rightarrow> storage_place \<Rightarrow> mac_target" where
  "language_target sha abs_path al engine model served caps l c place =
     (let options = language_load_options engine l c;
          payload = JObj [(''load'', JObj options), (''context_mode'', JStr (context_mode_value (mc_mode c))),
                          (''requested_context'', opt_int (requested_context l c))]
      in \<lparr>mt_alias = al,
          mt_key = \<lparr>ke_engine = engine,
                    ke_canonical_model_id = (if engine = OMLX \<or> engine = MFLUX then model else abs_path model),
                    ke_load_config_digest = load_digest sha payload\<rparr>,
          mt_wire_model = language_wire_model engine al model served,
          mt_capabilities = (case caps of Some cs \<Rightarrow> cs | None \<Rightarrow> DEFAULT_CAPABILITIES engine),
          mt_load_options = options, mt_kind = LANGUAGE, mt_image_defaults = [],
          mt_storage_path = sp_path place, mt_scope_id = sp_scope_id place,
          mt_storage_volume_uuid = sp_volume_uuid place,
          mt_context_mode = context_mode_value (mc_mode c), mt_native_context_length = mc_native_tokens c,
          mt_requested_context_length = requested_context l c,
          mt_context_max_verified_age_hours = mc_max_verified_age_hours c\<rparr>)"

definition image_target ::
  "(string \<Rightarrow> string) \<Rightarrow> mac_profile \<Rightarrow> image_config \<Rightarrow> storage_place \<Rightarrow> mac_target" where
  "image_target sha p i place =
     (let options = [(''family'', JStr (mi_family i)), (''quantize'', opt_int (mi_quantize i))]
      in \<lparr>mt_alias = mpf_alias p,
          mt_key = \<lparr>ke_engine = mpf_engine p, ke_canonical_model_id = mpf_model p,
                    ke_load_config_digest = load_digest sha (JObj options)\<rparr>,
          mt_wire_model = or_text (mpf_served_model_name p) (mpf_alias p),
          mt_capabilities = (case mpf_capabilities p of Some cs \<Rightarrow> cs | None \<Rightarrow> DEFAULT_CAPABILITIES (mpf_engine p)),
          mt_load_options = options, mt_kind = mpf_kind p,
          mt_image_defaults =
            [(''width'', JInt (mi_width i)), (''height'', JInt (mi_height i)),
             (''num_inference_steps'', JInt (mi_num_inference_steps i)),
             (''guidance_scale'', JFloat (mi_guidance_scale i))],
          mt_storage_path = sp_path place, mt_scope_id = sp_scope_id place,
          mt_storage_volume_uuid = sp_volume_uuid place, mt_context_mode = ''automatic'',
          mt_native_context_length = None, mt_requested_context_length = None,
          mt_context_max_verified_age_hours = 720\<rparr>)"

text \<open>\<open>ModelProfile.resolve\<close>; \<open>None\<close> is the failing assertion that an image profile has image settings.\<close>

definition resolve_target ::
  "(string \<Rightarrow> string) \<Rightarrow> (string \<Rightarrow> string) \<Rightarrow> mac_profile \<Rightarrow> storage_place \<Rightarrow> mac_target option" where
  "resolve_target sha abs_path p place =
     (if mpf_engine p = MFLUX then map_option (\<lambda>i. image_target sha p i place) (mpf_image p)
      else Some (language_target sha abs_path (mpf_alias p) (mpf_engine p) (mpf_model p) (mpf_served_model_name p)
                   (mpf_capabilities p) (mpf_load p) (mpf_context p) place))"

definition resolve_alternative ::
  "(string \<Rightarrow> string) \<Rightarrow> (string \<Rightarrow> string) \<Rightarrow> string \<Rightarrow> alternative \<Rightarrow> storage_place \<Rightarrow> mac_target" where
  "resolve_alternative sha abs_path al a place =
     language_target sha abs_path al (ma_engine a) (ma_model a) (ma_served_model_name a) (ma_capabilities a)
       (ma_load a) (ma_context a) place"

section \<open>Capacity\<close>

record capacity_hint =
  ch_limit :: int
  ch_source :: string
  ch_confidence :: string

text \<open>\<open>isinstance(value, int) and not isinstance(value, bool) and value > 0\<close>.\<close>

fun positive_json :: "json option \<Rightarrow> int option" where
  "positive_json (Some (JInt n)) = (if 0 < n then Some n else None)"
| "positive_json _ = None"

definition mac_limit :: "mac_target \<Rightarrow> int \<times> string \<times> string" where
  "mac_limit t =
     (let engine = ke_engine (mt_key t); configured = positive_json (dict_get (mt_load_options t) ''parallel'')
      in if engine = LLAMA_CPP then
           (case configured of
              Some n \<Rightarrow> (n, ''llama.cpp-parallel'', ''configured'')
            | None \<Rightarrow> (1, ''llama.cpp-conservative'', ''conservative''))
         else if engine = MFLUX then (1, ''mflux-serial-worker'', ''authoritative'')
         else if engine = DS4 then
           (case configured of
              Some n \<Rightarrow> (n, ''ds4-batched-sessions'', ''configured'')
            | None \<Rightarrow> (1, ''ds4-single-session'', ''authoritative''))
         else (1, ''omlx-conservative'', ''conservative''))"

definition derive_macos_capacity ::
  "mac_target \<Rightarrow> int option \<Rightarrow> capacity_hint option \<Rightarrow> int \<Rightarrow> int \<Rightarrow> bool \<Rightarrow> string + capacity" where
  "derive_macos_capacity t configured hint active queued is_open =
     (case hint of
        Some h \<Rightarrow>
          (if ch_limit h < 1 then Inl ''adapter concurrency limit must be positive''
           else effective_capacity (ch_limit h) configured active queued
                  (if ch_source h = [] then engine_value (ke_engine (mt_key t)) @ ''-adapter'' else ch_source h)
                  (if ch_confidence h = [] then ''observed'' else ch_confidence h) is_open)
      | None \<Rightarrow>
          (case mac_limit t of
             (derived, source, confidence) \<Rightarrow> effective_capacity derived configured active queued source confidence is_open))"

text \<open>
  What the adapters report: the managed engines from the target alone (the llama.cpp adapter inherits
  from the DS4 one), oMLX from its last admin settings, MFLUX nothing.
\<close>

definition ds4_hint :: "mac_target \<Rightarrow> capacity_hint" where
  "ds4_hint t =
     (case positive_json (dict_get (mt_load_options t) ''parallel'') of
        Some n \<Rightarrow> \<lparr>ch_limit = n, ch_source = ''ds4-batched-sessions'', ch_confidence = ''configured''\<rparr>
      | None \<Rightarrow> \<lparr>ch_limit = 1, ch_source = ''ds4-single-session'', ch_confidence = ''authoritative''\<rparr>)"

definition mlxcel_hint :: "mac_target \<Rightarrow> capacity_hint" where
  "mlxcel_hint t =
     \<lparr>ch_limit = (case positive_json (dict_get (mt_load_options t) ''parallel'') of Some n \<Rightarrow> n | None \<Rightarrow> 4),
      ch_source = ''mlxcel-parallel'', ch_confidence = ''configured''\<rparr>"

definition mistral_hint :: capacity_hint where
  "mistral_hint = \<lparr>ch_limit = 1, ch_source = ''mistral-rs-conservative'', ch_confidence = ''fallback''\<rparr>"

definition omlx_hint :: "mapping_json \<Rightarrow> capacity_hint option" where
  "omlx_hint payload =
     (case Option.bind (as_mapping (dict_get payload ''scheduler'')) (\<lambda>s. dict_get s ''max_concurrent_requests'') of
        Some (JInt n) \<Rightarrow>
          if 1 \<le> n \<and> n \<le> 1024
          then Some \<lparr>ch_limit = n, ch_source = ''omlx-admin-settings'', ch_confidence = ''authoritative''\<rparr> else None
      | _ \<Rightarrow> None)"

fun adapter_hint :: "capacity_hint option \<Rightarrow> mac_target \<Rightarrow> engine_name \<Rightarrow> capacity_hint option" where
  "adapter_hint omlx t LLAMA_CPP = Some (ds4_hint t)"
| "adapter_hint omlx t DS4 = Some (ds4_hint t)"
| "adapter_hint omlx t MLXCEL = Some (mlxcel_hint t)"
| "adapter_hint omlx t MISTRAL_RS = Some mistral_hint"
| "adapter_hint omlx t OMLX = omlx"
| "adapter_hint omlx t MFLUX = None"

text \<open>\<open>ResidencyCoordinator.capacity_for\<close>; \<open>adapters\<close> are the engines that are configured.\<close>

definition capacity_for ::
  "engine_name list \<Rightarrow> capacity_hint option \<Rightarrow> int option \<Rightarrow> mac_target \<Rightarrow> int \<Rightarrow> int \<Rightarrow> bool \<Rightarrow> string + capacity" where
  "capacity_for adapters omlx configured t active queued is_open =
     derive_macos_capacity t configured
       (if ke_engine (mt_key t) \<in> set adapters then adapter_hint omlx t (ke_engine (mt_key t)) else None)
       active queued is_open"

section \<open>Lemmas\<close>

text \<open>An oMLX hint comes from \<open>omlx_hint\<close>.\<close>

definition hint_ok :: "capacity_hint option \<Rightarrow> bool" where
  "hint_ok h = opt_all (\<lambda>c. 1 \<le> ch_limit c \<and> ch_limit c \<le> 1024 \<and> ch_source c = ''omlx-admin-settings''
                            \<and> ch_confidence c = ''authoritative'') h"

lemma omlx_hint_ok: "hint_ok (omlx_hint payload)"
  by (auto simp: omlx_hint_def hint_ok_def opt_all_def split: option.splits json.splits)

lemma positive_json_pos: "positive_json j = Some n \<Longrightarrow> 1 \<le> n"
  by (cases j rule: positive_json.cases) (auto split: if_splits)

text \<open>The admission limit of a target: what \<open>capacity_for\<close> publishes as its effective limit.\<close>

definition derived_limit_of :: "engine_name list \<Rightarrow> capacity_hint option \<Rightarrow> mac_target \<Rightarrow> int \<times> string \<times> string" where
  "derived_limit_of adapters omlx t =
     (case (if ke_engine (mt_key t) \<in> set adapters then adapter_hint omlx t (ke_engine (mt_key t)) else None) of
        Some h \<Rightarrow> (ch_limit h, ch_source h, ch_confidence h)
      | None \<Rightarrow> mac_limit t)"

lemma derived_limit_pos: "hint_ok omlx \<Longrightarrow> 1 \<le> fst (derived_limit_of adapters omlx t)"
  by (cases "ke_engine (mt_key t)")
    (auto simp: derived_limit_of_def mac_limit_def ds4_hint_def mlxcel_hint_def mistral_hint_def hint_ok_def opt_all_def Let_def
      dest: positive_json_pos split: option.splits)

lemma capacity_for_eq:
  assumes "hint_ok omlx"
  shows "capacity_for adapters omlx configured t active queued is_open =
     (case derived_limit_of adapters omlx t of
        (derived, source, confidence) \<Rightarrow> effective_capacity derived configured active queued source confidence is_open)"
  using derived_limit_pos [OF assms, of adapters t] assms
  by (cases "ke_engine (mt_key t)")
    (auto simp: capacity_for_def derive_macos_capacity_def derived_limit_of_def ds4_hint_def mlxcel_hint_def mistral_hint_def
      hint_ok_def opt_all_def split: option.splits prod.splits)

definition mac_effective_limit :: "engine_name list \<Rightarrow> capacity_hint option \<Rightarrow> int option \<Rightarrow> mac_target \<Rightarrow> int" where
  "mac_effective_limit adapters omlx configured t =
     (let d = fst (derived_limit_of adapters omlx t) in case configured of None \<Rightarrow> d | Some m \<Rightarrow> min d m)"

lemma capacity_for_total:
  assumes "hint_ok omlx" and "\<forall>m. configured = Some m \<longrightarrow> 1 \<le> m" and "0 \<le> active" and "0 \<le> queued"
  obtains c where "capacity_for adapters omlx configured t active queued is_open = Inr c"
    and "cp_effective_limit c = mac_effective_limit adapters omlx configured t" and "cp_active c = active"
    and "cp_available c = (if is_open then max 0 (mac_effective_limit adapters omlx configured t - active) else 0)"
  using derived_limit_pos [OF assms(1), of adapters t] assms(2-4) that
  by (fastforce simp: capacity_for_eq [OF assms(1)] effective_capacity_def mac_effective_limit_def Let_def
      split: option.splits prod.splits)

end
