(* ===== verification/Mac_Identity.thy ===== *)
theory Mac_Identity
  imports Mac_Models
begin

text \<open>
  The Apple Silicon service's deployment identities: \<open>portable_load_config\<close> of its \<open>fleet_protocol.py\<close>
  and \<open>_fleet_deployment_identity\<close> with its helpers in \<open>runtime.py\<close>; that the gateway accepts every
  identity of a validated profile, and that a model that runs under llama.cpp on both platforms gets one
  deployment identifier. \<open>os.path\<close>'s normalization (\<open>lexical\<close>), \<open>json.loads\<close> and SHA-256 are parameters.
\<close>

section \<open>The load configuration\<close>

definition json_strings :: "json option \<Rightarrow> string list" where
  "json_strings j = (case j of Some (JArr xs) \<Rightarrow> List.map_filter (\<lambda>v. case v of JStr s \<Rightarrow> Some s | _ \<Rightarrow> None) xs | _ \<Rightarrow> [])"

definition mac_semantic_extra_args :: "string list \<Rightarrow> string list" where
  "mac_semantic_extra_args values = semantic_loop [''--parallel'', ''-np''] values"

definition get_json :: "mapping_json \<Rightarrow> string \<Rightarrow> json" where
  "get_json d k = (case dict_get d k of None \<Rightarrow> JNull | Some v \<Rightarrow> v)"

definition llama_semantic_load_config :: "mapping_json \<Rightarrow> mapping_json" where
  "llama_semantic_load_config load =
     (let args = mac_semantic_extra_args (json_strings (dict_get load ''extra_args''))
      in [(''context_length'', case positive_int_flag args [''--ctx-size'', ''-c''] of
                                 Some n \<Rightarrow> JInt n | None \<Rightarrow> get_json load ''context_length''),
          (''pooling'', case last_valid_flag args [''--pooling'', ''--pooling-type''] enum_pooling of
                          Some v \<Rightarrow> JStr v | None \<Rightarrow> get_json load ''pooling''),
          (''semantic_extra_args'', JArr (map JStr
             (strip_valid_flags llama_value_flags [''--no-kv-offload'', ''--kv-unified''] args)))])"

definition kv_mode :: "mapping_json \<Rightarrow> mapping_json" where
  "kv_mode load =
     (case dict_get load ''kv_disk_directory'' of
        None \<Rightarrow> load
      | Some v \<Rightarrow> dict_put ''kv_disk_enabled'' (JBool (json_truthy v)) (dict_pop ''kv_disk_directory'' load))"

definition portable_load_config :: "mac_target \<Rightarrow> mapping_json" where
  "portable_load_config t =
     (let load = mt_load_options t
      in case ke_engine (mt_key t) of
           LLAMA_CPP \<Rightarrow> llama_semantic_load_config load
         | OMLX \<Rightarrow> []
         | MFLUX \<Rightarrow> [(''family'', get_json load ''family''), (''quantize'', get_json load ''quantize''),
                     (''image_defaults'', JObj (mt_image_defaults t))]
         | _ \<Rightarrow>
             (let load1 = kv_mode (dict_pop ''parallel'' load)
              in dict_put ''semantic_extra_args''
                   (JArr (map JStr (mac_semantic_extra_args (json_strings (dict_get load1 ''extra_args'')))))
                   (dict_pop ''extra_args'' load1)))"

section \<open>The artifact\<close>

fun fleet_artifact_format :: "engine_name \<Rightarrow> string" where
  "fleet_artifact_format LLAMA_CPP = ''gguf''"
| "fleet_artifact_format DS4 = ''gguf''"
| "fleet_artifact_format OMLX = ''mlx-snapshot''"
| "fleet_artifact_format MFLUX = ''mflux-snapshot''"
| "fleet_artifact_format MLXCEL = ''mlx-snapshot''"
| "fleet_artifact_format MISTRAL_RS = ''safetensors-snapshot''"

definition drive_prefix :: "string \<Rightarrow> bool" where
  "drive_prefix s =
     (case s of
        c # d # e # _ \<Rightarrow> (in_range (CHR ''A'') (CHR ''Z'') c \<or> in_range (CHR ''a'') (CHR ''z'') c) \<and> d = CHR '':''
          \<and> (e = CHR 0x5C \<or> e = CHR ''/'')
      | _ \<Rightarrow> False)"

definition forward_slashes :: "string \<Rightarrow> string" where
  "forward_slashes s = map (\<lambda>c. if c = CHR 0x5C then CHR ''/'' else c) s"

definition safe_repository_file :: "string \<Rightarrow> bool" where
  "safe_repository_file v =
     (v \<noteq> [] \<and> length v \<le> 512 \<and> \<not> py_startswith v ''/'' \<and> \<not> py_startswith v [CHR 0x5C] \<and> \<not> drive_prefix v
      \<and> list_all (\<lambda>part. part \<notin> {'''', ''.'', ''..''}) (py_split (CHR ''/'') (forward_slashes v)))"

definition safe_repository_files :: "string list \<Rightarrow> string list option" where
  "safe_repository_files values =
     (if 128 < length values \<or> \<not> list_all safe_repository_file values then None
      else Some (py_sorted_set (map forward_slashes values)))"

definition name_char :: "char \<Rightarrow> bool" where
  "name_char c = (ascii_alnum c \<or> c \<in> {CHR ''.'', CHR ''_'', CHR ''-''})"

text \<open>\<open>[A-Za-z0-9][A-Za-z0-9._-]*(?:/[A-Za-z0-9][A-Za-z0-9._-]*)?\<close>, the whole string.\<close>

definition name_part :: "string \<Rightarrow> bool" where
  "name_part s = (case s of [] \<Rightarrow> False | c # cs \<Rightarrow> ascii_alnum c \<and> list_all name_char cs)"

definition safe_huggingface_repo_id :: "string \<Rightarrow> bool" where
  "safe_huggingface_repo_id v =
     (length v \<le> 512 \<and> length (py_split (CHR ''/'') v) \<le> 2 \<and> list_all name_part (py_split (CHR ''/'') v))"

record install_record =
  ir_repo_id :: string
  ir_engine :: string
  ir_storage :: string
  ir_destination :: string
  ir_status :: string
  ir_revision :: "string option"
  ir_filename :: "string option"
  ir_projector_filename :: "string option"
  ir_files_json :: "string option"

text \<open>\<open>install.to_dict()["download_files"]\<close>, of which the non-empty strings count.\<close>

definition download_files :: "(string \<Rightarrow> json option) \<Rightarrow> install_record \<Rightarrow> string list" where
  "download_files loads i =
     (if truthy (ir_files_json i)
      then filter (\<lambda>s. s \<noteq> []) (json_strings (loads (the (ir_files_json i)))) else [])"

definition join_path :: "string \<Rightarrow> string \<Rightarrow> string" where
  "join_path a b =
     (if py_startswith b ''/'' then b else if a = [] \<or> last a = CHR ''/'' then a @ b else a @ ''/'' @ b)"

definition selected_names :: "install_record \<Rightarrow> string list" where
  "selected_names i = List.map_filter (\<lambda>x. x) [ir_filename i, ir_projector_filename i]"

definition gguf_install_matches :: "(string \<Rightarrow> string) \<Rightarrow> mac_profile \<Rightarrow> install_record \<Rightarrow> bool" where
  "gguf_install_matches lexical p i =
     (let destination = lexical (ir_destination i); selected = selected_names i
      in case ir_filename i of
           None \<Rightarrow> False
         | Some name \<Rightarrow>
             safe_repository_files selected = Some (sort_key (\<lambda>s. s) selected)
             \<and> lexical (mpf_model p) = lexical (join_path destination name)
             \<and> (case (ir_projector_filename i, ml_projector_path (mpf_load p)) of
                  (None, None) \<Rightarrow> True
                | (Some f, Some path) \<Rightarrow> lexical path = lexical (join_path destination f)
                | _ \<Rightarrow> False))"

definition profile_uses_install :: "(string \<Rightarrow> string) \<Rightarrow> mac_profile \<Rightarrow> install_record \<Rightarrow> bool" where
  "profile_uses_install lexical p i =
     (if mpf_engine p \<in> {LLAMA_CPP, DS4} then gguf_install_matches lexical p i
      else if mpf_engine p = OMLX then mpf_model p = path_name (lexical (ir_destination i))
      else lexical (mpf_model p) = lexical (ir_destination i))"

definition managed_install :: "(string \<Rightarrow> string) \<Rightarrow> mac_profile \<Rightarrow> install_record \<Rightarrow> bool" where
  "managed_install lexical p i =
     (ir_status i = ''installed'' \<and> engine_value (mpf_engine p) = ir_engine i \<and> mpf_storage p = Some (ir_storage i)
      \<and> profile_uses_install lexical p i)"

text \<open>
  What a managed install contributes: the upstream name, the revision, the artifact and whether the
  identity is authoritative.
\<close>

definition install_provenance ::
  "(string \<Rightarrow> json option) \<Rightarrow> string \<Rightarrow> mac_target \<Rightarrow> install_record \<Rightarrow> string \<times> string option \<times> artifact \<times> bool" where
  "install_provenance loads local_name t i =
     (let engine = ke_engine (mt_key t);
          files = (if engine \<in> {LLAMA_CPP, DS4} then selected_names i else download_files loads i);
          safe = safe_repository_files files;
          art = \<lparr>ar_format = fleet_artifact_format engine, ar_selected_files = (case safe of None \<Rightarrow> [] | Some fs \<Rightarrow> fs),
                 ar_quantization = gguf_quantization (ir_filename i), ar_content_digest = None\<rparr>;
          immutable = (case ir_revision i of None \<Rightarrow> False | Some r \<Rightarrow> immutable_revision_re r);
          bounded = (case ir_revision i of None \<Rightarrow> None | Some r \<Rightarrow> if length r \<le> 256 then Some r else None)
      in if safe_huggingface_repo_id (ir_repo_id i)
         then (ir_repo_id i, map_option (\<lambda>r. if immutable_revision_re r then py_lower r else r) bounded, art,
               immutable \<and> safe \<noteq> None)
         else (local_name, None, art, False))"

definition fleet_deployment_identity ::
  "(string \<Rightarrow> string) \<Rightarrow> (string \<Rightarrow> json option) \<Rightarrow> (string \<Rightarrow> string) \<Rightarrow> string \<Rightarrow> mac_profile \<Rightarrow> mac_target
   \<Rightarrow> install_record option \<Rightarrow> string + string \<times> deployment_identity \<times> bool" where
  "fleet_deployment_identity sha loads lexical node_id p t install =
     (let local_name = ''node-local:'' @ node_id @ CHR '':'' # mt_alias t;
          local_art = \<lparr>ar_format = fleet_artifact_format (ke_engine (mt_key t)), ar_selected_files = [],
                       ar_quantization = None, ar_content_digest = None\<rparr>
      in case (case install of
                 Some i \<Rightarrow> if managed_install lexical p i then install_provenance loads local_name t i
                           else (local_name, None, local_art, False)
               | None \<Rightarrow> (local_name, None, local_art, False)) of
           (upstream, revision, art, authoritative) \<Rightarrow>
             (case node_deployment_identity sha (engine_value (ke_engine (mt_key t))) upstream revision art
                     (kind_value (mt_kind t)) (map endpoint_value (mt_capabilities t))
                     (JObj (portable_load_config t)) of
                Inl e \<Rightarrow> Inl e
              | Inr (deployment_id, digest, ident) \<Rightarrow> Inr (deployment_id, ident, authoritative)))"

section \<open>Lemmas\<close>

lemma endpoint_capability [simp]: "fleet_capability (endpoint_value e) = Some (endpoint_value e)"
  by (cases e) (simp_all, code_simp+)

lemma normalize_endpoints:
  "caps \<noteq> [] \<Longrightarrow> normalize_capabilities (map endpoint_value caps) = Inr (py_sorted_set (map endpoint_value caps))"
  by (simp add: normalize_capabilities_def list_ex_iff List.map_filter_def comp_def)

text \<open>Load options of a target hold no floating-point number; image settings hold a finite one.\<close>

definition options_finite :: "mapping_json \<Rightarrow> bool" where
  "options_finite d = list_all (\<lambda>kv. json_finite (snd kv)) d"

lemma options_finite_put: "options_finite d \<Longrightarrow> json_finite v \<Longrightarrow> options_finite (dict_put k v d)"
  unfolding options_finite_def by (induction d) auto

lemma options_finite_pop: "options_finite d \<Longrightarrow> options_finite (dict_pop k d)"
  unfolding options_finite_def dict_pop_def by (auto simp: list_all_iff)

lemma options_finite_get: "options_finite d \<Longrightarrow> json_finite (get_json d k)"
  by (auto simp: options_finite_def get_json_def list_all_iff split: option.split dest!: dict_get_in)

lemma json_finite_strings [simp]: "json_finite (JArr (map JStr xs))"
  by (simp add: list_all_iff)

lemma options_finite_dump: "options_finite (dump_load l)"
proof -
  have some: "options_finite (some_entry name f x)" if "\<And>v. json_finite (f v)" for name x and f :: "'a \<Rightarrow> json"
    using that by (simp add: options_finite_def some_entry_def split: option.split)
  have app: "options_finite (a @ b) = (options_finite a \<and> options_finite b)" for a b by (simp add: options_finite_def)
  have "options_finite [(''extra_args'', JArr (map JStr xs))]" for xs by (simp add: options_finite_def del: json_finite.simps)
  moreover have "options_finite []" by (simp add: options_finite_def)
  ultimately show ?thesis unfolding dump_load_def app by (auto intro!: some)
qed

lemma options_finite_language: "options_finite (language_load_options engine l c)"
  by (auto simp: language_load_options_def options_finite_dump intro: options_finite_put options_finite_pop split: option.split)

lemma portable_finite:
  assumes "options_finite (mt_load_options t)" and "options_finite (mt_image_defaults t)"
  shows "json_finite (JObj (portable_load_config t))"
proof -
  let ?l = "mt_load_options t"
  have kv: "options_finite (kv_mode d)" if "options_finite d" for d
    using that by (auto simp: kv_mode_def intro: options_finite_put options_finite_pop split: option.split)
  have g: "json_finite (get_json ?l k)" for k using options_finite_get [OF assms(1)] .
  have "options_finite (portable_load_config t)"
  proof (cases "ke_engine (mt_key t)")
    case LLAMA_CPP
    then show ?thesis using g
      by (auto simp: portable_load_config_def llama_semantic_load_config_def Let_def options_finite_def simp del: json_finite.simps(2)
          split: option.split)
  next
    case MFLUX
    then show ?thesis using g assms(2) by (simp add: portable_load_config_def options_finite_def Let_def)
  qed (auto simp: portable_load_config_def Let_def simp del: json_finite.simps(2)
        intro!: options_finite_put options_finite_pop kv assms, simp_all add: options_finite_def)
  then show ?thesis by (simp add: options_finite_def)
qed

text \<open>What a validated profile resolves to.\<close>

lemma engine_part_caps:
  assumes "engine_part_error p = None"
  shows "mpf_capabilities p \<noteq> Some []"
  using assms
  by (auto simp: engine_part_error_def image_profile_error_def engine_options_error_def first_error_None Let_def split: if_splits)

lemma default_capabilities_nonempty [simp]: "DEFAULT_CAPABILITIES e \<noteq> []"
  by (cases e) simp_all

lemma resolved_fields:
  assumes "profile_error p = None" and "resolve_target sha abs_path p place = Some t"
  shows "mt_capabilities t \<noteq> []" and "options_finite (mt_load_options t)" and "options_finite (mt_image_defaults t)"
    and "mt_alias t = mpf_alias p" and "ke_engine (mt_key t) = mpf_engine p" and "length (mpf_alias p) \<le> 128"
proof -
  have e: "engine_part_error p = None" "profile_fields_error p = None" "profile_parts_error p = None"
    using assms(1) by (auto simp: profile_error_def find_error_None simp del: find_error.simps)
  show "length (mpf_alias p) \<le> 128" using e(2) by (auto simp: profile_fields_error_def first_error_None simp del: first_error.simps)
  have img: "image_error_of i = None" if "mpf_image p = Some i" for i
    using e(3) that by (auto simp: profile_parts_error_def find_error_None simp del: find_error.simps)
  have fin: "json_finite (JFloat (mi_guidance_scale i))" if "mpf_image p = Some i" for i
    using img [OF that] by (auto simp: image_error_of_def first_error_None simp del: first_error.simps split: pyfloat.splits)
  show "mt_capabilities t \<noteq> []" using assms(2) engine_part_caps [OF e(1)]
    by (auto simp: resolve_target_def image_target_def language_target_def Let_def split: if_splits option.splits)
  show "options_finite (mt_load_options t)" using assms(2)
    by (auto simp: resolve_target_def image_target_def language_target_def Let_def options_finite_language opt_int_def
        options_finite_def [of "[_, _]"] split: if_splits option.splits)
  show "options_finite (mt_image_defaults t)" using assms(2) fin
    by (auto simp: resolve_target_def image_target_def language_target_def Let_def options_finite_def split: if_splits)
  show "mt_alias t = mpf_alias p" "ke_engine (mt_key t) = mpf_engine p" using assms(2)
    by (auto simp: resolve_target_def image_target_def language_target_def Let_def split: if_splits)
qed

text \<open>The files that an install selects.\<close>

lemma forward_slashes_simps [simp]:
  "length (forward_slashes v) = length v" "forward_slashes v = [] \<longleftrightarrow> v = []" "CHR 0x5C \<notin> set (forward_slashes v)"
  by (auto simp: forward_slashes_def)

lemma safe_repository_file_path: "safe_repository_file v \<Longrightarrow> safe_path (forward_slashes v)"
proof -
  assume v: "safe_repository_file v"
  then have "\<not> py_startswith (forward_slashes v) ''/''"
    by (cases v) (auto simp: safe_repository_file_def py_startswith_def forward_slashes_def)
  then show ?thesis using v by (simp add: safe_repository_file_def safe_path_def)
qed

lemma py_sorted_set_length: "length (py_sorted_set xs) \<le> length xs"
  by (simp add: py_sorted_set_def length_remdups_leq)

lemma safe_repository_files_ok:
  assumes "safe_repository_files vs = Some fs"
  shows "py_sorted_set fs = fs" and "length fs \<le> 128" and "list_all safe_path fs"
proof -
  have fs: "fs = py_sorted_set (map forward_slashes vs)" and vs: "length vs \<le> 128" "list_all safe_repository_file vs"
    using assms by (auto simp: safe_repository_files_def split: if_splits)
  show "py_sorted_set fs = fs" by (simp add: fs)
  show "length fs \<le> 128" using py_sorted_set_length [of "map forward_slashes vs"] vs(1) by (simp add: fs)
  show "list_all safe_path fs" using vs(2) safe_repository_file_path by (auto simp: fs list_all_iff)
qed

lemma selected_files_ok: "validate_selected_files (case safe_repository_files vs of None \<Rightarrow> [] | Some fs \<Rightarrow> fs) = None"
  and selected_files_short: "length (case safe_repository_files vs of None \<Rightarrow> [] | Some fs \<Rightarrow> fs) \<le> 128"
  using safe_repository_files_ok [of vs]
  by (auto simp: validate_selected_files_def find_error_None list_all_iff py_sorted_set_def split: option.split)

lemma name_part_plain: "name_part s \<Longrightarrow> s \<noteq> [] \<and> CHR '':'' \<notin> set s \<and> \<not> py_startswith s ''/''"
  by (auto simp: name_part_def name_char_def ascii_alnum_def in_range_def py_startswith_def list_all_iff split: list.splits)

lemma py_split_hd: "py_split c s \<noteq> [] \<and> hd (py_split c s) = takeWhile (\<lambda>d. d \<noteq> c) s"
  by (induction s rule: py_split.induct) (auto split: list.splits)

lemma repo_id_upstream:
  assumes "safe_huggingface_repo_id v"
  shows "str_len 1 512 v" and "\<not> absolute_path v"
proof -
  define h where "h = takeWhile (\<lambda>d. d \<noteq> CHR ''/'') v"
  have h: "name_part h" using assms py_split_hd [of "CHR ''/''" v]
    by (cases "py_split (CHR ''/'') v") (auto simp: safe_huggingface_repo_id_def h_def)
  note p = name_part_plain [OF h]
  have v: "v \<noteq> []" "\<not> py_startswith v ''/''" using p by (cases v; auto simp: h_def py_startswith_def split: if_splits)+
  then show "str_len 1 512 v" using assms by (simp add: str_len_def safe_huggingface_repo_id_def Suc_le_eq)
  have "take 2 (drop 1 v) \<noteq> [CHR '':'', CHR 0x5C]"
  proof
    assume a: "take 2 (drop 1 v) = [CHR '':'', CHR 0x5C]"
    then obtain c w where c: "v = c # CHR '':'' # w" by (cases v rule: remdups_adj.cases) auto
    with v(2) have "CHR '':'' \<in> set h" by (auto simp: h_def py_startswith_def)
    then show False using p by simp
  qed
  then show "\<not> absolute_path v" using v(2) by (simp add: absolute_path_def)
qed

text \<open>What the identity is built from.\<close>

definition provenance_ok :: "string \<times> string option \<times> artifact \<times> bool \<Rightarrow> bool" where
  "provenance_ok pr = (case pr of (upstream, revision, art, authoritative) \<Rightarrow>
     str_len 1 512 upstream \<and> \<not> absolute_path upstream \<and> opt_all (str_len 0 256) revision
     \<and> artifact_error art = None \<and> (authoritative \<longrightarrow> immutable_revision revision))"

lemma fleet_artifact_format_len: "str_len 1 64 (fleet_artifact_format e)"
  by (cases e) (simp_all add: str_len_def)

lemma install_provenance_ok:
  assumes "str_len 1 512 local_name" and "\<not> absolute_path local_name"
    and "opt_all (str_len 0 128) (gguf_quantization (ir_filename i))"
  shows "provenance_ok (install_provenance loads local_name t i)"
proof -
  define files where "files = (if ke_engine (mt_key t) \<in> {LLAMA_CPP, DS4} then selected_names i else download_files loads i)"
  define art where "art = \<lparr>ar_format = fleet_artifact_format (ke_engine (mt_key t)),
      ar_selected_files = (case safe_repository_files files of None \<Rightarrow> [] | Some fs \<Rightarrow> fs),
      ar_quantization = gguf_quantization (ir_filename i), ar_content_digest = None\<rparr>"
  define rev where "rev = map_option (\<lambda>r. if immutable_revision_re r then py_lower r else r)
      (case ir_revision i of None \<Rightarrow> None | Some r \<Rightarrow> if length r \<le> 256 then Some r else None)"
  define imm where "imm = (case ir_revision i of None \<Rightarrow> False | Some r \<Rightarrow> immutable_revision_re r)"
  have art: "artifact_error art = None"
    using selected_files_ok [of files] selected_files_short [of files] fleet_artifact_format_len assms(3)
    by (simp add: artifact_error_def art_def)
  have rev: "opt_all (str_len 0 256) rev" "imm \<Longrightarrow> immutable_revision rev"
    by (auto simp: rev_def imm_def opt_all_def str_len_def py_lower_def immutable_revision_re_def
        intro!: immutable_revision_lower [unfolded py_lower_def] split: option.splits)
  have "install_provenance loads local_name t i =
     (if safe_huggingface_repo_id (ir_repo_id i) then (ir_repo_id i, rev, art, imm \<and> safe_repository_files files \<noteq> None)
      else (local_name, None, art, False))"
    unfolding install_provenance_def Let_def files_def art_def rev_def imm_def by simp
  then show ?thesis using assms(1,2) repo_id_upstream [of "ir_repo_id i"] art rev
    by (simp add: provenance_ok_def opt_all_def)
qed

lemma local_name_ok:
  assumes "length node_id \<le> 128" and "length al \<le> 128"
  shows "str_len 1 512 (''node-local:'' @ node_id @ CHR '':'' # al)" and "\<not> absolute_path (''node-local:'' @ node_id @ CHR '':'' # al)"
  using assms by (simp_all add: str_len_def absolute_path_def py_startswith_def)

lemma engine_value_len: "str_len 1 64 (engine_value e)" and kind_value_len: "str_len 1 64 (kind_value k)"
  by (cases e; simp add: str_len_def) (cases k; simp add: str_len_def)

text \<open>The provenance an identity is built from, managed or local.\<close>

definition provenance ::
  "(string \<Rightarrow> json option) \<Rightarrow> (string \<Rightarrow> string) \<Rightarrow> string \<Rightarrow> mac_profile \<Rightarrow> mac_target \<Rightarrow> install_record option
   \<Rightarrow> string \<times> string option \<times> artifact \<times> bool" where
  "provenance loads lexical node_id p t install =
     (let local_name = ''node-local:'' @ node_id @ CHR '':'' # mt_alias t;
          local_art = \<lparr>ar_format = fleet_artifact_format (ke_engine (mt_key t)), ar_selected_files = [],
                       ar_quantization = None, ar_content_digest = None\<rparr>
      in case install of
           Some i \<Rightarrow> if managed_install lexical p i then install_provenance loads local_name t i
                     else (local_name, None, local_art, False)
         | None \<Rightarrow> (local_name, None, local_art, False))"

lemma provenance_accepted:
  assumes "length node_id \<le> 128" and "length (mt_alias t) \<le> 128"
    and "\<And>i. install = Some i \<Longrightarrow> opt_all (str_len 0 128) (gguf_quantization (ir_filename i))"
  shows "provenance_ok (provenance loads lexical node_id p t install)"
proof -
  have "artifact_error \<lparr>ar_format = fleet_artifact_format (ke_engine (mt_key t)), ar_selected_files = [],
      ar_quantization = None, ar_content_digest = None\<rparr> = None"
    using fleet_artifact_format_len by (simp add: artifact_error_def validate_selected_files_def opt_all_def py_sorted_set_def)
  then show ?thesis using local_name_ok [OF assms(1,2)] assms(3) install_provenance_ok
    by (auto simp: provenance_def Let_def provenance_ok_def [of "(_, None, _, False)"] opt_all_def [of _ None] split: option.split)
qed

lemma fleet_identity_eq:
  "fleet_deployment_identity sha loads lexical node_id p t install =
     (case provenance loads lexical node_id p t install of (upstream, revision, art, authoritative) \<Rightarrow>
        map_sum id (\<lambda>(deployment_id, digest, ident). (deployment_id, ident, authoritative))
          (node_deployment_identity sha (engine_value (ke_engine (mt_key t))) upstream revision art
             (kind_value (mt_kind t)) (map endpoint_value (mt_capabilities t)) (JObj (portable_load_config t))))"
  unfolding fleet_deployment_identity_def provenance_def Let_def by (simp split: prod.split sum.split)

section \<open>Properties\<close>

text \<open>
  C18: the service's identities are accepted. Every profile that passes the service's validation resolves
  to a target whose deployment identity can be computed, whatever is installed for it; the gateway's checks of
  the identity and of its digest pass, and an identity that is called authoritative has an immutable
  revision. The bounds on the node's name and on the quantization label are those of the protocol.
\<close>

theorem mac_identity_accepted:
  assumes "profile_error p = None" and "resolve_target sha abs_path p place = Some t"
    and "sha_format sha" and "length node_id \<le> 128"
    and "\<And>i. install = Some i \<Longrightarrow> opt_all (str_len 0 128) (gguf_quantization (ir_filename i))"
  shows "\<exists>i ident authoritative.
    fleet_deployment_identity sha loads lexical node_id p t install = Inr (i, ident, authoritative)
    \<and> identity_error ident = None \<and> i = sha256_text sha (canonical_json (identity_json ident))
    \<and> validate_sha256 i = None \<and> (authoritative \<longrightarrow> immutable_revision (di_resolved_revision ident))"
proof -
  note r = resolved_fields [OF assms(1,2)]
  obtain upstream revision art authoritative
    where pr: "provenance loads lexical node_id p t install = (upstream, revision, art, authoritative)"
    by (cases "provenance loads lexical node_id p t install")
  have ok: "provenance_ok (upstream, revision, art, authoritative)"
    using provenance_accepted [of node_id t install loads lexical p] assms(4,5) r(4,6) by (simp add: pr)
  let ?caps = "py_sorted_set (map endpoint_value (mt_capabilities t))"
  let ?load = "JObj (portable_load_config t)"
  note caps = normalize_endpoints [OF r(1)] and fin = portable_finite [OF r(2,3)]
  let ?ident = "\<lparr>di_protocol = 1, di_engine = engine_value (ke_engine (mt_key t)), di_upstream_model = upstream,
      di_resolved_revision = map_option (\<lambda>x. if immutable_revision_re x then py_lower x else x) revision, di_artifact = art,
      di_kind = kind_value (mt_kind t), di_capabilities = ?caps, di_load_config_digest = sha256_text sha (canonical_json ?load)\<rparr>"
  have eq: "fleet_deployment_identity sha loads lexical node_id p t install =
      Inr (sha256_text sha (canonical_json (identity_json ?ident)), ?ident, authoritative)"
    using caps fin json_finite_identity by (simp add: fleet_identity_eq pr node_deployment_identity_def sha256_id_def Let_def)
  have "identity_error ?ident = None"
    using ok engine_value_len kind_value_len normalize_capabilities_ok [OF caps] sha_format_valid(1) [OF assms(3)]
    by (auto simp: identity_error_def provenance_ok_def opt_all_def str_len_def py_lower_def split: option.splits)
  moreover have "immutable_revision (di_resolved_revision ?ident)" if authoritative
    using ok that immutable_revision_lower by (auto simp: provenance_ok_def immutable_revision_def split: option.splits)
  ultimately show ?thesis using eq sha_format_valid(1) [OF assms(3)] by auto
qed

text \<open>
  A CUDA profile and a service's target with its install that stand for one model under llama.cpp: the
  same repository, revision, files, capabilities, extra arguments and context length, no explicit
  quantization label on the CUDA side and no separate pooling option on the other.
\<close>

definition same_llama_model :: "resolved_profile \<Rightarrow> mac_target \<Rightarrow> install_record \<Rightarrow> bool" where
  "same_llama_model q t i =
     (pf_backend q = ''llama.cpp'' \<and> ke_engine (mt_key t) = LLAMA_CPP
      \<and> or_text (pf_upstream_model q) (pf_served_model_name q) = ir_repo_id i
      \<and> rx_fullmatch RAW_HF_ID_RE (ir_repo_id i) \<and> safe_huggingface_repo_id (ir_repo_id i)
      \<and> profile_revision q = ir_revision i \<and> opt_all (str_len 1 256) (ir_revision i)
      \<and> pf_gguf_filename q = ir_filename i \<and> pf_projector_filename q = ir_projector_filename i
      \<and> list_all (\<lambda>v. safe_repository_file v \<and> CHR 0x5C \<notin> set v) (selected_names i)
      \<and> \<not> truthy (pf_quantization q) \<and> pf_kind q = kind_value (mt_kind t)
      \<and> normalize_capabilities (pf_capabilities q) = normalize_capabilities (map endpoint_value (mt_capabilities t))
      \<and> pf_extra_args q = json_strings (dict_get (mt_load_options t) ''extra_args'')
      \<and> dict_get (mt_load_options t) ''context_length'' = map_option JInt (pf_max_model_len q)
      \<and> dict_get (mt_load_options t) ''pooling'' = None)"

lemma same_load_config:
  assumes "same_llama_model q t i"
  shows "JObj (portable_load_config t) = semantic_load_config q"
  using assms
  by (auto simp: same_llama_model_def portable_load_config_def llama_semantic_load_config_def semantic_load_config_def Let_def
      mac_semantic_extra_args_def semantic_extra_args_def capacity_options_def context_length_def opt_int_def opt_str_def
      get_json_def split: option.split)

lemma forward_slashes_id: "CHR 0x5C \<notin> set v \<Longrightarrow> forward_slashes v = v"
  unfolding forward_slashes_def by (rule map_idI) auto

lemma same_selected:
  assumes "list_all (\<lambda>v. safe_repository_file v \<and> CHR 0x5C \<notin> set v) (selected_names i)"
  shows "safe_repository_files (selected_names i)
     = Some (py_sorted_set (map the (filter truthy [ir_filename i, ir_projector_filename i])))"
proof -
  have "selected_names i = map the (filter truthy [ir_filename i, ir_projector_filename i])"
    using assms by (auto simp: selected_names_def List.map_filter_simps truthy_def safe_repository_file_def split: option.splits)
  moreover have "length (selected_names i) \<le> 128"
    by (simp add: selected_names_def List.map_filter_simps split: option.split)
  moreover have "map forward_slashes (selected_names i) = selected_names i"
    using assms forward_slashes_id by (simp add: map_idI list_all_iff)
  moreover have "list_all safe_repository_file (selected_names i)" using assms by (simp add: list_all_iff)
  ultimately show ?thesis unfolding safe_repository_files_def by presburger
qed

lemma py_lower_idem [simp]: "py_lower (py_lower s) = py_lower s"
proof -
  have "py_lower_char (py_lower_char c) = py_lower_char c" for c
  proof -
    define n where "n = (of_char c :: nat)"
    show ?thesis
    proof (cases "(65 \<le> n \<and> n \<le> 90) \<or> (192 \<le> n \<and> n \<le> 222 \<and> n \<noteq> 215)")
      case True
      then have c: "py_lower_char c = char_of (n + 32)" by (simp add: py_lower_char_def n_def)
      have "(of_char (char_of (n + 32) :: char) :: nat) = n + 32" using True by auto
      then show ?thesis using True unfolding c by (auto simp: py_lower_char_def Let_def)
    next
      case False
      then have "py_lower_char c = c" unfolding py_lower_char_def n_def [symmetric] Let_def by (rule if_not_P)
      then show ?thesis by simp
    qed
  qed
  then show ?thesis by (simp add: py_lower_def)
qed

lemma same_provenance:
  assumes "same_llama_model q t i"
  shows "install_provenance loads local_name t i =
    (fleet_upstream sha q, map_option (\<lambda>r. if immutable_revision_re r then py_lower r else r) (profile_revision q),
     profile_artifact q, identity_is_authoritative (profile_revision q) (profile_artifact q) \<and> portable_upstream q)"
proof -
  note s = assms [unfolded same_llama_model_def]
  have files: "safe_repository_files (selected_names i)
      = Some (py_sorted_set (map the (filter truthy [pf_gguf_filename q, pf_projector_filename q])))"
    using same_selected [of i] s by simp
  have art: "profile_artifact q = \<lparr>ar_format = ''gguf'',
      ar_selected_files = py_sorted_set (map the (filter truthy [pf_gguf_filename q, pf_projector_filename q])),
      ar_quantization = gguf_quantization (pf_gguf_filename q), ar_content_digest = None\<rparr>"
    using s by (simp add: profile_artifact_def Let_def)
  have rev: "(case ir_revision i of None \<Rightarrow> None | Some r \<Rightarrow> if length r \<le> 256 then Some r else None) = profile_revision q"
    using s by (auto simp: opt_all_def str_len_def split: option.splits)
  show ?thesis unfolding install_provenance_def Let_def rev using s
    by (auto simp: files art fleet_upstream_def portable_upstream_def identity_is_authoritative_def opt_all_def str_len_def
        simp del: filter.simps list.map split: option.splits)
qed

text \<open>
  C11: one model, one identifier. A model that a CUDA node serves with llama.cpp and a Mac serves from a
  managed install of the same files gets the same deployment identifier, the same identity document and
  the same verdict on its authority on both platforms, so the gateway treats the nodes as replicas.
\<close>

theorem platforms_share_identity:
  assumes "same_llama_model q t i" and "managed_install lexical p i"
  shows "fleet_deployment_identity sha loads lexical node_id p t (Some i) = profile_deployment sha q"
proof -
  note s = assms(1) [unfolded same_llama_model_def]
  have twice: "map_option f (map_option f r) = map_option f r"
    if "f = (\<lambda>r. if immutable_revision_re r then py_lower r else r)" for f r
    using that by (cases r) auto
  have "provenance loads lexical node_id p t (Some i) =
    (fleet_upstream sha q, map_option (\<lambda>r. if immutable_revision_re r then py_lower r else r) (profile_revision q),
     profile_artifact q, identity_is_authoritative (profile_revision q) (profile_artifact q) \<and> portable_upstream q)"
    using assms(2) same_provenance [OF assms(1)] by (simp add: provenance_def Let_def)
  then show ?thesis using s
    by (simp add: fleet_identity_eq profile_deployment_def Let_def same_load_config [OF assms(1)] node_deployment_identity_def twice
        split: sum.split prod.split)
qed

subsection \<open>A concrete model\<close>

definition demo_mac_profile :: mac_profile where
  "demo_mac_profile =
     \<lparr>mpf_alias = ''m'', mpf_engine = LLAMA_CPP, mpf_model = ''/models/m/m-Q4_K_M.gguf'', mpf_storage = Some ''internal'',
      mpf_served_model_name = None, mpf_capabilities = None,
      mpf_load = default_load\<lparr>ml_parallel := Some 4, ml_extra_args := [''--temp'', ''0'']\<rparr>,
      mpf_context = default_context\<lparr>mc_mode := CtxFixed, mc_fixed_tokens := Some 8192\<rparr>, mpf_kind = LANGUAGE,
      mpf_image = None, mpf_alternatives = [],
      mpf_selection = \<lparr>ms_mode = SelFixed, ms_pinned_engine = None, ms_objective = ''balanced'', ms_max_benchmark_age_hours = 168,
        ms_minimum_samples = 3, ms_minimum_improvement_percent = Fin 5, ms_allow_preview = False\<rparr>, mpf_enabled = True\<rparr>"

definition demo_place :: storage_place where
  "demo_place = \<lparr>sp_path = Some ''/models'', sp_scope_id = None, sp_volume_uuid = None\<rparr>"

definition demo_mac_target :: mac_target where
  "demo_mac_target = the (resolve_target demo_sha (\<lambda>s. s) demo_mac_profile demo_place)"

definition demo_install :: install_record where
  "demo_install =
     \<lparr>ir_repo_id = ''org/model'', ir_engine = ''llama.cpp'', ir_storage = ''internal'', ir_destination = ''/models/m'',
      ir_status = ''installed'', ir_revision = Some (replicate 40 (CHR ''A'')), ir_filename = Some ''m-Q4_K_M.gguf'',
      ir_projector_filename = None, ir_files_json = None\<rparr>"

definition demo_llama_profile :: resolved_profile where
  "demo_llama_profile =
     demo_resolved\<lparr>pf_backend := ''llama.cpp'', pf_gguf_filename := Some ''m-Q4_K_M.gguf'', pf_max_model_len := Some 8192,
       pf_extra_args := [''--temp'', ''0''], pf_capabilities := [''chat.completions'', ''completions'', ''responses'']\<rparr>"

lemma demo_mac_resolved: "resolve_target demo_sha (\<lambda>s. s) demo_mac_profile demo_place = Some demo_mac_target"
  by (simp add: demo_mac_target_def resolve_target_def demo_mac_profile_def)

lemma demo_mac_accepted: "profile_error demo_mac_profile = None"
  by code_simp

lemma demo_quantization: "gguf_quantization (Some ''m-Q4_K_M.gguf'') = Some ''Q4_K_M''"
  by code_simp

theorem mac_identity_accepted_witness:
  "\<exists>i ident. fleet_deployment_identity demo_sha (\<lambda>_. None) (\<lambda>s. s) ''mac-1'' demo_mac_profile demo_mac_target (Some demo_install)
       = Inr (i, ident, True)
     \<and> identity_error ident = None \<and> di_upstream_model ident = ''org/model''"
proof -
  have m: "managed_install (\<lambda>s. s) demo_mac_profile demo_install" by code_simp
  have "opt_all (str_len 0 128) (gguf_quantization (ir_filename i))" if "Some demo_install = Some i" for i
    using that demo_quantization by (auto simp: demo_install_def opt_all_def str_len_def)
  with mac_identity_accepted [OF demo_mac_accepted demo_mac_resolved demo_sha_ok, of "''mac-1''" "Some demo_install"]
  obtain i ident a where
    f: "fleet_deployment_identity demo_sha (\<lambda>_. None) (\<lambda>s. s) ''mac-1'' demo_mac_profile demo_mac_target (Some demo_install)
       = Inr (i, ident, a)" and ok: "identity_error ident = None" by force
  have pr: "\<exists>rev art. install_provenance (\<lambda>_. None) n demo_mac_target demo_install = (''org/model'', rev, art, True)" for n
  proof -
    have "safe_huggingface_repo_id ''org/model''" "immutable_revision_re (replicate 40 (CHR ''A''))" by code_simp+
    moreover have "safe_repository_files [''m-Q4_K_M.gguf''] \<noteq> None" by code_simp
    moreover have "ke_engine (mt_key demo_mac_target) = LLAMA_CPP"
      by (simp add: demo_mac_target_def resolve_target_def demo_mac_profile_def language_target_def Let_def)
    ultimately show ?thesis
      by (simp add: install_provenance_def Let_def demo_install_def selected_names_def List.map_filter_simps)
  qed
  obtain rev art where "provenance (\<lambda>_. None) (\<lambda>s. s) ''mac-1'' demo_mac_profile demo_mac_target (Some demo_install) = (''org/model'', rev, art, True)"
    using pr m by (fastforce simp: provenance_def Let_def)
  with f have "a = True \<and> di_upstream_model ident = ''org/model''"
    by (auto simp: fleet_identity_eq node_deployment_identity_def Let_def split: sum.splits)
  with f ok show ?thesis by blast
qed

lemma demo_same_model: "same_llama_model demo_llama_profile demo_mac_target demo_install"
proof -
  have rx: "rx_fullmatch RAW_HF_ID_RE ''org/model''" "safe_huggingface_repo_id ''org/model''"
    "safe_repository_file ''m-Q4_K_M.gguf'' \<and> CHR 0x5C \<notin> set ''m-Q4_K_M.gguf''" by code_simp+
  have caps: "normalize_capabilities [''chat.completions'', ''completions'', ''responses'']
      = normalize_capabilities (map endpoint_value [CHAT_COMPLETIONS, COMPLETIONS, RESPONSES])" by code_simp
  have "language_load_options LLAMA_CPP (mpf_load demo_mac_profile) (mpf_context demo_mac_profile)
      = [(''parallel'', JInt 4), (''extra_args'', JArr [JStr ''--temp'', JStr ''0'']), (''context_length'', JInt 8192)]"
    by code_simp
  then have opts: "mt_load_options demo_mac_target
      = [(''parallel'', JInt 4), (''extra_args'', JArr [JStr ''--temp'', JStr ''0'']), (''context_length'', JInt 8192)]"
    by (simp add: demo_mac_target_def resolve_target_def language_target_def Let_def) (simp add: demo_mac_profile_def)
  have t: "ke_engine (mt_key demo_mac_target) = LLAMA_CPP" "mt_kind demo_mac_target = LANGUAGE"
    "mt_capabilities demo_mac_target = [CHAT_COMPLETIONS, COMPLETIONS, RESPONSES]"
    by (simp_all add: demo_mac_target_def resolve_target_def demo_mac_profile_def language_target_def Let_def)
  show ?thesis unfolding same_llama_model_def opts t
    using rx caps
    by (simp add: demo_llama_profile_def demo_resolved_def demo_install_def or_text_def truthy_def profile_revision_def
        opt_all_def str_len_def selected_names_def List.map_filter_simps json_strings_def dict_get_Cons)
qed

theorem platforms_share_identity_witness:
  "fleet_deployment_identity demo_sha (\<lambda>_. None) (\<lambda>s. s) ''mac-1'' demo_mac_profile demo_mac_target (Some demo_install)
     = profile_deployment demo_sha demo_llama_profile"
proof -
  have "managed_install (\<lambda>s. s) demo_mac_profile demo_install" by code_simp
  from platforms_share_identity [OF demo_same_model this] show ?thesis .
qed

end
