(* ===== verification/Mac_Fleet.thy ===== *)
theory Mac_Fleet
  imports Mac_Identity
begin

text \<open>
  What a macOS node publishes meets the gateway's validation: the capacities that its adapters report.
\<close>

section \<open>Capacities\<close>

text \<open>Every engine but mistral.rs publishes a capacity that the gateway accepts.\<close>

lemma derived_limit_described:
  assumes "hint_ok omlx" and "ke_engine (mt_key t) \<noteq> MISTRAL_RS \<or> MISTRAL_RS \<notin> set adapters"
    and "derived_limit_of adapters omlx t = (d, source, confidence)"
  shows "str_len 1 96 source" and "confidence \<in> set [''authoritative'', ''configured'', ''derived'', ''conservative'']"
  using assms
  by (cases "ke_engine (mt_key t)"; auto simp: derived_limit_of_def mac_limit_def ds4_hint_def mlxcel_hint_def hint_ok_def opt_all_def
    Let_def str_len_def split: option.splits if_splits)+

lemma mac_capacity_accepted:
  assumes "hint_ok omlx" and "ke_engine (mt_key t) \<noteq> MISTRAL_RS \<or> MISTRAL_RS \<notin> set adapters"
    and "capacity_for adapters omlx configured t active queued is_open = Inr c"
    and "fst (derived_limit_of adapters omlx t) \<le> 100000" and "\<forall>m. configured = Some m \<longrightarrow> m \<le> 100000"
    and "active \<le> 1000000" and "queued \<le> 1000000"
  shows "capacity_error c = None"
proof -
  obtain d s k where l: "derived_limit_of adapters omlx t = (d, s, k)" by (cases "derived_limit_of adapters omlx t")
  note desc = derived_limit_described [OF assms(1,2) l]
  have e: "effective_capacity d configured active queued s k is_open = Inr c"
    using assms(3) by (simp add: capacity_for_eq [OF assms(1)] l)
  show ?thesis by (rule effective_capacity_accepted [OF e]) (use assms(4-7) desc l in simp_all)
qed

text \<open>
  The mistral.rs adapter's confidence is not one of the protocol's, and the capacity of llama.cpp is described
  as a DS4 session although \<open>derive_macos_capacity\<close> has a description of its own.
\<close>

lemma mistral_capacity_rejected:
  assumes "hint_ok omlx" and "ke_engine (mt_key t) = MISTRAL_RS" and "MISTRAL_RS \<in> set adapters"
    and "capacity_for adapters omlx configured t active queued is_open = Inr c"
  shows "capacity_error c \<noteq> None"
proof -
  have "effective_capacity 1 configured active queued ''mistral-rs-conservative'' ''fallback'' is_open = Inr c"
    using assms(2-4) by (simp add: capacity_for_eq [OF assms(1)] derived_limit_of_def mistral_hint_def)
  then have "cp_confidence c = ''fallback''" by (auto simp: effective_capacity_def Let_def split: if_splits option.splits)
  then show ?thesis by (simp add: capacity_error_def capacity_fields_error_def)
qed

lemma llama_capacity_source:
  assumes "hint_ok omlx" and "ke_engine (mt_key t) = LLAMA_CPP" and "dict_get (mt_load_options t) ''parallel'' = None"
    and "LLAMA_CPP \<in> set adapters" and "capacity_for adapters omlx configured t active queued is_open = Inr c"
  shows "cp_source c = ''ds4-single-session''" and "cp_confidence c = ''authoritative''"
    and "snd (mac_limit t) = (''llama.cpp-conservative'', ''conservative'')"
proof -
  have "effective_capacity 1 configured active queued ''ds4-single-session'' ''authoritative'' is_open = Inr c"
    using assms(2-5) by (simp add: capacity_for_eq [OF assms(1)] derived_limit_of_def ds4_hint_def)
  then show "cp_source c = ''ds4-single-session''" and "cp_confidence c = ''authoritative''"
    by (auto simp: effective_capacity_def Let_def split: if_splits option.splits)
  show "snd (mac_limit t) = (''llama.cpp-conservative'', ''conservative'')" using assms(2,3) by (simp add: mac_limit_def)
qed

end
