(* ===== verification/Mac_Residency.thy ===== *)
theory Mac_Residency
  imports Mac_Models
begin

text \<open>
  The Apple Silicon service's residency coordinator,
  \<open>src/macos/service/src/mnemosyne_macos/coordinator.py\<close>. One event of \<open>resid_step\<close> is what a coroutine
  runs between two suspension points (a section under the condition, taking or leaving the operation
  lock); engines are entered between \<open>DHolding\<close> or \<open>OHold\<close> and its end, with the outcome chosen by
  the event. A wait may end at any time, and a timeout, a failure or a cancellation may strike wherever
  the source waits. Diagnostics are left out; the clock is a rational read by the event. Two schedules of
  the source are not runs of the model, both after a shutdown has used up its grace: a second cancellation
  that reaches the driver inside its \<open>finally\<close> clause, and a cleanup task that goes on holding the
  operation lock after the shutdown has stopped waiting for it.

  \<open>acquire\<close> calls are numbered; a call keeps its number as waiter and as lease. The driver tasks and the
  lifecycle operations (unload, maintenance, reconciliation, abort, initialization, shutdown) are numbered
  too, each with a program counter.
\<close>

section \<open>State\<close>

datatype resid_state =
    RIdle | RDraining | RUnloading | RVerifyingEmpty | RLoading | RVerifyingTarget | RReady | RDegraded | RStopping

definition TRANSITION_STATES :: "resid_state list" where
  "TRANSITION_STATES = [RUnloading, RVerifyingEmpty, RLoading, RVerifyingTarget, RDraining, RStopping]"

text \<open>
  A waiter's future: pending, with a granted epoch, with an exception; then the call holds a lease of an
  epoch or is over.
\<close>

datatype call_phase = CQueued | CGranted int | CFailed | CLeased int | CDone

record call =
  cq_target :: mac_target
  cq_phase :: call_phase

datatype resid_driver_pc =
    DTop | DWait | DTransition mac_target | DHolding mac_target | DLoaded mac_target | DCleanup mac_target | DFinally

record driver =
  dr_number :: nat
  dr_pc :: resid_driver_pc
  dr_cancel :: bool

datatype op_kind = OpUnload | OpMaintenance | OpReconcile | OpAbort | OpInit | OpShutdown

text \<open>
  Before the barrier (an eviction on its way to \<open>unload\<close>), draining, waiting for the driver task it saw,
  waiting for the lock, holding it, about to publish success (with what reconciliation found) or
  failure, and over.
\<close>

datatype op_pc = OBegin | ODrain | OAwait "nat option" | OLock | OHold | OEnd bool | OFail | ODone

record operation =
  op_kind :: op_kind
  op_pc :: op_pc

datatype lock_holder = ByDriver | ByOp nat

record resid =
  rz_calls :: "call list"
  rz_queue :: "nat list"
  rz_resident :: "mac_target option"
  rz_epoch :: int
  rz_inflight :: int
  rz_state :: resid_state
  rz_initialized :: bool
  rz_accepting :: bool
  rz_stopping :: bool
  rz_transition_target :: "mac_target option"
  rz_driver :: "driver option"
  rz_drivers :: nat
  rz_ops :: "operation list"
  rz_lock :: "lock_holder option"
  rz_last_used :: rat
  rz_omlx_hint :: "capacity_hint option"

record resid_config =
  rf_adapters :: "engine_name list"
  rf_configured_max_concurrency :: "int option"
  rf_max_queue_depth :: int

definition resid_config_error :: "resid_config \<Rightarrow> string option" where
  "resid_config_error g = first_error
     [((case rf_configured_max_concurrency g of None \<Rightarrow> False | Some m \<Rightarrow> m < 1),
        ''configured_max_concurrency must be positive or null''),
      (rf_max_queue_depth g < 1, ''max_queue_depth must be positive'')]"

definition resid_start :: resid where
  "resid_start =
     \<lparr>rz_calls = [], rz_queue = [], rz_resident = None, rz_epoch = 0, rz_inflight = 0, rz_state = RIdle,
      rz_initialized = False, rz_accepting = False, rz_stopping = False, rz_transition_target = None,
      rz_driver = None, rz_drivers = 0, rz_ops = [], rz_lock = None, rz_last_used = 0, rz_omlx_hint = None\<rparr>"

section \<open>Sections under the condition\<close>

definition ident_of :: "resid \<Rightarrow> nat \<Rightarrow> effective_load_key" where
  "ident_of st i = effective_load_identity (cq_target (rz_calls st ! i))"

definition phase_of :: "resid \<Rightarrow> nat \<Rightarrow> call_phase" where
  "phase_of st i = cq_phase (rz_calls st ! i)"

definition set_phase :: "call_phase \<Rightarrow> call list \<Rightarrow> nat \<Rightarrow> call list" where
  "set_phase p cs i = cs[i := (cs ! i)\<lparr>cq_phase := p\<rparr>]"

text \<open>The free permits; \<open>capacity_for\<close> raises for no accepted configuration.\<close>

definition available_for :: "resid_config \<Rightarrow> resid \<Rightarrow> mac_target \<Rightarrow> int \<Rightarrow> int" where
  "available_for g st t queued =
     (case capacity_for (rf_adapters g) (rz_omlx_hint st) (rf_configured_max_concurrency g) t (rz_inflight st) queued True of
        Inl e \<Rightarrow> 0
      | Inr c \<Rightarrow> cp_available c)"

definition purge_cancelled :: "resid \<Rightarrow> resid" where
  "purge_cancelled st = st\<lparr>rz_queue := filter (\<lambda>i. phase_of st i = CQueued) (rz_queue st)\<rparr>"

text \<open>\<open>set_exception\<close> on every pending future of the waiters \<open>is\<close>.\<close>

definition fail_calls :: "nat list \<Rightarrow> resid \<Rightarrow> resid" where
  "fail_calls is st =
     st\<lparr>rz_calls := fold (\<lambda>i cs. if cq_phase (cs ! i) = CQueued then set_phase CFailed cs i else cs) is (rz_calls st)\<rparr>"

definition fail_all :: "resid \<Rightarrow> resid" where
  "fail_all st = (fail_calls (rz_queue st) st)\<lparr>rz_queue := []\<rparr>"

definition fail_head_group :: "effective_load_key \<Rightarrow> resid \<Rightarrow> resid" where
  "fail_head_group identity st =
     (fail_calls (takeWhile (\<lambda>i. ident_of st i = identity) (rz_queue st)) st)
       \<lparr>rz_queue := dropWhile (\<lambda>i. ident_of st i = identity) (rz_queue st)\<rparr>"

definition ensure_driver :: "resid \<Rightarrow> resid" where
  "ensure_driver st =
     (if rz_driver st = None
      then st\<lparr>rz_driver := Some \<lparr>dr_number = rz_drivers st, dr_pc = DTop, dr_cancel = False\<rparr>, rz_drivers := Suc (rz_drivers st)\<rparr>
      else st)"

definition resid_release_locked :: "int \<Rightarrow> rat \<Rightarrow> resid \<Rightarrow> resid" where
  "resid_release_locked epoch now st =
     (if epoch \<noteq> rz_epoch st \<or> rz_inflight st \<le> 0 then st
      else st\<lparr>rz_inflight := rz_inflight st - 1,
              rz_last_used := (if rz_inflight st = 1 then now else rz_last_used st)\<rparr>)"

text \<open>The grant loop on the queue and the calls: what is left, and how many leases were granted.\<close>

fun resid_grant_loop ::
  "effective_load_key \<Rightarrow> int \<Rightarrow> int \<Rightarrow> nat list \<Rightarrow> call list \<Rightarrow> nat list \<times> call list \<times> nat" where
  "resid_grant_loop identity epoch avail [] cs = ([], cs, 0)"
| "resid_grant_loop identity epoch avail (i # q) cs =
     (if avail \<le> 0 \<or> effective_load_identity (cq_target (cs ! i)) \<noteq> identity then (i # q, cs, 0)
      else if cq_phase (cs ! i) \<noteq> CQueued then resid_grant_loop identity epoch avail q cs
      else case resid_grant_loop identity epoch (avail - 1) q (set_phase (CGranted epoch) cs i) of
        (q', cs', n) \<Rightarrow> (q', cs', Suc n))"

definition grant_head_group :: "resid_config \<Rightarrow> mac_target \<Rightarrow> effective_load_key \<Rightarrow> resid \<Rightarrow> resid \<times> nat" where
  "grant_head_group g resident identity st =
     (case resid_grant_loop identity (rz_epoch st) (available_for g st resident (int (length (rz_queue st))))
             (rz_queue st) (rz_calls st) of
        (q, cs, n) \<Rightarrow> (st\<lparr>rz_queue := q, rz_calls := cs, rz_inflight := rz_inflight st + int n\<rparr>, n))"

text \<open>\<open>acquire\<close> up to its wait.\<close>

datatype acquire_error =
    NotConfigured | Stopping | NotInitialized | NotAccepting | QueueFullError

definition acquire_guard :: "resid_config \<Rightarrow> mac_target \<Rightarrow> resid \<Rightarrow> acquire_error option" where
  "acquire_guard g t st = first_error
     [(ke_engine (mt_key t) \<notin> set (rf_adapters g), NotConfigured), (rz_stopping st, Stopping),
      (\<not> rz_initialized st, NotInitialized), (\<not> rz_accepting st, NotAccepting)]"

definition warm_for :: "mac_target \<Rightarrow> resid \<Rightarrow> bool" where
  "warm_for t st =
     (rz_queue st = []
      \<and> (case rz_resident st of None \<Rightarrow> False | Some r \<Rightarrow> effective_load_identity r = effective_load_identity t)
      \<and> rz_state st = RReady \<and> rz_transition_target st = None)"

definition resid_acquire_enter :: "resid_config \<Rightarrow> mac_target \<Rightarrow> resid \<Rightarrow> acquire_error option \<times> resid" where
  "resid_acquire_enter g t st =
     (case acquire_guard g t st of
        Some e \<Rightarrow> (Some e, st)
      | None \<Rightarrow>
          let st1 = purge_cancelled st
          in if warm_for t st1 \<and> 0 < available_for g st1 (the (rz_resident st1)) 0
             then (None, st1\<lparr>rz_calls := rz_calls st1 @ [\<lparr>cq_target = t, cq_phase = CLeased (rz_epoch st1)\<rparr>],
                             rz_inflight := rz_inflight st1 + 1\<rparr>)
             else if rf_max_queue_depth g \<le> int (length (rz_queue st1)) then (Some QueueFullError, st1)
             else (None, ensure_driver (st1\<lparr>rz_calls := rz_calls st1 @ [\<lparr>cq_target = t, cq_phase = CQueued\<rparr>],
                                           rz_queue := rz_queue st1 @ [length (rz_calls st1)]\<rparr>)))"

text \<open>\<open>_cancel_waiter\<close> and \<open>_release\<close>.\<close>

definition resid_cancel_waiter :: "nat \<Rightarrow> rat \<Rightarrow> resid \<Rightarrow> resid" where
  "resid_cancel_waiter i now st =
     (let st1 = st\<lparr>rz_calls := set_phase CDone (rz_calls st) i\<rparr>
      in case phase_of st i of CGranted epoch \<Rightarrow> resid_release_locked epoch now st1 | _ \<Rightarrow> st1)"

definition release_lease :: "nat \<Rightarrow> int \<Rightarrow> rat \<Rightarrow> resid \<Rightarrow> resid" where
  "release_lease i epoch now st =
     (let st1 = resid_release_locked epoch now (st\<lparr>rz_calls := set_phase CDone (rz_calls st) i\<rparr>)
      in if rz_queue st1 \<noteq> [] then ensure_driver st1 else st1)"

section \<open>The driver\<close>

definition set_driver :: "resid_driver_pc \<Rightarrow> resid \<Rightarrow> resid" where
  "set_driver pc st = st\<lparr>rz_driver := map_option (\<lambda>d. d\<lparr>dr_pc := pc\<rparr>) (rz_driver st)\<rparr>"

text \<open>One turn of the loop of \<open>_drive\<close>, up to its next suspension.\<close>

definition resid_drive_top :: "resid_config \<Rightarrow> resid \<Rightarrow> resid" where
  "resid_drive_top g st =
     (let st = purge_cancelled st in
      if rz_stopping st \<or> \<not> rz_initialized st \<or> \<not> rz_accepting st then set_driver DFinally (fail_all st)
      else case rz_queue st of
        [] \<Rightarrow> set_driver DFinally
               (st\<lparr>rz_transition_target := None,
                   rz_state := (if rz_state st = RDegraded then RDegraded
                                else if rz_resident st = None then RIdle else RReady)\<rparr>)
      | head # _ \<Rightarrow>
          let target = cq_target (rz_calls st ! head); identity = effective_load_identity target
          in if (case rz_resident st of None \<Rightarrow> False | Some r \<Rightarrow> effective_load_identity r = identity)
             then case grant_head_group g (the (rz_resident st)) identity (st\<lparr>rz_transition_target := None\<rparr>) of
               (st1, n) \<Rightarrow>
                 if n = 0
                 then set_driver DWait (if rz_state st1 = RDegraded then st1 else st1\<lparr>rz_state := RReady\<rparr>)
                 else set_driver DTop st1
             else let st1 = st\<lparr>rz_transition_target := Some target\<rparr>
               in if rz_resident st1 \<noteq> None \<and> 0 < rz_inflight st1
                  then set_driver DWait (st1\<lparr>rz_state := RDraining\<rparr>)
                  else set_driver (DTransition target) st1)"

definition publish_loaded :: "mac_target \<Rightarrow> resid \<Rightarrow> resid" where
  "publish_loaded t st =
     (let st1 = st\<lparr>rz_resident := Some t, rz_epoch := rz_epoch st + 1, rz_transition_target := None\<rparr>
      in if rz_initialized st \<and> rz_accepting st \<and> \<not> rz_stopping st then st1\<lparr>rz_state := RReady\<rparr> else st1)"

definition publish_failed :: "mac_target \<Rightarrow> bool \<Rightarrow> resid \<Rightarrow> resid" where
  "publish_failed t clean st =
     (let st1 = st\<lparr>rz_resident := None, rz_state := RDegraded\<rparr>;
          st2 = (if clean then st1 else st1\<lparr>rz_initialized := False, rz_accepting := False\<rparr>)
      in fail_head_group (effective_load_identity t) (st2\<lparr>rz_transition_target := None\<rparr>))"

definition resid_drive_finally :: "resid \<Rightarrow> resid" where
  "resid_drive_finally st =
     (let st1 = st\<lparr>rz_driver := None\<rparr>
      in if rz_queue st1 \<noteq> [] \<and> \<not> rz_stopping st1 then ensure_driver st1 else st1)"

definition drop_lock :: "lock_holder \<Rightarrow> resid \<Rightarrow> resid" where
  "drop_lock h st = (if rz_lock st = Some h then st\<lparr>rz_lock := None\<rparr> else st)"

section \<open>Lifecycle operations\<close>

definition set_op :: "nat \<Rightarrow> op_pc \<Rightarrow> resid \<Rightarrow> resid" where
  "set_op k pc st = st\<lparr>rz_ops := (rz_ops st)[k := (rz_ops st ! k)\<lparr>op_pc := pc\<rparr>]\<rparr>"

definition driver_number :: "resid \<Rightarrow> nat option" where
  "driver_number st = map_option dr_number (rz_driver st)"

text \<open>After the drain the operation takes note of the driver task.\<close>

definition drain_check :: "nat \<Rightarrow> resid \<Rightarrow> resid" where
  "drain_check k st =
     (if 0 < rz_inflight st then set_op k ODrain (if op_kind (rz_ops st ! k) = OpShutdown then st else st\<lparr>rz_state := RDraining\<rparr>)
      else set_op k (OAwait (driver_number st)) st)"

definition cancel_driver :: "resid \<Rightarrow> resid" where
  "cancel_driver st = st\<lparr>rz_driver := map_option (\<lambda>d. d\<lparr>dr_cancel := True\<rparr>) (rz_driver st)\<rparr>"

text \<open>The first section of an operation whose record is number \<open>k\<close>.\<close>

definition init_barrier :: "resid \<Rightarrow> resid" where
  "init_barrier st = st\<lparr>rz_accepting := False, rz_state := RUnloading\<rparr>"

definition shutdown_barrier :: "resid \<Rightarrow> resid" where
  "shutdown_barrier st = cancel_driver (fail_all (st\<lparr>rz_stopping := True, rz_accepting := False, rz_state := RStopping\<rparr>))"

definition op_barrier :: "nat \<Rightarrow> resid \<Rightarrow> resid" where
  "op_barrier k st =
     (case op_kind (rz_ops st ! k) of
        OpInit \<Rightarrow> set_op k OLock (init_barrier st)
      | OpShutdown \<Rightarrow> drain_check k (shutdown_barrier st)
      | _ \<Rightarrow> drain_check k (fail_all (st\<lparr>rz_accepting := False\<rparr>)))"

definition op_start :: "op_kind \<Rightarrow> resid \<Rightarrow> resid" where
  "op_start kind st =
     op_barrier (length (rz_ops st)) (st\<lparr>rz_ops := rz_ops st @ [\<lparr>op_kind = kind, op_pc = OBegin\<rparr>]\<rparr>)"

text \<open>
  An abort whose epoch has passed only gives its lease up. The application ends every lease once, with a
  release or with an abort, and logs a failed abort.
\<close>

definition abort_start :: "nat \<Rightarrow> int \<Rightarrow> rat \<Rightarrow> resid \<Rightarrow> resid" where
  "abort_start i epoch now st =
     (let st1 = st\<lparr>rz_calls := set_phase CDone (rz_calls st) i\<rparr>
      in if epoch \<noteq> rz_epoch st then st1
         else drain_check (length (rz_ops st))
                (resid_release_locked epoch now (fail_all (st1\<lparr>rz_accepting := False,
                   rz_ops := rz_ops st @ [\<lparr>op_kind = OpAbort, op_pc = ODrain\<rparr>]\<rparr>))))"

definition fail_closed :: "resid \<Rightarrow> resid" where
  "fail_closed st = st\<lparr>rz_initialized := False, rz_accepting := False, rz_state := RDegraded\<rparr>"

text \<open>The drain's deadline passes.\<close>

definition drain_timeout :: "nat \<Rightarrow> resid \<Rightarrow> resid" where
  "drain_timeout k st =
     (case op_kind (rz_ops st ! k) of
        OpMaintenance \<Rightarrow> set_op k OFail st
      | OpAbort \<Rightarrow> set_op k ODone (st\<lparr>rz_initialized := False, rz_state := RDegraded\<rparr>)
      | OpShutdown \<Rightarrow> set_op k (OAwait (driver_number st)) st
      | _ \<Rightarrow> set_op k ODone (st\<lparr>rz_accepting := True,
                                rz_state := (if rz_resident st = None then RIdle else RReady)\<rparr>))"

text \<open>What an operation does where it fails after the drain; a shutdown goes on.\<close>

definition op_failed :: "nat \<Rightarrow> resid \<Rightarrow> resid" where
  "op_failed k st = set_op k (if op_kind (rz_ops st ! k) = OpShutdown then OEnd False else OFail) st"

definition publish_empty :: "rat \<Rightarrow> resid \<Rightarrow> resid" where
  "publish_empty now st =
     st\<lparr>rz_resident := None, rz_transition_target := None, rz_initialized := True, rz_accepting := True,
        rz_state := RIdle, rz_last_used := now\<rparr>"

definition publish_reconciled :: "bool \<Rightarrow> resid \<Rightarrow> resid" where
  "publish_reconciled matches st =
     (let resident = (if matches then rz_resident st else None)
      in st\<lparr>rz_transition_target := None, rz_resident := resident,
            rz_state := (if resident = None then RIdle else RReady), rz_initialized := True, rz_accepting := True\<rparr>)"

definition publish_stopped :: "resid \<Rightarrow> resid" where
  "publish_stopped st =
     st\<lparr>rz_resident := None, rz_transition_target := None, rz_initialized := False, rz_state := RStopping\<rparr>"

definition op_publish :: "nat \<Rightarrow> bool \<Rightarrow> rat \<Rightarrow> resid \<Rightarrow> resid" where
  "op_publish k matches now st =
     (case op_kind (rz_ops st ! k) of
        OpReconcile \<Rightarrow> publish_reconciled matches st
      | OpShutdown \<Rightarrow> publish_stopped st
      | _ \<Rightarrow> publish_empty now st)"

text \<open>The eviction's check, and an audit that ends without a match.\<close>

definition evict_check :: "rat \<Rightarrow> rat \<Rightarrow> resid \<Rightarrow> resid" where
  "evict_check idle now st =
     (if rz_resident st = None \<or> rz_inflight st \<noteq> 0 \<or> rz_queue st \<noteq> [] \<or> \<not> rz_accepting st \<or> now - rz_last_used st < idle
      then st
      else st\<lparr>rz_accepting := False, rz_ops := rz_ops st @ [\<lparr>op_kind = OpUnload, op_pc = OBegin\<rparr>]\<rparr>)"

definition audit_failed :: "bool \<Rightarrow> resid \<Rightarrow> resid option" where
  "audit_failed error st =
     (if \<not> error \<and> rz_state st \<in> set TRANSITION_STATES then None else Some (fail_all (fail_closed st)))"

declare init_barrier_def [simp] shutdown_barrier_def [simp] publish_empty_def [simp] publish_reconciled_def [simp]
  publish_stopped_def [simp] evict_check_def [simp] audit_failed_def [simp]

section \<open>Steps\<close>

datatype resid_event =
    Acquire mac_target
  | Collect nat
  | CancelWaiter nat rat
  | Release nat rat
  | DriverTurn
  | DriverLock
  | DriverPhase resid_state
  | DriverLoaded
  | DriverFailed
  | DriverCleaned bool
  | DriverPublish
  | DriverCancelled
  | DriverFinally
  | OpStart op_kind
  | EvictCheck rat rat
  | OpBarrier nat
  | AbortLease nat rat
  | DrainWake nat
  | DrainTimeout nat
  | DriverSettled nat
  | AwaitTimeout nat
  | OpFailed nat
  | OpLocked nat
  | OpVerifying nat
  | OpUnlocked nat bool bool
  | OpPublish nat rat
  | OpCancelled nat
  | AuditFailed bool
  | HintChanged "mapping_json option"

definition driver_at :: "resid \<Rightarrow> resid_driver_pc option" where
  "driver_at st = map_option dr_pc (rz_driver st)"

definition op_at :: "resid \<Rightarrow> nat \<Rightarrow> op_pc option" where
  "op_at st k = (if k < length (rz_ops st) then Some (op_pc (rz_ops st ! k)) else None)"

definition call_at :: "resid \<Rightarrow> nat \<Rightarrow> call_phase option" where
  "call_at st i = (if i < length (rz_calls st) then Some (phase_of st i) else None)"

text \<open>A call's own steps.\<close>

fun call_step :: "resid_config \<Rightarrow> resid_event \<Rightarrow> resid \<Rightarrow> resid option" where
  "call_step g (Acquire t) st = Some (snd (resid_acquire_enter g t st))"
| "call_step g (Collect i) st =
     (case call_at st i of
        Some (CGranted epoch) \<Rightarrow> Some (st\<lparr>rz_calls := set_phase (CLeased epoch) (rz_calls st) i\<rparr>)
      | Some CFailed \<Rightarrow> Some (st\<lparr>rz_calls := set_phase CDone (rz_calls st) i\<rparr>)
      | _ \<Rightarrow> None)"
| "call_step g (CancelWaiter i now) st =
     (case call_at st i of
        Some CQueued \<Rightarrow> Some (resid_cancel_waiter i now st)
      | Some (CGranted epoch) \<Rightarrow> Some (resid_cancel_waiter i now st)
      | Some CFailed \<Rightarrow> Some (resid_cancel_waiter i now st)
      | _ \<Rightarrow> None)"
| "call_step g (Release i now) st =
     (case call_at st i of Some (CLeased epoch) \<Rightarrow> Some (release_lease i epoch now st) | _ \<Rightarrow> None)"
| "call_step g (AbortLease i now) st =
     (case call_at st i of Some (CLeased epoch) \<Rightarrow> Some (abort_start i epoch now st) | _ \<Rightarrow> None)"
| "call_step g ev st = None"

text \<open>
  The driver's steps. A cancelled task ends at its next suspension; a failure or a timeout of the
  transition leads to the cleanup, which runs without the lock.
\<close>

fun driver_step :: "resid_config \<Rightarrow> resid_event \<Rightarrow> resid \<Rightarrow> resid option" where
  "driver_step g DriverTurn st =
     (case driver_at st of Some DTop \<Rightarrow> Some (resid_drive_top g st) | Some DWait \<Rightarrow> Some (resid_drive_top g st) | _ \<Rightarrow> None)"
| "driver_step g DriverLock st =
     (case driver_at st of
        Some (DTransition t) \<Rightarrow>
          if rz_lock st \<noteq> None then None
          else Some (set_driver (DHolding t) (st\<lparr>rz_lock := Some ByDriver, rz_state := RUnloading\<rparr>))
      | _ \<Rightarrow> None)"
| "driver_step g (DriverPhase s) st =
     (case driver_at st of
        Some (DHolding t) \<Rightarrow> if s \<in> {RVerifyingEmpty, RLoading, RVerifyingTarget} then Some (st\<lparr>rz_state := s\<rparr>) else None
      | _ \<Rightarrow> None)"
| "driver_step g DriverLoaded st =
     (case driver_at st of
        Some (DHolding t) \<Rightarrow> Some (set_driver (DLoaded t) (drop_lock ByDriver st)) | _ \<Rightarrow> None)"
| "driver_step g DriverFailed st =
     (case driver_at st of
        Some (DTransition t) \<Rightarrow> Some (set_driver (DCleanup t) st)
      | Some (DHolding t) \<Rightarrow> Some (set_driver (DCleanup t) (drop_lock ByDriver st))
      | _ \<Rightarrow> None)"
| "driver_step g (DriverCleaned clean) st =
     (case driver_at st of Some (DCleanup t) \<Rightarrow> Some (set_driver DTop (publish_failed t clean st)) | _ \<Rightarrow> None)"
| "driver_step g DriverPublish st =
     (case driver_at st of Some (DLoaded t) \<Rightarrow> Some (set_driver DTop (publish_loaded t st)) | _ \<Rightarrow> None)"
| "driver_step g DriverCancelled st =
     (case rz_driver st of
        Some d \<Rightarrow> if dr_cancel d \<and> dr_pc d \<noteq> DFinally then Some (set_driver DFinally (drop_lock ByDriver st)) else None
      | None \<Rightarrow> None)"
| "driver_step g DriverFinally st =
     (case driver_at st of Some DFinally \<Rightarrow> Some (resid_drive_finally st) | _ \<Rightarrow> None)"
| "driver_step g ev st = None"

text \<open>
  The operations' steps. \<open>OpStart\<close> is a call of the coordinator; an abort starts from its lease. A
  reconciliation and an initialization are refused while the coordinator stops. An audit fails because an
  engine cannot be inspected or, outside transitions, because the engines' state has drifted.
\<close>

fun op_step :: "resid_config \<Rightarrow> resid_event \<Rightarrow> resid \<Rightarrow> resid option" where
  "op_step g (OpStart kind) st =
     (if kind = OpAbort \<or> (kind \<in> {OpReconcile, OpInit} \<and> rz_stopping st) then None else Some (op_start kind st))"
| "op_step g (EvictCheck idle now) st = Some (evict_check idle now st)"
| "op_step g (OpBarrier k) st = (if op_at st k = Some OBegin then Some (op_barrier k st) else None)"
| "op_step g (DrainWake k) st = (if op_at st k = Some ODrain then Some (drain_check k st) else None)"
| "op_step g (DrainTimeout k) st = (if op_at st k = Some ODrain then Some (drain_timeout k st) else None)"
| "op_step g (DriverSettled k) st =
     (case op_at st k of
        Some (OAwait n) \<Rightarrow> if n \<noteq> None \<and> driver_number st = n then None else Some (set_op k OLock st)
      | _ \<Rightarrow> None)"
| "op_step g (AwaitTimeout k) st =
     (case op_at st k of
        Some (OAwait n) \<Rightarrow>
          if n \<noteq> None \<and> driver_number st = n
          then Some (if op_kind (rz_ops st ! k) = OpShutdown then set_op k OLock (cancel_driver st)
                     else set_op k OFail (cancel_driver st))
          else None
      | _ \<Rightarrow> None)"
| "op_step g (OpFailed k) st =
     (case op_at st k of
        Some (OAwait n) \<Rightarrow> if n \<noteq> None \<and> driver_number st = n then None else Some (op_failed k st)
      | Some OLock \<Rightarrow> Some (op_failed k st)
      | _ \<Rightarrow> None)"
| "op_step g (OpLocked k) st =
     (if op_at st k = Some OLock \<and> rz_lock st = None
      then Some (set_op k OHold (st\<lparr>rz_lock := Some (ByOp k),
             rz_state := (if op_kind (rz_ops st ! k) \<in> {OpUnload, OpMaintenance, OpAbort} then RUnloading else rz_state st)\<rparr>))
      else None)"
| "op_step g (OpVerifying k) st =
     (if op_at st k = Some OHold \<and> op_kind (rz_ops st ! k) \<noteq> OpShutdown then Some (st\<lparr>rz_state := RVerifyingEmpty\<rparr>) else None)"
| "op_step g (OpUnlocked k ok matches) st =
     (if op_at st k = Some OHold
      then Some (if ok then set_op k (OEnd matches) (drop_lock (ByOp k) st) else op_failed k (drop_lock (ByOp k) st))
      else None)"
| "op_step g (OpPublish k now) st =
     (case op_at st k of
        Some (OEnd matches) \<Rightarrow> Some (set_op k ODone (op_publish k matches now st))
      | Some OFail \<Rightarrow> Some (set_op k ODone (fail_closed st))
      | _ \<Rightarrow> None)"
| "op_step g (OpCancelled k) st =
     (case op_at st k of
        None \<Rightarrow> None
      | Some ODone \<Rightarrow> None
      | Some pc \<Rightarrow> Some (set_op k ODone (drop_lock (ByOp k) st)))"
| "op_step g (AuditFailed error) st = audit_failed error st"
| "op_step g (HintChanged payload) st = Some (st\<lparr>rz_omlx_hint := Option.bind payload omlx_hint\<rparr>)"
| "op_step g ev st = None"

definition resid_step :: "resid_config \<Rightarrow> resid_event \<Rightarrow> resid \<Rightarrow> resid option" where
  "resid_step g ev st =
     (case call_step g ev st of
        Some st' \<Rightarrow> Some st'
      | None \<Rightarrow> (case driver_step g ev st of Some st' \<Rightarrow> Some st' | None \<Rightarrow> op_step g ev st))"

section \<open>Lemmas on the sections\<close>

text \<open>A call's claim on the epoch \<open>e\<close>: a granted permit or a lease.\<close>

definition claims :: "int \<Rightarrow> call \<Rightarrow> bool" where
  "claims e c = (cq_phase c = CGranted e \<or> cq_phase c = CLeased e)"

definition live :: "resid \<Rightarrow> int" where
  "live st = count_if (claims (rz_epoch st)) (rz_calls st)"

lemma live_ge_0 [simp]: "0 \<le> live st"
  by (simp add: live_def)

lemma length_set_phase [simp]: "length (set_phase p cs i) = length cs"
  by (simp add: set_phase_def)

lemma set_phase_nth: "i < length cs \<Longrightarrow> set_phase p cs i ! j = (if j = i then (cs ! i)\<lparr>cq_phase := p\<rparr> else cs ! j)"
  by (simp add: set_phase_def nth_list_update)

lemma set_phase_target [simp]: "cq_target (set_phase p cs i ! j) = cq_target (cs ! j)"
  by (cases "i < length cs") (simp_all add: set_phase_def nth_list_update list_update_beyond linorder_not_less)

lemma set_phase_count:
  "i < length cs \<Longrightarrow> count_if (claims e) (set_phase p cs i)
     = count_if (claims e) cs - (if claims e (cs ! i) then 1 else 0) + (if p = CGranted e \<or> p = CLeased e then 1 else 0)"
  by (simp add: set_phase_def count_if_update claims_def)

lemma set_phase_all:
  "i < length cs \<Longrightarrow> (\<forall>c \<in> set cs. P c) \<Longrightarrow> P ((cs ! i)\<lparr>cq_phase := p\<rparr>) \<Longrightarrow> \<forall>c \<in> set (set_phase p cs i). P c"
  using set_update_subset_insert [of cs i "(cs ! i)\<lparr>cq_phase := p\<rparr>"] by (auto simp: set_phase_def)

text \<open>Failing pending futures changes no claim.\<close>

definition failed_calls :: "nat list \<Rightarrow> call list \<Rightarrow> call list" where
  "failed_calls is cs = fold (\<lambda>i cs. if cq_phase (cs ! i) = CQueued then set_phase CFailed cs i else cs) is cs"

lemma failed_calls_simps [simp]:
  "failed_calls [] cs = cs"
  "failed_calls (i # is) cs = failed_calls is (if cq_phase (cs ! i) = CQueued then set_phase CFailed cs i else cs)"
  by (simp_all add: failed_calls_def)

lemma failed_calls_length [simp]: "length (failed_calls is cs) = length cs"
  by (induction "is" arbitrary: cs) simp_all

lemma failed_calls_nth:
  "set is \<subseteq> {..<length cs} \<Longrightarrow> j < length cs \<Longrightarrow> failed_calls is cs ! j
     = (if j \<in> set is \<and> cq_phase (cs ! j) = CQueued then (cs ! j)\<lparr>cq_phase := CFailed\<rparr> else cs ! j)"
proof (induction "is" arbitrary: cs)
  case (Cons i "is")
  then show ?case by (auto simp: set_phase_nth)
qed simp

lemma failed_calls_claims:
  assumes "set is \<subseteq> {..<length cs}"
  shows "count_if (claims e) (failed_calls is cs) = count_if (claims e) cs"
  using assms
proof (induction "is" arbitrary: cs)
  case (Cons i "is")
  have "\<not> claims e (cs ! i)" if "cq_phase (cs ! i) = CQueued" using that by (simp add: claims_def)
  then show ?case using Cons by (simp add: set_phase_count)
qed simp

lemma failed_calls_all:
  assumes "set is \<subseteq> {..<length cs}" and "\<forall>c \<in> set cs. P c" and "\<And>c. P c \<Longrightarrow> P (c\<lparr>cq_phase := CFailed\<rparr>)"
  shows "\<forall>c \<in> set (failed_calls is cs). P c"
  using assms(1,2)
proof (induction "is" arbitrary: cs)
  case (Cons i "is")
  have sub: "set is \<subseteq> {..<length cs}" "i < length cs" using Cons.prems(1) by simp_all
  have P: "P ((cs ! i)\<lparr>cq_phase := CFailed\<rparr>)" using Cons.prems(2) sub(2) by (intro assms(3)) simp
  have "\<forall>c \<in> set (failed_calls is (set_phase CFailed cs i)). P c"
    by (rule Cons.IH [OF _ set_phase_all [OF sub(2) Cons.prems(2) P]]) (simp add: sub(1))
  moreover have "\<forall>c \<in> set (failed_calls is cs). P c" by (rule Cons.IH [OF sub(1) Cons.prems(2)])
  ultimately show ?case by (cases "cq_phase (cs ! i) = CQueued") (simp_all only: failed_calls_simps if_True if_False simp_thms)
qed simp

lemma fail_calls_eq: "fail_calls is st = st\<lparr>rz_calls := failed_calls is (rz_calls st)\<rparr>"
  by (simp add: fail_calls_def failed_calls_def)

text \<open>The grant loop takes a prefix of the queue and grants at most what is free.\<close>

lemma grant_loop_spec:
  assumes "resid_grant_loop identity e avail q cs = (q', cs', n)" and "set q \<subseteq> {..<length cs}" and "distinct q"
  shows "\<exists>p. q = p @ q' \<and> length cs' = length cs \<and> int n \<le> max 0 avail
    \<and> count_if (claims e) cs' = count_if (claims e) cs + int n
    \<and> (\<forall>j < length cs. cs' ! j = cs ! j \<or> (j \<in> set p \<and> cq_phase (cs ! j) = CQueued
         \<and> effective_load_identity (cq_target (cs ! j)) = identity \<and> cs' ! j = (cs ! j)\<lparr>cq_phase := CGranted e\<rparr>))
    \<and> (\<forall>i \<in> set p. cq_phase (cs ! i) = CQueued \<longrightarrow> cq_phase (cs' ! i) = CGranted e)"
  using assms
proof (induction identity e avail q cs arbitrary: q' cs' n rule: resid_grant_loop.induct)
  case (1 identity e avail cs)
  then show ?case by simp
next
  case (2 identity e avail i q cs)
  let ?id = "effective_load_identity (cq_target (cs ! i))"
  consider (stop) "avail \<le> 0 \<or> ?id \<noteq> identity" | (skip) "0 < avail" "?id = identity" "cq_phase (cs ! i) \<noteq> CQueued"
    | (grant) "0 < avail" "?id = identity" "cq_phase (cs ! i) = CQueued" by linarith
  then show ?case
  proof cases
    case stop
    then show ?thesis using "2.prems" by auto
  next
    case skip
    then have "resid_grant_loop identity e avail q cs = (q', cs', n)" using "2.prems"(1) by simp
    with skip "2.prems" "2.IH"(1) obtain p where "q = p @ q'" "length cs' = length cs" "int n \<le> max 0 avail"
      "count_if (claims e) cs' = count_if (claims e) cs + int n"
      "\<forall>j < length cs. cs' ! j = cs ! j \<or> (j \<in> set p \<and> cq_phase (cs ! j) = CQueued
         \<and> effective_load_identity (cq_target (cs ! j)) = identity \<and> cs' ! j = (cs ! j)\<lparr>cq_phase := CGranted e\<rparr>)"
      "\<forall>i \<in> set p. cq_phase (cs ! i) = CQueued \<longrightarrow> cq_phase (cs' ! i) = CGranted e" by auto
    then show ?thesis using skip by (intro exI [of _ "i # p"]) auto
  next
    case grant
    obtain m where m: "resid_grant_loop identity e (avail - 1) q (set_phase (CGranted e) cs i) = (q', cs', m)" "n = Suc m"
      using grant "2.prems"(1) by (auto split: prod.splits)
    have i: "i < length cs" "i \<notin> set q" using "2.prems" by auto
    from m grant "2.prems" "2.IH"(2) obtain p where p: "q = p @ q'" "length cs' = length cs" "int m \<le> max 0 (avail - 1)"
      "count_if (claims e) cs' = count_if (claims e) (set_phase (CGranted e) cs i) + int m"
      "\<forall>j < length cs. cs' ! j = set_phase (CGranted e) cs i ! j \<or> (j \<in> set p \<and> cq_phase (set_phase (CGranted e) cs i ! j) = CQueued
         \<and> effective_load_identity (cq_target (cs ! j)) = identity
         \<and> cs' ! j = (set_phase (CGranted e) cs i ! j)\<lparr>cq_phase := CGranted e\<rparr>)"
      "\<forall>k \<in> set p. cq_phase (set_phase (CGranted e) cs i ! k) = CQueued \<longrightarrow> cq_phase (cs' ! k) = CGranted e" by auto
    have ci: "cs' ! i = (cs ! i)\<lparr>cq_phase := CGranted e\<rparr>" using p(1,5) i by (auto simp: set_phase_nth)
    have "cs' ! j = cs ! j \<or> (j \<in> set (i # p) \<and> cq_phase (cs ! j) = CQueued
         \<and> effective_load_identity (cq_target (cs ! j)) = identity \<and> cs' ! j = (cs ! j)\<lparr>cq_phase := CGranted e\<rparr>)"
      if "j < length cs" for j
      using p(1,5) i ci grant that by (cases "j = i") (auto simp: set_phase_nth)
    moreover have "cq_phase (cs' ! k) = CGranted e" if "k \<in> set (i # p)" "cq_phase (cs ! k) = CQueued" for k
      using p(6) i ci that by (cases "k = i") (auto simp: set_phase_nth)
    moreover have "int n \<le> max 0 avail" using p(3) m(2) grant(1) by simp
    moreover have "count_if (claims e) cs' = count_if (claims e) cs + int n"
      using p(4) m(2) i(1) grant(3) by (simp add: set_phase_count claims_def)
    ultimately show ?thesis using p(1,2) by (intro exI [of _ "i # p"]) auto
  qed
qed

section \<open>Invariants of queue, calls and count\<close>

text \<open>
  In every run: the queue names distinct calls and has every pending one, no claim is of a later epoch, and
  the count is at least the number of claims on the current epoch.
\<close>

definition calls_ok :: "nat list \<Rightarrow> call list \<Rightarrow> int \<Rightarrow> int \<Rightarrow> bool" where
  "calls_ok q cs e n =
     (distinct q \<and> set q \<subseteq> {..<length cs} \<and> (\<forall>i < length cs. cq_phase (cs ! i) = CQueued \<longrightarrow> i \<in> set q)
      \<and> count_if (claims e) cs \<le> n \<and> (\<forall>c \<in> set cs. \<forall>e'. claims e' c \<longrightarrow> e' \<le> e))"

text \<open>Where no barrier overlaps another: the count is exact, and every claim is on the resident model.\<close>

definition exact_ok :: "call list \<Rightarrow> int \<Rightarrow> int \<Rightarrow> mac_target option \<Rightarrow> bool" where
  "exact_ok cs e n r =
     (count_if (claims e) cs = n
      \<and> (\<forall>c \<in> set cs. \<forall>e'. claims e' c \<longrightarrow>
           e' = e \<and> (\<exists>t. r = Some t \<and> effective_load_identity t = effective_load_identity (cq_target c))))"

definition calls_inv :: "resid \<Rightarrow> bool" where
  "calls_inv st = calls_ok (rz_queue st) (rz_calls st) (rz_epoch st) (rz_inflight st)"

definition exact_inv :: "resid \<Rightarrow> bool" where
  "exact_inv st = exact_ok (rz_calls st) (rz_epoch st) (rz_inflight st) (rz_resident st)"

lemma claims_phase [simp]: "claims e (c\<lparr>cq_phase := p\<rparr>) \<longleftrightarrow> p = CGranted e \<or> p = CLeased e"
  by (simp add: claims_def)

lemma calls_okD:
  assumes "calls_ok q cs e n"
  shows "distinct q" and "set q \<subseteq> {..<length cs}" and "count_if (claims e) cs \<le> n" and "0 \<le> n"
  using assms order.trans [OF count_if_ge_0 [of "claims e" cs], of n] by (simp_all add: calls_ok_def)

lemma claim_epoch:
  "calls_ok q cs e n \<Longrightarrow> i < length cs \<Longrightarrow> claims e' (cs ! i) \<Longrightarrow> e' \<le> e"
  unfolding calls_ok_def by (blast dest: nth_mem)

lemma claim_exact:
  "exact_ok cs e n r \<Longrightarrow> i < length cs \<Longrightarrow> claims e' (cs ! i)
     \<Longrightarrow> e' = e \<and> (\<exists>t. r = Some t \<and> effective_load_identity t = effective_load_identity (cq_target (cs ! i)))"
  unfolding exact_ok_def by (blast dest: nth_mem)

lemma purge_ok: "calls_ok q cs e n \<Longrightarrow> calls_ok (filter (\<lambda>i. cq_phase (cs ! i) = CQueued) q) cs e n"
  by (auto simp: calls_ok_def)

lemma fail_ok:
  assumes "calls_ok (p @ q) cs e n"
  shows "calls_ok q (failed_calls p cs) e n"
proof -
  have p: "set p \<subseteq> {..<length cs}" using assms by (simp add: calls_ok_def)
  have "\<forall>c \<in> set (failed_calls p cs). \<forall>e'. claims e' c \<longrightarrow> e' \<le> e"
    by (rule failed_calls_all [OF p]) (use assms in \<open>auto simp: calls_ok_def\<close>)
  moreover have "i \<in> set q" if "i < length cs" "cq_phase (failed_calls p cs ! i) = CQueued" for i
    using that assms p by (auto simp: failed_calls_nth calls_ok_def split: if_splits)
  ultimately show ?thesis using assms p by (simp add: calls_ok_def failed_calls_claims)
qed

lemma fail_exact:
  assumes "set p \<subseteq> {..<length cs}" and "exact_ok cs e n r"
  shows "exact_ok (failed_calls p cs) e n r"
proof -
  have "\<forall>c \<in> set (failed_calls p cs). \<forall>e'. claims e' c \<longrightarrow>
      e' = e \<and> (\<exists>t. r = Some t \<and> effective_load_identity t = effective_load_identity (cq_target c))"
    by (rule failed_calls_all [OF assms(1)]) (use assms(2) in \<open>auto simp: exact_ok_def\<close>)
  then show ?thesis using assms by (simp add: exact_ok_def failed_calls_claims)
qed

lemma append_ok:
  "calls_ok q cs e n \<Longrightarrow> p = CQueued \<Longrightarrow> calls_ok (q @ [length cs]) (cs @ [\<lparr>cq_target = t, cq_phase = p\<rparr>]) e n"
  by (auto simp: calls_ok_def claims_def nth_append less_Suc_eq)

lemma append_leased_ok:
  "calls_ok q cs e n \<Longrightarrow> calls_ok q (cs @ [\<lparr>cq_target = t, cq_phase = CLeased e\<rparr>]) e (n + 1)"
  by (auto simp: calls_ok_def claims_def nth_append less_Suc_eq)

lemma append_exact:
  "exact_ok cs e n r \<Longrightarrow> exact_ok (cs @ [\<lparr>cq_target = t, cq_phase = CQueued\<rparr>]) e n r"
  "exact_ok cs e n (Some r') \<Longrightarrow> effective_load_identity r' = effective_load_identity t
     \<Longrightarrow> exact_ok (cs @ [\<lparr>cq_target = t, cq_phase = CLeased e\<rparr>]) e (n + 1) (Some r')"
  by (auto simp: exact_ok_def claims_def)

lemma phase_ok:
  assumes "calls_ok q cs e n" and "i < length cs" and "p \<noteq> CQueued"
    and "\<And>e'. p = CGranted e' \<or> p = CLeased e' \<Longrightarrow> claims e' (cs ! i)"
  shows "calls_ok q (set_phase p cs i) e n"
proof -
  have "\<forall>c \<in> set (set_phase p cs i). \<forall>e'. claims e' c \<longrightarrow> e' \<le> e"
    by (rule set_phase_all [OF assms(2)])
      (use assms(1,4) claim_epoch [OF assms(1,2)] in \<open>auto simp: calls_ok_def\<close>)
  moreover have "count_if (claims e) (set_phase p cs i) \<le> n"
    using assms(1,4) set_phase_count [OF assms(2), of e p] by (auto simp: calls_ok_def split: if_splits)
  ultimately show ?thesis using assms(1-3) by (auto simp: calls_ok_def set_phase_nth split: if_splits)
qed

lemma collect_exact:
  assumes "exact_ok cs e n r" and "i < length cs" and "\<And>e'. p = CGranted e' \<or> p = CLeased e' \<longleftrightarrow> claims e' (cs ! i)"
  shows "exact_ok (set_phase p cs i) e n r"
proof -
  have "\<forall>c \<in> set (set_phase p cs i). \<forall>e'. claims e' c \<longrightarrow>
      e' = e \<and> (\<exists>t. r = Some t \<and> effective_load_identity t = effective_load_identity (cq_target c))"
    by (rule set_phase_all [OF assms(2)])
      (use assms(1,3) claim_exact [OF assms(1,2)] in \<open>auto simp: exact_ok_def\<close>)
  then show ?thesis using assms set_phase_count [OF assms(2), of e p] by (simp add: exact_ok_def)
qed

text \<open>A claim that ends: its call is over, and the count goes down if its epoch is the current one.\<close>

lemma end_claim_ok:
  assumes "calls_ok q cs e n" and "i < length cs" and "claims e' (cs ! i)"
  shows "calls_ok q (set_phase CDone cs i) e (if e' \<noteq> e \<or> n \<le> 0 then n else n - 1)"
proof -
  have "calls_ok q (set_phase CDone cs i) e n" by (rule phase_ok [OF assms(1,2)]) simp_all
  moreover have "count_if (claims e) (set_phase CDone cs i) \<le> n - 1" if "e' = e"
    using assms set_phase_count [OF assms(2), of e CDone] that by (simp add: calls_ok_def)
  ultimately show ?thesis by (auto simp: calls_ok_def)
qed

lemma end_claim_exact:
  assumes "exact_ok cs e n r" and "i < length cs" and "claims e' (cs ! i)"
  shows "exact_ok (set_phase CDone cs i) e (if e' \<noteq> e \<or> n \<le> 0 then n else n - 1) r"
proof -
  have e: "e' = e" using claim_exact [OF assms] by simp
  have "\<forall>c \<in> set (set_phase CDone cs i). \<forall>e'. claims e' c \<longrightarrow>
      e' = e \<and> (\<exists>t. r = Some t \<and> effective_load_identity t = effective_load_identity (cq_target c))"
    by (rule set_phase_all [OF assms(2)]) (use assms in \<open>auto simp: exact_ok_def\<close>)
  moreover have "1 \<le> n" using count_if_pos_nth [OF assms(2), of "claims e"] assms(1,3) e by (simp add: exact_ok_def)
  ultimately show ?thesis using assms set_phase_count [OF assms(2), of e CDone] e by (simp add: exact_ok_def)
qed

lemma grant_ok:
  assumes "calls_ok q cs e n" and "resid_grant_loop identity e avail q cs = (q', cs', m)"
  shows "calls_ok q' cs' e (n + int m)"
    and "exact_ok cs e n (Some t) \<Longrightarrow> effective_load_identity t = identity \<Longrightarrow> exact_ok cs' e (n + int m) (Some t)"
proof -
  from grant_loop_spec [OF assms(2)] calls_okD [OF assms(1)] obtain p where p: "q = p @ q'" "length cs' = length cs"
    "count_if (claims e) cs' = count_if (claims e) cs + int m"
    and nth: "\<And>j. j < length cs \<Longrightarrow> cs' ! j = cs ! j \<or> (j \<in> set p \<and> cq_phase (cs ! j) = CQueued
         \<and> effective_load_identity (cq_target (cs ! j)) = identity \<and> cs' ! j = (cs ! j)\<lparr>cq_phase := CGranted e\<rparr>)"
    and granted: "\<And>i. i \<in> set p \<Longrightarrow> cq_phase (cs ! i) = CQueued \<Longrightarrow> cq_phase (cs' ! i) = CGranted e" by blast
  have claim: "claims e' (cs ! j) \<or> (e' = e \<and> effective_load_identity (cq_target (cs ! j)) = identity)"
    if "j < length cs" "claims e' (cs' ! j)" for e' j
    using nth [OF that(1)] that(2) by (auto simp: claims_def)
  have tgt: "cq_target (cs' ! j) = cq_target (cs ! j)" if "j < length cs" for j using nth [OF that] by auto
  have "i \<in> set q'" if "i < length cs" "cq_phase (cs' ! i) = CQueued" for i
  proof -
    have "cq_phase (cs ! i) = CQueued" using nth [OF that(1)] that(2) by auto
    then have "i \<in> set q" using assms(1) that(1) by (simp add: calls_ok_def)
    then show ?thesis using granted [of i] that(2) p(1) \<open>cq_phase (cs ! i) = CQueued\<close> by auto
  qed
  moreover have "e' \<le> e" if "c \<in> set cs'" "claims e' c" for c e'
  proof -
    from that(1) obtain j where "j < length cs'" "c = cs' ! j" unfolding in_set_conv_nth by blast
    then have j: "j < length cs" "c = cs' ! j" using p(2) by simp_all
    have "claims e' (cs ! j) \<or> e' = e" using claim [OF j(1) that(2) [unfolded j(2)]] by blast
    then show ?thesis by (rule disjE) (simp_all add: claim_epoch [OF assms(1) j(1)])
  qed
  ultimately show "calls_ok q' cs' e (n + int m)" using assms(1) p by (auto simp: calls_ok_def)
  assume ex: "exact_ok cs e n (Some t)" and t: "effective_load_identity t = identity"
  have "e' = e \<and> effective_load_identity t = effective_load_identity (cq_target c)" if "c \<in> set cs'" "claims e' c" for c e'
  proof -
    from that(1) obtain j where "j < length cs'" "c = cs' ! j" unfolding in_set_conv_nth by blast
    then have j: "j < length cs" "c = cs' ! j" using p(2) by simp_all
    have "claims e' (cs ! j) \<or> (e' = e \<and> effective_load_identity (cq_target (cs ! j)) = identity)"
      by (rule claim [OF j(1) that(2) [unfolded j(2)]])
    moreover have "claims e' (cs ! j) \<Longrightarrow> e' = e \<and> effective_load_identity t = effective_load_identity (cq_target (cs ! j))"
      using claim_exact [OF ex j(1)] by auto
    ultimately show ?thesis using t unfolding j(2) tgt [OF j(1)] by blast
  qed
  moreover have "count_if (claims e) cs' = n + int m" using ex p(3) by (simp add: exact_ok_def)
  ultimately show "exact_ok cs' e (n + int m) (Some t)" unfolding exact_ok_def by blast
qed

text \<open>What the bookkeeping of tasks and operations leaves alone.\<close>

lemma task_frames [simp]:
  "rz_queue (set_op k pc st) = rz_queue st" "rz_calls (set_op k pc st) = rz_calls st"
  "rz_epoch (set_op k pc st) = rz_epoch st" "rz_inflight (set_op k pc st) = rz_inflight st"
  "rz_resident (set_op k pc st) = rz_resident st" "rz_accepting (set_op k pc st) = rz_accepting st"
  "rz_queue (set_driver d st) = rz_queue st" "rz_calls (set_driver d st) = rz_calls st"
  "rz_epoch (set_driver d st) = rz_epoch st" "rz_inflight (set_driver d st) = rz_inflight st"
  "rz_resident (set_driver d st) = rz_resident st" "rz_accepting (set_driver d st) = rz_accepting st"
  "rz_queue (drop_lock h st) = rz_queue st" "rz_calls (drop_lock h st) = rz_calls st"
  "rz_epoch (drop_lock h st) = rz_epoch st" "rz_inflight (drop_lock h st) = rz_inflight st"
  "rz_resident (drop_lock h st) = rz_resident st" "rz_accepting (drop_lock h st) = rz_accepting st"
  "rz_queue (ensure_driver st) = rz_queue st" "rz_calls (ensure_driver st) = rz_calls st"
  "rz_epoch (ensure_driver st) = rz_epoch st" "rz_inflight (ensure_driver st) = rz_inflight st"
  "rz_resident (ensure_driver st) = rz_resident st" "rz_accepting (ensure_driver st) = rz_accepting st"
  "rz_queue (cancel_driver st) = rz_queue st" "rz_calls (cancel_driver st) = rz_calls st"
  "rz_epoch (cancel_driver st) = rz_epoch st" "rz_inflight (cancel_driver st) = rz_inflight st"
  "rz_resident (cancel_driver st) = rz_resident st" "rz_accepting (cancel_driver st) = rz_accepting st"
  "rz_queue (drain_check k st) = rz_queue st" "rz_calls (drain_check k st) = rz_calls st"
  "rz_epoch (drain_check k st) = rz_epoch st" "rz_inflight (drain_check k st) = rz_inflight st"
  "rz_resident (drain_check k st) = rz_resident st" "rz_accepting (drain_check k st) = rz_accepting st"
  by (simp_all add: set_op_def set_driver_def drop_lock_def ensure_driver_def cancel_driver_def drain_check_def)

lemma task_frames2 [simp]:
  "rz_ops (set_driver d st) = rz_ops st" "rz_ops (cancel_driver st) = rz_ops st" "rz_ops (ensure_driver st) = rz_ops st"
  "rz_ops (drop_lock h st) = rz_ops st" "rz_driver (set_op k pc st) = rz_driver st" "rz_driver (drop_lock h st) = rz_driver st"
  "rz_driver (drain_check k st) = rz_driver st" "rz_lock (set_op k pc st) = rz_lock st" "rz_lock (set_driver d st) = rz_lock st"
  "rz_lock (ensure_driver st) = rz_lock st" "rz_lock (cancel_driver st) = rz_lock st" "rz_lock (drain_check k st) = rz_lock st"
  "rz_transition_target (set_op k pc st) = rz_transition_target st"
  "rz_transition_target (set_driver d st) = rz_transition_target st"
  "rz_transition_target (drop_lock h st) = rz_transition_target st"
  "rz_transition_target (ensure_driver st) = rz_transition_target st"
  "rz_transition_target (cancel_driver st) = rz_transition_target st"
  "rz_transition_target (drain_check k st) = rz_transition_target st"
  by (simp_all add: set_op_def set_driver_def drop_lock_def ensure_driver_def cancel_driver_def drain_check_def)

definition same_calls :: "resid \<Rightarrow> resid \<Rightarrow> bool" where
  "same_calls st st' =
     (rz_queue st' = rz_queue st \<and> rz_calls st' = rz_calls st \<and> rz_epoch st' = rz_epoch st \<and> rz_inflight st' = rz_inflight st)"

lemma same_calls_inv: "calls_inv st \<Longrightarrow> same_calls st st' \<Longrightarrow> calls_inv st'"
  by (simp add: calls_inv_def same_calls_def)

lemma purge_eq: "purge_cancelled st = st\<lparr>rz_queue := filter (\<lambda>i. cq_phase (rz_calls st ! i) = CQueued) (rz_queue st)\<rparr>"
  by (simp add: purge_cancelled_def phase_of_def)

lemma purge_inv: "calls_inv st \<Longrightarrow> calls_inv (purge_cancelled st)"
  by (simp add: calls_inv_def purge_eq purge_ok)

lemma fail_all_eq: "fail_all st = st\<lparr>rz_calls := failed_calls (rz_queue st) (rz_calls st), rz_queue := []\<rparr>"
  by (simp add: fail_all_def fail_calls_eq)

lemma fail_all_inv: "calls_inv st \<Longrightarrow> calls_inv (fail_all st)"
  using fail_ok [of "rz_queue st" "[]"] by (simp add: calls_inv_def fail_all_eq)

lemma fail_head_inv: "calls_inv st \<Longrightarrow> calls_inv (fail_head_group identity st)"
  using fail_ok [of "takeWhile (\<lambda>i. ident_of st i = identity) (rz_queue st)" "dropWhile (\<lambda>i. ident_of st i = identity) (rz_queue st)"]
  by (simp add: calls_inv_def fail_head_group_def fail_calls_eq)

lemma end_claim_inv:
  assumes "calls_inv st" and "i < length (rz_calls st)" and "claims e (rz_calls st ! i)"
  shows "calls_inv (resid_release_locked e now (st\<lparr>rz_calls := set_phase CDone (rz_calls st) i\<rparr>))"
  using end_claim_ok [of "rz_queue st" "rz_calls st" "rz_epoch st" "rz_inflight st" i e] assms
  by (cases "e \<noteq> rz_epoch st \<or> rz_inflight st \<le> 0") (simp_all add: calls_inv_def resid_release_locked_def)

lemma mac_grant_head_inv:
  assumes "calls_inv st" and "grant_head_group g r identity st = (st', n)"
  shows "calls_inv st'"
  using assms grant_ok(1) by (fastforce simp: calls_inv_def grant_head_group_def split: prod.splits)

lemma mac_drive_top_inv: "calls_inv st \<Longrightarrow> calls_inv (resid_drive_top g st)"
proof -
  assume "calls_inv st"
  then have p: "calls_inv (purge_cancelled st)" by (rule purge_inv)
  define s where "s = purge_cancelled st"
  have f: "calls_inv (fail_all s)" using p by (simp add: s_def fail_all_inv)
  have t: "calls_inv (s\<lparr>rz_transition_target := x\<rparr>)" for x using p by (simp add: s_def calls_inv_def)
  show ?thesis
    unfolding resid_drive_top_def Let_def s_def [symmetric]
    using f p [folded s_def] mac_grant_head_inv [OF t]
    by (auto simp: calls_inv_def split: list.splits prod.splits option.splits)
qed

lemma mac_acquire_inv: "calls_inv st \<Longrightarrow> calls_inv (snd (resid_acquire_enter g t st))"
proof -
  assume "calls_inv st"
  then have p: "calls_inv (purge_cancelled st)" by (rule purge_inv)
  define s where "s = purge_cancelled st"
  show ?thesis using \<open>calls_inv st\<close> p append_ok append_leased_ok
    unfolding resid_acquire_enter_def Let_def s_def [symmetric] p [folded s_def]
    by (auto simp: calls_inv_def s_def [symmetric] split: option.splits)
qed

lemma call_step_inv:
  assumes "calls_inv st" and "call_step g ev st = Some st'"
  shows "calls_inv st'"
proof (cases ev)
  case (Acquire t)
  then show ?thesis using assms mac_acquire_inv by auto
next
  case (Collect i)
  have "calls_inv (st\<lparr>rz_calls := set_phase p (rz_calls st) i\<rparr>)"
    if "i < length (rz_calls st)" "p \<noteq> CQueued" "\<And>e'. p = CGranted e' \<or> p = CLeased e' \<Longrightarrow> claims e' (rz_calls st ! i)" for p
    using phase_ok [OF _ that] assms(1) by (simp add: calls_inv_def)
  then show ?thesis using assms(2) Collect
    by (auto simp: call_at_def phase_of_def claims_def split: call_phase.splits option.splits if_splits)
next
  case (CancelWaiter i now)
  have over: "calls_inv (st\<lparr>rz_calls := set_phase CDone (rz_calls st) i\<rparr>)" if "i < length (rz_calls st)"
    using phase_ok [OF _ that, of _ _ _ CDone] assms(1) by (simp add: calls_inv_def)
  show ?thesis using assms CancelWaiter over end_claim_inv [OF assms(1)]
    by (auto simp: call_at_def phase_of_def claims_def resid_cancel_waiter_def Let_def split: call_phase.splits option.splits if_splits)
next
  case (Release i now)
  then obtain e where e: "i < length (rz_calls st)" "phase_of st i = CLeased e" "st' = release_lease i e now st"
    using assms(2) by (auto simp: call_at_def split: call_phase.splits option.splits if_splits)
  have "calls_inv (resid_release_locked e now (st\<lparr>rz_calls := set_phase CDone (rz_calls st) i\<rparr>))"
    by (rule end_claim_inv [OF assms(1) e(1)]) (use e(2) in \<open>simp add: claims_def phase_of_def\<close>)
  then show ?thesis using e(3) by (auto simp: release_lease_def Let_def calls_inv_def)
next
  case (AbortLease i now)
  then obtain e where e: "i < length (rz_calls st)" "phase_of st i = CLeased e" "st' = abort_start i e now st"
    using assms(2) by (auto simp: call_at_def split: call_phase.splits option.splits if_splits)
  let ?st1 = "st\<lparr>rz_calls := set_phase CDone (rz_calls st) i\<rparr>"
  have d: "calls_inv ?st1" using phase_ok [OF _ e(1), of _ _ _ CDone] assms(1) by (simp add: calls_inv_def)
  have r: "calls_inv (resid_release_locked e now ?st1)"
    by (rule end_claim_inv [OF assms(1) e(1)]) (use e(2) in \<open>simp add: claims_def phase_of_def\<close>)
  from fail_all_inv [OF this] show ?thesis using e(3) d
    by (auto simp: abort_start_def Let_def calls_inv_def fail_all_eq resid_release_locked_def split: if_splits)
qed (use assms in simp_all)

lemma driver_step_inv:
  assumes "calls_inv st" and "driver_step g ev st = Some st'"
  shows "calls_inv st'"
proof (cases ev)
  case DriverTurn
  then show ?thesis using assms mac_drive_top_inv by (auto split: option.splits resid_driver_pc.splits)
next
  case (DriverCleaned clean)
  have "calls_inv (set_driver DTop (publish_failed t clean st))" for t
    using fail_head_inv [of "(if clean then st\<lparr>rz_resident := None, rz_state := RDegraded\<rparr>
      else st\<lparr>rz_resident := None, rz_state := RDegraded, rz_initialized := False, rz_accepting := False\<rparr>)\<lparr>rz_transition_target := None\<rparr>"]
      assms(1) by (auto simp: calls_inv_def publish_failed_def Let_def split: if_splits)
  then show ?thesis using assms(2) DriverCleaned by (auto split: option.splits resid_driver_pc.splits)
next
  case DriverPublish
  have none: "count_if (claims (rz_epoch st + 1)) (rz_calls st) = 0"
  proof -
    have "\<not> claims (rz_epoch st + 1) c" if "c \<in> set (rz_calls st)" for c
      using assms(1) that unfolding calls_inv_def calls_ok_def by fastforce
    then show ?thesis by (simp add: count_if_0_iff)
  qed
  have "calls_ok (rz_queue st) (rz_calls st) (rz_epoch st + 1) (rz_inflight st)"
    using assms(1) none calls_okD(4) [of "rz_queue st" "rz_calls st" "rz_epoch st" "rz_inflight st"]
    unfolding calls_inv_def calls_ok_def by force
  then show ?thesis using assms(2) DriverPublish
    by (auto simp: calls_inv_def publish_loaded_def Let_def split: option.splits resid_driver_pc.splits)
qed (use assms in \<open>auto simp: calls_inv_def resid_drive_finally_def Let_def split: option.splits resid_driver_pc.splits if_splits\<close>)

lemma op_step_inv:
  assumes "calls_inv st" and "op_step g ev st = Some st'"
  shows "calls_inv st'"
proof -
  have f: "calls_inv (fail_all s)" if "same_calls st s" for s using fail_all_inv same_calls_inv [OF assms(1) that] by blast
  have b: "calls_inv (op_barrier k s)" if "same_calls st s" for k s
    using f [of "s\<lparr>rz_accepting := False\<rparr>"] f [of "s\<lparr>rz_stopping := True, rz_accepting := False, rz_state := RStopping\<rparr>"]
      same_calls_inv [OF assms(1) that] that
    by (cases "op_kind (rz_ops s ! k)") (auto simp: op_barrier_def calls_inv_def same_calls_def)
  show ?thesis
  proof (cases ev)
    case (OpStart kind)
    have "st' = op_start kind st" using assms(2) OpStart by (simp split: if_splits)
    moreover have "calls_inv (op_start kind st)" unfolding op_start_def by (rule b) (simp add: same_calls_def)
    ultimately show ?thesis by simp
  next
    case (OpBarrier k)
    have "calls_inv (op_barrier k st)" by (rule b) (simp add: same_calls_def)
    then show ?thesis using assms(2) OpBarrier by (simp split: if_splits)
  next
    case (AuditFailed error)
    have "calls_inv (fail_all (fail_closed st))" by (rule f) (simp add: same_calls_def fail_closed_def)
    then show ?thesis using assms(2) AuditFailed by (simp split: if_splits)
  qed (use assms in \<open>auto simp: calls_inv_def drain_timeout_def op_failed_def op_publish_def fail_closed_def Let_def
        split: option.splits op_pc.splits op_kind.splits if_splits\<close>)
qed

lemma resid_step_cases:
  assumes "resid_step g ev st = Some st'"
  shows "call_step g ev st = Some st' \<or> driver_step g ev st = Some st' \<or> op_step g ev st = Some st'"
  using assms by (auto simp: resid_step_def split: option.splits)

lemma resid_step_inv: "calls_inv st \<Longrightarrow> resid_step g ev st = Some st' \<Longrightarrow> calls_inv st'"
  using resid_step_cases call_step_inv driver_step_inv op_step_inv by blast

lemma resid_start_inv: "calls_inv resid_start"
  by (simp add: calls_inv_def resid_start_def calls_ok_def)

interpretation rc_calls: inductive_invariant "\<lambda>st. st = resid_start" "resid_step g" calls_inv
  by unfold_locales (auto simp: resid_start_inv intro: resid_step_inv)

end
