(* ===== verification/Mac_Residency_Safety.thy ===== *)
theory Mac_Residency_Safety
  imports Mac_Residency
begin

text \<open>
  Safety of the macOS residency coordinator: the operation lock is exclusive in every run; and in the runs
  whose lifecycle operations do not overlap, no engine work happens under a live claim.
\<close>

section \<open>The operation lock\<close>

definition holds :: "resid \<Rightarrow> lock_holder \<Rightarrow> bool" where
  "holds st h = (case h of ByDriver \<Rightarrow> (\<exists>t. driver_at st = Some (DHolding t)) | ByOp k \<Rightarrow> op_at st k = Some OHold)"

definition lock_inv :: "resid \<Rightarrow> bool" where
  "lock_inv st = (\<forall>h. (rz_lock st = Some h) = holds st h)"

lemma op_at_set [simp]: "op_at (set_op k pc st) j = (if j = k \<and> op_at st k \<noteq> None then Some pc else op_at st j)"
  by (auto simp: op_at_def set_op_def nth_list_update)

lemma driver_at_set [simp]: "driver_at (set_driver pc st) = map_option (\<lambda>_. pc) (driver_at st)"
  by (cases "rz_driver st") (simp_all add: driver_at_def set_driver_def)

lemma driver_at_frames [simp]:
  "driver_at (set_op k pc st) = driver_at st" "driver_at (drop_lock h st) = driver_at st"
  "driver_at (drain_check k st) = driver_at st" "driver_at (cancel_driver st) = driver_at st"
  by (simp_all add: driver_at_def cancel_driver_def option.map_comp comp_def)

lemma op_at_frames [simp]:
  "op_at (set_driver pc st) k = op_at st k" "op_at (drop_lock h st) k = op_at st k" "op_at (ensure_driver st) k = op_at st k"
  "op_at (cancel_driver st) k = op_at st k"
  by (simp_all add: op_at_def)

lemma op_at_drain [simp]:
  "op_at (drain_check k st) j = (if j = k \<and> op_at st k \<noteq> None
     then Some (if 0 < rz_inflight st then ODrain else OAwait (driver_number st)) else op_at st j)"
  by (auto simp: drain_check_def op_at_def set_op_def nth_list_update)

text \<open>The fields that the lock depends on.\<close>

lemma lock_inv_frame:
  assumes "lock_inv st" and "rz_lock st' = rz_lock st" and "\<And>h. holds st' h = holds st h"
  shows "lock_inv st'"
  using assms by (simp add: lock_inv_def)

lemma lock_free: "lock_inv st \<Longrightarrow> rz_lock st = None \<Longrightarrow> \<not> holds st h"
  by (simp add: lock_inv_def)

lemma lock_unique: "lock_inv st \<Longrightarrow> holds st h \<Longrightarrow> holds st h' \<Longrightarrow> h' = h"
  unfolding lock_inv_def by (metis option.inject)

text \<open>Taking the lock where it is free, and leaving it.\<close>

lemma lock_taken:
  assumes "lock_inv st" and "rz_lock st = None" and "rz_lock st' = Some h" and "\<And>h'. holds st' h' \<longleftrightarrow> h' = h \<or> holds st h'"
  shows "lock_inv st'"
  using assms lock_free [OF assms(1,2)] by (auto simp: lock_inv_def)

lemma lock_left:
  assumes "lock_inv st" and "rz_lock st' = rz_lock (drop_lock h st)" and "\<And>h'. holds st' h' \<longleftrightarrow> h' \<noteq> h \<and> holds st h'"
  shows "lock_inv st'"
proof (cases "holds st h")
  case True
  then have "rz_lock st' = None" using assms(1,2) by (simp add: lock_inv_def drop_lock_def)
  then show ?thesis using lock_unique [OF assms(1) True] assms(3) by (auto simp: lock_inv_def)
next
  case False
  then have "rz_lock st' = rz_lock st" "\<And>h'. holds st' h' = holds st h'"
    using assms by (auto simp: lock_inv_def drop_lock_def)
  then show ?thesis by (rule lock_inv_frame [OF assms(1)])
qed

lemma ensure_driver_holds [simp]: "holds (ensure_driver st) h = holds st h"
  by (cases h) (auto simp: holds_def ensure_driver_def driver_at_def op_at_def)

lemma holds_simps [simp]:
  "holds st ByDriver \<longleftrightarrow> (\<exists>t. driver_at st = Some (DHolding t))" "holds st (ByOp k) \<longleftrightarrow> op_at st k = Some OHold"
  by (simp_all add: holds_def)

lemma holds_cong: "driver_at st' = driver_at st \<Longrightarrow> (\<And>k. (op_at st' k = Some OHold) = (op_at st k = Some OHold)) \<Longrightarrow> holds st' h = holds st h"
  by (cases h) simp_all

lemma purge_frames [simp]:
  "rz_lock (purge_cancelled st) = rz_lock st" "driver_at (purge_cancelled st) = driver_at st" "op_at (purge_cancelled st) k = op_at st k"
  by (simp_all add: purge_eq driver_at_def op_at_def)

lemma call_step_lock:
  assumes "lock_inv st" and "call_step g ev st = Some st'"
  shows "lock_inv st'"
proof (rule lock_inv_frame [OF assms(1)])
  show "rz_lock st' = rz_lock st" using assms(2)
    by (cases ev) (auto simp: resid_acquire_enter_def resid_cancel_waiter_def release_lease_def abort_start_def resid_release_locked_def fail_all_eq Let_def
      split: option.splits call_phase.splits if_splits)
  have ens: "holds (ensure_driver s) h = holds s h" for s h by simp
  have upd: "holds (s\<lparr>rz_calls := x\<rparr>) h = holds s h" "holds (s\<lparr>rz_inflight := n\<rparr>) h = holds s h" for s h x n
    by (cases h; simp add: driver_at_def op_at_def)+
  have rel: "holds (resid_release_locked e now s) h = holds s h" for s h e now
    by (cases h) (simp_all add: resid_release_locked_def driver_at_def op_at_def)
  fix h
  show "holds st' h = holds st h"
  proof (cases ev)
    case (Acquire t)
    then have st': "st' = snd (resid_acquire_enter g t st)" using assms(2) by simp
    show ?thesis unfolding st' resid_acquire_enter_def Let_def
      by (cases h; auto simp: ensure_driver_def driver_at_def op_at_def purge_eq split: option.splits)
  next
    case (AbortLease i now)
    then obtain e where "st' = abort_start i e now st" using assms(2) by (auto split: option.splits call_phase.splits)
    then show ?thesis
      by (cases h) (auto simp: abort_start_def Let_def driver_at_def op_at_def nth_append resid_release_locked_def fail_all_eq drain_check_def
        set_op_def nth_list_update)
  qed (use assms(2) in \<open>auto simp: resid_cancel_waiter_def release_lease_def Let_def upd rel ens simp del: holds_simps
        split: option.splits call_phase.splits if_splits\<close>)
qed

lemma drive_top_lock:
  assumes "driver_at st = Some DTop \<or> driver_at st = Some DWait"
  shows "rz_lock (resid_drive_top g st) = rz_lock st" and "op_at (resid_drive_top g st) k = op_at st k"
    and "driver_at (resid_drive_top g st) \<noteq> Some (DHolding t)"
proof -
  define s where "s = purge_cancelled st"
  have s: "rz_lock s = rz_lock st" "op_at s k = op_at st k" by (simp_all add: s_def)
  have g: "rz_lock y = rz_lock x" "op_at y k = op_at x k" if "grant_head_group g r i x = (y, n)" for r i x y n
    using that by (auto simp: grant_head_group_def op_at_def split: prod.splits)
  have f: "rz_lock (fail_all x) = rz_lock x" "op_at (fail_all x) k = op_at x k" for x
    by (simp_all add: fail_all_eq op_at_def)
  show "rz_lock (resid_drive_top g st) = rz_lock st" unfolding resid_drive_top_def Let_def s_def [symmetric]
    by (auto simp: s f split: list.splits prod.splits option.splits dest: g(1))
  have u: "op_at (x\<lparr>rz_state := v\<rparr>) k = op_at x k" "op_at (x\<lparr>rz_transition_target := w\<rparr>) k = op_at x k" for x v w
    by (simp_all add: op_at_def)
  show "op_at (resid_drive_top g st) k = op_at st k" unfolding resid_drive_top_def Let_def s_def [symmetric]
    by (auto simp: u s f split: list.splits prod.splits option.splits dest: g(2))
  show "driver_at (resid_drive_top g st) \<noteq> Some (DHolding t)" unfolding resid_drive_top_def Let_def s_def [symmetric]
    by (auto split: list.splits prod.splits option.splits)
qed

lemma driver_step_lock:
  assumes "lock_inv st" and "driver_step g ev st = Some st'"
  shows "lock_inv st'"
proof (cases ev)
  case DriverTurn
  then have st': "st' = resid_drive_top g st" and d: "driver_at st = Some DTop \<or> driver_at st = Some DWait"
    using assms(2) by (auto split: option.splits resid_driver_pc.splits)
  show ?thesis
  proof (rule lock_inv_frame [OF assms(1)])
    show "holds st' h = holds st h" for h using d drive_top_lock [OF d] by (cases h) (auto simp: st')
  qed (simp add: st' drive_top_lock [OF d])
next
  case DriverLock
  then obtain t where t: "driver_at st = Some (DTransition t)" "rz_lock st = None"
    "st' = set_driver (DHolding t) (st\<lparr>rz_lock := Some ByDriver, rz_state := RUnloading\<rparr>)"
    using assms(2) by (auto split: option.splits resid_driver_pc.splits if_splits)
  show ?thesis
  proof (rule lock_taken [OF assms(1) t(2)])
    show "holds st' h' \<longleftrightarrow> h' = ByDriver \<or> holds st h'" for h'
      using t(1) by (cases h') (auto simp: t(3) op_at_def driver_at_def set_driver_def)
  qed (simp add: t(3))
next
  case DriverLoaded
  then obtain t where t: "driver_at st = Some (DHolding t)" "st' = set_driver (DLoaded t) (drop_lock ByDriver st)"
    using assms(2) by (auto split: option.splits resid_driver_pc.splits)
  show ?thesis
    by (rule lock_left [OF assms(1), of _ ByDriver]) (auto simp: t holds_def split: lock_holder.splits)
next
  case DriverFailed
  then obtain t where t: "driver_at st = Some (DTransition t) \<and> st' = set_driver (DCleanup t) st
      \<or> driver_at st = Some (DHolding t) \<and> st' = set_driver (DCleanup t) (drop_lock ByDriver st)"
    using assms(2) by (auto split: option.splits resid_driver_pc.splits)
  then show ?thesis
  proof
    assume a: "driver_at st = Some (DTransition t) \<and> st' = set_driver (DCleanup t) st"
    show ?thesis by (rule lock_inv_frame [OF assms(1)]) (use a in \<open>auto simp: holds_def split: lock_holder.splits\<close>)
  next
    assume a: "driver_at st = Some (DHolding t) \<and> st' = set_driver (DCleanup t) (drop_lock ByDriver st)"
    show ?thesis by (rule lock_left [OF assms(1), of _ ByDriver]) (use a in \<open>auto simp: holds_def split: lock_holder.splits\<close>)
  qed
next
  case DriverCancelled
  then have st': "st' = set_driver DFinally (drop_lock ByDriver st)"
    using assms(2) by (auto split: option.splits if_splits)
  show ?thesis
    by (rule lock_left [OF assms(1), of _ ByDriver]) (auto simp: st' holds_def split: lock_holder.splits)
next
  case (DriverCleaned clean)
  then obtain t where t: "driver_at st = Some (DCleanup t)" "st' = set_driver DTop (publish_failed t clean st)"
    using assms(2) by (auto split: option.splits resid_driver_pc.splits)
  show ?thesis by (rule lock_inv_frame [OF assms(1)])
    (use t(1) in \<open>auto simp: t(2) publish_failed_def fail_head_group_def fail_calls_eq Let_def driver_at_def op_at_def set_driver_def
       holds_def split: lock_holder.splits\<close>)
next
  case DriverPublish
  then obtain t where t: "driver_at st = Some (DLoaded t)" "st' = set_driver DTop (publish_loaded t st)"
    using assms(2) by (auto split: option.splits resid_driver_pc.splits)
  show ?thesis by (rule lock_inv_frame [OF assms(1)])
    (use t(1) in \<open>auto simp: t(2) publish_loaded_def Let_def driver_at_def op_at_def set_driver_def holds_def split: lock_holder.splits\<close>)
next
  case DriverFinally
  then have t: "driver_at st = Some DFinally" "st' = resid_drive_finally st"
    using assms(2) by (auto split: option.splits resid_driver_pc.splits)
  show ?thesis by (rule lock_inv_frame [OF assms(1)])
    (use t(1) in \<open>auto simp: t(2) resid_drive_finally_def ensure_driver_def Let_def driver_at_def op_at_def holds_def split: lock_holder.splits\<close>)
next
  case (DriverPhase s)
  then have t: "st' = st\<lparr>rz_state := s\<rparr>" using assms(2) by (auto split: option.splits resid_driver_pc.splits if_splits)
  show ?thesis by (rule lock_inv_frame [OF assms(1)])
    (auto simp: t driver_at_def op_at_def holds_def split: lock_holder.splits)
qed (use assms(2) in simp_all)

lemma op_update_frames [simp]:
  "op_at (st\<lparr>rz_calls := a\<rparr>) k = op_at st k" "op_at (st\<lparr>rz_queue := b\<rparr>) k = op_at st k" "op_at (st\<lparr>rz_state := s\<rparr>) k = op_at st k"
  "op_at (st\<lparr>rz_accepting := c\<rparr>) k = op_at st k" "op_at (st\<lparr>rz_initialized := d\<rparr>) k = op_at st k"
  "op_at (st\<lparr>rz_stopping := e\<rparr>) k = op_at st k" "op_at (st\<lparr>rz_lock := l\<rparr>) k = op_at st k"
  "op_at (st\<lparr>rz_omlx_hint := h\<rparr>) k = op_at st k" "op_at (st\<lparr>rz_resident := r\<rparr>) k = op_at st k"
  "op_at (st\<lparr>rz_transition_target := t\<rparr>) k = op_at st k" "op_at (st\<lparr>rz_last_used := n\<rparr>) k = op_at st k"
  by (simp_all add: op_at_def)

lemma driver_update_frames [simp]:
  "driver_at (st\<lparr>rz_calls := a\<rparr>) = driver_at st" "driver_at (st\<lparr>rz_queue := b\<rparr>) = driver_at st"
  "driver_at (st\<lparr>rz_state := s\<rparr>) = driver_at st" "driver_at (st\<lparr>rz_accepting := c\<rparr>) = driver_at st"
  "driver_at (st\<lparr>rz_initialized := d\<rparr>) = driver_at st" "driver_at (st\<lparr>rz_stopping := e\<rparr>) = driver_at st"
  "driver_at (st\<lparr>rz_lock := l\<rparr>) = driver_at st" "driver_at (st\<lparr>rz_omlx_hint := h\<rparr>) = driver_at st"
  "driver_at (st\<lparr>rz_resident := r\<rparr>) = driver_at st" "driver_at (st\<lparr>rz_transition_target := t\<rparr>) = driver_at st"
  "driver_at (st\<lparr>rz_last_used := n\<rparr>) = driver_at st" "driver_at (st\<lparr>rz_ops := o'\<rparr>) = driver_at st"
  by (simp_all add: driver_at_def)

lemma fail_all_frames [simp]:
  "op_at (fail_all st) k = op_at st k" "driver_at (fail_all st) = driver_at st" "rz_lock (fail_all st) = rz_lock st"
  "rz_ops (fail_all st) = rz_ops st" "rz_driver (fail_all st) = rz_driver st" "rz_inflight (fail_all st) = rz_inflight st"
  "rz_accepting (fail_all st) = rz_accepting st" "rz_queue (fail_all st) = []" "rz_epoch (fail_all st) = rz_epoch st"
  "rz_resident (fail_all st) = rz_resident st" "rz_transition_target (fail_all st) = rz_transition_target st"
  by (simp_all add: fail_all_eq)

lemma op_barrier_frames [simp]:
  "driver_at (op_barrier k st) = driver_at st" "rz_lock (op_barrier k st) = rz_lock st"
  by (simp_all add: op_barrier_def split: op_kind.splits)

lemma op_barrier_hold:
  "(op_at (op_barrier k st) j = Some OHold) = (j \<noteq> k \<and> op_at st j = Some OHold)"
proof -
  have "op_at st j = None \<Longrightarrow> op_at (op_barrier k st) j = None" by (auto simp: op_barrier_def split: op_kind.splits)
  then show ?thesis by (cases "j = k") (auto simp: op_barrier_def split: op_kind.splits if_splits)
qed

lemma op_at_append:
  "op_at (st\<lparr>rz_ops := rz_ops st @ [x]\<rparr>) j = (if j = length (rz_ops st) then Some (op_pc x) else op_at st j)"
  "op_at (st\<lparr>rz_accepting := a, rz_ops := rz_ops st @ [x]\<rparr>) j = (if j = length (rz_ops st) then Some (op_pc x) else op_at st j)"
  by (auto simp: op_at_def nth_append)

lemma op_at_end: "op_at st (length (rz_ops st)) = None"
  by (simp add: op_at_def)

lemma drain_timeout_frames [simp]:
  "driver_at (drain_timeout k st) = driver_at st" "rz_lock (drain_timeout k st) = rz_lock st"
  by (simp_all add: drain_timeout_def split: op_kind.splits)

lemma drain_timeout_at: "op_at st k = Some pc \<Longrightarrow> op_at (drain_timeout k st) j = Some OHold \<longleftrightarrow> j \<noteq> k \<and> op_at st j = Some OHold"
  by (auto simp: drain_timeout_def split: op_kind.splits)

lemma op_publish_frames [simp]:
  "driver_at (op_publish k m now st) = driver_at st" "rz_lock (op_publish k m now st) = rz_lock st"
  "op_at (op_publish k m now st) j = op_at st j" "driver_at (fail_closed st) = driver_at st" "rz_lock (fail_closed st) = rz_lock st"
  "op_at (fail_closed st) j = op_at st j"
  by (simp_all add: op_publish_def fail_closed_def Let_def split: op_kind.splits)

lemma op_failed_frames [simp]:
  "driver_at (op_failed k st) = driver_at st" "rz_lock (op_failed k st) = rz_lock st"
  by (simp_all add: op_failed_def)

lemma op_failed_at: "op_at st k = Some pc \<Longrightarrow> op_at (op_failed k st) j = Some OHold \<longleftrightarrow> j \<noteq> k \<and> op_at st j = Some OHold"
  by (auto simp: op_failed_def)

lemma cancel_driver_at [simp]: "driver_at (cancel_driver st) = driver_at st"
  by (simp add: driver_at_def cancel_driver_def option.map_comp comp_def)

lemma op_step_lock:
  assumes "lock_inv st" and "op_step g ev st = Some st'"
  shows "lock_inv st'"
proof (cases "\<exists>k. ev = OpLocked k \<or> ev = OpCancelled k \<or> (\<exists>ok m. ev = OpUnlocked k ok m)")
  case True
  then obtain k where "ev = OpLocked k \<or> ev = OpCancelled k \<or> (\<exists>ok m. ev = OpUnlocked k ok m)" by blast
  then show ?thesis
  proof (elim disjE exE)
    assume e: "ev = OpLocked k"
    show ?thesis by (rule lock_taken [OF assms(1), of _ "ByOp k"])
      (use assms(2) e in \<open>auto simp: holds_def split: if_splits lock_holder.splits\<close>)
  next
    assume e: "ev = OpCancelled k"
    show ?thesis by (rule lock_left [OF assms(1), of _ "ByOp k"])
      (use assms(2) e in \<open>auto simp: holds_def split: option.splits op_pc.splits lock_holder.splits if_splits\<close>)
  next
    fix ok m assume e: "ev = OpUnlocked k ok m"
    have h: "op_at st k = Some OHold" using assms(2) e by (simp split: if_splits)
    then have f: "op_at (op_failed k (drop_lock (ByOp k) st)) j = Some OHold \<longleftrightarrow> j \<noteq> k \<and> op_at st j = Some OHold" for j
      using op_failed_at [of "drop_lock (ByOp k) st" k OHold j] by simp
    have s: "st' = (if ok then set_op k (OEnd m) (drop_lock (ByOp k) st) else op_failed k (drop_lock (ByOp k) st))"
      using assms(2) e h by simp
    show ?thesis
    proof (rule lock_left [OF assms(1), of _ "ByOp k"])
      show "rz_lock st' = rz_lock (drop_lock (ByOp k) st)" unfolding s by simp
      show "holds st' h' \<longleftrightarrow> h' \<noteq> ByOp k \<and> holds st h'" for h'
        unfolding s by (cases h'; cases ok) (simp_all add: f h)
    qed
  qed
next
  case False
  show ?thesis
  proof (rule lock_inv_frame [OF assms(1)])
    show "rz_lock st' = rz_lock st" using assms(2) False
      by (cases ev) (auto simp: op_start_def split: if_splits option.splits op_pc.splits)
    show "holds st' h = holds st h" for h
    proof (rule holds_cong)
      show "driver_at st' = driver_at st" using assms(2) False
        by (cases ev) (auto simp: op_start_def split: if_splits option.splits op_pc.splits)
      show "(op_at st' k = Some OHold) = (op_at st k = Some OHold)" for k using assms(2) False
        by (cases ev) (auto simp: op_start_def op_barrier_hold op_at_append op_at_end drain_timeout_at op_failed_at
          split: if_splits option.splits op_pc.splits)
    qed
  qed
qed

lemma resid_step_lock: "lock_inv st \<Longrightarrow> resid_step g ev st = Some st' \<Longrightarrow> lock_inv st'"
  using resid_step_cases call_step_lock driver_step_lock op_step_lock by blast

interpretation rc_lock: inductive_invariant "\<lambda>st. st = resid_start" "resid_step g" lock_inv
proof unfold_locales
  show "lock_inv st" if "st = resid_start" for st
    using that by (auto simp: lock_inv_def holds_def resid_start_def driver_at_def op_at_def split: lock_holder.splits)
qed (rule resid_step_lock)

section \<open>Orderly runs\<close>

text \<open>
  Orderly runs. One lifecycle operation at a time: the next starts when every earlier one is over.
  Initialization starts on an idle coordinator, and a shutdown gives up waiting neither for the leases nor
  for the driver (in the source its grace period bounds both waits).
\<close>

definition active_op :: "resid \<Rightarrow> nat \<Rightarrow> bool" where
  "active_op st k = (op_at st k \<notin> {None, Some ODone})"

definition all_done :: "resid \<Rightarrow> bool" where
  "all_done st = list_all (\<lambda>x. op_pc x = ODone) (rz_ops st)"

definition solo :: "resid_event \<Rightarrow> resid \<Rightarrow> bool" where
  "solo ev st =
     (case ev of
        OpStart kind \<Rightarrow> all_done st
          \<and> (kind = OpInit \<longrightarrow> rz_inflight st = 0 \<and> rz_queue st = [] \<and> rz_driver st = None)
      | EvictCheck idle now \<Rightarrow> all_done st
      | AbortLease i now \<Rightarrow> all_done st
      | DrainTimeout k \<Rightarrow> op_kind (rz_ops st ! k) \<noteq> OpShutdown
      | AwaitTimeout k \<Rightarrow> op_kind (rz_ops st ! k) \<noteq> OpShutdown
      | _ \<Rightarrow> True)"

definition solo_step :: "resid_config \<Rightarrow> resid_event \<Rightarrow> resid \<Rightarrow> resid option" where
  "solo_step g = restrict_step solo (resid_step g)"

definition working :: "resid \<Rightarrow> bool" where
  "working st =
     (case driver_at st of
        Some (DTransition t) \<Rightarrow> True | Some (DHolding t) \<Rightarrow> True | Some (DLoaded t) \<Rightarrow> True | Some (DCleanup t) \<Rightarrow> True
      | _ \<Rightarrow> False)"

definition op_fine :: "resid \<Rightarrow> op_pc \<Rightarrow> bool" where
  "op_fine st pc =
     (case pc of
        OAwait n \<Rightarrow> rz_inflight st = 0 \<and> driver_number st \<in> {n, None}
      | OLock \<Rightarrow> rz_inflight st = 0 \<and> driver_number st = None
      | OHold \<Rightarrow> rz_inflight st = 0 \<and> driver_number st = None
      | OEnd m \<Rightarrow> rz_inflight st = 0 \<and> driver_number st = None
      | _ \<Rightarrow> True)"

definition work_ok :: "resid \<Rightarrow> bool" where
  "work_ok st = (working st \<longrightarrow> rz_inflight st = 0 \<and> rz_transition_target st \<noteq> None)"

definition solo_inv :: "resid \<Rightarrow> bool" where
  "solo_inv st =
     (calls_inv st \<and> exact_inv st \<and> work_ok st
      \<and> (\<forall>k pc. op_at st k = Some pc \<and> pc \<noteq> ODone \<longrightarrow>
           \<not> rz_accepting st \<and> rz_queue st = [] \<and> op_fine st pc \<and> (\<forall>j. active_op st j \<longrightarrow> j = k)))"

lemma solo_invD:
  assumes "solo_inv st"
  shows "calls_inv st" and "exact_inv st" and "work_ok st"
    and "op_at st k = Some pc \<Longrightarrow> pc \<noteq> ODone \<Longrightarrow>
           \<not> rz_accepting st \<and> rz_queue st = [] \<and> op_fine st pc \<and> (\<forall>j. active_op st j \<longrightarrow> j = k)"
  using assms unfolding solo_inv_def by blast+

lemma all_done_op: "all_done st \<Longrightarrow> \<not> active_op st j"
  by (auto simp: all_done_def active_op_def op_at_def list_all_length)

lemma inflight_ge_0: "calls_inv st \<Longrightarrow> 0 \<le> rz_inflight st"
  unfolding calls_inv_def by (rule calls_okD(4))

lemma exact_none: "exact_ok cs e 0 r \<Longrightarrow> exact_ok cs e' 0 r'"
  unfolding exact_ok_def count_if_0_iff by blast

lemma exact_quiet:
  "exact_inv st \<Longrightarrow> rz_inflight st = 0 \<Longrightarrow> rz_calls st' = rz_calls st \<Longrightarrow> rz_inflight st' = 0 \<Longrightarrow> exact_inv st'"
  by (auto simp: exact_inv_def intro: exact_none)

lemma exact_no_resident:
  assumes "exact_inv st" and "rz_resident st = None"
  shows "rz_inflight st = 0"
proof -
  have "\<not> claims (rz_epoch st) c" if "c \<in> set (rz_calls st)" for c
    using assms that by (auto simp: exact_inv_def exact_ok_def)
  then have "count_if (claims (rz_epoch st)) (rz_calls st) = 0" by (simp add: count_if_0_iff)
  then show ?thesis using assms(1) by (simp add: exact_inv_def exact_ok_def)
qed

lemma exact_same:
  "exact_inv st \<Longrightarrow> same_calls st st' \<Longrightarrow> rz_resident st' = rz_resident st \<Longrightarrow> exact_inv st'"
  by (simp add: exact_inv_def same_calls_def)

text \<open>A step that leaves the operations alone, and a step of operation \<open>k\<close> where no other is active.\<close>

lemma solo_frame:
  assumes inv: "solo_inv st" and "calls_inv st'" and "exact_inv st'" and "work_ok st'"
    and ops: "rz_ops st' = rz_ops st"
    and barrier: "\<not> rz_accepting st \<Longrightarrow> rz_queue st = [] \<Longrightarrow>
      \<not> rz_accepting st' \<and> rz_queue st' = [] \<and> rz_inflight st' \<le> rz_inflight st
      \<and> driver_number st' \<in> {driver_number st, None}"
  shows "solo_inv st'"
proof -
  have at: "op_at st' k = op_at st k" for k using ops by (simp add: op_at_def)
  have act: "active_op st' j = active_op st j" for j by (simp add: active_op_def at)
  have "\<not> rz_accepting st' \<and> rz_queue st' = [] \<and> op_fine st' pc \<and> (\<forall>j. active_op st' j \<longrightarrow> j = k)"
    if "op_at st k = Some pc" "pc \<noteq> ODone" for k pc
  proof -
    note o = solo_invD(4) [OF inv that]
    note b = barrier [OF conjunct1 [OF o] conjunct1 [OF conjunct2 [OF o]]]
    have "op_fine st' pc" using o b inflight_ge_0 [OF assms(2)] by (cases pc) (auto simp: op_fine_def)
    then show ?thesis using o b by (simp add: act)
  qed
  then show ?thesis using assms(2-4) unfolding solo_inv_def at by blast
qed

lemma solo_op:
  assumes "calls_inv st'" and "exact_inv st'" and "work_ok st'"
    and at: "\<And>j. op_at st' j = (if j = k then Some pc' else op_at st j)"
    and only: "\<And>j. active_op st j \<Longrightarrow> j = k"
    and "pc' = ODone \<or> \<not> rz_accepting st' \<and> rz_queue st' = [] \<and> op_fine st' pc'"
  shows "solo_inv st'"
proof -
  have act: "active_op st' j \<Longrightarrow> j = k" for j using only by (auto simp: active_op_def at split: if_splits)
  show ?thesis unfolding solo_inv_def
  proof (intro conjI allI impI; (elim conjE)?)
    fix j pc assume "op_at st' j = Some pc" "pc \<noteq> ODone"
    moreover from this have "j = k" using act by (simp add: active_op_def)
    ultimately have p: "pc = pc'" "pc' \<noteq> ODone" "j = k" by (simp_all add: at)
    then show "\<not> rz_accepting st'" "rz_queue st' = []" "op_fine st' pc" using assms(6) by simp_all
    show "i = j" if "active_op st' i" for i using act [OF that] p by simp
  qed (use assms(1-3) in simp_all)
qed

section \<open>Calls in such runs\<close>

lemma working_cong: "driver_at st' = driver_at st \<Longrightarrow> working st' = working st"
  by (simp add: working_def)

lemma working_number: "working st \<Longrightarrow> driver_number st \<noteq> None"
  by (auto simp: working_def driver_at_def driver_number_def split: option.splits)

lemma ensure_driver_facts [simp]:
  "working (ensure_driver st) = working st" "rz_driver st \<noteq> None \<Longrightarrow> ensure_driver st = st"
  by (auto simp: working_def ensure_driver_def driver_at_def)

lemma release_locked_eq:
  "resid_release_locked e now st = st\<lparr>rz_inflight := (if e \<noteq> rz_epoch st \<or> rz_inflight st \<le> 0 then rz_inflight st else rz_inflight st - 1),
     rz_last_used := rz_last_used (resid_release_locked e now st)\<rparr>"
  by (simp add: resid_release_locked_def)

lemma end_claim_exact_inv:
  assumes "exact_inv st" and "i < length (rz_calls st)" and "claims e (rz_calls st ! i)"
  shows "exact_inv (resid_release_locked e now (st\<lparr>rz_calls := set_phase CDone (rz_calls st) i\<rparr>))"
  using end_claim_exact [of "rz_calls st" "rz_epoch st" "rz_inflight st" "rz_resident st" i e] assms
  by (cases "e \<noteq> rz_epoch st \<or> rz_inflight st \<le> 0") (simp_all add: exact_inv_def resid_release_locked_def)

lemma over_exact_inv:
  "exact_inv st \<Longrightarrow> i < length (rz_calls st) \<Longrightarrow> (\<And>e. \<not> claims e (rz_calls st ! i))
     \<Longrightarrow> exact_inv (st\<lparr>rz_calls := set_phase CDone (rz_calls st) i\<rparr>)"
  using collect_exact [of "rz_calls st" "rz_epoch st" "rz_inflight st" "rz_resident st" i CDone] by (simp add: exact_inv_def)

lemma purge_same [simp]:
  "rz_calls (purge_cancelled st) = rz_calls st" "rz_epoch (purge_cancelled st) = rz_epoch st"
  "rz_inflight (purge_cancelled st) = rz_inflight st" "rz_resident (purge_cancelled st) = rz_resident st"
  "rz_accepting (purge_cancelled st) = rz_accepting st" "rz_transition_target (purge_cancelled st) = rz_transition_target st"
  "rz_driver (purge_cancelled st) = rz_driver st" "rz_ops (purge_cancelled st) = rz_ops st"
  "rz_stopping (purge_cancelled st) = rz_stopping st" "rz_initialized (purge_cancelled st) = rz_initialized st"
  "rz_state (purge_cancelled st) = rz_state st"
  "rz_queue st = [] \<Longrightarrow> rz_queue (purge_cancelled st) = []"
  by (simp_all add: purge_eq)

lemma working_frames [simp]:
  "working (st\<lparr>rz_calls := x\<rparr>) = working st" "working (st\<lparr>rz_inflight := n\<rparr>) = working st"
  "working (st\<lparr>rz_queue := q\<rparr>) = working st" "working (purge_cancelled st) = working st"
  by (simp_all add: working_def driver_at_def)

lemma acquire_cases:
  obtains e where "resid_acquire_enter g t st = (Some e, st)"
  | "resid_acquire_enter g t st = (Some QueueFullError, purge_cancelled st)"
  | r where "rz_accepting st" "rz_resident st = Some r" "effective_load_identity r = effective_load_identity t"
      "rz_transition_target st = None" "0 < available_for g (purge_cancelled st) r 0"
      "resid_acquire_enter g t st = (None, (purge_cancelled st)\<lparr>rz_calls := rz_calls st @ [\<lparr>cq_target = t, cq_phase = CLeased (rz_epoch st)\<rparr>],
         rz_inflight := rz_inflight st + 1\<rparr>)"
  | "rz_accepting st" "int (length (rz_queue (purge_cancelled st))) < rf_max_queue_depth g" "\<not> rz_stopping st"
      "resid_acquire_enter g t st = (None, ensure_driver ((purge_cancelled st)\<lparr>rz_calls := rz_calls st @ [\<lparr>cq_target = t, cq_phase = CQueued\<rparr>],
         rz_queue := rz_queue (purge_cancelled st) @ [length (rz_calls st)]\<rparr>))"
proof (cases "acquire_guard g t st")
  case None
  then have a: "rz_accepting st" "\<not> rz_stopping st" by (auto simp: acquire_guard_def split: if_splits)
  consider "warm_for t (purge_cancelled st)" "0 < available_for g (purge_cancelled st) (the (rz_resident st)) 0"
    | "\<not> (warm_for t (purge_cancelled st) \<and> 0 < available_for g (purge_cancelled st) (the (rz_resident st)) 0)"
      "rf_max_queue_depth g \<le> int (length (rz_queue (purge_cancelled st)))"
    | "\<not> (warm_for t (purge_cancelled st) \<and> 0 < available_for g (purge_cancelled st) (the (rz_resident st)) 0)"
      "\<not> rf_max_queue_depth g \<le> int (length (rz_queue (purge_cancelled st)))" by blast
  then show ?thesis
  proof cases
    case 1
    then obtain r where "rz_resident st = Some r" "effective_load_identity r = effective_load_identity t"
      "rz_transition_target st = None" by (auto simp: warm_for_def split: option.splits)
    with 1 a None show ?thesis by (intro that(3) [of r]) (simp_all add: resid_acquire_enter_def Let_def)
  next
    case 2
    with None show ?thesis by (intro that(2)) (auto simp: resid_acquire_enter_def Let_def)
  next
    case 3
    with None a show ?thesis by (intro that(4)) (auto simp: resid_acquire_enter_def Let_def)
  qed
qed (simp add: resid_acquire_enter_def that(1))

lemma acquire_solo:
  assumes inv: "solo_inv st"
  shows "solo_inv (snd (resid_acquire_enter g t st))" (is "solo_inv ?st'")
proof (rule solo_frame [OF inv])
  note d = solo_invD [OF inv]
  have w: "rz_transition_target st = None \<Longrightarrow> \<not> working st" using d(3) by (auto simp: work_ok_def)
  show "calls_inv ?st'" by (rule mac_acquire_inv [OF d(1)])
  show "rz_ops ?st' = rz_ops st" by (rule acquire_cases [of g t st]) simp_all
  show "exact_inv ?st'" by (rule acquire_cases [of g t st])
    (use d(2) in \<open>auto simp: exact_inv_def intro: append_exact\<close>)
  show "work_ok ?st'" by (rule acquire_cases [of g t st])
    (use d(3) w in \<open>simp_all add: work_ok_def\<close>)
  show "\<not> rz_accepting ?st' \<and> rz_queue ?st' = [] \<and> rz_inflight ?st' \<le> rz_inflight st \<and> driver_number ?st' \<in> {driver_number st, None}"
    if "\<not> rz_accepting st" "rz_queue st = []"
    by (rule acquire_cases [of g t st]) (use that in \<open>simp_all add: driver_number_def\<close>)
qed

text \<open>A claim or a wait that ends.\<close>

lemma release_solo:
  assumes inv: "solo_inv st" and "calls_inv st'" and "exact_inv st'" and ops: "rz_ops st' = rz_ops st"
    and q: "rz_queue st' = rz_queue st" and a: "rz_accepting st' = rz_accepting st" and t: "rz_transition_target st' = rz_transition_target st"
    and n: "rz_inflight st' \<le> rz_inflight st" and w: "working st' = working st"
    and dr: "rz_queue st = [] \<Longrightarrow> rz_driver st' = rz_driver st"
  shows "solo_inv st'"
proof (rule solo_frame [OF inv assms(2,3) _ ops])
  show "work_ok st'" using solo_invD(3) [OF inv] inflight_ge_0 [OF assms(2)] n by (auto simp: work_ok_def t w)
  show "\<not> rz_accepting st' \<and> rz_queue st' = [] \<and> rz_inflight st' \<le> rz_inflight st \<and> driver_number st' \<in> {driver_number st, None}"
    if "\<not> rz_accepting st" "rz_queue st = []"
    using that q a n dr by (simp add: driver_number_def)
qed

lemma release_locked_frames [simp]:
  "rz_ops (resid_release_locked e now st) = rz_ops st" "rz_queue (resid_release_locked e now st) = rz_queue st"
  "rz_accepting (resid_release_locked e now st) = rz_accepting st"
  "rz_transition_target (resid_release_locked e now st) = rz_transition_target st"
  "rz_inflight (resid_release_locked e now st) \<le> rz_inflight st" "rz_driver (resid_release_locked e now st) = rz_driver st"
  "rz_resident (resid_release_locked e now st) = rz_resident st" "rz_epoch (resid_release_locked e now st) = rz_epoch st"
  "rz_calls (resid_release_locked e now st) = rz_calls st"
  "driver_at (resid_release_locked e now st) = driver_at st" "working (resid_release_locked e now st) = working st"
  "rz_inflight (resid_release_locked e now (st\<lparr>rz_calls := x\<rparr>)) \<le> rz_inflight st"
  by (simp_all add: resid_release_locked_def driver_at_def working_def)

lemma call_step_solo:
  assumes inv: "solo_inv st" and step: "call_step g ev st = Some st'" and "solo ev st"
  shows "solo_inv st'"
proof -
  note d = solo_invD [OF inv]
  have ci: "calls_inv st'" by (rule call_step_inv [OF d(1) step])
  show ?thesis
  proof (cases ev)
    case (Acquire t)
    then show ?thesis using step acquire_solo [OF inv] by auto
  next
    case (Collect i)
    then obtain p where p: "i < length (rz_calls st)" "st' = st\<lparr>rz_calls := set_phase p (rz_calls st) i\<rparr>"
      "\<And>e'. p = CGranted e' \<or> p = CLeased e' \<longleftrightarrow> claims e' (rz_calls st ! i)"
      using step by (auto simp: call_at_def phase_of_def claims_def split: call_phase.splits option.splits if_splits)
    have "exact_inv st'" using collect_exact [OF _ p(1,3)] d(2) by (simp add: exact_inv_def p(2))
    then show ?thesis by (rule release_solo [OF inv ci]) (simp_all add: p(2))
  next
    case (CancelWaiter i now)
    then have i: "i < length (rz_calls st)" "st' = resid_cancel_waiter i now st"
      using step by (auto simp: call_at_def split: option.splits call_phase.splits if_splits)
    have "exact_inv st'" unfolding i(2) resid_cancel_waiter_def Let_def
      using end_claim_exact_inv [OF d(2) i(1)] over_exact_inv [OF d(2) i(1)] CancelWaiter step
      by (auto simp: claims_def phase_of_def call_at_def split: call_phase.splits if_splits)
    then show ?thesis by (rule release_solo [OF inv ci]) (simp_all add: i(2) resid_cancel_waiter_def Let_def split: call_phase.splits)
  next
    case (Release i now)
    then obtain e where e: "i < length (rz_calls st)" "phase_of st i = CLeased e" "st' = release_lease i e now st"
      using step by (auto simp: call_at_def split: call_phase.splits option.splits if_splits)
    have "exact_inv (resid_release_locked e now (st\<lparr>rz_calls := set_phase CDone (rz_calls st) i\<rparr>))"
      by (rule end_claim_exact_inv [OF d(2) e(1)]) (use e(2) in \<open>simp add: claims_def phase_of_def\<close>)
    then have "exact_inv st'" by (simp add: e(3) release_lease_def Let_def exact_inv_def)
    then show ?thesis by (rule release_solo [OF inv ci]) (simp_all add: e(3) release_lease_def Let_def)
  next
    case (AbortLease i now)
    then obtain e where e: "i < length (rz_calls st)" "phase_of st i = CLeased e" "st' = abort_start i e now st"
      using step by (auto simp: call_at_def split: call_phase.splits option.splits if_splits)
    have c: "claims e (rz_calls st ! i)" using e(2) by (simp add: claims_def phase_of_def)
    have ee: "e = rz_epoch st" using claim_exact [OF _ e(1) c] d(2) by (simp add: exact_inv_def)
    define r where "r = resid_release_locked e now (st\<lparr>rz_calls := set_phase CDone (rz_calls st) i\<rparr>)"
    have ex: "exact_inv r" unfolding r_def by (rule end_claim_exact_inv [OF d(2) e(1) c])
    have cr: "calls_inv r" unfolding r_def by (rule end_claim_inv [OF d(1) e(1) c])
    have r: "rz_queue r = rz_queue st" "rz_calls r = set_phase CDone (rz_calls st) i" "rz_inflight r \<le> rz_inflight st"
      "rz_transition_target r = rz_transition_target st" "driver_at r = driver_at st"
      using release_locked_frames(5) [of e now "st\<lparr>rz_calls := set_phase CDone (rz_calls st) i\<rparr>"] by (simp_all add: r_def)
    let ?x = "st\<lparr>rz_accepting := False, rz_ops := rz_ops st @ [\<lparr>op_kind = OpAbort, op_pc = ODrain\<rparr>],
      rz_calls := failed_calls (rz_queue st) (set_phase CDone (rz_calls st) i), rz_queue := []\<rparr>"
    have s: "st' = drain_check (length (rz_ops st)) (resid_release_locked e now ?x)"
      using ee by (simp add: e(3) abort_start_def Let_def fail_all_eq)
    have n: "rz_inflight (resid_release_locked e now ?x) = rz_inflight r" by (simp add: r_def resid_release_locked_def)
    show ?thesis
    proof (rule solo_op [OF ci])
      have "exact_ok (failed_calls (rz_queue r) (rz_calls r)) (rz_epoch r) (rz_inflight r) (rz_resident r)"
        by (rule fail_exact) (use ex calls_okD(2) cr in \<open>auto simp: exact_inv_def calls_inv_def\<close>)
      then show "exact_inv st'" using n by (simp add: exact_inv_def s r) (simp add: r_def)
      have w: "working st' = working st" by (rule working_cong) (simp add: s)
      show "work_ok st'" using d(3) inflight_ge_0 [OF ci] r(3)
        unfolding work_ok_def w by (auto simp: s n)
      show "active_op st j \<Longrightarrow> j = length (rz_ops st)" for j using assms(3) AbortLease all_done_op by (simp add: solo_def)
      let ?pc = "if 0 < rz_inflight r then ODrain else OAwait (driver_number st)"
      have at: "op_at (resid_release_locked e now ?x) j = (if j = length (rz_ops st) then Some ODrain else op_at st j)" for j
        by (simp add: op_at_def resid_release_locked_def nth_append)
      have dn: "driver_number (resid_release_locked e now ?x) = driver_number st" by (simp add: driver_number_def)
      show "op_at st' j = (if j = length (rz_ops st) then Some ?pc else op_at st j)" for j
        unfolding s op_at_drain by (simp add: at n dn)
      show "?pc = ODone \<or> \<not> rz_accepting st' \<and> rz_queue st' = [] \<and> op_fine st' ?pc"
        using inflight_ge_0 [OF cr] by (auto simp: s n op_fine_def driver_number_def)
    qed
  qed (use step in simp_all)
qed

section \<open>The driver in such runs\<close>

lemma drive_top_cases:
  obtains (refuse) "rz_stopping st \<or> \<not> rz_initialized st \<or> \<not> rz_accepting st"
      "resid_drive_top g st = set_driver DFinally (fail_all (purge_cancelled st))"
  | (idle) v where "rz_accepting st" "rz_queue (purge_cancelled st) = []"
      "resid_drive_top g st = set_driver DFinally ((purge_cancelled st)\<lparr>rz_transition_target := None, rz_state := v\<rparr>)"
  | (grant) r y n d v where "rz_accepting st" "rz_resident st = Some r" "d \<in> {DWait, DTop}"
      "grant_head_group g r (effective_load_identity r) ((purge_cancelled st)\<lparr>rz_transition_target := None\<rparr>) = (y, n)"
      "resid_drive_top g st = set_driver d (y\<lparr>rz_state := v\<rparr>)"
  | (drain) t where "rz_accepting st" "0 < rz_inflight st"
      "resid_drive_top g st = set_driver DWait ((purge_cancelled st)\<lparr>rz_transition_target := Some t, rz_state := RDraining\<rparr>)"
  | (change) t where "rz_accepting st" "rz_resident st = None \<or> rz_inflight st \<le> 0"
      "resid_drive_top g st = set_driver (DTransition t) ((purge_cancelled st)\<lparr>rz_transition_target := Some t\<rparr>)"
proof (cases "rz_stopping st \<or> \<not> rz_initialized st \<or> \<not> rz_accepting st")
  case True
  then show ?thesis by (intro refuse) (simp_all add: resid_drive_top_def Let_def)
next
  case False
  then have a: "rz_accepting st" by simp
  show ?thesis
  proof (cases "rz_queue (purge_cancelled st)")
    case Nil
    show ?thesis by (rule idle [OF a Nil]) (use False Nil in \<open>simp add: resid_drive_top_def Let_def\<close>)
  next
    case (Cons head q)
    define t where "t = cq_target (rz_calls st ! head)"
    show ?thesis
    proof (cases "\<exists>r. rz_resident st = Some r \<and> effective_load_identity r = effective_load_identity t")
      case True
      then obtain r where r: "rz_resident st = Some r" "effective_load_identity t = effective_load_identity r" by auto
      obtain y n where y: "grant_head_group g r (effective_load_identity r) ((purge_cancelled st)\<lparr>rz_transition_target := None\<rparr>) = (y, n)"
        by (cases "grant_head_group g r (effective_load_identity r) ((purge_cancelled st)\<lparr>rz_transition_target := None\<rparr>)") simp
      have s: "resid_drive_top g st = (if n = 0 then set_driver DWait (if rz_state y = RDegraded then y else y\<lparr>rz_state := RReady\<rparr>)
          else set_driver DTop y)"
        using False Cons r y by (simp add: resid_drive_top_def Let_def t_def)
      have "resid_drive_top g st = set_driver (if n = 0 then DWait else DTop)
          (y\<lparr>rz_state := if n = 0 \<and> rz_state y \<noteq> RDegraded then RReady else rz_state y\<rparr>)"
        by (cases y) (simp add: s)
      then show ?thesis by (intro grant [OF a r(1) _ y]) simp_all
    next
      case f: False
      then have n: "(case rz_resident st of None \<Rightarrow> False | Some r \<Rightarrow> effective_load_identity r = effective_load_identity t) = False"
        by (auto split: option.splits)
      show ?thesis
      proof (cases "rz_resident st \<noteq> None \<and> 0 < rz_inflight st")
        case True
        then show ?thesis using False Cons n [unfolded t_def] by (intro drain [OF a, of t]) (simp_all add: resid_drive_top_def Let_def t_def)
      next
        case d: False
        then show ?thesis using False Cons n [unfolded t_def] by (intro change [OF a, of t]) (auto simp: resid_drive_top_def Let_def t_def)
      qed
    qed
  qed
qed

lemma drive_top_ops: "rz_ops (resid_drive_top g st) = rz_ops st"
proof (cases rule: drive_top_cases [of st g])
  case (grant r y n d v)
  then have "rz_ops y = rz_ops st" by (auto simp: grant_head_group_def split: prod.splits)
  then show ?thesis by (simp add: grant)
qed simp_all

lemma working_set [simp]:
  "working (set_driver d st) \<longleftrightarrow> rz_driver st \<noteq> None \<and> (\<exists>t. d \<in> {DTransition t, DHolding t, DLoaded t, DCleanup t})"
  by (cases "rz_driver st"; cases d) (simp_all add: working_def driver_at_def set_driver_def)

lemma driver_number_frames [simp]:
  "driver_number (set_driver d st) = driver_number st" "driver_number (cancel_driver st) = driver_number st"
  "driver_number (set_op k pc st) = driver_number st" "driver_number (drain_check k st) = driver_number st"
  "driver_number (drop_lock h st) = driver_number st" "driver_number (fail_all st) = driver_number st"
  "driver_number (purge_cancelled st) = driver_number st"
  by (simp_all add: driver_number_def set_driver_def cancel_driver_def option.map_comp comp_def)

lemma grant_head_exact:
  assumes "calls_inv st" and "exact_inv st" and "rz_resident st = Some r"
    and "grant_head_group g r (effective_load_identity r) st = (y, n)"
  shows "exact_inv y" and "rz_ops y = rz_ops st" and "rz_transition_target y = rz_transition_target st"
  using assms grant_ok(2) [of "rz_queue st" "rz_calls st" "rz_epoch st" "rz_inflight st" "effective_load_identity r"]
  by (auto simp: calls_inv_def exact_inv_def grant_head_group_def split: prod.splits)

lemma exact_set_driver [simp]: "exact_inv (set_driver d st) = exact_inv st" "exact_inv (st\<lparr>rz_state := v\<rparr>) = exact_inv st"
  "exact_inv (st\<lparr>rz_transition_target := t\<rparr>) = exact_inv st" "exact_inv (purge_cancelled st) = exact_inv st"
  "exact_inv (st\<lparr>rz_accepting := a\<rparr>) = exact_inv st" "exact_inv (st\<lparr>rz_initialized := b\<rparr>) = exact_inv st"
  by (simp_all add: exact_inv_def)

lemma fail_all_exact: "calls_inv st \<Longrightarrow> exact_inv st \<Longrightarrow> exact_inv (fail_all st)"
  using fail_exact [OF calls_okD(2)] by (simp add: calls_inv_def exact_inv_def fail_all_eq)

lemma drive_top_solo:
  assumes inv: "solo_inv st" and "rz_driver st \<noteq> None"
  shows "solo_inv (resid_drive_top g st)" (is "solo_inv ?st'")
proof -
  note d = solo_invD [OF inv]
  have ci: "calls_inv ?st'" by (rule mac_drive_top_inv [OF d(1)])
  note frame = solo_frame [OF inv ci]
  show ?thesis
  proof (cases rule: drive_top_cases [of st g])
    case refuse
    show ?thesis
      by (rule frame)
        (use refuse d(2) fail_all_exact [OF purge_inv [OF d(1)]] in \<open>simp_all add: work_ok_def\<close>)
  next
    case (idle v)
    show ?thesis by (rule frame) (use idle d(2) in \<open>simp_all add: work_ok_def\<close>)
  next
    case (grant r y n dd v)
    have p: "calls_inv ((purge_cancelled st)\<lparr>rz_transition_target := None\<rparr>)"
      using purge_inv [OF d(1)] by (simp add: calls_inv_def)
    note y = grant_head_exact [OF p _ _ grant(4)]
    show ?thesis by (rule frame) (use grant y d(2) in \<open>auto simp: work_ok_def\<close>)
  next
    case (drain t)
    show ?thesis by (rule frame) (use drain d(2) in \<open>simp_all add: work_ok_def\<close>)
  next
    case (change t)
    then have "rz_inflight st = 0" using exact_no_resident [OF d(2)] inflight_ge_0 [OF d(1)] by auto
    then show ?thesis by (intro frame) (use change d(2) in \<open>simp_all add: work_ok_def\<close>)
  qed
qed

lemma exact_drop_lock [simp]: "exact_inv (drop_lock h st) = exact_inv st" "exact_inv (st\<lparr>rz_lock := l\<rparr>) = exact_inv st"
  "exact_inv (set_op k pc st) = exact_inv st" "exact_inv (ensure_driver st) = exact_inv st"
  "exact_inv (cancel_driver st) = exact_inv st" "exact_inv (drain_check k st) = exact_inv st"
  by (simp_all add: exact_inv_def)

lemma driver_pc_working: "driver_at st = Some (DTransition t) \<or> driver_at st = Some (DHolding t)
    \<or> driver_at st = Some (DLoaded t) \<or> driver_at st = Some (DCleanup t) \<Longrightarrow> working st"
  by (auto simp: working_def)

lemma driver_at_some: "driver_at st = Some pc \<Longrightarrow> rz_driver st \<noteq> None"
  by (auto simp: driver_at_def)

text \<open>A driver that only moves on.\<close>

lemma driver_move_solo:
  assumes inv: "solo_inv st" and "calls_inv st'" and "exact_inv st'" and "rz_ops st' = rz_ops st"
    and "\<not> rz_accepting st \<Longrightarrow> \<not> rz_accepting st'" and "rz_queue st = [] \<Longrightarrow> rz_queue st' = []"
    and n: "rz_inflight st' = rz_inflight st" and "driver_number st' = driver_number st"
    and w: "working st' \<Longrightarrow> working st \<and> rz_transition_target st' = rz_transition_target st"
  shows "solo_inv st'"
proof (rule solo_frame [OF inv assms(2,3) _ assms(4)])
  show "work_ok st'" using w solo_invD(3) [OF inv] by (auto simp: work_ok_def n)
qed (use assms in simp_all)

lemma publish_failed_solo:
  assumes inv: "solo_inv st" and d: "driver_at st = Some (DCleanup t)"
    and ci: "calls_inv (set_driver DTop (publish_failed t clean st))"
  shows "solo_inv (set_driver DTop (publish_failed t clean st))"
proof -
  have n: "rz_inflight st = 0" using driver_pc_working [of st t] solo_invD(3) [OF inv] d by (simp add: work_ok_def)
  have q: "set (takeWhile p (rz_queue st)) \<subseteq> {..<length (rz_calls st)}" for p
    using calls_okD(2) solo_invD(1) [OF inv] set_takeWhileD by (fastforce simp: calls_inv_def)
  have "exact_ok (rz_calls st) (rz_epoch st) 0 None" using solo_invD(2) [OF inv] n exact_none by (auto simp: exact_inv_def)
  then have ex: "exact_ok (failed_calls (takeWhile p (rz_queue st)) (rz_calls st)) (rz_epoch st) 0 None" for p
    by (rule fail_exact [OF q])
  show ?thesis
  proof (rule driver_move_solo [OF inv ci])
    show "exact_inv (set_driver DTop (publish_failed t clean st))"
      using ex n by (simp add: exact_inv_def publish_failed_def fail_head_group_def fail_calls_eq Let_def ident_of_def)
  qed (simp_all add: publish_failed_def fail_head_group_def fail_calls_eq Let_def driver_number_def ident_of_def set_driver_def
      option.map_comp comp_def working_def driver_at_def split: option.splits)
qed

lemma publish_loaded_solo:
  assumes inv: "solo_inv st" and d: "driver_at st = Some (DLoaded t)"
    and ci: "calls_inv (set_driver DTop (publish_loaded t st))"
  shows "solo_inv (set_driver DTop (publish_loaded t st))"
proof (rule driver_move_solo [OF inv ci])
  have n: "rz_inflight st = 0" using driver_pc_working [of st t] solo_invD(3) [OF inv] d by (simp add: work_ok_def)
  show "exact_inv (set_driver DTop (publish_loaded t st))"
    by (simp, rule exact_quiet [OF solo_invD(2) [OF inv] n]) (simp_all add: publish_loaded_def Let_def n)
qed (simp_all add: publish_loaded_def Let_def driver_number_def set_driver_def option.map_comp comp_def
    working_def driver_at_def split: option.splits)

lemma driver_step_solo:
  assumes inv: "solo_inv st" and step: "driver_step g ev st = Some st'"
  shows "solo_inv st'"
proof -
  note d = solo_invD [OF inv]
  have ci: "calls_inv st'" by (rule driver_step_inv [OF d(1) step])
  note move = driver_move_solo [OF inv ci]
  show ?thesis
  proof (cases ev)
    case DriverTurn
    then show ?thesis using step drive_top_solo [OF inv] by (auto split: option.splits resid_driver_pc.splits dest: driver_at_some)
  next
    case DriverLock
    then obtain t where t: "driver_at st = Some (DTransition t)"
      "st' = set_driver (DHolding t) (st\<lparr>rz_lock := Some ByDriver, rz_state := RUnloading\<rparr>)"
      using step by (auto split: option.splits resid_driver_pc.splits if_splits)
    show ?thesis by (rule move) (use d(2) driver_pc_working [of st t] in \<open>simp_all add: t driver_number_def set_driver_def option.map_comp comp_def exact_inv_def\<close>)
  next
    case (DriverPhase s)
    then have t: "st' = st\<lparr>rz_state := s\<rparr>" using step by (auto split: option.splits resid_driver_pc.splits if_splits)
    show ?thesis by (rule move) (use d(2) in \<open>simp_all add: t driver_number_def working_def\<close>)
  next
    case DriverLoaded
    then obtain t where t: "driver_at st = Some (DHolding t)" "st' = set_driver (DLoaded t) (drop_lock ByDriver st)"
      using step by (auto split: option.splits resid_driver_pc.splits)
    show ?thesis by (rule move) (use d(2) driver_pc_working [of st t] in \<open>simp_all add: t\<close>)
  next
    case DriverFailed
    then obtain t where t: "driver_at st = Some (DTransition t) \<or> driver_at st = Some (DHolding t)"
      "st' = set_driver (DCleanup t) st \<or> st' = set_driver (DCleanup t) (drop_lock ByDriver st)"
      using step by (auto split: option.splits resid_driver_pc.splits)
    show ?thesis by (rule move) (use t(2) d(2) driver_pc_working [of st t] t(1) in auto)
  next
    case DriverCancelled
    then have t: "st' = set_driver DFinally (drop_lock ByDriver st)" using step by (auto split: option.splits if_splits)
    show ?thesis by (rule move) (use d(2) in \<open>simp_all add: t\<close>)
  next
    case (DriverCleaned clean)
    then obtain t where t: "driver_at st = Some (DCleanup t)" "st' = set_driver DTop (publish_failed t clean st)"
      using step by (auto split: option.splits resid_driver_pc.splits)
    show ?thesis using publish_failed_solo [OF inv t(1)] ci by (simp add: t(2))
  next
    case DriverPublish
    then obtain t where t: "driver_at st = Some (DLoaded t)" "st' = set_driver DTop (publish_loaded t st)"
      using step by (auto split: option.splits resid_driver_pc.splits)
    show ?thesis using publish_loaded_solo [OF inv t(1)] ci by (simp add: t(2))
  next
    case DriverFinally
    then have t: "driver_at st = Some DFinally" "st' = resid_drive_finally st"
      using step by (auto split: option.splits resid_driver_pc.splits)
    have w: "\<not> working st'" by (simp add: t(2) resid_drive_finally_def Let_def working_def driver_at_def ensure_driver_def)
    show ?thesis
      by (rule solo_frame [OF inv ci])
        (use d(2) w in \<open>simp_all add: work_ok_def, simp_all add: t(2) resid_drive_finally_def Let_def driver_number_def exact_inv_def\<close>)
  qed (use step in simp_all)
qed

section \<open>The operations in such runs\<close>

lemma work_ok_mono:
  "work_ok st \<Longrightarrow> driver_at st' = driver_at st \<Longrightarrow> rz_inflight st' = rz_inflight st
     \<Longrightarrow> rz_transition_target st' = rz_transition_target st \<Longrightarrow> work_ok st'"
  by (simp add: work_ok_def working_def)

lemma barrier_solo:
  assumes c: "calls_inv s" and e: "exact_inv s" and w: "work_ok s" and k: "op_at s k = Some pc"
    and only: "\<And>j. active_op s j \<Longrightarrow> j = k"
    and init: "op_kind (rz_ops s ! k) = OpInit \<Longrightarrow> rz_inflight s = 0 \<and> rz_queue s = [] \<and> rz_driver s = None"
    and ci: "calls_inv (op_barrier k s)"
  shows "solo_inv (op_barrier k s)"
proof (cases "op_kind (rz_ops s ! k) = OpInit")
  case True
  then have b: "op_barrier k s = set_op k OLock (s\<lparr>rz_accepting := False, rz_state := RUnloading\<rparr>)" by (simp add: op_barrier_def)
  show ?thesis
  proof (rule solo_op [OF ci, of k OLock s])
    show "exact_inv (op_barrier k s)" using e by (simp add: b exact_inv_def)
    show "work_ok (op_barrier k s)" by (rule work_ok_mono [OF w]) (simp_all add: b)
  qed (use only k init [OF True] in \<open>simp_all add: b op_fine_def driver_number_def\<close>)
next
  case False
  define x where "x = (if op_kind (rz_ops s ! k) = OpShutdown
      then cancel_driver (fail_all (s\<lparr>rz_stopping := True, rz_accepting := False, rz_state := RStopping\<rparr>))
      else fail_all (s\<lparr>rz_accepting := False\<rparr>))"
  have b: "op_barrier k s = drain_check k x" using False by (cases "op_kind (rz_ops s ! k)") (simp_all add: op_barrier_def x_def)
  have f: "exact_inv (fail_all y)" if "same_calls s y" "rz_resident y = rz_resident s" for y
    by (rule fail_all_exact [OF same_calls_inv [OF c that(1)] exact_same [OF e that]])
  have x: "exact_inv x" "rz_inflight x = rz_inflight s" "driver_at x = driver_at s" "rz_queue x = []" "\<not> rz_accepting x"
    "rz_transition_target x = rz_transition_target s" "op_at x j = op_at s j" for j
    using f by (auto simp: x_def same_calls_def)
  show ?thesis
  proof (rule solo_op [OF ci])
    show "exact_inv (op_barrier k s)" using x(1) by (simp add: b)
    show "work_ok (op_barrier k s)" by (rule work_ok_mono [OF w]) (simp_all add: b x)
    show "op_at (op_barrier k s) j = (if j = k then Some (if 0 < rz_inflight x then ODrain else OAwait (driver_number x)) else op_at s j)" for j
      by (simp add: b x(7) k)
    show "active_op s j \<Longrightarrow> j = k" for j by (rule only)
    show "(if 0 < rz_inflight x then ODrain else OAwait (driver_number x)) = ODone
        \<or> \<not> rz_accepting (op_barrier k s) \<and> rz_queue (op_barrier k s) = []
          \<and> op_fine (op_barrier k s) (if 0 < rz_inflight x then ODrain else OAwait (driver_number x))"
      using inflight_ge_0 [OF c] x(2,4,5) by (auto simp: b op_fine_def)
  qed
qed

lemma op_start_solo:
  assumes inv: "solo_inv st" and "all_done st" and ci: "calls_inv (op_start kind st)"
    and "kind = OpInit \<Longrightarrow> rz_inflight st = 0 \<and> rz_queue st = [] \<and> rz_driver st = None"
  shows "solo_inv (op_start kind st)"
  unfolding op_start_def
proof (rule barrier_solo)
  let ?s = "st\<lparr>rz_ops := rz_ops st @ [\<lparr>op_kind = kind, op_pc = OBegin\<rparr>]\<rparr>"
  note d = solo_invD [OF inv]
  show "calls_inv ?s" using d(1) by (simp add: calls_inv_def)
  show "exact_inv ?s" using d(2) by (simp add: exact_inv_def)
  show "work_ok ?s" by (rule work_ok_mono [OF d(3)]) simp_all
  show "op_at ?s (length (rz_ops st)) = Some OBegin" by (simp add: op_at_append)
  show "j = length (rz_ops st)" if "active_op ?s j" for j
    using that all_done_op [OF assms(2), of j] by (simp add: active_op_def op_at_append split: if_splits)
qed (use assms in \<open>simp_all add: op_start_def\<close>)

text \<open>A step of the active operation \<open>k\<close> to \<open>pc'\<close> that leaves calls and resident alone, and one that ends it.\<close>

lemma op_move_solo:
  assumes inv: "solo_inv st" and k: "op_at st k = Some pc" "pc \<noteq> ODone" and ci: "calls_inv st'" and ex: "exact_inv st'"
    and at: "\<And>j. op_at st' j = (if j = k then Some pc' else op_at st j)"
    and d: "driver_at st' = driver_at st" and n: "rz_inflight st' = rz_inflight st"
    and t: "rz_transition_target st' = rz_transition_target st"
    and f: "pc' = ODone \<or> rz_accepting st' = rz_accepting st \<and> rz_queue st' = rz_queue st \<and> op_fine st' pc'"
  shows "solo_inv st'"
proof (rule solo_op [OF ci ex _ at])
  note o = solo_invD(4) [OF inv k]
  show "work_ok st'" by (rule work_ok_mono [OF solo_invD(3) [OF inv] d n t])
  show "active_op st j \<Longrightarrow> j = k" for j using o by blast
  show "pc' = ODone \<or> \<not> rz_accepting st' \<and> rz_queue st' = [] \<and> op_fine st' pc'" using o f by auto
qed

lemma op_end_solo:
  assumes inv: "solo_inv st" and k: "op_at st k = Some (OEnd m)" and ci: "calls_inv (set_op k ODone (op_publish k m now st))"
  shows "solo_inv (set_op k ODone (op_publish k m now st))" (is "solo_inv ?st'")
proof (rule solo_op [OF ci, of k ODone st])
  note o = solo_invD(4) [OF inv k]
  have n: "rz_inflight st = 0" "\<not> working st" using o working_number [of st] by (auto simp: op_fine_def)
  have p: "rz_calls (op_publish k m now st) = rz_calls st" "rz_inflight (op_publish k m now st) = rz_inflight st"
    by (simp_all add: op_publish_def Let_def split: op_kind.splits)
  show "exact_inv ?st'" by (rule exact_quiet [OF solo_invD(2) [OF inv] n(1)]) (simp_all add: p n)
  have "working ?st' = working st" by (rule working_cong) simp
  then show "work_ok ?st'" using n by (simp add: work_ok_def)
  show "active_op st j \<Longrightarrow> j = k" for j using o by blast
  show "op_at ?st' j = (if j = k then Some ODone else op_at st j)" for j using k by simp
qed simp

lemma op_fine_await: "op_fine st (OAwait n) \<Longrightarrow> \<not> (n \<noteq> None \<and> driver_number st = n) \<Longrightarrow> rz_inflight st = 0 \<and> driver_number st = None"
  by (auto simp: op_fine_def)

lemma drain_check_solo:
  assumes inv: "solo_inv st" and k: "op_at st k = Some ODrain" and ci: "calls_inv (drain_check k st)"
  shows "solo_inv (drain_check k st)"
  by (rule op_move_solo [OF inv k _ ci, of "if 0 < rz_inflight st then ODrain else OAwait (driver_number st)"])
    (use solo_invD(2) [OF inv] inflight_ge_0 [OF solo_invD(1) [OF inv]] k in \<open>auto simp: op_fine_def\<close>)

text \<open>Only an eviction reaches its barrier in a step of its own.\<close>

definition begin_inv :: "resid \<Rightarrow> bool" where
  "begin_inv st = list_all (\<lambda>x. op_pc x = OBegin \<longrightarrow> op_kind x = OpUnload) (rz_ops st)"

lemma begin_set_op: "begin_inv st \<Longrightarrow> pc \<noteq> OBegin \<Longrightarrow> begin_inv (set_op k pc st)"
  by (cases "k < length (rz_ops st)") (auto simp: begin_inv_def set_op_def list_all_length nth_list_update)

lemma begin_frame: "begin_inv st \<Longrightarrow> rz_ops st' = rz_ops st \<Longrightarrow> begin_inv st'"
  by (simp add: begin_inv_def)

lemma drain_check_ops: "\<exists>pc. pc \<noteq> OBegin \<and> rz_ops (drain_check k st) = rz_ops (set_op k pc st)"
  by (cases "0 < rz_inflight st") (auto simp: drain_check_def set_op_def)

lemma op_barrier_ops: "\<exists>pc. pc \<noteq> OBegin \<and> rz_ops (op_barrier k st) = rz_ops (set_op k pc st)"
proof -
  have d: "\<exists>pc. pc \<noteq> OBegin \<and> rz_ops (drain_check k x) = rz_ops (set_op k pc st)" if "rz_ops x = rz_ops st" for x
    using drain_check_ops [of k x] that by (auto simp: set_op_def)
  show ?thesis
    using d [of "fail_all (st\<lparr>rz_accepting := False\<rparr>)"]
      d [of "cancel_driver (fail_all (st\<lparr>rz_stopping := True, rz_accepting := False, rz_state := RStopping\<rparr>))"]
    by (cases "op_kind (rz_ops st ! k)") (auto simp: op_barrier_def set_op_def)
qed

lemma resid_step_begin:
  assumes inv: "begin_inv st" and step: "resid_step g ev st = Some st'"
  shows "begin_inv st'"
proof -
  have "rz_ops st' = rz_ops st" if "driver_step g ev st = Some st'"
    using that by (cases ev) (auto simp: resid_drive_finally_def publish_loaded_def publish_failed_def fail_head_group_def fail_calls_eq
      Let_def drive_top_ops split: option.splits resid_driver_pc.splits if_splits)
  moreover have "begin_inv st'" if c: "call_step g ev st = Some st'"
  proof (cases "\<exists>i now. ev = AbortLease i now")
    case True
    then obtain i now e where "st' = abort_start i e now st" using c by (auto split: option.splits call_phase.splits)
    moreover have "begin_inv (drain_check (length (rz_ops st)) (resid_release_locked e now x))"
      if "rz_ops x = rz_ops st @ [\<lparr>op_kind = OpAbort, op_pc = ODrain\<rparr>]" for x
    proof -
      have "begin_inv (resid_release_locked e now x)" using inv that by (simp add: begin_inv_def)
      then show ?thesis using drain_check_ops [of "length (rz_ops st)" "resid_release_locked e now x"] begin_set_op begin_frame by metis
    qed
    moreover have "begin_inv (st\<lparr>rz_calls := x\<rparr>)" for x using inv by (simp add: begin_inv_def)
    ultimately show ?thesis by (auto simp: abort_start_def Let_def)
  next
    case False
    then have "rz_ops st' = rz_ops st" using c
      by (cases ev) (auto simp: resid_acquire_enter_def resid_cancel_waiter_def release_lease_def Let_def split: option.splits call_phase.splits if_splits)
    then show ?thesis by (rule begin_frame [OF inv])
  qed
  moreover have "begin_inv st'" if "op_step g ev st = Some st'"
  proof -
    have b: "begin_inv (op_barrier k st)" for k using op_barrier_ops [of k st] begin_set_op [OF inv] begin_frame by metis
    have s: "begin_inv (op_start kind st)" for kind
      using op_barrier_ops [of "length (rz_ops st)" "st\<lparr>rz_ops := rz_ops st @ [\<lparr>op_kind = kind, op_pc = OBegin\<rparr>]\<rparr>"] inv
      by (auto simp: op_start_def begin_inv_def set_op_def)
    have d: "begin_inv (drain_check k st)" for k using drain_check_ops [of k st] begin_set_op [OF inv] begin_frame by metis
    have p: "begin_inv (op_publish k m now st)" "begin_inv (fail_closed st)" for k m now
      by (rule begin_frame [OF inv], simp add: op_publish_def fail_closed_def Let_def split: op_kind.splits)+
    have f: "begin_inv x \<Longrightarrow> begin_inv (op_failed k x)" for k x by (simp add: op_failed_def begin_set_op)
    have u: "begin_inv (drop_lock h st)" "begin_inv (cancel_driver st)" for h by (rule begin_frame [OF inv], simp)+
    have t: "begin_inv (drain_timeout k st)" for k
      unfolding drain_timeout_def
      by (cases "op_kind (rz_ops st ! k)"; simp only: op_kind.case; rule begin_set_op; (rule begin_frame [OF inv])?; simp)
    show ?thesis using that inv
      by (cases ev) (auto simp: b s d p f u t begin_set_op fail_closed_def begin_frame [OF inv]
        intro: begin_frame [OF inv] split: if_splits option.splits op_pc.splits, auto simp: begin_inv_def inv [unfolded begin_inv_def])
  qed
  ultimately show ?thesis using resid_step_cases [OF step] begin_frame [OF inv] by blast
qed

lemma op_step_solo:
  assumes inv: "solo_inv st" and bg: "begin_inv st" and step: "op_step g ev st = Some st'" and solo: "solo ev st"
  shows "solo_inv st'"
proof -
  note d = solo_invD [OF inv]
  have ci: "calls_inv st'" by (rule op_step_inv [OF d(1) step])
  show ?thesis
  proof (cases ev)
    case (OpStart kind)
    then have s: "st' = op_start kind st" using step by (simp split: if_splits)
    show ?thesis unfolding s by (rule op_start_solo [OF inv]) (use solo OpStart ci s in \<open>simp_all add: solo_def\<close>)
  next
    case (EvictCheck idle now)
    show ?thesis
    proof (cases "st' = st")
      case False
      then have s: "st' = st\<lparr>rz_accepting := False, rz_ops := rz_ops st @ [\<lparr>op_kind = OpUnload, op_pc = OBegin\<rparr>]\<rparr>" "rz_queue st = []"
        using step EvictCheck by (auto split: if_splits)
      show ?thesis
      proof (rule solo_op [OF ci])
        show "exact_inv st'" using d(2) by (simp add: s exact_inv_def)
        show "work_ok st'" by (rule work_ok_mono [OF d(3)]) (simp_all add: s)
        show "op_at st' j = (if j = length (rz_ops st) then Some OBegin else op_at st j)" for j by (simp add: s op_at_append)
        show "active_op st j \<Longrightarrow> j = length (rz_ops st)" for j using all_done_op [of st j] solo EvictCheck by (simp add: solo_def)
      qed (simp add: s op_fine_def)
    qed (simp add: inv)
  next
    case (OpBarrier k)
    then have k: "op_at st k = Some OBegin" "st' = op_barrier k st" using step by (simp_all split: if_splits)
    have "op_kind (rz_ops st ! k) \<noteq> OpInit" using bg k(1) by (auto simp: begin_inv_def op_at_def list_all_length split: if_splits)
    then show ?thesis unfolding k(2) using d(4) [OF k(1)] ci k by (intro barrier_solo [OF d(1-3) k(1)]) auto
  next
    case (DrainWake k)
    then show ?thesis using step drain_check_solo [OF inv] ci by (auto split: if_splits)
  next
    case (DrainTimeout k)
    then have k: "op_at st k = Some ODrain" "st' = drain_timeout k st" "op_kind (rz_ops st ! k) \<noteq> OpShutdown"
      using step solo by (simp_all add: solo_def split: if_splits)
    define pc' where "pc' = (if op_kind (rz_ops st ! k) = OpMaintenance then OFail else ODone)"
    show ?thesis
      by (rule op_move_solo [OF inv k(1) _ ci, of pc'])
        (use k d(2) in \<open>simp_all add: pc'_def drain_timeout_def op_fine_def split: op_kind.splits\<close>)
  next
    case (DriverSettled k)
    then obtain n where k: "op_at st k = Some (OAwait n)" "\<not> (n \<noteq> None \<and> driver_number st = n)" "st' = set_op k OLock st"
      using step by (auto split: option.splits op_pc.splits if_splits)
    show ?thesis
      by (rule op_move_solo [OF inv k(1) _ ci, of OLock])
        (use k d(2) op_fine_await [OF _ k(2)] d(4) [OF k(1)] in \<open>simp_all add: op_fine_def [of _ OLock]\<close>)
  next
    case (AwaitTimeout k)
    then obtain n where k: "op_at st k = Some (OAwait n)" "st' = set_op k OFail (cancel_driver st)"
      using step solo by (auto simp: solo_def split: option.splits op_pc.splits if_splits)
    show ?thesis by (rule op_move_solo [OF inv k(1) _ ci, of OFail]) (use k d(2) in \<open>simp_all add: op_fine_def\<close>)
  next
    case (OpFailed k)
    define pc' where "pc' = (if op_kind (rz_ops st ! k) = OpShutdown then OEnd False else OFail)"
    obtain pc where k: "op_at st k = Some pc" "pc = OLock \<or> (\<exists>n. pc = OAwait n \<and> \<not> (n \<noteq> None \<and> driver_number st = n))"
      "st' = op_failed k st" using step OpFailed by (auto split: option.splits op_pc.splits if_splits)
    then have "pc \<noteq> ODone" by auto
    from d(4) [OF k(1) this] k(2) have "rz_inflight st = 0 \<and> driver_number st = None"
      using op_fine_await by (auto simp: op_fine_def)
    then show ?thesis
      by (intro op_move_solo [OF inv k(1) \<open>pc \<noteq> ODone\<close> ci, of pc'])
        (use k d(2) in \<open>simp_all add: pc'_def op_failed_def op_fine_def\<close>)
  next
    case (OpLocked k)
    then have k: "op_at st k = Some OLock" "rz_lock st = None" using step by (simp_all split: if_splits)
    obtain s where s: "st' = set_op k OHold (st\<lparr>rz_lock := Some (ByOp k), rz_state := s\<rparr>)" using step OpLocked k by auto
    have "op_fine st OLock" using d(4) [OF k(1)] by simp
    then show ?thesis
      by (intro op_move_solo [OF inv k(1) _ ci, of OHold])
        (use d(2) k in \<open>simp_all add: s exact_inv_def op_fine_def driver_number_def\<close>)
  next
    case (OpVerifying k)
    then have "st' = st\<lparr>rz_state := RVerifyingEmpty\<rparr>" using step by (simp split: if_splits)
    then show ?thesis using d by (intro solo_frame [OF inv ci]) (simp_all add: driver_number_def work_ok_def working_def)
  next
    case (OpUnlocked k ok m)
    then have k: "op_at st k = Some OHold" using step by (simp split: if_splits)
    define pc' where "pc' = (if ok then OEnd m else if op_kind (rz_ops st ! k) = OpShutdown then OEnd False else OFail)"
    have s: "st' = set_op k pc' (drop_lock (ByOp k) st)" using step OpUnlocked k by (cases ok) (auto simp: pc'_def op_failed_def)
    have "op_fine st OHold" using d(4) [OF k] by simp
    then show ?thesis
      by (intro op_move_solo [OF inv k _ ci, of pc']) (use d(2) k in \<open>simp_all add: s pc'_def op_fine_def\<close>)
  next
    case (OpPublish k now)
    then consider m where "op_at st k = Some (OEnd m)" "st' = set_op k ODone (op_publish k m now st)"
      | "op_at st k = Some OFail" "st' = set_op k ODone (fail_closed st)"
      using step by (auto split: option.splits op_pc.splits)
    then show ?thesis
    proof cases
      case (1 m)
      then show ?thesis using op_end_solo [OF inv] ci by simp
    next
      case 2
      show ?thesis by (rule op_move_solo [OF inv 2(1) _ ci, of ODone])
        (use 2 d(2) in \<open>simp_all add: fail_closed_def exact_inv_def\<close>)
    qed
  next
    case (OpCancelled k)
    then obtain pc where k: "op_at st k = Some pc" "pc \<noteq> ODone" "st' = set_op k ODone (drop_lock (ByOp k) st)"
      using step by (auto split: option.splits op_pc.splits)
    show ?thesis by (rule op_move_solo [OF inv k(1,2) ci, of ODone]) (use k d(2) in simp_all)
  next
    case (AuditFailed error)
    then have s: "st' = fail_all (fail_closed st)" using step by (simp split: if_splits)
    have same: "same_calls st (fail_closed st)" by (simp add: same_calls_def fail_closed_def)
    have e: "exact_inv st'" unfolding s
      by (rule fail_all_exact [OF same_calls_inv [OF d(1) same] exact_same [OF d(2) same]]) (simp add: fail_closed_def)
    show ?thesis
      by (rule solo_frame [OF inv ci e])
        (use d(3) in \<open>simp_all add: s fail_closed_def driver_number_def work_ok_def working_def\<close>)
  next
    case (HintChanged payload)
    then have s: "st' = st\<lparr>rz_omlx_hint := Option.bind payload omlx_hint\<rparr>" using step by simp
    show ?thesis by (rule solo_frame [OF inv ci]) (use d in \<open>simp_all add: s exact_inv_def driver_number_def work_ok_def working_def\<close>)
  qed (use step in simp_all)
qed

lemma resid_step_solo:
  assumes "solo_inv st \<and> begin_inv st" and "solo_step g ev st = Some st'"
  shows "solo_inv st' \<and> begin_inv st'"
proof -
  from assms(2) have s: "solo ev st" "resid_step g ev st = Some st'" by (simp_all add: solo_step_def restrict_step_def split: if_splits)
  have "solo_inv st'" using resid_step_cases [OF s(2)] assms(1) s(1)
    call_step_solo [of st g ev st'] driver_step_solo [of st g ev st'] op_step_solo [of st g ev st'] by blast
  then show ?thesis using resid_step_begin [OF _ s(2)] assms(1) by blast
qed

lemma resid_start_solo: "solo_inv resid_start \<and> begin_inv resid_start"
  by (simp add: solo_inv_def resid_start_inv exact_inv_def exact_ok_def work_ok_def working_def driver_at_def op_at_def
      begin_inv_def, simp add: resid_start_def)

interpretation rc_solo: inductive_invariant "\<lambda>st. st = resid_start" "solo_step g" "\<lambda>st. solo_inv st \<and> begin_inv st"
  by unfold_locales (use resid_start_solo in blast, rule resid_step_solo)

section \<open>The queue and the permits\<close>

definition front_inv :: "resid_config \<Rightarrow> resid \<Rightarrow> bool" where
  "front_inv g st =
     (hint_ok (rz_omlx_hint st) \<and> int (length (rz_queue st)) \<le> max 0 (rf_max_queue_depth g)
      \<and> (rz_queue st \<noteq> [] \<longrightarrow> rz_driver st \<noteq> None \<and> \<not> rz_stopping st))"

lemma front_frame:
  assumes "front_inv g st" and "rz_omlx_hint st' = rz_omlx_hint st" and "length (rz_queue st') \<le> length (rz_queue st)"
    and "rz_queue st' \<noteq> [] \<Longrightarrow> (rz_driver st \<noteq> None \<longrightarrow> rz_driver st' \<noteq> None) \<and> (rz_stopping st' \<longrightarrow> rz_stopping st)"
  shows "front_inv g st'"
  using assms unfolding front_inv_def by fastforce

lemma ensure_driver_some [simp]: "rz_driver (ensure_driver st) \<noteq> None" "rz_stopping (ensure_driver st) = rz_stopping st"
  "rz_omlx_hint (ensure_driver st) = rz_omlx_hint st" "rz_omlx_hint (purge_cancelled st) = rz_omlx_hint st"
  "rz_omlx_hint (resid_release_locked e now st) = rz_omlx_hint st" "rz_stopping (resid_release_locked e now st) = rz_stopping st"
  "rz_omlx_hint (fail_all st) = rz_omlx_hint st" "rz_omlx_hint (set_driver pc st) = rz_omlx_hint st"
  "rz_stopping (set_driver pc st) = rz_stopping st" "rz_stopping (fail_all st) = rz_stopping st"
  "rz_omlx_hint (drop_lock h st) = rz_omlx_hint st" "rz_stopping (drop_lock h st) = rz_stopping st"
  "rz_omlx_hint (set_op k oc st) = rz_omlx_hint st" "rz_stopping (set_op k oc st) = rz_stopping st"
  "rz_omlx_hint (cancel_driver st) = rz_omlx_hint st" "rz_stopping (cancel_driver st) = rz_stopping st"
  "rz_omlx_hint (drain_check k st) = rz_omlx_hint st" "rz_stopping (drain_check k st) = rz_stopping st"
  by (simp_all add: ensure_driver_def purge_eq resid_release_locked_def fail_all_eq set_driver_def drop_lock_def set_op_def cancel_driver_def
      drain_check_def)

lemma driver_none_frames [simp]:
  "rz_driver (set_driver pc st) = None \<longleftrightarrow> rz_driver st = None" "rz_driver (cancel_driver st) = None \<longleftrightarrow> rz_driver st = None"
  "(\<exists>d. rz_driver (set_driver pc st) = Some d) \<longleftrightarrow> (\<exists>d. rz_driver st = Some d)"
  "(\<exists>d. rz_driver (cancel_driver st) = Some d) \<longleftrightarrow> (\<exists>d. rz_driver st = Some d)"
  by (simp_all add: set_driver_def cancel_driver_def)

lemma purge_length: "length (rz_queue (purge_cancelled st)) \<le> length (rz_queue st)"
  by (simp add: purge_eq)

lemma call_step_front:
  assumes inv: "front_inv g st" and step: "call_step g ev st = Some st'"
  shows "front_inv g st'"
proof (cases "\<exists>t. ev = Acquire t")
  case True
  then obtain t where t: "st' = snd (resid_acquire_enter g t st)" using step by auto
  have p: "front_inv g (purge_cancelled st)" by (rule front_frame [OF inv]) (simp_all add: purge_length)
  show ?thesis unfolding t
    by (rule acquire_cases [of g t st]) (use inv p in \<open>simp_all add: front_inv_def\<close>)
next
  case False
  show ?thesis
    by (rule front_frame [OF inv]) (use step False in \<open>cases ev;
      auto simp: resid_cancel_waiter_def release_lease_def abort_start_def Let_def fail_all_eq
        split: option.splits call_phase.splits if_splits\<close>)+
qed

lemma grant_loop_shorter: "resid_grant_loop identity e avail q cs = (q', cs', n) \<Longrightarrow> length q' \<le> length q"
  by (induction identity e avail q cs arbitrary: q' cs' n rule: resid_grant_loop.induct) (fastforce split: if_splits prod.splits)+

lemma drive_top_front: "front_inv g st \<Longrightarrow> front_inv g (resid_drive_top g st)"
proof -
  assume inv: "front_inv g st"
  have grant: "length (rz_queue y) \<le> length (rz_queue x) \<and> rz_driver y = rz_driver x \<and> rz_omlx_hint y = rz_omlx_hint x
      \<and> rz_stopping y = rz_stopping x" if "grant_head_group g r i x = (y, n)" for r i x y n
    using that grant_loop_shorter by (fastforce simp: grant_head_group_def split: prod.splits)
  show ?thesis
    by (rule drive_top_cases [of st g]; rule front_frame [OF inv])
      (use purge_length [of st] in \<open>auto dest!: grant\<close>)
qed

lemma driver_step_front:
  assumes inv: "front_inv g st" and step: "driver_step g ev st = Some st'"
  shows "front_inv g st'"
proof (cases "ev = DriverTurn \<or> ev = DriverFinally")
  case True
  then consider "st' = resid_drive_top g st" | "st' = resid_drive_finally st" using step by (auto split: option.splits resid_driver_pc.splits)
  then show ?thesis
  proof cases
    case 2
    then show ?thesis using inv by (auto simp: front_inv_def resid_drive_finally_def Let_def ensure_driver_def)
  qed (simp add: drive_top_front [OF inv])
next
  case False
  have f: "length (rz_queue (publish_failed t clean st)) \<le> length (rz_queue st)"
    "rz_omlx_hint (publish_failed t clean st) = rz_omlx_hint st"
    "rz_driver (publish_failed t clean st) = rz_driver st" "rz_stopping (publish_failed t clean st) = rz_stopping st" for t clean
    by (simp_all add: publish_failed_def fail_head_group_def fail_calls_eq Let_def ident_of_def length_dropWhile_le)
  have "length (rz_queue st') \<le> length (rz_queue st) \<and> rz_omlx_hint st' = rz_omlx_hint st
      \<and> (rz_driver st' = None) = (rz_driver st = None) \<and> rz_stopping st' = rz_stopping st"
    using step False
    by (cases ev) (auto simp: f publish_loaded_def Let_def split: option.splits resid_driver_pc.splits if_splits)
  then show ?thesis by (intro front_frame [OF inv]) auto
qed

lemma op_step_front:
  assumes inv: "front_inv g st" and step: "op_step g ev st = Some st'"
  shows "front_inv g st'"
proof -
  have b: "rz_omlx_hint (op_barrier k x) = rz_omlx_hint x" "length (rz_queue (op_barrier k x)) \<le> length (rz_queue x)"
    "rz_queue (op_barrier k x) \<noteq> [] \<Longrightarrow> rz_driver (op_barrier k x) = rz_driver x \<and> rz_stopping (op_barrier k x) = rz_stopping x" for k x
    by (simp_all add: op_barrier_def split: op_kind.splits)
  show ?thesis
  proof (cases "(\<exists>p. ev = HintChanged p) \<or> (\<exists>k. ev = OpBarrier k) \<or> (\<exists>kind. ev = OpStart kind)")
    case True
    then consider p where "st' = st\<lparr>rz_omlx_hint := Option.bind p omlx_hint\<rparr>" | k where "st' = op_barrier k st"
      | k x where "st' = op_barrier k x" "x = st\<lparr>rz_ops := rz_ops x\<rparr>"
      using step by (auto simp: op_start_def split: if_splits)
    then show ?thesis
    proof cases
      case (1 p)
      have "hint_ok (Option.bind p omlx_hint)" by (cases p) (simp_all add: omlx_hint_ok, simp add: hint_ok_def opt_all_def)
      then show ?thesis using inv by (simp add: 1 front_inv_def)
    next
      case (2 k)
      show ?thesis by (rule front_frame [OF inv]) (use b [of k st] in \<open>simp_all add: 2\<close>)
    next
      case (3 k x)
      have x: "rz_omlx_hint x = rz_omlx_hint st" "rz_queue x = rz_queue st" "rz_driver x = rz_driver st" "rz_stopping x = rz_stopping st"
        by (subst 3(2), simp)+
      show ?thesis by (rule front_frame [OF inv]) (use b [of k x] x in \<open>simp_all add: 3(1)\<close>)
    qed
  next
    case False
    have p: "rz_omlx_hint (op_publish k m now st) = rz_omlx_hint st" "rz_queue (op_publish k m now st) = rz_queue st"
      "rz_driver (op_publish k m now st) = rz_driver st" "rz_stopping (op_publish k m now st) = rz_stopping st" for k m now
      by (simp_all add: op_publish_def Let_def split: op_kind.splits)
    have t: "rz_omlx_hint (drain_timeout k st) = rz_omlx_hint st" "rz_queue (drain_timeout k st) = rz_queue st"
      "rz_driver (drain_timeout k st) = rz_driver st" "rz_stopping (drain_timeout k st) = rz_stopping st" for k
      by (simp_all add: drain_timeout_def split: op_kind.splits)
    have "rz_queue st' = [] \<or> rz_queue st' = rz_queue st" using step False
      by (cases ev) (auto simp: p t fail_closed_def op_failed_def split: option.splits op_pc.splits if_splits)
    moreover have "rz_omlx_hint st' = rz_omlx_hint st \<and> (rz_driver st' = None) = (rz_driver st = None) \<and> rz_stopping st' = rz_stopping st"
      using step False
      by (cases ev) (auto simp: p t fail_closed_def op_failed_def split: option.splits op_pc.splits if_splits)
    ultimately show ?thesis by (intro front_frame [OF inv]) auto
  qed
qed

lemma resid_step_front: "front_inv g st \<Longrightarrow> resid_step g ev st = Some st' \<Longrightarrow> front_inv g st'"
  using resid_step_cases call_step_front driver_step_front op_step_front by blast

interpretation rc_front: inductive_invariant "\<lambda>st. st = resid_start" "resid_step g" "front_inv g"
  by unfold_locales (simp add: front_inv_def resid_start_def hint_ok_def opt_all_def, rule resid_step_front)

text \<open>The free permits are what the effective limit leaves.\<close>

lemma available_for_eq:
  assumes "resid_config_error g = None" and "hint_ok (rz_omlx_hint st)" and "0 \<le> rz_inflight st" and "0 \<le> queued"
  shows "available_for g st t queued =
    max 0 (mac_effective_limit (rf_adapters g) (rz_omlx_hint st) (rf_configured_max_concurrency g) t - rz_inflight st)"
proof -
  have "\<forall>m. rf_configured_max_concurrency g = Some m \<longrightarrow> 1 \<le> m"
    using assms(1) by (auto simp: resid_config_error_def split: if_splits)
  from capacity_for_total [OF assms(2) this assms(3,4), of "rf_adapters g" t True]
  obtain c where "capacity_for (rf_adapters g) (rz_omlx_hint st) (rf_configured_max_concurrency g) t (rz_inflight st) queued True = Inr c"
    "cp_available c = max 0 (mac_effective_limit (rf_adapters g) (rz_omlx_hint st) (rf_configured_max_concurrency g) t - rz_inflight st)"
    by auto
  then show ?thesis by (simp add: available_for_def)
qed

text \<open>Only a call entering warm and a turn of the driver hand out permits, for the resident model.\<close>

lemma permits_granted:
  assumes cfg: "resid_config_error g = None" and ci: "calls_inv st" and h: "hint_ok (rz_omlx_hint st)"
    and step: "resid_step g ev st = Some st'" and more: "rz_inflight st < rz_inflight st'"
  obtains r where "rz_resident st = Some r"
    and "rz_inflight st' \<le> mac_effective_limit (rf_adapters g) (rz_omlx_hint st) (rf_configured_max_concurrency g) r"
proof -
  let ?limit = "mac_effective_limit (rf_adapters g) (rz_omlx_hint st) (rf_configured_max_concurrency g)"
  have n0: "0 \<le> rz_inflight st" by (rule inflight_ge_0 [OF ci])
  have av: "available_for g x r q = max 0 (?limit r - rz_inflight st)"
    if "rz_omlx_hint x = rz_omlx_hint st" "rz_inflight x = rz_inflight st" "0 \<le> q" for x r q
    using available_for_eq [OF cfg, of x q r] that h n0 by simp
  have op: "rz_inflight st' = rz_inflight st" if "op_step g ev st = Some st'"
    using that by (cases ev) (auto simp: op_start_def op_barrier_def drain_timeout_def op_failed_def op_publish_def fail_closed_def Let_def
      split: op_kind.splits op_pc.splits option.splits if_splits)
  from resid_step_cases [OF step] show ?thesis
  proof (elim disjE)
    assume c: "call_step g ev st = Some st'"
    show ?thesis
    proof (cases "\<exists>t. ev = Acquire t")
      case True
      then obtain t where t: "st' = snd (resid_acquire_enter g t st)" using c by auto
      show ?thesis
      proof (rule acquire_cases [of g t st])
        fix r assume "rz_resident st = Some r" "0 < available_for g (purge_cancelled st) r 0"
          "resid_acquire_enter g t st = (None, (purge_cancelled st)\<lparr>rz_calls := rz_calls st @ [\<lparr>cq_target = t, cq_phase = CLeased (rz_epoch st)\<rparr>],
            rz_inflight := rz_inflight st + 1\<rparr>)"
        then show ?thesis using t av [of "purge_cancelled st" 0 r] by (intro that [of r]) simp_all
      qed (use t more in simp_all)
    next
      case False
      have "rz_inflight st' \<le> rz_inflight st" using c False
        by (cases ev) (auto simp: resid_cancel_waiter_def release_lease_def abort_start_def Let_def resid_release_locked_def
          split: option.splits call_phase.splits if_splits)
      then show ?thesis using more by simp
    qed
  next
    assume d: "driver_step g ev st = Some st'"
    show ?thesis
    proof (cases "ev = DriverTurn")
      case True
      then have t: "st' = resid_drive_top g st" using d by (auto split: option.splits resid_driver_pc.splits)
      show ?thesis
      proof (rule drive_top_cases [of st g])
        fix r y n dd v assume r: "rz_resident st = Some r" "resid_drive_top g st = set_driver dd (y\<lparr>rz_state := v\<rparr>)"
          and gr: "grant_head_group g r (effective_load_identity r) ((purge_cancelled st)\<lparr>rz_transition_target := None\<rparr>) = (y, n)"
        let ?x = "(purge_cancelled st)\<lparr>rz_transition_target := None\<rparr>"
        from gr obtain q cs where l: "resid_grant_loop (effective_load_identity r) (rz_epoch ?x)
            (available_for g ?x r (int (length (rz_queue ?x)))) (rz_queue ?x) (rz_calls ?x) = (q, cs, n)"
          and y: "rz_inflight y = rz_inflight st + int n" by (auto simp: grant_head_group_def split: prod.splits)
        have "set (rz_queue ?x) \<subseteq> {..<length (rz_calls ?x)}" "distinct (rz_queue ?x)"
          using calls_okD(1,2) [OF purge_inv [OF ci, unfolded calls_inv_def]] by simp_all
        then have "int n \<le> max 0 (available_for g ?x r (int (length (rz_queue ?x))))" using grant_loop_spec [OF l] by blast
        then have "rz_inflight y \<le> ?limit r \<or> n = 0" using av [of ?x "int (length (rz_queue ?x))" r] y by auto
        then show ?thesis using r t y more by (intro that [of r]) auto
      qed (use t more in simp_all)
    next
      case False
      have "rz_inflight st' = rz_inflight st" using d False
        by (cases ev) (auto simp: resid_drive_finally_def publish_loaded_def publish_failed_def fail_head_group_def fail_calls_eq Let_def
          split: option.splits resid_driver_pc.splits if_splits)
      then show ?thesis using more by simp
    qed
  qed (use op more in simp)
qed

end
