(* ===== verification/Mac_Residency_Properties.thy ===== *)
theory Mac_Residency_Properties
  imports Mac_Residency_Safety
begin

text \<open>
  The properties of the macOS residency coordinator, on demo runs that initialize it, load a model and
  serve it, and the run in which two overlapping lifecycle operations meet a live lease.
\<close>

section \<open>Demo runs\<close>

definition demo_resident :: "string \<Rightarrow> mac_target" where
  "demo_resident model =
     \<lparr>mt_alias = ''m'', mt_key = \<lparr>ke_engine = LLAMA_CPP, ke_canonical_model_id = model, ke_load_config_digest = ''d''\<rparr>,
      mt_wire_model = ''m'', mt_capabilities = [], mt_load_options = [(''parallel'', JInt 2)], mt_kind = LANGUAGE,
      mt_image_defaults = [], mt_storage_path = None, mt_scope_id = None, mt_storage_volume_uuid = None,
      mt_context_mode = ''automatic'', mt_native_context_length = None, mt_requested_context_length = None,
      mt_context_max_verified_age_hours = 720\<rparr>"

definition demo_resid_config :: resid_config where
  "demo_resid_config = \<lparr>rf_adapters = [LLAMA_CPP], rf_configured_max_concurrency = None, rf_max_queue_depth = 1\<rparr>"

definition demo_loading :: "resid_event list" where
  "demo_loading =
     [OpStart OpInit, OpLocked 0, OpVerifying 0, OpUnlocked 0 True True, OpPublish 0 0, Acquire (demo_resident ''a''),
      DriverTurn, DriverLock, DriverPhase RLoading]"

definition demo_serving :: "resid_event list" where
  "demo_serving =
     demo_loading @ [DriverLoaded, DriverPublish, DriverTurn, Collect 0, Acquire (demo_resident ''a''), Acquire (demo_resident ''a'')]"

definition demo_resid :: "resid_event list \<Rightarrow> resid" where
  "demo_resid es = the (run (solo_step demo_resid_config) es resid_start)"

lemma demo_solo_reach:
  "run (solo_step demo_resid_config) es resid_start \<noteq> None
     \<Longrightarrow> reach (\<lambda>st. st = resid_start) (solo_step demo_resid_config) (demo_resid es)"
  using reach_run [of "\<lambda>st. st = resid_start" "solo_step demo_resid_config" resid_start es, OF reach_init]
  by (auto simp: demo_resid_def)

lemma solo_reach: "reach (\<lambda>st. st = resid_start) (solo_step g) st \<Longrightarrow> reach (\<lambda>st. st = resid_start) (resid_step g) st"
  unfolding solo_step_def by (rule reach_restrict)

lemma demo_loading_reach: "reach (\<lambda>st. st = resid_start) (solo_step demo_resid_config) (demo_resid demo_loading)"
  by (rule demo_solo_reach) code_simp

lemma demo_serving_reach: "reach (\<lambda>st. st = resid_start) (solo_step demo_resid_config) (demo_resid demo_serving)"
  by (rule demo_solo_reach) code_simp

lemma demo_facts:
  "driver_at (demo_resid demo_loading) = Some (DHolding (demo_resident ''a''))"
  "rz_inflight (demo_resid demo_serving) = 2" "rz_queue (demo_resid demo_serving) = [2]"
  "rz_resident (demo_resid demo_serving) = Some (demo_resident ''a'')"
  "call_at (demo_resid demo_serving) 1 = Some (CLeased 1)" "call_at (demo_resid demo_serving) 2 = Some CQueued"
  by code_simp+

text \<open>An unload inside its engine section.\<close>

definition demo_unloading :: "resid_event list" where
  "demo_unloading =
     demo_loading @ [DriverLoaded, DriverPublish, DriverTurn, Collect 0, Release 0 0, DriverTurn, DriverFinally,
       OpStart OpUnload, DriverSettled 1, OpLocked 1]"

lemma demo_unloading_reach: "reach (\<lambda>st. st = resid_start) (solo_step demo_resid_config) (demo_resid demo_unloading)"
  by (rule demo_solo_reach) code_simp

lemma demo_unloading_at: "op_at (demo_resid demo_unloading) 1 = Some OHold"
  by code_simp

section \<open>Properties\<close>

text \<open>In every run, overlapping or not, the operation lock is exclusive; the driver's cleanup does not take it.\<close>

lemma operation_lock_exclusive:
  assumes "reach (\<lambda>st. st = resid_start) (resid_step g) st"
  shows "(driver_at st = Some (DHolding t) \<longrightarrow> op_at st k \<noteq> Some OHold)
    \<and> (op_at st j = Some OHold \<longrightarrow> op_at st k = Some OHold \<longrightarrow> j = k)"
proof -
  have inv: "lock_inv st" by (rule rc_lock.inv_reach [OF assms])
  show ?thesis using lock_unique [OF inv, of ByDriver "ByOp k"] lock_unique [OF inv, of "ByOp j" "ByOp k"] by auto
qed

text \<open>
  C16: In orderly runs (\<open>solo\<close>: lifecycle operations do not overlap, an initialization starts on an idle
  coordinator, and no shutdown gives up waiting for leases or for the driver) a lifecycle operation has the
  engines to itself. From the moment it waits for the operation lock until it has published its result there
  is no driver task, so neither a load nor the driver's best-effort cleanup after a failed load, which takes
  no lock, can run beside it; no other operation is under way; admission is closed and the queue is empty.
\<close>

theorem mac_engine_exclusive:
  assumes "reach (\<lambda>st. st = resid_start) (solo_step g) st"
    and "op_at st k \<in> {Some OLock, Some OHold, Some (OEnd m)}"
  shows "rz_driver st = None \<and> (\<forall>j. j \<noteq> k \<longrightarrow> op_at st j \<in> {None, Some ODone})
    \<and> \<not> rz_accepting st \<and> rz_queue st = []"
proof -
  obtain pc where pc: "op_at st k = Some pc" "pc \<in> {OLock, OHold, OEnd m}" using assms(2) by auto
  have inv: "solo_inv st" using rc_solo.inv_reach [OF assms(1)] by simp
  have "pc \<noteq> ODone" using pc(2) by auto
  note o = solo_invD(4) [OF inv pc(1) this]
  have "driver_number st = None" using o pc(2) by (auto simp: op_fine_def)
  then have "rz_driver st = None" by (simp add: driver_number_def)
  moreover have "op_at st j \<in> {None, Some ODone}" if "j \<noteq> k" for j using o that by (auto simp: active_op_def)
  ultimately show ?thesis using o by blast
qed

theorem mac_engine_exclusive_witness:
  "op_at (demo_resid demo_unloading) 1 = Some OHold \<and> rz_driver (demo_resid demo_unloading) = None
     \<and> op_at (demo_resid demo_unloading) 0 \<in> {None, Some ODone}"
  using mac_engine_exclusive [OF demo_unloading_reach, of 1 True] demo_unloading_at by auto

text \<open>
  C4: In orderly runs (\<open>solo\<close>: lifecycle operations do not overlap, an initialization starts on an idle
  coordinator, and no shutdown gives up waiting for leases or for the driver) no engine is worked on under a
  permit: while the driver changes the resident or cleans up after a failed load, and while an operation is
  inside its engine section, the count in flight is zero and no call has a permit of any epoch. The
  restriction is needed: see \<open>overlapping_barriers_lose_a_lease\<close> and \<open>shutdown_gives_up\<close>.
\<close>

theorem mac_engine_quiescent:
  assumes "reach (\<lambda>st. st = resid_start) (solo_step g) st"
    and "driver_at st \<in> {Some (DHolding t), Some (DCleanup t)} \<or> op_at st k = Some OHold"
  shows "rz_inflight st = 0 \<and> (\<forall>i e. call_at st i \<notin> {Some (CGranted e), Some (CLeased e)})"
proof -
  have inv: "solo_inv st" using rc_solo.inv_reach [OF assms(1)] by simp
  have n: "rz_inflight st = 0"
    using assms(2) solo_invD(3) [OF inv] solo_invD(4) [OF inv, of k OHold] driver_pc_working [of st t]
    by (auto simp: work_ok_def op_fine_def)
  have "\<not> claims e c" if "c \<in> set (rz_calls st)" for c e
    using exact_none [of "rz_calls st" "rz_epoch st" "rz_resident st" "rz_epoch st" None] solo_invD(2) [OF inv] n that
    by (auto simp: exact_inv_def exact_ok_def)
  then show ?thesis using n by (force simp: call_at_def phase_of_def claims_def split: if_splits)
qed

theorem mac_engine_quiescent_witness:
  "rz_inflight (demo_resid demo_loading) = 0 \<and> call_at (demo_resid demo_loading) 0 \<noteq> Some (CLeased 0)"
  using mac_engine_quiescent [OF demo_loading_reach, of "demo_resident ''a''" 0] demo_facts(1) by auto

text \<open>
  C10: In orderly runs (\<open>solo\<close>: lifecycle operations do not overlap, an initialization starts on an idle
  coordinator, and no shutdown gives up waiting for leases or for the driver) the count in flight is exactly
  the number of granted permits and leases, and each of them is of the current epoch, for a call whose load
  identity is the resident model's.
\<close>

theorem mac_permits_on_resident:
  assumes "reach (\<lambda>st. st = resid_start) (solo_step g) st"
  shows "rz_inflight st = live st \<and> (call_at st i \<in> {Some (CGranted e), Some (CLeased e)} \<longrightarrow>
      e = rz_epoch st \<and> (\<exists>r. rz_resident st = Some r \<and> effective_load_identity r = ident_of st i))"
proof (intro conjI)
  have inv: "exact_inv st" using rc_solo.inv_reach [OF assms(1)] solo_invD(2) by blast
  show "rz_inflight st = live st" using inv by (simp add: exact_inv_def exact_ok_def live_def)
  show "call_at st i \<in> {Some (CGranted e), Some (CLeased e)} \<longrightarrow>
      e = rz_epoch st \<and> (\<exists>r. rz_resident st = Some r \<and> effective_load_identity r = ident_of st i)"
    using claim_exact [OF inv [unfolded exact_inv_def], of i e]
    by (auto simp: call_at_def phase_of_def claims_def ident_of_def split: if_splits)
qed

theorem mac_permits_on_resident_witness:
  "call_at (demo_resid demo_serving) 1 = Some (CLeased 1) \<and> live (demo_resid demo_serving) = 2
   \<and> effective_load_identity (demo_resident ''a'') = ident_of (demo_resid demo_serving) 1"
  using mac_permits_on_resident [OF demo_serving_reach] demo_facts by auto

text \<open>
  C15: With an accepted configuration, in every run the queue never outgrows \<open>max_queue_depth\<close>, the live permits
  never outnumber the count in flight, and a step that hands out permits leaves the count within the
  effective concurrency limit of the resident model.
\<close>

theorem mac_admission_bounded:
  assumes "resid_config_error g = None" and "reach (\<lambda>st. st = resid_start) (resid_step g) st"
    and "resid_step g ev st = Some st'"
  shows "int (length (rz_queue st')) \<le> rf_max_queue_depth g \<and> live st' \<le> rz_inflight st'
    \<and> (rz_inflight st < rz_inflight st' \<longrightarrow>
        (\<exists>r. rz_resident st = Some r
          \<and> rz_inflight st' \<le> mac_effective_limit (rf_adapters g) (rz_omlx_hint st) (rf_configured_max_concurrency g) r))"
proof -
  note r' = reach_step [OF assms(2,3)]
  have d: "1 \<le> rf_max_queue_depth g" using assms(1) by (auto simp: resid_config_error_def split: if_splits)
  have ci: "calls_inv st" by (rule rc_calls.inv_reach [OF assms(2)])
  have h: "hint_ok (rz_omlx_hint st)" using rc_front.inv_reach [OF assms(2)] by (simp add: front_inv_def)
  have "int (length (rz_queue st')) \<le> rf_max_queue_depth g" using rc_front.inv_reach [OF r'] d by (simp add: front_inv_def)
  moreover have "live st' \<le> rz_inflight st'"
    using calls_okD(3) rc_calls.inv_reach [OF r'] by (auto simp: calls_inv_def live_def)
  ultimately show ?thesis using permits_granted [OF assms(1) ci h assms(3)] by blast
qed

theorem mac_admission_bounded_witness:
  "\<exists>st st'. resid_step demo_resid_config DriverTurn st = Some st' \<and> rz_inflight st < rz_inflight st'
     \<and> rz_inflight st' = 1 \<and> 1 \<le> mac_effective_limit [LLAMA_CPP] None None (demo_resident ''a'')"
proof -
  let ?st = "demo_resid (demo_loading @ [DriverLoaded, DriverPublish])"
  have r: "reach (\<lambda>st. st = resid_start) (solo_step demo_resid_config) ?st" by (rule demo_solo_reach) code_simp
  have f: "resid_step demo_resid_config DriverTurn ?st \<noteq> None" "rz_inflight ?st = 0"
    "rz_inflight (the (resid_step demo_resid_config DriverTurn ?st)) = 1" "rz_omlx_hint ?st = None"
    "rz_resident ?st = Some (demo_resident ''a'')" "resid_config_error demo_resid_config = None"
    "rf_adapters demo_resid_config = [LLAMA_CPP]" "rf_configured_max_concurrency demo_resid_config = None" by code_simp+
  then obtain st' where s: "resid_step demo_resid_config DriverTurn ?st = Some st'" by auto
  from mac_admission_bounded [OF f(6) solo_reach [OF r] s] f s show ?thesis by force
qed

text \<open>
  C17: No waiting call is forgotten: in every run a call whose future is pending is in the queue, a driver task
  exists to serve it, and the coordinator is not stopping.
\<close>

theorem mac_waiter_attended:
  assumes "reach (\<lambda>st. st = resid_start) (resid_step g) st" and "call_at st i = Some CQueued"
  shows "i \<in> set (rz_queue st) \<and> rz_driver st \<noteq> None \<and> \<not> rz_stopping st"
proof -
  have "i \<in> set (rz_queue st)"
    using rc_calls.inv_reach [OF assms(1)] assms(2)
    by (auto simp: calls_inv_def calls_ok_def call_at_def phase_of_def split: if_splits)
  moreover from this have "rz_queue st \<noteq> []" by auto
  ultimately show ?thesis using rc_front.inv_reach [OF assms(1)] by (simp add: front_inv_def)
qed

theorem mac_waiter_attended_witness:
  "call_at (demo_resid demo_serving) 2 = Some CQueued \<and> rz_driver (demo_resid demo_serving) \<noteq> None"
  using mac_waiter_attended [OF solo_reach [OF demo_serving_reach] demo_facts(6)] demo_facts(6) by simp

section \<open>Runs that are not orderly\<close>

text \<open>
  A shutdown whose grace expires goes on, on purpose: it stops the engines although a lease is live, and it
  enters its engine section although the driver, which it has only cancelled, is still cleaning up.
\<close>

definition demo_grace :: "resid_event list" where
  "demo_grace =
     demo_loading @ [DriverLoaded, DriverPublish, DriverTurn, Collect 0, OpStart OpShutdown, DrainTimeout 1,
       DriverCancelled, DriverFinally, DriverSettled 1, OpLocked 1]"

lemma shutdown_gives_up:
  "\<exists>st. reach (\<lambda>st. st = resid_start) (resid_step demo_resid_config) st
     \<and> op_at st 1 = Some OHold \<and> call_at st 0 = Some (CLeased (rz_epoch st)) \<and> rz_inflight st = 1"
proof -
  let ?r = "run (resid_step demo_resid_config) demo_grace resid_start"
  have f: "?r \<noteq> None" "op_at (the ?r) 1 = Some OHold" "call_at (the ?r) 0 = Some (CLeased (rz_epoch (the ?r)))"
    "rz_inflight (the ?r) = 1" by code_simp+
  have "reach (\<lambda>st. st = resid_start) (resid_step demo_resid_config) (the ?r)"
    using reach_run [of "\<lambda>st. st = resid_start" "resid_step demo_resid_config" resid_start demo_grace, OF reach_init] f(1) by auto
  then show ?thesis using f by blast
qed

definition demo_cleanup_race :: "resid_event list" where
  "demo_cleanup_race = demo_loading @ [DriverFailed, OpStart OpShutdown, AwaitTimeout 1, OpLocked 1]"

lemma cleanup_meets_shutdown:
  "\<exists>st. reach (\<lambda>st. st = resid_start) (resid_step demo_resid_config) st
     \<and> op_at st 1 = Some OHold \<and> driver_at st = Some (DCleanup (demo_resident ''a''))"
proof -
  let ?r = "run (resid_step demo_resid_config) demo_cleanup_race resid_start"
  have f: "?r \<noteq> None" "op_at (the ?r) 1 = Some OHold" "driver_at (the ?r) = Some (DCleanup (demo_resident ''a''))" by code_simp+
  have "reach (\<lambda>st. st = resid_start) (resid_step demo_resid_config) (the ?r)"
    using reach_run [of "\<lambda>st. st = resid_start" "resid_step demo_resid_config" resid_start demo_cleanup_race, OF reach_init] f(1) by auto
  then show ?thesis using f by blast
qed

text \<open>Overlapping operations.\<close>

text \<open>
  An unload that gives up draining reopens admission although a maintenance operation is draining too. The
  maintenance operation has seen the count at zero, a call enters on the warm model, and the operation
  unloads the engine under the call's lease.
\<close>

definition demo_overlap :: "resid_event list" where
  "demo_overlap =
     demo_loading @
     [DriverLoaded, DriverPublish, DriverTurn, Collect 0, DriverTurn, DriverFinally,
      OpStart OpUnload, OpStart OpMaintenance, DrainTimeout 1, Release 0 0, DrainWake 2, Acquire (demo_resident ''a''),
      DriverSettled 2, OpLocked 2]"

lemma overlapping_barriers_lose_a_lease:
  "\<exists>st. reach (\<lambda>st. st = resid_start) (resid_step demo_resid_config) st
     \<and> op_at st 2 = Some OHold \<and> call_at st 1 = Some (CLeased (rz_epoch st)) \<and> rz_inflight st = 1"
proof -
  let ?r = "run (resid_step demo_resid_config) demo_overlap resid_start"
  have f: "?r \<noteq> None" "op_at (the ?r) 2 = Some OHold" "call_at (the ?r) 1 = Some (CLeased (rz_epoch (the ?r)))"
    "rz_inflight (the ?r) = 1" by code_simp+
  have "reach (\<lambda>st. st = resid_start) (resid_step demo_resid_config) (the ?r)"
    using reach_run [of "\<lambda>st. st = resid_start" "resid_step demo_resid_config" resid_start demo_overlap, OF reach_init] f(1) by auto
  then show ?thesis using f by blast
qed

end
