(* ===== verification/Usage_Outbox.thy ===== *)
theory Usage_Outbox
  imports Prelude Py_Values
begin

text \<open>
  The delivery of usage rows to the central Postgres ledger, which both node managers share in shape: an
  outbox table in SQLite (\<open>src/catalog.py\<close>, lines 956-1034, and the service's \<open>usage_store.py\<close>), a writer
  that inserts a batch with \<open>ON CONFLICT (event_id) DO NOTHING\<close> (\<open>src/pg_writer.py\<close> and the service's
  \<open>usage_delivery.py\<close>), and the loop that peeks, writes and acknowledges. Rows of a table are in the order
  of their \<open>id\<close>, which SQLite assigns increasingly. Clocks and milliseconds are rationals.
\<close>

section \<open>The outbox table\<close>

record outbox_row =
  ob_event_id :: string
  ob_ts :: rat
  ob_requested_model :: "string option"
  ob_alias :: "string option"
  ob_backend :: "string option"
  ob_endpoint :: string
  ob_streamed :: bool
  ob_prompt_tokens :: int
  ob_completion_tokens :: int
  ob_total_tokens :: int
  ob_response_ms :: rat
  ob_status_code :: int

record outbox =
  bx_rows :: "(int \<times> outbox_row) list"
  bx_next_id :: int

definition empty_outbox :: outbox where
  "empty_outbox = \<lparr>bx_rows = [], bx_next_id = 1\<rparr>"

definition outbox_events :: "outbox \<Rightarrow> string list" where
  "outbox_events b = map (\<lambda>r. ob_event_id (snd r)) (bx_rows b)"

text \<open>\<open>INSERT \<dots> ON CONFLICT(event_id) DO NOTHING\<close>, one row and a batch.\<close>

definition outbox_insert :: "outbox_row \<Rightarrow> outbox \<Rightarrow> outbox" where
  "outbox_insert r b =
     (if ob_event_id r \<in> set (outbox_events b) then b
      else b\<lparr>bx_rows := bx_rows b @ [(bx_next_id b, r)], bx_next_id := bx_next_id b + 1\<rparr>)"

definition enqueue_outbox :: "outbox_row list \<Rightarrow> outbox \<Rightarrow> outbox" where
  "enqueue_outbox rows b = fold outbox_insert rows b"

definition peek_outbox :: "int \<Rightarrow> outbox \<Rightarrow> (int \<times> outbox_row) list" where
  "peek_outbox limit b = (if limit \<le> 0 then [] else take (nat limit) (bx_rows b))"

definition delete_outbox :: "int list \<Rightarrow> outbox \<Rightarrow> outbox" where
  "delete_outbox ids b = b\<lparr>bx_rows := filter (\<lambda>r. fst r \<notin> set ids) (bx_rows b)\<rparr>"

definition count_outbox :: "outbox \<Rightarrow> int" where
  "count_outbox b = int (length (bx_rows b))"

text \<open>Drop the oldest rows until \<open>keep\<close> remain: \<open>ORDER BY id DESC LIMIT -1 OFFSET keep\<close>.\<close>

definition prune_outbox :: "int \<Rightarrow> outbox \<Rightarrow> outbox" where
  "prune_outbox keep b =
     (let stale = map fst (drop (nat (max 0 keep)) (rev (bx_rows b)))
      in b\<lparr>bx_rows := filter (\<lambda>r. fst r \<notin> set stale) (bx_rows b)\<rparr>)"

section \<open>The central ledger\<close>

record ledger_row =
  lr_event_id :: string
  lr_timestamp_us :: int
  lr_node_id :: string
  lr_model :: string
  lr_prompt_tokens :: int
  lr_completion_tokens :: int
  lr_total_tokens :: int
  lr_response_ms :: rat
  lr_endpoint :: string
  lr_status_code :: int

text \<open>\<open>datetime.fromtimestamp\<close> rounds to microseconds, half to even.\<close>

definition ledger_params :: "string \<Rightarrow> outbox_row \<Rightarrow> ledger_row" where
  "ledger_params node_id r =
     \<lparr>lr_event_id = ob_event_id r, lr_timestamp_us = round_half_even (ob_ts r * 1000000), lr_node_id = node_id,
      lr_model = (case ob_alias r of
          Some (c # cs) \<Rightarrow> c # cs
        | _ \<Rightarrow> (case ob_requested_model r of Some (c # cs) \<Rightarrow> c # cs | _ \<Rightarrow> ''unknown'')),
      lr_prompt_tokens = ob_prompt_tokens r, lr_completion_tokens = ob_completion_tokens r,
      lr_total_tokens = ob_total_tokens r, lr_response_ms = ob_response_ms r, lr_endpoint = ob_endpoint r,
      lr_status_code = ob_status_code r\<rparr>"

definition ledger_insert :: "ledger_row \<Rightarrow> ledger_row list \<Rightarrow> ledger_row list" where
  "ledger_insert p ledger = (if lr_event_id p \<in> lr_event_id ` set ledger then ledger else ledger @ [p])"

definition ledger_insert_all :: "ledger_row list \<Rightarrow> ledger_row list \<Rightarrow> ledger_row list" where
  "ledger_insert_all ps ledger = fold ledger_insert ps ledger"

text \<open>
  The connection commits every row by itself, so a batch that fails, or whose success the client never
  learns of, leaves a prefix of its rows in the ledger.
\<close>

datatype write_outcome = Written | WriteFailed nat

fun write_batch :: "write_outcome \<Rightarrow> string \<Rightarrow> outbox_row list \<Rightarrow> ledger_row list \<Rightarrow> ledger_row list" where
  "write_batch Written node_id rows ledger = ledger_insert_all (map (ledger_params node_id) rows) ledger"
| "write_batch (WriteFailed k) node_id rows ledger = ledger_insert_all (map (ledger_params node_id) (take k rows)) ledger"

section \<open>Delivery\<close>

text \<open>
  The outbox, the batch that a flush has peeked and not yet settled, the ledger, and as history the
  events that pruning has dropped.
\<close>

record outbox_delivery =
  dl_outbox :: outbox
  dl_pending :: "(int \<times> outbox_row) list"
  dl_ledger :: "ledger_row list"
  dl_pruned :: "string list"

definition prune_delivery :: "int \<Rightarrow> outbox_delivery \<Rightarrow> outbox_delivery" where
  "prune_delivery keep d =
     (let b = prune_outbox keep (dl_outbox d)
      in d\<lparr>dl_outbox := b,
           dl_pruned := dl_pruned d @ filter (\<lambda>e. e \<notin> set (outbox_events b)) (outbox_events (dl_outbox d))\<rparr>)"

definition begin_flush :: "int \<Rightarrow> outbox_delivery \<Rightarrow> outbox_delivery" where
  "begin_flush batch_size d = d\<lparr>dl_pending := peek_outbox batch_size (dl_outbox d)\<rparr>"

definition end_flush :: "write_outcome \<Rightarrow> string \<Rightarrow> outbox_delivery \<Rightarrow> outbox_delivery" where
  "end_flush out node_id d =
     (let d1 = d\<lparr>dl_ledger := write_batch out node_id (map snd (dl_pending d)) (dl_ledger d), dl_pending := []\<rparr>
      in case out of
           Written \<Rightarrow> d1\<lparr>dl_outbox := delete_outbox (map fst (dl_pending d)) (dl_outbox d)\<rparr>
         | WriteFailed k \<Rightarrow> d1)"

definition enqueue_delivery :: "outbox_row list \<Rightarrow> outbox_delivery \<Rightarrow> outbox_delivery" where
  "enqueue_delivery rows d = d\<lparr>dl_outbox := enqueue_outbox rows (dl_outbox d)\<rparr>"

section \<open>Lemmas\<close>

text \<open>
  The invariant of the delivery for the rows \<open>sent\<close> that were ever handed to it: identifiers increase,
  events are unique, outbox, pending batch and ledger hold only rows that were handed over, and
  every row handed over is in the outbox, in the ledger or among those pruned.
\<close>

definition row_of :: "outbox_row list \<Rightarrow> outbox_row \<Rightarrow> bool" where
  "row_of sent r = (r \<in> set sent)"

definition outbox_ok :: "outbox \<Rightarrow> bool" where
  "outbox_ok b =
     (sorted_wrt (<) (map fst (bx_rows b)) \<and> list_all (\<lambda>r. fst r < bx_next_id b) (bx_rows b)
      \<and> distinct (outbox_events b))"

text \<open>A pending row is older than what comes next, and a row of the table with its \<open>id\<close> is that row.\<close>

definition pending_ok :: "outbox \<Rightarrow> (int \<times> outbox_row) list \<Rightarrow> bool" where
  "pending_ok b pending =
     list_all (\<lambda>s. fst s < bx_next_id b \<and> list_all (\<lambda>r. fst s = fst r \<longrightarrow> s = r) (bx_rows b)) pending"

definition delivery_inv :: "string \<Rightarrow> outbox_row list \<Rightarrow> outbox_delivery \<Rightarrow> bool" where
  "delivery_inv node_id sent d =
     (outbox_ok (dl_outbox d) \<and> set (map snd (bx_rows (dl_outbox d))) \<subseteq> set sent
      \<and> set (map snd (dl_pending d)) \<subseteq> set sent \<and> pending_ok (dl_outbox d) (dl_pending d)
      \<and> distinct (map lr_event_id (dl_ledger d)) \<and> set (dl_ledger d) \<subseteq> ledger_params node_id ` set sent
      \<and> list_all (\<lambda>r. ob_event_id r \<in> set (outbox_events (dl_outbox d)) \<or> ob_event_id r \<in> lr_event_id ` set (dl_ledger d)
                     \<or> ob_event_id r \<in> set (dl_pruned d)) sent)"

lemma pending_ok_mono:
  assumes "pending_ok b pending" and "bx_next_id b \<le> bx_next_id b'"
    and "\<And>x. x \<in> set (bx_rows b') \<Longrightarrow> x \<in> set (bx_rows b) \<or> bx_next_id b \<le> fst x"
  shows "pending_ok b' pending"
  unfolding pending_ok_def list_all_iff
proof (intro ballI conjI impI)
  fix s assume s: "s \<in> set pending"
  have lt: "fst s < bx_next_id b" using assms(1) s unfolding pending_ok_def list_all_iff by blast
  then show "fst s < bx_next_id b'" using assms(2) by simp
  fix x assume x: "x \<in> set (bx_rows b')" and eq: "fst s = fst x"
  have "x \<in> set (bx_rows b)" using assms(3) [OF x] lt eq by auto
  then show "s = x" using assms(1) s eq unfolding pending_ok_def list_all_iff by blast
qed

lemma pending_ok_subset:
  "pending_ok b pending \<Longrightarrow> bx_next_id b' = bx_next_id b \<Longrightarrow> set (bx_rows b') \<subseteq> set (bx_rows b) \<Longrightarrow> pending_ok b' pending"
  by (rule pending_ok_mono) auto

lemma pending_ok_Nil [simp]: "pending_ok b []"
  by (simp add: pending_ok_def)

lemma delivery_invD:
  assumes "delivery_inv n sent d"
  shows "outbox_ok (dl_outbox d)" and "snd ` set (bx_rows (dl_outbox d)) \<subseteq> set sent"
    and "snd ` set (dl_pending d) \<subseteq> set sent" and "pending_ok (dl_outbox d) (dl_pending d)"
    and "distinct (map lr_event_id (dl_ledger d))" and "set (dl_ledger d) \<subseteq> ledger_params n ` set sent"
  using assms by (simp_all add: delivery_inv_def)

lemma ledger_params_id [simp]: "lr_event_id (ledger_params n r) = ob_event_id r"
  by (simp add: ledger_params_def)

lemma ledger_insert_simps [simp]:
  "lr_event_id ` set (ledger_insert p ledger) = insert (lr_event_id p) (lr_event_id ` set ledger)"
  "distinct (map lr_event_id (ledger_insert p ledger)) \<longleftrightarrow> distinct (map lr_event_id ledger)"
  by (auto simp: ledger_insert_def)

lemma ledger_insert_all_simps [simp]:
  "lr_event_id ` set (ledger_insert_all ps ledger) = lr_event_id ` set ps \<union> lr_event_id ` set ledger"
  "distinct (map lr_event_id (ledger_insert_all ps ledger)) \<longleftrightarrow> distinct (map lr_event_id ledger)"
  unfolding ledger_insert_all_def by (induction ps arbitrary: ledger) auto

lemma ledger_insert_all_from: "set (ledger_insert_all ps ledger) \<subseteq> set ps \<union> set ledger"
  and ledger_insert_all_keeps: "set ledger \<subseteq> set (ledger_insert_all ps ledger)"
proof -
  have step: "set l \<subseteq> set (ledger_insert p l)" "set (ledger_insert p l) \<subseteq> insert p (set l)" for p l
    by (auto simp: ledger_insert_def)
  show "set (ledger_insert_all ps ledger) \<subseteq> set ps \<union> set ledger"
    unfolding ledger_insert_all_def
  proof (induction ps arbitrary: ledger)
    case (Cons p ps)
    then show ?case using Cons.IH [of "ledger_insert p ledger"] step(2) [of p ledger] by auto
  qed simp
  show "set ledger \<subseteq> set (ledger_insert_all ps ledger)"
    unfolding ledger_insert_all_def
  proof (induction ps arbitrary: ledger)
    case (Cons p ps)
    then show ?case using Cons.IH [of "ledger_insert p ledger"] step(1) [of ledger p] by auto
  qed simp
qed

lemma outbox_insert_events: "set (outbox_events (outbox_insert r b)) = insert (ob_event_id r) (set (outbox_events b))"
  by (auto simp: outbox_insert_def outbox_events_def)

lemma outbox_insert_ok: "outbox_ok b \<Longrightarrow> outbox_ok (outbox_insert r b)"
  by (auto simp: outbox_ok_def outbox_insert_def outbox_events_def sorted_wrt_append list_all_iff)

lemma enqueue_ok: "outbox_ok b \<Longrightarrow> outbox_ok (enqueue_outbox rows b)"
  unfolding enqueue_outbox_def by (induction rows arbitrary: b) (auto intro: outbox_insert_ok)

lemma enqueue_events: "set (outbox_events (enqueue_outbox rows b)) = ob_event_id ` set rows \<union> set (outbox_events b)"
  unfolding enqueue_outbox_def by (induction rows arbitrary: b) (auto simp: outbox_insert_events)

lemma filter_outbox_ok: "outbox_ok b \<Longrightarrow> outbox_ok (b\<lparr>bx_rows := filter P (bx_rows b)\<rparr>)"
  by (auto simp: outbox_ok_def outbox_events_def list_all_iff sorted_wrt_map distinct_map inj_on_def intro: sorted_wrt_filter)

lemma prune_rows:
  assumes "outbox_ok b"
  shows "bx_rows (prune_outbox keep b) = drop (length (bx_rows b) - nat (max 0 keep)) (bx_rows b)"
proof -
  let ?rows = "bx_rows b" and ?n = "length (bx_rows b) - nat (max 0 keep)"
  have d: "distinct (map fst (take ?n ?rows @ drop ?n ?rows))"
    using assms by (simp add: outbox_ok_def strict_sorted_imp_sorted strict_sorted_iff)
  have stale: "set (map fst (drop (nat (max 0 keep)) (rev ?rows))) = fst ` set (take ?n ?rows)"
    by (simp add: drop_rev)
  have "filter (\<lambda>r. fst r \<notin> fst ` set (take ?n ?rows)) (take ?n ?rows @ drop ?n ?rows) = drop ?n ?rows"
    using d unfolding map_append distinct_append filter_append by (auto simp: filter_empty_conv filter_id_conv)
  then show ?thesis unfolding prune_outbox_def Let_def stale by simp
qed

lemma prune_bounded: "outbox_ok b \<Longrightarrow> count_outbox (prune_outbox keep b) = min (max 0 keep) (count_outbox b)"
  by (simp add: prune_rows count_outbox_def)

lemma prune_ok: "outbox_ok b \<Longrightarrow> outbox_ok (prune_outbox keep b)"
  unfolding prune_outbox_def Let_def by (rule filter_outbox_ok)

lemma prune_next [simp]: "bx_next_id (prune_outbox keep b) = bx_next_id b"
  by (simp add: prune_outbox_def Let_def)

lemma prune_subset: "set (bx_rows (prune_outbox keep b)) \<subseteq> set (bx_rows b)"
  by (auto simp: prune_outbox_def Let_def)

lemma prune_delivery_inv: "delivery_inv n sent d \<Longrightarrow> delivery_inv n sent (prune_delivery keep d)"
  using prune_subset [of keep "dl_outbox d"] pending_ok_subset [of "dl_outbox d" "dl_pending d" "prune_outbox keep (dl_outbox d)"]
  by (auto simp: delivery_inv_def prune_delivery_def Let_def prune_ok list_all_iff)

lemma begin_flush_inv: "delivery_inv n sent d \<Longrightarrow> delivery_inv n sent (begin_flush batch d)"
proof -
  assume inv: "delivery_inv n sent d"
  let ?b = "dl_outbox d" and ?p = "peek_outbox batch (dl_outbox d)"
  have sub: "set ?p \<subseteq> set (bx_rows ?b)" by (auto simp: peek_outbox_def dest: in_set_takeD)
  have "inj_on fst (set (bx_rows ?b))" and lt: "\<And>x. x \<in> set (bx_rows ?b) \<Longrightarrow> fst x < bx_next_id ?b"
    using inv by (simp_all add: delivery_inv_def outbox_ok_def strict_sorted_iff distinct_map list_all_iff)
  then have "pending_ok ?b ?p" using sub unfolding pending_ok_def list_all_iff by (meson inj_onD subsetD)
  moreover have "set (map snd ?p) \<subseteq> set sent"
    using delivery_invD(2) [OF inv] image_mono [OF sub, of snd] by (simp add: order.trans)
  ultimately show ?thesis using inv unfolding delivery_inv_def begin_flush_def by simp
qed

lemma enqueue_next: "bx_next_id b \<le> bx_next_id (enqueue_outbox rows b)"
  unfolding enqueue_outbox_def
proof (induction rows arbitrary: b)
  case (Cons r rows)
  have "bx_next_id b \<le> bx_next_id (outbox_insert r b)" by (simp add: outbox_insert_def)
  then show ?case using Cons.IH [of "outbox_insert r b"] by simp
qed simp

lemma enqueue_new:
  "x \<in> set (bx_rows (enqueue_outbox rows b)) \<Longrightarrow> x \<in> set (bx_rows b) \<or> (bx_next_id b \<le> fst x \<and> snd x \<in> set rows)"
  unfolding enqueue_outbox_def
proof (induction rows arbitrary: b)
  case (Cons r rows)
  from Cons.IH [of "outbox_insert r b"] Cons.prems show ?case
    by (auto simp: outbox_insert_def split: if_splits)
qed simp

lemma enqueue_delivery_inv:
  assumes "delivery_inv n sent d"
  shows "delivery_inv n (sent @ rows) (enqueue_delivery rows d)"
proof -
  let ?b = "dl_outbox d" and ?b' = "enqueue_outbox rows (dl_outbox d)"
  note r = enqueue_next [of ?b rows]
  have new: "x \<in> set (bx_rows ?b) \<or> (bx_next_id ?b \<le> fst x \<and> snd x \<in> set rows)" if "x \<in> set (bx_rows ?b')" for x
    using enqueue_new [OF that] .
  have "outbox_ok ?b'" using assms by (simp add: delivery_inv_def enqueue_ok)
  moreover have "set (map snd (bx_rows ?b')) \<subseteq> set (sent @ rows)" using new assms by (auto simp: delivery_inv_def)
  moreover have "pending_ok ?b' (dl_pending d)"
    by (rule pending_ok_mono [of ?b]) (use assms r new in \<open>auto simp: delivery_inv_def\<close>)
  moreover have "set (dl_ledger d) \<subseteq> ledger_params n ` set (sent @ rows)" using assms by (auto simp: delivery_inv_def)
  ultimately show ?thesis using assms enqueue_events [of rows ?b]
    by (auto simp: delivery_inv_def enqueue_delivery_def list_all_iff)
qed

lemma end_flush_inv:
  assumes "delivery_inv n sent d"
  shows "delivery_inv n sent (end_flush out n d)"
proof -
  let ?rows = "map snd (dl_pending d)"
  define rows where "rows = (case out of Written \<Rightarrow> ?rows | WriteFailed k \<Rightarrow> take k ?rows)"
  have w: "write_batch out n ?rows (dl_ledger d) = ledger_insert_all (map (ledger_params n) rows) (dl_ledger d)"
    by (cases out) (simp_all add: rows_def)
  have all: "out = Written \<Longrightarrow> rows = ?rows" by (simp add: rows_def)
  have sub: "set rows \<subseteq> set ?rows" using set_take_subset by (cases out) (auto simp: rows_def dest: in_set_takeD)
  have "set rows \<subseteq> set sent" using sub delivery_invD(3) [OF assms] by simp
  then have "ledger_params n ` set rows \<subseteq> ledger_params n ` set sent" by (rule image_mono)
  then have ps: "set (ledger_insert_all (map (ledger_params n) rows) (dl_ledger d)) \<subseteq> ledger_params n ` set sent"
    using ledger_insert_all_from [of "map (ledger_params n) rows" "dl_ledger d"] delivery_invD(6) [OF assms]
    unfolding set_map by (meson Un_least order.trans)
  have ev: "lr_event_id ` set (ledger_insert_all (map (ledger_params n) rows) (dl_ledger d))
      = ob_event_id ` set rows \<union> lr_event_id ` set (dl_ledger d)" by (simp add: image_image)
  show ?thesis
  proof (cases out)
    case (WriteFailed k)
    then show ?thesis using assms ps ev w by (auto simp: delivery_inv_def end_flush_def Let_def list_all_iff)
  next
    case Written
    let ?b = "dl_outbox d" and ?ids = "map fst (dl_pending d)"
    have kept: "ob_event_id (snd r) \<in> ob_event_id ` set rows" if "r \<in> set (bx_rows ?b)" "fst r \<in> set ?ids" for r
    proof -
      from that(2) obtain s where s: "s \<in> set (dl_pending d)" "fst s = fst r" by auto
      then have "s = r" using assms that(1) unfolding delivery_inv_def pending_ok_def list_all_iff by blast
      then show ?thesis using s(1) all [OF Written] by force
    qed
    have "outbox_ok (delete_outbox ?ids ?b)" using assms
      unfolding delete_outbox_def by (intro filter_outbox_ok) (simp add: delivery_inv_def)
    moreover have "set (bx_rows (delete_outbox ?ids ?b)) \<subseteq> set (bx_rows ?b)" by (auto simp: delete_outbox_def)
    moreover have "set (outbox_events ?b) \<subseteq> set (outbox_events (delete_outbox ?ids ?b)) \<union> ob_event_id ` set rows"
    proof
      fix e assume "e \<in> set (outbox_events ?b)"
      then obtain r where r: "r \<in> set (bx_rows ?b)" "e = ob_event_id (snd r)" by (auto simp: outbox_events_def)
      show "e \<in> set (outbox_events (delete_outbox ?ids ?b)) \<union> ob_event_id ` set rows"
      proof (cases "fst r \<in> set ?ids")
        case True
        then show ?thesis using kept [OF r(1)] r(2) by simp
      next
        case False
        then show ?thesis using r by (auto simp: outbox_events_def delete_outbox_def)
      qed
    qed
    moreover have "snd ` set (bx_rows (delete_outbox ?ids ?b)) \<subseteq> set sent"
      using calculation(2) delivery_invD(2) [OF assms] by blast
    ultimately show ?thesis using assms ps ev w Written
      by (auto simp: delivery_inv_def end_flush_def Let_def list_all_iff)
  qed
qed

text \<open>A flush that is written acknowledges exactly the rows it has peeked, the oldest ones.\<close>

lemma delete_take:
  assumes "outbox_ok b"
  shows "bx_rows (delete_outbox (map fst (take k (bx_rows b))) b) = drop k (bx_rows b)"
proof -
  let ?rows = "bx_rows b"
  have d: "distinct (map fst (take k ?rows @ drop k ?rows))"
    using assms by (simp add: outbox_ok_def strict_sorted_iff)
  have "filter (\<lambda>r. fst r \<notin> fst ` set (take k ?rows)) (take k ?rows @ drop k ?rows) = drop k ?rows"
    using d unfolding map_append distinct_append filter_append by (auto simp: filter_empty_conv filter_id_conv)
  then show ?thesis by (simp add: delete_outbox_def)
qed

lemma flush_written:
  assumes "outbox_ok (dl_outbox d)" and "0 < batch"
  shows "bx_rows (dl_outbox (end_flush Written n (begin_flush batch d))) = drop (nat batch) (bx_rows (dl_outbox d))"
  using assms by (simp add: end_flush_def begin_flush_def Let_def peek_outbox_def delete_take)

lemma count_delete: "count_outbox (delete_outbox ids b) \<le> count_outbox b"
  by (simp add: count_outbox_def delete_outbox_def)

lemma count_insert: "count_outbox (outbox_insert r b) \<le> count_outbox b + 1"
  by (simp add: count_outbox_def outbox_insert_def)

lemma count_end_flush: "count_outbox (dl_outbox (end_flush out n d)) \<le> count_outbox (dl_outbox d)"
  by (cases out) (simp_all add: end_flush_def Let_def count_delete)

lemmas delivery_invs = prune_delivery_inv begin_flush_inv enqueue_delivery_inv end_flush_inv

lemma empty_delivery_inv: "delivery_inv n [] \<lparr>dl_outbox = empty_outbox, dl_pending = [], dl_ledger = [], dl_pruned = []\<rparr>"
  by (simp add: delivery_inv_def outbox_ok_def empty_outbox_def outbox_events_def)

end
