(* ===== verification/Usage_Ledger.thy ===== *)
theory Usage_Ledger
  imports Usage_Outbox Token_Usage Node_Config "HOL-Library.Multiset"
begin

text \<open>
  Accounting of finished requests on a CUDA node (\<open>src/vllm_manager.py\<close>, lines 225-250, 867-1002 and
  3206-3324, and \<open>bump_usage\<close> and \<open>record_usage_batch\<close> of \<open>src/catalog.py\<close>) and on a macOS node
  (\<open>record_batch\<close> of \<open>usage_store.py\<close> and \<open>UsageService\<close> of \<open>usage_delivery.py\<close>).

  A finished request becomes one entry with a fresh identifier. A worker thread stores it in one SQLite
  transaction (the analytics row, the totals of its model and, when the sidecar is enabled, the outbox
  row); where that fails, or its outcome is unknown, the entry waits in a retry queue that the next flush
  persists. The outbox is delivered as \<open>Usage_Outbox\<close> models it. One event of \<open>ledger_step\<close> is what runs
  between two suspension points, or one SQLite transaction; the outcomes of transactions and of writes to
  Postgres are chosen by the event. Clocks are rationals.
\<close>

section \<open>Entries and rows\<close>

record usage_entry =
  en_ts :: rat
  en_requested_model :: "string option"
  en_alias :: "string option"
  en_backend :: "string option"
  en_prompt_tokens :: int
  en_completion_tokens :: int
  en_total_tokens :: int
  en_usage_json :: "string option"
  en_event_id :: string
  en_endpoint :: string
  en_streamed :: bool
  en_response_ms :: rat
  en_status_code :: int

text \<open>What the proxy reports of a request, the arguments of \<open>_record_usage_row\<close>.\<close>

record usage_report =
  rp_requested_model :: "string option"
  rp_alias :: "string option"
  rp_backend :: "string option"
  rp_usage :: normalized_usage
  rp_endpoint :: string
  rp_streamed :: bool
  rp_response_ms :: rat
  rp_status_code :: int

fun text_or :: "string option \<Rightarrow> string \<Rightarrow> string" where
  "text_or (Some (c # cs)) d = c # cs"
| "text_or _ d = d"

definition make_usage_entry :: "usage_report \<Rightarrow> rat \<Rightarrow> string \<Rightarrow> usage_entry option" where
  "make_usage_entry r now uid =
     (if text_or (rp_alias r) [] = [] then None
      else Some \<lparr>en_ts = now, en_requested_model = rp_requested_model r, en_alias = rp_alias r,
        en_backend = Some (text_or (rp_backend r) ''vllm''), en_prompt_tokens = us_prompt_tokens (rp_usage r),
        en_completion_tokens = us_completion_tokens (rp_usage r), en_total_tokens = us_total_tokens (rp_usage r),
        en_usage_json = Some (json_text ascii_quoted (JObj (us_raw (rp_usage r)))), en_event_id = uid,
        en_endpoint = rp_endpoint r, en_streamed = rp_streamed r, en_response_ms = rp_response_ms r,
        en_status_code = rp_status_code r\<rparr>)"

record analytics_row =
  an_ts :: rat
  an_requested_model :: "string option"
  an_alias :: "string option"
  an_backend :: "string option"
  an_prompt_tokens :: int
  an_completion_tokens :: int
  an_total_tokens :: int
  an_usage_json :: "string option"

definition analytics_row_of :: "usage_entry \<Rightarrow> analytics_row" where
  "analytics_row_of e =
     \<lparr>an_ts = en_ts e, an_requested_model = en_requested_model e, an_alias = en_alias e, an_backend = en_backend e,
      an_prompt_tokens = en_prompt_tokens e, an_completion_tokens = en_completion_tokens e,
      an_total_tokens = en_total_tokens e, an_usage_json = en_usage_json e\<rparr>"

definition outbox_row_of :: "usage_entry \<Rightarrow> outbox_row" where
  "outbox_row_of e =
     \<lparr>ob_event_id = en_event_id e, ob_ts = en_ts e, ob_requested_model = en_requested_model e, ob_alias = en_alias e,
      ob_backend = en_backend e, ob_endpoint = en_endpoint e, ob_streamed = en_streamed e,
      ob_prompt_tokens = en_prompt_tokens e, ob_completion_tokens = en_completion_tokens e,
      ob_total_tokens = en_total_tokens e, ob_response_ms = en_response_ms e, ob_status_code = en_status_code e\<rparr>"

section \<open>The catalog's tables\<close>

text \<open>\<open>request_usage\<close> with its optional \<open>event_id\<close>, and the counters of \<open>models\<close>.\<close>

type_synonym usage_table = "(string option \<times> analytics_row) list"

record model_totals =
  tt_alias :: string
  tt_last_used_at :: "int option"
  tt_request_count :: int
  tt_prompt_tokens :: int
  tt_completion_tokens :: int

record catalog_db =
  ct_usage :: usage_table
  ct_models :: "model_totals list"

definition bump_usage :: "string \<Rightarrow> rat option \<Rightarrow> int \<Rightarrow> catalog_db \<Rightarrow> catalog_db" where
  "bump_usage alias last_used_at delta db =
     (case last_used_at of
        None \<Rightarrow> db
      | Some t \<Rightarrow>
          if delta \<le> 0 then db
          else db\<lparr>ct_models := map (\<lambda>m. if tt_alias m = alias
                 then m\<lparr>tt_last_used_at := Some (py_trunc t), tt_request_count := tt_request_count m + delta\<rparr> else m)
               (ct_models db)\<rparr>)"

text \<open>The sums of one batch by alias: prompt and completion tokens, and the latest time.\<close>

type_synonym usage_sums = "(string, int \<times> int \<times> rat) dict"

definition sums_for :: "usage_sums \<Rightarrow> string \<Rightarrow> int \<times> int \<times> rat" where
  "sums_for agg alias = (case dict_get agg alias of None \<Rightarrow> (0, 0, 0) | Some s \<Rightarrow> s)"

definition add_sums :: "analytics_row \<Rightarrow> usage_sums \<Rightarrow> usage_sums" where
  "add_sums row agg =
     (let alias = text_or (an_alias row) []
      in if alias = [] then agg
         else case sums_for agg alias of
           (p_sum, c_sum, last_ts) \<Rightarrow>
             dict_put alias (p_sum + an_prompt_tokens row, c_sum + an_completion_tokens row, max last_ts (an_ts row)) agg)"

definition usage_insert :: "string option \<times> analytics_row \<Rightarrow> usage_table \<Rightarrow> usage_table option" where
  "usage_insert r t = (if fst r \<noteq> None \<and> fst r \<in> fst ` set t then None else Some (t @ [r]))"

fun insert_rows :: "(string option \<times> analytics_row) list \<Rightarrow> usage_table \<Rightarrow> usage_sums \<Rightarrow> usage_table \<times> usage_sums" where
  "insert_rows [] t agg = (t, agg)"
| "insert_rows (r # rs) t agg =
     (case usage_insert r t of
        None \<Rightarrow> insert_rows rs t agg
      | Some t' \<Rightarrow> insert_rows rs t' (add_sums (snd r) agg))"

definition update_totals :: "string \<times> int \<times> int \<times> rat \<Rightarrow> model_totals list \<Rightarrow> model_totals list" where
  "update_totals s models =
     (case s of (alias, p_sum, c_sum, last_ts) \<Rightarrow>
        map (\<lambda>m. if tt_alias m = alias
               then m\<lparr>tt_prompt_tokens := tt_prompt_tokens m + p_sum,
                      tt_completion_tokens := tt_completion_tokens m + c_sum,
                      tt_last_used_at :=
                        Some (max (case tt_last_used_at m of None \<Rightarrow> 0 | Some t \<Rightarrow> t) (py_trunc last_ts))\<rparr>
               else m) models)"

definition record_usage_batch ::
  "analytics_row list \<Rightarrow> string option list option \<Rightarrow> outbox_row list \<Rightarrow> catalog_db \<times> outbox
     \<Rightarrow> string + catalog_db \<times> outbox" where
  "record_usage_batch rows event_ids outbox_rows dbs =
     (if rows = [] then Inr dbs
      else
        let ids = (case event_ids of None \<Rightarrow> replicate (length rows) None | Some xs \<Rightarrow> xs)
        in if length ids \<noteq> length rows then Inl ''event_ids must match usage row count''
           else case insert_rows (zip ids rows) (ct_usage (fst dbs)) [] of
             (t, agg) \<Rightarrow>
               Inr ((fst dbs)\<lparr>ct_usage := t, ct_models := fold update_totals agg (ct_models (fst dbs))\<rparr>,
                    enqueue_outbox outbox_rows (snd dbs)))"

definition persist_usage_entries ::
  "bool \<Rightarrow> usage_entry list \<Rightarrow> catalog_db \<times> outbox \<Rightarrow> string + catalog_db \<times> outbox" where
  "persist_usage_entries enabled entries dbs =
     (if entries = [] then Inr dbs
      else record_usage_batch (map analytics_row_of entries) (Some (map (\<lambda>e. Some (en_event_id e)) entries))
             (if enabled then map outbox_row_of entries else []) dbs)"

section \<open>The CUDA manager's accounting\<close>

text \<open>
  \<open>lg_working\<close> holds the entries whose coroutine still awaits its transaction, with what the
  transaction did. \<open>lg_offered\<close>, \<open>lg_counted\<close> and \<open>lg_dropped\<close> are history: every entry made, the
  alias of every request counted, and the counts that an engine's teardown discarded.
\<close>

record ledger_state =
  lg_db :: catalog_db
  lg_delivery :: outbox_delivery
  lg_retry :: "usage_entry list"
  lg_working :: "(usage_entry \<times> bool) list"
  lg_resident :: "string option"
  lg_last_used_at :: "rat option"
  lg_delta :: int
  lg_offered :: "usage_entry list"
  lg_counted :: "string list"
  lg_dropped :: "(string \<times> int) list"

definition empty_delivery :: outbox_delivery where
  "empty_delivery = \<lparr>dl_outbox = empty_outbox, dl_pending = [], dl_ledger = [], dl_pruned = []\<rparr>"

definition ledger_start :: "model_totals list \<Rightarrow> ledger_state" where
  "ledger_start models =
     \<lparr>lg_db = \<lparr>ct_usage = [], ct_models = models\<rparr>, lg_delivery = empty_delivery, lg_retry = [], lg_working = [],
      lg_resident = None, lg_last_used_at = None, lg_delta = 0, lg_offered = [], lg_counted = [], lg_dropped = []\<rparr>"

text \<open>How the transactions of a flush end.\<close>

datatype flush_outcome = Flushed | BumpFails | PersistFails

definition persist :: "bool \<Rightarrow> usage_entry list \<Rightarrow> ledger_state \<Rightarrow> ledger_state" where
  "persist enabled entries st =
     (case persist_usage_entries enabled entries (lg_db st, dl_outbox (lg_delivery st)) of
        Inl e \<Rightarrow> st
      | Inr (db, b) \<Rightarrow> st\<lparr>lg_db := db, lg_delivery := (lg_delivery st)\<lparr>dl_outbox := b\<rparr>\<rparr>)"

definition flush_usage :: "bool \<Rightarrow> flush_outcome \<Rightarrow> ledger_state \<Rightarrow> ledger_state" where
  "flush_usage enabled out st =
     (let bumps = lg_resident st \<noteq> None \<and> 0 < lg_delta st in
      if bumps \<and> out = BumpFails then st
      else
        let st1 = (if bumps
             then st\<lparr>lg_db := bump_usage (the (lg_resident st)) (lg_last_used_at st) (lg_delta st) (lg_db st), lg_delta := 0\<rparr>
             else st)
        in if lg_retry st1 = [] \<or> out = PersistFails then st1
           else (persist enabled (lg_retry st1) st1)\<lparr>lg_retry := []\<rparr>)"

definition kill_engine :: "bool \<Rightarrow> flush_outcome \<Rightarrow> ledger_state \<Rightarrow> ledger_state" where
  "kill_engine enabled out st =
     (let st1 = flush_usage enabled out st
      in st1\<lparr>lg_dropped := lg_dropped st1 @ (case lg_resident st1 of None \<Rightarrow> [] | Some a \<Rightarrow> [(a, lg_delta st1)]),
             lg_resident := None, lg_last_used_at := None, lg_delta := 0\<rparr>)"

definition settle_entry :: "usage_entry \<Rightarrow> ledger_state \<Rightarrow> ledger_state" where
  "settle_entry entry st =
     (if list_ex (\<lambda>queued. en_event_id queued = en_event_id entry) (lg_retry st) then st
      else st\<lparr>lg_retry := lg_retry st @ [entry]\<rparr>)"

text \<open>\<open>_pg_flush_once\<close> up to its call of the writer.\<close>

definition pg_flush_start :: "token_sidecar \<Rightarrow> outbox_delivery \<Rightarrow> outbox_delivery" where
  "pg_flush_start cfg d =
     (let d1 = (if ts_max_outbox_rows cfg < count_outbox (dl_outbox d)
                then prune_delivery (ts_max_outbox_rows cfg) d else d)
      in begin_flush (ts_batch_size cfg) d1)"

datatype ledger_event =
    PersistEntry usage_report rat string bool
  | SettleEntry string bool
  | FlushUsage flush_outcome
  | FinishRequest string rat
  | KillEngine flush_outcome
  | EngineStarted string rat
  | PgFlushStart
  | PgFlushEnd write_outcome

text \<open>
  \<open>PersistEntry\<close> is the worker thread's transaction, which commits or fails; its identifier is fresh
  (\<open>uuid4\<close>). \<open>SettleEntry\<close> is the coroutine's end: \<open>known\<close> is false where the task was cancelled, so that
  its outcome is unknown. \<open>_pg_flush_loop\<close> runs one flush at a time, and none without a writer.
\<close>

fun ledger_step :: "token_sidecar \<Rightarrow> bool \<Rightarrow> ledger_event \<Rightarrow> ledger_state \<Rightarrow> ledger_state option" where
  "ledger_step cfg writer (PersistEntry r now uid commits) st =
     (case make_usage_entry r now uid of
        None \<Rightarrow> Some st
      | Some e \<Rightarrow>
          if uid \<in> set (map en_event_id (lg_offered st)) then None
          else
            let st1 = st\<lparr>lg_offered := lg_offered st @ [e], lg_working := lg_working st @ [(e, commits)]\<rparr>
            in Some (if commits then persist (ts_enabled cfg) [e] st1 else st1))"
| "ledger_step cfg writer (SettleEntry uid known) st =
     (case find (\<lambda>w. en_event_id (fst w) = uid) (lg_working st) of
        None \<Rightarrow> None
      | Some (e, committed) \<Rightarrow>
          let st1 = st\<lparr>lg_working := filter (\<lambda>w. en_event_id (fst w) \<noteq> uid) (lg_working st)\<rparr>
          in Some (if committed \<and> known then st1 else settle_entry e st1))"
| "ledger_step cfg writer (FlushUsage out) st = Some (flush_usage (ts_enabled cfg) out st)"
| "ledger_step cfg writer (FinishRequest alias now) st =
     Some (st\<lparr>lg_last_used_at := Some now, lg_delta := lg_delta st + 1, lg_counted := lg_counted st @ [alias]\<rparr>)"
| "ledger_step cfg writer (KillEngine out) st = Some (kill_engine (ts_enabled cfg) out st)"
| "ledger_step cfg writer (EngineStarted alias now) st =
     (if lg_resident st \<noteq> None then None else Some (st\<lparr>lg_resident := Some alias, lg_last_used_at := Some now\<rparr>))"
| "ledger_step cfg writer PgFlushStart st =
     (if \<not> writer then Some st
      else if dl_pending (lg_delivery st) \<noteq> [] then None
      else Some (st\<lparr>lg_delivery := pg_flush_start cfg (lg_delivery st)\<rparr>))"
| "ledger_step cfg writer (PgFlushEnd out) st =
     (if dl_pending (lg_delivery st) = [] then None
      else Some (st\<lparr>lg_delivery := end_flush out (ts_node_id cfg) (lg_delivery st)\<rparr>))"

text \<open>A request is counted while its model is resident: it holds a lease until after the count.\<close>

fun under_lease :: "ledger_event \<Rightarrow> ledger_state \<Rightarrow> bool" where
  "under_lease (FinishRequest alias now) st = (lg_resident st = Some alias)"
| "under_lease _ st = True"

section \<open>The macOS service's accounting\<close>

text \<open>
  The timestamp and the duration of an event are finite (\<open>UsageEvent.__post_init__\<close>), \<open>json\<close> is its
  \<open>raw_json\<close>. A row that violates a \<open>CHECK\<close> is skipped by \<open>OR IGNORE\<close>.
\<close>

fun finite_value :: "pyfloat \<Rightarrow> rat" where
  "finite_value (Fin x) = x"
| "finite_value _ = 0"

definition mac_entry :: "usage_event \<Rightarrow> usage_entry" where
  "mac_entry e =
     \<lparr>en_ts = finite_value (ue_timestamp e), en_requested_model = ue_requested_model e, en_alias = ue_alias e,
      en_backend = Some (ue_engine e), en_prompt_tokens = us_prompt_tokens (ue_usage e),
      en_completion_tokens = us_completion_tokens (ue_usage e), en_total_tokens = us_total_tokens (ue_usage e),
      en_usage_json = raw_json (ue_usage e), en_event_id = ue_event_id e, en_endpoint = normalized_endpoint e,
      en_streamed = ue_streamed e, en_response_ms = finite_value (ue_response_ms e),
      en_status_code = ue_status_code e\<rparr>"

definition checks_ok :: "usage_entry \<Rightarrow> bool" where
  "checks_ok e =
     (0 \<le> en_prompt_tokens e \<and> 0 \<le> en_completion_tokens e \<and> 0 \<le> en_total_tokens e \<and> 0 \<le> en_response_ms e)"

definition insert_usage :: "usage_entry \<Rightarrow> usage_entry list \<Rightarrow> usage_entry list" where
  "insert_usage e t = (if en_event_id e \<in> en_event_id ` set t \<or> \<not> checks_ok e then t else t @ [e])"

text \<open>\<open>record_batch\<close>: both tables and the two counts of \<open>PersistResult\<close>.\<close>

fun record_batch ::
  "bool \<Rightarrow> usage_event list \<Rightarrow> usage_entry list \<times> outbox \<Rightarrow> (usage_entry list \<times> outbox) \<times> nat \<times> nat" where
  "record_batch enqueue [] tb = (tb, 0, 0)"
| "record_batch enqueue (ev # evs) tb =
     (let e = mac_entry ev; t = insert_usage e (fst tb);
          b = (if enqueue \<and> checks_ok e then outbox_insert (outbox_row_of e) (snd tb) else snd tb)
      in case record_batch enqueue evs (t, b) of
           (tb', a, o') \<Rightarrow>
             (tb', a + (length t - length (fst tb)), o' + (length (bx_rows b) - length (bx_rows (snd tb)))))"

text \<open>The reporting part of the service's configuration; the node's name is resolved elsewhere.\<close>

record mac_sidecar =
  sc_enabled :: bool
  sc_batch_size :: int
  sc_max_outbox_rows :: int

record mac_state =
  mu_usage :: "usage_entry list"
  mu_delivery :: outbox_delivery
  mu_unpruned :: int
  mu_recorded :: "usage_event list"

definition mac_start :: mac_state where
  "mac_start = \<lparr>mu_usage = [], mu_delivery = empty_delivery, mu_unpruned = 0, mu_recorded = []\<rparr>"

text \<open>
  \<open>MacRecord\<close> and \<open>MacPrune\<close> are the two threads that \<open>record\<close> awaits one after the other; the flush lock
  keeps a second flush out until the first has ended. Without a writer nothing is flushed. An identifier
  names one event, which may be recorded again.
\<close>

datatype mac_event = MacRecord usage_event bool | MacPrune | MacFlushStart | MacFlushEnd write_outcome

fun mac_step :: "mac_sidecar \<Rightarrow> string \<Rightarrow> bool \<Rightarrow> mac_event \<Rightarrow> mac_state \<Rightarrow> mac_state option" where
  "mac_step cfg node_id writer (MacRecord ev commits) st =
     (if usage_event_error ev \<noteq> None \<or> (ue_event_id ev \<in> ue_event_id ` set (mu_recorded st) \<and> ev \<notin> set (mu_recorded st)) then None
      else if \<not> commits then Some st
      else case record_batch (sc_enabled cfg) [ev] (mu_usage st, dl_outbox (mu_delivery st)) of
        ((t, b), counts) \<Rightarrow>
          Some (st\<lparr>mu_usage := t, mu_delivery := (mu_delivery st)\<lparr>dl_outbox := b\<rparr>,
                   mu_unpruned := mu_unpruned st + 1, mu_recorded := mu_recorded st @ [ev]\<rparr>))"
| "mac_step cfg node_id writer MacPrune st =
     (if \<not> sc_enabled cfg then None
      else Some (st\<lparr>mu_delivery := prune_delivery (sc_max_outbox_rows cfg) (mu_delivery st), mu_unpruned := 0\<rparr>))"
| "mac_step cfg node_id writer MacFlushStart st =
     (if \<not> writer then Some st
      else if dl_pending (mu_delivery st) \<noteq> [] then None
      else Some (st\<lparr>mu_delivery := begin_flush (sc_batch_size cfg) (mu_delivery st)\<rparr>))"
| "mac_step cfg node_id writer (MacFlushEnd out) st =
     (if dl_pending (mu_delivery st) = [] then None
      else Some (st\<lparr>mu_delivery := end_flush out (node_id) (mu_delivery st)\<rparr>))"

section \<open>Lemmas on one transaction\<close>

definition usage_ids :: "usage_table \<Rightarrow> string option set" where
  "usage_ids t = fst ` set t"

lemma insert_rows_ids:
  "usage_ids (fst (insert_rows rs t agg)) = usage_ids t \<union> fst ` set rs"
proof (induction rs arbitrary: t agg)
  case (Cons r rs)
  show ?case using Cons.IH by (auto simp: usage_insert_def usage_ids_def)
qed (simp add: usage_ids_def)

lemma insert_rows_from: "set t \<subseteq> set (fst (insert_rows rs t agg)) \<and> set (fst (insert_rows rs t agg)) \<subseteq> set t \<union> set rs"
proof (induction rs arbitrary: t agg)
  case (Cons r rs)
  show ?case
  proof (cases "usage_insert r t")
    case None
    then show ?thesis using Cons.IH [of t agg] by auto
  next
    case (Some t')
    then have "set t' = insert r (set t)" by (auto simp: usage_insert_def split: if_splits)
    then show ?thesis using Some Cons.IH [of t' "add_sums (snd r) agg"] by auto
  qed
qed simp

lemma insert_rows_distinct:
  "distinct (map fst t) \<Longrightarrow> None \<notin> fst ` set rs \<Longrightarrow> distinct (map fst (fst (insert_rows rs t agg)))"
proof (induction rs arbitrary: t agg)
  case (Cons r rs)
  then show ?case by (auto simp: usage_insert_def)
qed simp

text \<open>The tokens a table accounts to an alias.\<close>

definition used_tokens :: "usage_table \<Rightarrow> string \<Rightarrow> int \<times> int" where
  "used_tokens t alias =
     (let own = filter (\<lambda>r. alias \<noteq> [] \<and> text_or (an_alias (snd r)) [] = alias) t
      in (sum_list (map (\<lambda>r. an_prompt_tokens (snd r)) own), sum_list (map (\<lambda>r. an_completion_tokens (snd r)) own)))"

definition token_sums :: "usage_sums \<Rightarrow> string \<Rightarrow> int \<times> int" where
  "token_sums agg alias = (fst (sums_for agg alias), fst (snd (sums_for agg alias)))"

definition plus2 :: "int \<times> int \<Rightarrow> int \<times> int \<Rightarrow> int \<times> int" where
  "plus2 x y = (fst x + fst y, snd x + snd y)"

lemma plus2_assoc: "plus2 (plus2 x y) z = plus2 x (plus2 y z)"
  by (simp add: plus2_def)

lemma plus2_commute: "plus2 x y = plus2 y x"
  by (simp add: plus2_def)

lemma plus2_zero [simp]: "plus2 x (0, 0) = x" "plus2 (0, 0) x = x"
  by (simp_all add: plus2_def)

lemma token_sums_Nil [simp]: "token_sums [] a = (0, 0)"
  by (simp add: token_sums_def sums_for_def)

lemma add_sums_distinct: "distinct (map fst agg) \<Longrightarrow> distinct (map fst (add_sums row agg))"
  by (simp add: add_sums_def Let_def dict_put_distinct split: prod.splits)

lemma add_sums_tokens:
  "plus2 (token_sums (add_sums row agg) a) (used_tokens t a) = plus2 (token_sums agg a) (used_tokens (t @ [(i, row)]) a)"
  by (auto simp: add_sums_def Let_def token_sums_def sums_for_def used_tokens_def plus2_def split: prod.splits option.splits)

lemma insert_rows_tokens:
  "plus2 (token_sums (snd (insert_rows rs t agg)) a) (used_tokens t a)
     = plus2 (token_sums agg a) (used_tokens (fst (insert_rows rs t agg)) a)"
proof (induction rs arbitrary: t agg)
  case (Cons r rs)
  show ?case
  proof (cases "usage_insert r t")
    case (Some t')
    then have t': "t' = t @ [(fst r, snd r)]" by (auto simp: usage_insert_def split: if_splits)
    then show ?thesis using Cons.IH [of t' "add_sums (snd r) agg"] add_sums_tokens [of "snd r" agg a t "fst r"] Some
      by (simp add: plus2_def prod_eq_iff)
  qed (use Cons.IH in simp)
qed simp

lemma insert_rows_sums_distinct: "distinct (map fst agg) \<Longrightarrow> distinct (map fst (snd (insert_rows rs t agg)))"
proof (induction rs arbitrary: t agg)
  case (Cons r rs)
  then show ?case by (auto split: option.splits intro: add_sums_distinct)
qed simp

text \<open>What the model \<open>m0\<close> has become: nothing but its counters has changed, and its tokens by \<open>d\<close>.\<close>

definition grown_by :: "(string \<Rightarrow> int \<times> int) \<Rightarrow> model_totals \<Rightarrow> model_totals \<Rightarrow> bool" where
  "grown_by d m0 m =
     (tt_alias m = tt_alias m0
      \<and> (tt_prompt_tokens m, tt_completion_tokens m) = plus2 (tt_prompt_tokens m0, tt_completion_tokens m0) (d (tt_alias m0)))"

lemma update_totals_grown:
  "distinct (map fst agg) \<Longrightarrow>
     list_all2 (\<lambda>m0 m. grown_by (token_sums agg) m0 m \<and> tt_request_count m = tt_request_count m0)
       models (fold update_totals agg models)"
proof (induction agg arbitrary: models)
  case Nil
  show ?case by (simp add: grown_by_def list_all2_conv_all_nth)
next
  case (Cons s agg)
  obtain al p c l where s: "s = (al, p, c, l)" by (cases s)
  have none: "dict_get agg al = None" using Cons.prems s
    by (force simp: dict_get_def map_of_eq_None_iff)
  have step: "list_all2 (\<lambda>m0 m. grown_by (\<lambda>a. if a = al then (p, c) else (0, 0)) m0 m
      \<and> tt_request_count m = tt_request_count m0) models (update_totals s models)"
    by (auto simp: s update_totals_def list_all2_conv_all_nth grown_by_def plus2_def)
  have rest: "list_all2 (\<lambda>m0 m. grown_by (token_sums agg) m0 m \<and> tt_request_count m = tt_request_count m0)
      (update_totals s models) (fold update_totals agg (update_totals s models))"
    using Cons.IH Cons.prems by simp
  have "token_sums (s # agg) a = plus2 (if a = al then (p, c) else (0, 0)) (token_sums agg a)" for a
    using none by (simp add: s token_sums_def sums_for_def dict_get_Cons plus2_def)
  then show ?case using list_all2_trans [OF _ step rest,
      of "\<lambda>m0 m. grown_by (token_sums (s # agg)) m0 m \<and> tt_request_count m = tt_request_count m0"]
    by (force simp: grown_by_def plus2_def)
qed

section \<open>The invariant of the CUDA manager's accounting\<close>

definition stored_row :: "usage_entry \<Rightarrow> string option \<times> analytics_row" where
  "stored_row e = (Some (en_event_id e), analytics_row_of e)"

definition stored :: "catalog_db \<Rightarrow> usage_entry \<Rightarrow> bool" where
  "stored db e = (Some (en_event_id e) \<in> usage_ids (ct_usage db))"

definition tables_inv :: "model_totals list \<Rightarrow> usage_entry list \<Rightarrow> catalog_db \<Rightarrow> bool" where
  "tables_inv models offered db =
     (distinct (map en_event_id offered) \<and> distinct (map fst (ct_usage db))
      \<and> set (ct_usage db) \<subseteq> stored_row ` set offered
      \<and> list_all2 (grown_by (used_tokens (ct_usage db))) models (ct_models db))"

definition kept_inv :: "ledger_state \<Rightarrow> bool" where
  "kept_inv st =
     (set (lg_retry st) \<subseteq> set (lg_offered st) \<and> fst ` set (lg_working st) \<subseteq> set (lg_offered st)
      \<and> distinct (map en_event_id (lg_retry st)) \<and> distinct (map (\<lambda>w. en_event_id (fst w)) (lg_working st))
      \<and> list_all (\<lambda>w. snd w \<longrightarrow> stored (lg_db st) (fst w)) (lg_working st)
      \<and> list_all (\<lambda>e. stored (lg_db st) e \<or> e \<in> set (lg_retry st) \<or> (e, False) \<in> set (lg_working st)) (lg_offered st))"

definition sent_rows :: "bool \<Rightarrow> ledger_state \<Rightarrow> outbox_row list" where
  "sent_rows enabled st = (if enabled then map outbox_row_of (filter (stored (lg_db st)) (lg_offered st)) else [])"

lemma sent_rows_frame [simp]:
  "sent_rows enabled (st\<lparr>lg_working := w\<rparr>) = sent_rows enabled st"
  "sent_rows enabled (st\<lparr>lg_retry := q\<rparr>) = sent_rows enabled st"
  "sent_rows enabled (st\<lparr>lg_delivery := d\<rparr>) = sent_rows enabled st"
  by (cases enabled; simp add: sent_rows_def)+

definition ledger_inv :: "token_sidecar \<Rightarrow> model_totals list \<Rightarrow> ledger_state \<Rightarrow> bool" where
  "ledger_inv cfg models st =
     (tables_inv models (lg_offered st) (lg_db st) \<and> kept_inv st
      \<and> delivery_inv (ts_node_id cfg) (sent_rows (ts_enabled cfg) st) (lg_delivery st))"

text \<open>One transaction of entries that were offered.\<close>

lemma list_all2_grown_trans:
  assumes "list_all2 (grown_by d1) xs ys" and "list_all2 (grown_by d2) ys zs" and "\<And>a. d a = plus2 (d1 a) (d2 a)"
  shows "list_all2 (grown_by d) xs zs"
  by (rule list_all2_trans [OF _ assms(1,2)]) (use assms(3) in \<open>force simp: grown_by_def plus2_assoc\<close>)

definition persisted :: "usage_entry list \<Rightarrow> catalog_db \<Rightarrow> catalog_db" where
  "persisted entries db =
     (case insert_rows (map stored_row entries) (ct_usage db) [] of
        (t, agg) \<Rightarrow> db\<lparr>ct_usage := t, ct_models := fold update_totals agg (ct_models db)\<rparr>)"

lemma persist_eq:
  "persist enabled entries st = st\<lparr>lg_db := persisted entries (lg_db st),
     lg_delivery := enqueue_delivery (if enabled then map outbox_row_of entries else []) (lg_delivery st)\<rparr>"
proof -
  have z: "zip (map (\<lambda>e. Some (en_event_id e)) entries) (map analytics_row_of entries) = map stored_row entries"
    by (induction entries) (simp_all add: stored_row_def)
  show ?thesis
    by (cases "entries = []")
      (simp_all add: persist_def persist_usage_entries_def record_usage_batch_def z enqueue_delivery_def
        persisted_def enqueue_outbox_def split: prod.splits)
qed

lemma persisted_ids: "usage_ids (ct_usage (persisted entries db)) = usage_ids (ct_usage db) \<union> (Some \<circ> en_event_id) ` set entries"
  using insert_rows_ids [of "map stored_row entries" "ct_usage db" "[]"]
  by (auto simp: persisted_def stored_row_def image_image split: prod.splits)

lemma stored_persisted: "stored (persisted entries db) e \<longleftrightarrow> stored db e \<or> en_event_id e \<in> en_event_id ` set entries"
  by (auto simp: stored_def persisted_ids)

lemma persisted_tables:
  assumes "tables_inv models offered db" and "set entries \<subseteq> set offered"
  shows "tables_inv models offered (persisted entries db)"
proof -
  obtain t agg where ta: "insert_rows (map stored_row entries) (ct_usage db) [] = (t, agg)" by fastforce
  have d: "distinct (map fst t)"
  proof -
    have "None \<notin> fst ` set (map stored_row entries)" by (auto simp: stored_row_def)
    then show ?thesis using insert_rows_distinct [of "ct_usage db" "map stored_row entries" "[]"] assms(1) ta
      by (simp add: tables_inv_def)
  qed
  have f: "set t \<subseteq> stored_row ` set offered"
  proof -
    have "set t \<subseteq> set (ct_usage db) \<union> stored_row ` set entries"
      using insert_rows_from [of "ct_usage db" "map stored_row entries" "[]"] ta by simp
    then show ?thesis using assms image_mono [OF assms(2), of stored_row] unfolding tables_inv_def by blast
  qed
  have sums: "used_tokens t a = plus2 (used_tokens (ct_usage db) a) (token_sums agg a)" for a
    using insert_rows_tokens [of "map stored_row entries" "ct_usage db" "[]" a] ta
    by (simp add: plus2_commute [of "used_tokens (ct_usage db) a"])
  have "distinct (map fst agg)" using insert_rows_sums_distinct [of "[]" "map stored_row entries" "ct_usage db"] ta by simp
  then have "list_all2 (grown_by (token_sums agg)) (ct_models db) (fold update_totals agg (ct_models db))"
    by (rule list_all2_mono [OF update_totals_grown]) simp
  moreover have "list_all2 (grown_by (used_tokens (ct_usage db))) models (ct_models db)"
    using assms(1) by (simp add: tables_inv_def)
  ultimately have "list_all2 (grown_by (used_tokens t)) models (fold update_totals agg (ct_models db))"
    using list_all2_grown_trans [OF _ _ sums] by simp
  then show ?thesis using d f assms(1) ta by (simp add: tables_inv_def persisted_def)
qed

lemma bump_usage_usage [simp]: "ct_usage (bump_usage a t n db) = ct_usage db"
  by (simp add: bump_usage_def split: option.splits)

lemma bump_usage_tables: "tables_inv models offered db \<Longrightarrow> tables_inv models offered (bump_usage a t n db)"
  by (auto simp: tables_inv_def bump_usage_def list_all2_conv_all_nth grown_by_def split: option.splits)

lemma stored_bump [simp]: "stored (bump_usage a t n db) = stored db"
  by (simp add: stored_def fun_eq_iff)

lemma delivery_inv_cong: "delivery_inv n s d \<Longrightarrow> set s = set s' \<Longrightarrow> delivery_inv n s' d"
  by (simp add: delivery_inv_def list_all_iff)

lemma offered_unique:
  "distinct (map en_event_id offered) \<Longrightarrow> e \<in> set offered \<Longrightarrow> f \<in> set offered \<Longrightarrow> en_event_id e = en_event_id f \<Longrightarrow> e = f"
  unfolding distinct_map by (blast dest: inj_onD)

lemma persist_inv:
  assumes "ledger_inv cfg models st" and "set entries \<subseteq> set (lg_offered st)"
  shows "ledger_inv cfg models (persist (ts_enabled cfg) entries st)"
proof -
  let ?st = "persist (ts_enabled cfg) entries st"
  note inv = assms(1) [unfolded ledger_inv_def]
  have u: "distinct (map en_event_id (lg_offered st))" using inv by (simp add: tables_inv_def)
  have s: "stored (persisted entries (lg_db st)) e \<longleftrightarrow> stored (lg_db st) e \<or> e \<in> set entries" if "e \<in> set (lg_offered st)" for e
    using offered_unique [OF u that] assms(2) by (auto simp: stored_persisted)
  let ?rows = "if ts_enabled cfg then map outbox_row_of entries else []"
  have "set (sent_rows (ts_enabled cfg) ?st) = set (sent_rows (ts_enabled cfg) st @ ?rows)"
    using s assms(2) by (auto simp: sent_rows_def persist_eq)
  moreover have "delivery_inv (ts_node_id cfg) (sent_rows (ts_enabled cfg) st @ ?rows) (lg_delivery ?st)"
    using enqueue_delivery_inv [of _ _ _ ?rows] inv unfolding persist_eq by simp
  ultimately have "delivery_inv (ts_node_id cfg) (sent_rows (ts_enabled cfg) ?st) (lg_delivery ?st)"
    using delivery_inv_cong by blast
  moreover have "kept_inv ?st"
    using inv by (auto simp: kept_inv_def persist_eq stored_persisted list_all_iff)
  ultimately show ?thesis using inv persisted_tables [OF _ assms(2)] by (simp add: ledger_inv_def persist_eq)
qed

lemma ledger_invD:
  assumes "ledger_inv cfg models st"
  shows "tables_inv models (lg_offered st) (lg_db st)" and "kept_inv st"
    and "delivery_inv (ts_node_id cfg) (sent_rows (ts_enabled cfg) st) (lg_delivery st)"
  using assms by (simp_all add: ledger_inv_def)

text \<open>The fields that the invariant does not read.\<close>

lemma ledger_inv_frame:
  assumes "ledger_inv cfg models st" and "lg_db st' = lg_db st" and "lg_delivery st' = lg_delivery st"
    and "lg_retry st' = lg_retry st" and "lg_working st' = lg_working st" and "lg_offered st' = lg_offered st"
  shows "ledger_inv cfg models st'"
  using assms by (cases "ts_enabled cfg") (simp_all add: ledger_inv_def kept_inv_def sent_rows_def)

lemma ledger_inv_delivery:
  assumes "ledger_inv cfg models st" and "delivery_inv (ts_node_id cfg) (sent_rows (ts_enabled cfg) st) d"
  shows "ledger_inv cfg models (st\<lparr>lg_delivery := d\<rparr>)"
  using assms by (cases "ts_enabled cfg") (simp_all add: ledger_inv_def kept_inv_def sent_rows_def)

lemma bump_inv:
  "ledger_inv cfg models st \<Longrightarrow> ledger_inv cfg models (st\<lparr>lg_db := bump_usage a t n (lg_db st), lg_delta := k\<rparr>)"
  by (cases "ts_enabled cfg") (simp_all add: ledger_inv_def kept_inv_def sent_rows_def bump_usage_tables)

lemma persist_simps [simp]:
  "lg_offered (persist en es st) = lg_offered st" "lg_retry (persist en es st) = lg_retry st"
  "lg_working (persist en es st) = lg_working st" "lg_db (persist en es st) = persisted es (lg_db st)"
  "lg_resident (persist en es st) = lg_resident st" "lg_delta (persist en es st) = lg_delta st"
  "lg_last_used_at (persist en es st) = lg_last_used_at st" "lg_counted (persist en es st) = lg_counted st"
  "lg_dropped (persist en es st) = lg_dropped st"
  by (simp_all add: persist_eq)

text \<open>Entries that are stored may leave the retry queue.\<close>

lemma clear_retry_inv:
  assumes "ledger_inv cfg models st" and "\<And>e. e \<in> set (lg_retry st) \<Longrightarrow> stored (lg_db st) e"
  shows "ledger_inv cfg models (st\<lparr>lg_retry := []\<rparr>)"
  using assms by (auto simp: ledger_inv_def kept_inv_def sent_rows_def list_all_iff)

lemma flush_usage_inv:
  assumes "ledger_inv cfg models st"
  shows "ledger_inv cfg models (flush_usage (ts_enabled cfg) out st)"
proof -
  have flush: "ledger_inv cfg models (if lg_retry s = [] \<or> b then s
      else (persist (ts_enabled cfg) (lg_retry s) s)\<lparr>lg_retry := []\<rparr>)" if "ledger_inv cfg models s" for s b
  proof -
    have "set (lg_retry s) \<subseteq> set (lg_offered s)" using ledger_invD(2) [OF that] by (simp add: kept_inv_def)
    then have "ledger_inv cfg models (persist (ts_enabled cfg) (lg_retry s) s)" using persist_inv that by blast
    from clear_retry_inv [OF this] have "ledger_inv cfg models ((persist (ts_enabled cfg) (lg_retry s) s)\<lparr>lg_retry := []\<rparr>)"
      by (simp add: stored_persisted)
    with that show ?thesis by (cases "lg_retry s = [] \<or> b") (simp_all only: if_True if_False)
  qed
  define s1 where "s1 = (if lg_resident st \<noteq> None \<and> 0 < lg_delta st
      then st\<lparr>lg_db := bump_usage (the (lg_resident st)) (lg_last_used_at st) (lg_delta st) (lg_db st), lg_delta := 0\<rparr>
      else st)"
  have "ledger_inv cfg models s1" unfolding s1_def using assms bump_inv [OF assms]
    by (cases "lg_resident st \<noteq> None \<and> 0 < lg_delta st") (simp_all only: if_True if_False simp_thms)
  from flush [OF this] assms show ?thesis unfolding flush_usage_def Let_def s1_def [symmetric]
    by (cases "(lg_resident st \<noteq> None \<and> 0 < lg_delta st) \<and> out = BumpFails") (simp_all only: if_True if_False simp_thms)
qed

text \<open>Leaving the working set, for a retry queue \<open>q\<close> that has what it may still lack.\<close>

lemma kept_settle:
  assumes "kept_inv st" and "set (lg_retry st) \<subseteq> set q" and "set q \<subseteq> set (lg_offered st)" and "distinct (map en_event_id q)"
    and "\<And>f. (f, False) \<in> set (lg_working st) \<Longrightarrow> en_event_id f = uid \<Longrightarrow> f \<in> set q"
  shows "kept_inv (st\<lparr>lg_working := filter (\<lambda>w. en_event_id (fst w) \<noteq> uid) (lg_working st), lg_retry := q\<rparr>)"
proof -
  note kept = assms(1) [unfolded kept_inv_def]
  let ?w = "filter (\<lambda>w. en_event_id (fst w) \<noteq> uid) (lg_working st)"
  have "list_all (\<lambda>f. stored (lg_db st) f \<or> f \<in> set q \<or> (f, False) \<in> set ?w) (lg_offered st)"
    unfolding list_all_iff
  proof
    fix f assume "f \<in> set (lg_offered st)"
    then have "stored (lg_db st) f \<or> f \<in> set (lg_retry st) \<or> (f, False) \<in> set (lg_working st)"
      using kept unfolding list_all_iff by blast
    then show "stored (lg_db st) f \<or> f \<in> set q \<or> (f, False) \<in> set ?w" using assms(2,5) by auto
  qed
  moreover have "fst ` set ?w \<subseteq> set (lg_offered st)" using kept by auto
  moreover have "distinct (map (\<lambda>w. en_event_id (fst w)) ?w)" using kept by (simp add: distinct_map_filter)
  moreover have "list_all (\<lambda>w. snd w \<longrightarrow> stored (lg_db st) (fst w)) ?w" using kept by (simp add: list_all_iff)
  ultimately show ?thesis using assms(3,4) by (simp add: kept_inv_def)
qed

lemma settle_inv:
  assumes "ledger_inv cfg models st" and "find (\<lambda>w. en_event_id (fst w) = uid) (lg_working st) = Some (e, c)"
  shows "ledger_inv cfg models
    (let st1 = st\<lparr>lg_working := filter (\<lambda>w. en_event_id (fst w) \<noteq> uid) (lg_working st)\<rparr>
     in if c \<and> known then st1 else settle_entry e st1)"
proof -
  note kept = ledger_invD(2) [OF assms(1), unfolded kept_inv_def]
  have e: "(e, c) \<in> set (lg_working st)" "en_event_id e = uid"
    using assms(2) unfolding find_Some_iff by (metis nth_mem, metis fst_conv)
  have unique: "w = (e, c)" if "w \<in> set (lg_working st)" "en_event_id (fst w) = uid" for w
  proof -
    have "inj_on (\<lambda>w. en_event_id (fst w)) (set (lg_working st))" using kept by (simp add: distinct_map)
    from inj_onD [OF this _ that(1) e(1)] show ?thesis using e(2) that(2) by simp
  qed
  have failed: "f = e \<and> \<not> c" if "(f, False) \<in> set (lg_working st)" "en_event_id f = uid" for f
    using unique [OF that(1)] that(2) by simp
  have off: "e \<in> set (lg_offered st)" using kept e(1) by force
  have u: "distinct (map en_event_id (lg_offered st))" using ledger_invD(1) [OF assms(1)] by (simp add: tables_inv_def)
  have again: "e \<in> set (lg_retry st)" if "q \<in> set (lg_retry st)" "en_event_id q = en_event_id e" for q
    using offered_unique [OF u _ off that(2)] that(1) kept by blast
  let ?st = "\<lambda>q. st\<lparr>lg_working := filter (\<lambda>w. en_event_id (fst w) \<noteq> uid) (lg_working st), lg_retry := q\<rparr>"
  have frame: "ledger_inv cfg models (?st q)" if "kept_inv (?st q)" for q
    using ledger_invD [OF assms(1)] that by (simp add: ledger_inv_def)
  have inv: "ledger_inv cfg models (?st (if c \<and> known \<or> e \<in> set (lg_retry st) then lg_retry st else lg_retry st @ [e]))"
  proof (intro frame kept_settle)
    show "kept_inv st" by (rule ledger_invD(2) [OF assms(1)])
    show "distinct (map en_event_id (if c \<and> known \<or> e \<in> set (lg_retry st) then lg_retry st else lg_retry st @ [e]))"
    proof -
      have "en_event_id e \<notin> en_event_id ` set (lg_retry st)" if "e \<notin> set (lg_retry st)"
        using again that by (metis image_iff)
      then show ?thesis using kept by simp
    qed
  qed (use kept off failed in auto)
  have queued: "list_ex (\<lambda>queued. en_event_id queued = en_event_id e) (lg_retry st) \<longleftrightarrow> e \<in> set (lg_retry st)"
    using again by (auto simp: list_ex_iff)
  show ?thesis by (rule ledger_inv_frame [OF inv]) (simp_all add: settle_entry_def Let_def queued)
qed

lemma pg_flush_start_inv: "delivery_inv n s d \<Longrightarrow> delivery_inv n s (pg_flush_start cfg d)"
  by (simp add: pg_flush_start_def Let_def delivery_invs)

text \<open>The event of a committed transaction: first as if it had failed, then persisted, then marked.\<close>

lemma offer_inv:
  assumes "ledger_inv cfg models st" and "en_event_id e \<notin> set (map en_event_id (lg_offered st))"
  shows "ledger_inv cfg models (st\<lparr>lg_offered := lg_offered st @ [e], lg_working := lg_working st @ [(e, False)]\<rparr>)"
proof -
  note inv = ledger_invD [OF assms(1)]
  have t: "tables_inv models (lg_offered st @ [e]) (lg_db st)" using inv(1) assms(2) by (auto simp: tables_inv_def)
  have new: "\<not> stored (lg_db st) e"
    using inv(1) assms(2) by (auto simp: tables_inv_def stored_def usage_ids_def stored_row_def)
  have "en_event_id e \<notin> (\<lambda>w. en_event_id (fst w)) ` set (lg_working st)"
    using inv(2) assms(2) by (fastforce simp: kept_inv_def)
  then have "kept_inv (st\<lparr>lg_offered := lg_offered st @ [e], lg_working := lg_working st @ [(e, False)]\<rparr>)"
    using inv(2) by (auto simp: kept_inv_def list_all_iff)
  then show ?thesis using t inv(3) new by (cases "ts_enabled cfg") (simp_all add: ledger_inv_def sent_rows_def)
qed

lemma mark_inv:
  assumes "ledger_inv cfg models st" and "lg_working st = ws @ [(e, False)]" and "stored (lg_db st) e"
  shows "ledger_inv cfg models (st\<lparr>lg_working := ws @ [(e, True)]\<rparr>)"
proof -
  have "kept_inv (st\<lparr>lg_working := ws @ [(e, True)]\<rparr>)"
    using ledger_invD(2) [OF assms(1)] assms(2,3) by (auto simp: kept_inv_def list_all_iff)
  then show ?thesis using ledger_invD [OF assms(1)] by (simp add: ledger_inv_def)
qed

lemma persist_entry_inv:
  assumes "ledger_inv cfg models st" and "en_event_id e \<notin> set (map en_event_id (lg_offered st))"
  shows "ledger_inv cfg models
    (persist (ts_enabled cfg) [e] (st\<lparr>lg_offered := lg_offered st @ [e], lg_working := lg_working st @ [(e, True)]\<rparr>))"
proof -
  let ?st = "st\<lparr>lg_offered := lg_offered st @ [e], lg_working := lg_working st @ [(e, False)]\<rparr>"
  have "ledger_inv cfg models (persist (ts_enabled cfg) [e] ?st)"
    by (rule persist_inv [OF offer_inv [OF assms]]) simp
  from mark_inv [OF this] have "ledger_inv cfg models
      ((persist (ts_enabled cfg) [e] ?st)\<lparr>lg_working := lg_working st @ [(e, True)]\<rparr>)"
    by (simp add: stored_persisted)
  then show ?thesis by (rule ledger_inv_frame) (simp_all add: persist_eq)
qed

lemma make_usage_entry_id: "make_usage_entry r now uid = Some e \<Longrightarrow> en_event_id e = uid"
  by (auto simp: make_usage_entry_def split: if_splits)

lemma ledger_step_inv:
  assumes "ledger_inv cfg models st" and "ledger_step cfg writer ev st = Some st'"
  shows "ledger_inv cfg models st'"
proof (cases ev)
  case (PersistEntry r now uid commits)
  then show ?thesis using assms offer_inv [OF assms(1)] persist_entry_inv [OF assms(1)] make_usage_entry_id [of r now uid]
    by (cases "make_usage_entry r now uid") (auto simp: Let_def split: if_splits)
next
  case (SettleEntry uid known)
  then obtain e c where f: "find (\<lambda>w. en_event_id (fst w) = uid) (lg_working st) = Some (e, c)"
    using assms(2) by (auto split: option.splits)
  show ?thesis using settle_inv [OF assms(1) f, of known] assms(2) SettleEntry f by (simp add: Let_def)
next
  case (KillEngine out)
  then show ?thesis using assms(2) ledger_inv_frame [OF flush_usage_inv [OF assms(1)]] by (auto simp: kill_engine_def Let_def)
next
  case (EngineStarted a now)
  then show ?thesis using assms(2) ledger_inv_frame [OF assms(1)] by (auto split: if_splits)
next
  case PgFlushStart
  then show ?thesis using assms ledger_inv_delivery pg_flush_start_inv ledger_invD(3) by (auto split: if_splits)
next
  case (PgFlushEnd out)
  then show ?thesis using assms ledger_inv_delivery end_flush_inv ledger_invD(3) by (auto split: if_splits)
qed (use assms flush_usage_inv ledger_inv_frame [OF assms(1)] in auto)

lemma ledger_start_inv: "ledger_inv cfg models (ledger_start models)"
  using empty_delivery_inv by (simp add: ledger_inv_def ledger_start_def tables_inv_def kept_inv_def sent_rows_def
    empty_delivery_def used_tokens_def grown_by_def list_all2_conv_all_nth)

interpretation ul: inductive_invariant "\<lambda>st. st = ledger_start models" "ledger_step cfg writer" "ledger_inv cfg models"
  by unfold_locales (auto simp: ledger_start_inv intro: ledger_step_inv)

section \<open>Request counts\<close>

definition counts_rel :: "(string \<Rightarrow> int) \<Rightarrow> model_totals list \<Rightarrow> model_totals list \<Rightarrow> bool" where
  "counts_rel d = list_all2 (\<lambda>m0 m. tt_alias m = tt_alias m0 \<and> tt_request_count m = tt_request_count m0 + d (tt_alias m0))"

definition dropped_for :: "(string \<times> int) list \<Rightarrow> string \<Rightarrow> int" where
  "dropped_for ds a = sum_list (map snd (filter (\<lambda>x. fst x = a) ds))"

text \<open>The requests of an alias that its row has been charged with.\<close>

definition charged :: "ledger_state \<Rightarrow> string \<Rightarrow> int" where
  "charged st a = count_if (\<lambda>x. x = a) (lg_counted st) - dropped_for (lg_dropped st) a
     - (if lg_resident st = Some a then lg_delta st else 0)"

definition counts_inv :: "model_totals list \<Rightarrow> ledger_state \<Rightarrow> bool" where
  "counts_inv models st =
     (counts_rel (charged st) models (ct_models (lg_db st)) \<and> 0 \<le> lg_delta st
      \<and> (lg_resident st = None \<longrightarrow> lg_delta st = 0) \<and> (lg_resident st \<noteq> None \<longrightarrow> lg_last_used_at st \<noteq> None)
      \<and> list_all (\<lambda>x. 0 \<le> snd x) (lg_dropped st))"

lemma counts_rel_trans:
  assumes "counts_rel d1 xs ys" and "counts_rel d2 ys zs" and "\<And>a. d a = d1 a + d2 a"
  shows "counts_rel d xs zs"
  unfolding counts_rel_def
  by (rule list_all2_trans [OF _ assms(1,2) [unfolded counts_rel_def]]) (use assms(3) in simp)

lemma persisted_counts: "counts_rel (\<lambda>a. 0) (ct_models db) (ct_models (persisted es db))"
proof -
  obtain t agg where ta: "insert_rows (map stored_row es) (ct_usage db) [] = (t, agg)" by fastforce
  have "distinct (map fst agg)" using insert_rows_sums_distinct [of "[]" "map stored_row es" "ct_usage db"] ta by simp
  then have "list_all2 (\<lambda>m0 m. tt_alias m = tt_alias m0 \<and> tt_request_count m = tt_request_count m0 + 0)
      (ct_models db) (fold update_totals agg (ct_models db))"
    by (rule list_all2_mono [OF update_totals_grown]) (simp add: grown_by_def)
  then show ?thesis by (simp add: counts_rel_def persisted_def ta)
qed

lemma bump_counts: "0 < n \<Longrightarrow> counts_rel (\<lambda>x. if x = a then n else 0) (ct_models db) (ct_models (bump_usage a (Some t) n db))"
  by (auto simp: counts_rel_def bump_usage_def list_all2_conv_all_nth)

lemma persist_counts: "counts_inv models st \<Longrightarrow> counts_inv models (persist en es st)"
  using counts_rel_trans [OF _ persisted_counts] by (auto simp: counts_inv_def charged_def)

text \<open>Steps that do not charge anyone.\<close>

lemma counts_inv_same:
  assumes "counts_inv models st" and "\<And>a. charged st' a = charged st a" and "lg_db st' = lg_db st"
    and "0 \<le> lg_delta st'" and "lg_resident st' = None \<longrightarrow> lg_delta st' = 0"
    and "lg_resident st' \<noteq> None \<longrightarrow> lg_last_used_at st' \<noteq> None" and "list_all (\<lambda>x. 0 \<le> snd x) (lg_dropped st')"
  shows "counts_inv models st'"
proof -
  have "charged st' = charged st" by (rule ext) (rule assms(2))
  then show ?thesis using assms by (simp add: counts_inv_def)
qed

lemma counts_inv_frame:
  assumes "counts_inv models st" and "lg_db st' = lg_db st" and "lg_delta st' = lg_delta st"
    and "lg_resident st' = lg_resident st" and "lg_last_used_at st' = lg_last_used_at st"
    and "lg_counted st' = lg_counted st" and "lg_dropped st' = lg_dropped st"
  shows "counts_inv models st'"
  by (rule counts_inv_same [OF assms(1)]) (use assms in \<open>simp_all add: charged_def counts_inv_def\<close>)

lemma flush_usage_counts:
  assumes "counts_inv models st"
  shows "counts_inv models (flush_usage en out st)"
proof -
  define b where "b = (lg_resident st \<noteq> None \<and> 0 < lg_delta st)"
  define s1 where "s1 = (if b
      then st\<lparr>lg_db := bump_usage (the (lg_resident st)) (lg_last_used_at st) (lg_delta st) (lg_db st), lg_delta := 0\<rparr>
      else st)"
  have s1: "counts_inv models s1"
  proof (cases b)
    case True
    then obtain a t where at: "lg_resident st = Some a" "lg_last_used_at st = Some t" "0 < lg_delta st"
      using assms by (auto simp: b_def counts_inv_def)
    have "counts_rel (charged s1) models (ct_models (lg_db s1))"
      by (rule counts_rel_trans [of "charged st" _ "ct_models (lg_db st)" "\<lambda>x. if x = a then lg_delta st else 0"])
        (use assms bump_counts at True in \<open>auto simp: s1_def counts_inv_def charged_def\<close>)
    then show ?thesis using assms True at by (simp add: counts_inv_def s1_def)
  qed (use assms in \<open>simp add: s1_def\<close>)
  have "counts_inv models ((persist en (lg_retry s1) s1)\<lparr>lg_retry := []\<rparr>)"
    by (rule counts_inv_frame [OF persist_counts [OF s1]]) simp_all
  with s1 assms show ?thesis unfolding flush_usage_def Let_def b_def [symmetric] s1_def [symmetric] by simp
qed

lemma counts_step:
  assumes "counts_inv models st" and "restrict_step under_lease (ledger_step cfg writer) ev st = Some st'"
  shows "counts_inv models st'"
proof -
  have step: "ledger_step cfg writer ev st = Some st'" and lease: "under_lease ev st"
    using assms(2) by (auto simp: restrict_step_def split: if_splits)
  note frame = counts_inv_frame [OF assms(1)]
  show ?thesis
  proof (cases ev)
    case (PersistEntry r now uid commits)
    show ?thesis
    proof (cases "make_usage_entry r now uid")
      case (Some e)
      have "counts_inv models (st\<lparr>lg_offered := lg_offered st @ [e], lg_working := lg_working st @ [(e, commits)]\<rparr>)"
        by (rule frame) simp_all
      from this persist_counts [OF this] show ?thesis using step PersistEntry Some by (auto simp: Let_def split: if_splits)
    qed (use step PersistEntry assms(1) in simp)
  next
    case (KillEngine out)
    let ?f = "flush_usage (ts_enabled cfg) out st"
    have f: "counts_inv models ?f" by (rule flush_usage_counts [OF assms(1)])
    show ?thesis
    proof (rule counts_inv_same [OF f])
      show "charged st' a = charged ?f a" for a using step KillEngine
        by (auto simp: kill_engine_def Let_def charged_def dropped_for_def split: option.splits)
    qed (use f step KillEngine in \<open>auto simp: kill_engine_def Let_def counts_inv_def split: option.splits\<close>)
  next
    case (FinishRequest a now)
    show ?thesis
    proof (rule counts_inv_same [OF assms(1)])
      show "charged st' x = charged st x" for x using step lease FinishRequest by (auto simp: charged_def)
    qed (use step lease FinishRequest assms(1) in \<open>auto simp: counts_inv_def\<close>)
  next
    case (EngineStarted a now)
    show ?thesis
    proof (rule counts_inv_same [OF assms(1)])
      show "charged st' x = charged st x" for x
        using step EngineStarted assms(1) by (auto simp: charged_def counts_inv_def split: if_splits)
    qed (use step EngineStarted assms(1) in \<open>auto simp: counts_inv_def split: if_splits\<close>)
  next
    case (SettleEntry uid known)
    then obtain e c where "find (\<lambda>w. en_event_id (fst w) = uid) (lg_working st) = Some (e, c)"
      using step by (auto split: option.splits)
    then have "st' = (let st1 = st\<lparr>lg_working := filter (\<lambda>w. en_event_id (fst w) \<noteq> uid) (lg_working st)\<rparr>
        in if c \<and> known then st1 else settle_entry e st1)" using step SettleEntry by (simp add: Let_def)
    then show ?thesis by (intro frame) (simp_all add: settle_entry_def Let_def)
  next
    case (FlushUsage out)
    then show ?thesis using step flush_usage_counts [OF assms(1)] by auto
  next
    case PgFlushStart
    then show ?thesis using step by (intro frame) (auto split: if_splits)
  next
    case (PgFlushEnd out)
    then show ?thesis using step by (intro frame) (auto split: if_splits)
  qed
qed

lemma counts_start: "counts_inv models (ledger_start models)"
  by (simp add: counts_inv_def ledger_start_def counts_rel_def charged_def dropped_for_def list_all2_conv_all_nth)

interpretation rc: inductive_invariant "\<lambda>st. st = ledger_start models"
    "restrict_step under_lease (ledger_step cfg writer)" "counts_inv models"
  by unfold_locales (auto simp: counts_start intro: counts_step)

section \<open>Properties of the CUDA manager's accounting\<close>

abbreviation ledger_reach :: "token_sidecar \<Rightarrow> bool \<Rightarrow> model_totals list \<Rightarrow> ledger_state \<Rightarrow> bool" where
  "ledger_reach cfg writer models \<equiv> reach (\<lambda>st. st = ledger_start models) (ledger_step cfg writer)"

text \<open>A run that meets a failed transaction, an unknown outcome and a write that fails half way.\<close>

definition demo_sidecar :: token_sidecar where
  "demo_sidecar = \<lparr>ts_enabled = True, ts_node_id = ''n1'', ts_flush_interval_seconds = 30, ts_batch_size = 5,
     ts_max_outbox_rows = 9, ts_connect_timeout_seconds = Fin 5\<rparr>"

definition demo_report :: usage_report where
  "demo_report = \<lparr>rp_requested_model = None, rp_alias = Some ''m'', rp_backend = None,
     rp_usage = \<lparr>us_prompt_tokens = 3, us_completion_tokens = 4, us_total_tokens = 7, us_raw = []\<rparr>,
     rp_endpoint = ''/v1/responses'', rp_streamed = True, rp_response_ms = 12, rp_status_code = 200\<rparr>"

definition demo_usage_model :: model_totals where
  "demo_usage_model = \<lparr>tt_alias = ''m'', tt_last_used_at = None, tt_request_count = 0, tt_prompt_tokens = 0, tt_completion_tokens = 0\<rparr>"

definition demo_ledger_events :: "ledger_event list" where
  "demo_ledger_events =
     [EngineStarted ''m'' 0, FinishRequest ''m'' 1, PersistEntry demo_report 1 ''a'' False, FinishRequest ''m'' 2,
      PersistEntry demo_report 2 ''b'' True, SettleEntry ''a'' True, SettleEntry ''b'' False, FlushUsage Flushed,
      PgFlushStart, PgFlushEnd (WriteFailed 1), PgFlushStart, PgFlushEnd Written]"

definition demo_ledger :: ledger_state where
  "demo_ledger = the (run (ledger_step demo_sidecar True) demo_ledger_events (ledger_start [demo_usage_model]))"

lemma demo_ledger_run:
  "run (ledger_step demo_sidecar True) demo_ledger_events (ledger_start [demo_usage_model]) = Some demo_ledger"
  "run (restrict_step under_lease (ledger_step demo_sidecar True)) demo_ledger_events (ledger_start [demo_usage_model]) = Some demo_ledger"
  by code_simp+

lemma demo_ledger_reach: "ledger_reach demo_sidecar True [demo_usage_model] demo_ledger"
  by (rule reach_run [OF reach_init demo_ledger_run(1)]) simp

text \<open>
  C9: In every reachable state each entry made is stored in \<open>request_usage\<close> exactly once, or is retained
  (in the retry queue or by its coroutine) where its transaction failed; nothing else is stored.
\<close>

theorem usage_recorded_once:
  assumes "ledger_reach cfg writer models st"
  shows "mset (ct_usage (lg_db st)) = mset (map stored_row (filter (stored (lg_db st)) (lg_offered st)))
    \<and> (\<forall>e \<in> set (lg_offered st). stored (lg_db st) e \<or> e \<in> set (lg_retry st) \<or> (e, False) \<in> set (lg_working st))"
proof -
  note inv = ledger_invD [OF ul.inv_reach [OF assms]]
  have d: "distinct (ct_usage (lg_db st))" "distinct (map stored_row (filter (stored (lg_db st)) (lg_offered st)))"
    using inv(1) by (auto simp: tables_inv_def distinct_map inj_on_def stored_row_def)
  have "set (ct_usage (lg_db st)) = stored_row ` {e \<in> set (lg_offered st). stored (lg_db st) e}"
  proof
    show "set (ct_usage (lg_db st)) \<subseteq> stored_row ` {e \<in> set (lg_offered st). stored (lg_db st) e}"
      using inv(1) by (force simp: tables_inv_def stored_def usage_ids_def stored_row_def)
    show "stored_row ` {e \<in> set (lg_offered st). stored (lg_db st) e} \<subseteq> set (ct_usage (lg_db st))"
    proof
      fix r assume "r \<in> stored_row ` {e \<in> set (lg_offered st). stored (lg_db st) e}"
      then obtain e x where e: "e \<in> set (lg_offered st)" "r = stored_row e"
        and x: "x \<in> set (ct_usage (lg_db st))" "fst x = Some (en_event_id e)"
        by (auto simp: stored_def usage_ids_def)
      from x(1) inv(1) obtain f where f: "f \<in> set (lg_offered st)" "x = stored_row f" by (auto simp: tables_inv_def)
      then have "f = e" using offered_unique [of "lg_offered st" f e] inv(1) e(1) x(2)
        by (simp add: tables_inv_def stored_row_def)
      then show "r \<in> set (ct_usage (lg_db st))" using e f x by simp
    qed
  qed
  then have "set (ct_usage (lg_db st)) = set (map stored_row (filter (stored (lg_db st)) (lg_offered st)))" by simp
  then have "mset (ct_usage (lg_db st)) = mset (map stored_row (filter (stored (lg_db st)) (lg_offered st)))"
    by (rule set_eq_iff_mset_eq_distinct [OF d, THEN iffD1])
  then show ?thesis using inv(2) by (simp add: kept_inv_def list_all_iff)
qed

theorem usage_recorded_once_witness:
  "length (ct_usage (lg_db demo_ledger)) = 2
   \<and> mset (ct_usage (lg_db demo_ledger)) = mset (map stored_row (filter (stored (lg_db demo_ledger)) (lg_offered demo_ledger)))"
proof -
  have "length (ct_usage (lg_db demo_ledger)) = 2" by code_simp
  then show ?thesis using usage_recorded_once [OF demo_ledger_reach] by simp
qed

text \<open>C38: The token totals of every model are its initial ones plus those of its rows in \<open>request_usage\<close>.\<close>

theorem usage_totals_match:
  assumes "ledger_reach cfg writer models st"
  shows "list_all2 (\<lambda>m0 m. tt_alias m = tt_alias m0
    \<and> tt_prompt_tokens m = tt_prompt_tokens m0 + fst (used_tokens (ct_usage (lg_db st)) (tt_alias m0))
    \<and> tt_completion_tokens m = tt_completion_tokens m0 + snd (used_tokens (ct_usage (lg_db st)) (tt_alias m0)))
    models (ct_models (lg_db st))"
proof -
  have "list_all2 (grown_by (used_tokens (ct_usage (lg_db st)))) models (ct_models (lg_db st))"
    using ledger_invD(1) [OF ul.inv_reach [OF assms]] by (simp add: tables_inv_def)
  then show ?thesis by (rule list_all2_mono) (simp add: grown_by_def plus2_def)
qed

theorem usage_totals_match_witness:
  "map tt_prompt_tokens (ct_models (lg_db demo_ledger)) = [6]
   \<and> tt_prompt_tokens (hd (ct_models (lg_db demo_ledger))) = fst (used_tokens (ct_usage (lg_db demo_ledger)) ''m'')"
proof -
  have "map tt_prompt_tokens (ct_models (lg_db demo_ledger)) = [6]" by code_simp
  then show ?thesis using usage_totals_match [OF demo_ledger_reach]
    by (cases "ct_models (lg_db demo_ledger)") (auto simp: demo_usage_model_def)
qed

text \<open>
  C19: The central ledger has no event twice and only stored entries of this node. With the sidecar enabled
  every stored entry is in the outbox, in the ledger or among the rows that pruning dropped, and
  identifiers in the outbox are unique; with it disabled both are empty.
\<close>

theorem usage_ledger_complete:
  assumes "ledger_reach cfg writer models st"
  shows "distinct (map lr_event_id (dl_ledger (lg_delivery st))) \<and> distinct (outbox_events (dl_outbox (lg_delivery st)))
    \<and> set (dl_ledger (lg_delivery st))
        \<subseteq> ledger_params (ts_node_id cfg) ` outbox_row_of ` {e \<in> set (lg_offered st). ts_enabled cfg \<and> stored (lg_db st) e}
    \<and> (\<forall>e \<in> set (lg_offered st). ts_enabled cfg \<and> stored (lg_db st) e \<longrightarrow>
         en_event_id e \<in> set (outbox_events (dl_outbox (lg_delivery st)))
           \<union> lr_event_id ` set (dl_ledger (lg_delivery st)) \<union> set (dl_pruned (lg_delivery st)))
    \<and> (\<not> ts_enabled cfg \<longrightarrow> bx_rows (dl_outbox (lg_delivery st)) = [] \<and> dl_ledger (lg_delivery st) = [])"
  using ledger_invD(3) [OF ul.inv_reach [OF assms]]
  by (cases "ts_enabled cfg")
    (auto simp: delivery_inv_def outbox_ok_def sent_rows_def list_all_iff outbox_row_of_def)

theorem usage_ledger_complete_witness:
  "map lr_event_id (dl_ledger (lg_delivery demo_ledger)) = [''b'', ''a'']
   \<and> distinct (map lr_event_id (dl_ledger (lg_delivery demo_ledger)))"
proof -
  have "map lr_event_id (dl_ledger (lg_delivery demo_ledger)) = [''b'', ''a'']" by code_simp
  then show ?thesis using usage_ledger_complete [OF demo_ledger_reach] by simp
qed

text \<open>
  C39: In the runs in which a request is counted only while its model is the resident one (as its lease
  provides, except after the lost barrier of the residency coordinator), every model's request count
  is its initial one plus the requests counted for it, less those still buffered while it is resident
  and those dropped at an engine's teardown, so that no model is charged with another's requests.
\<close>

theorem request_counts_exact:
  assumes "reach (\<lambda>st. st = ledger_start models) (restrict_step under_lease (ledger_step cfg writer)) st"
  shows "list_all2 (\<lambda>m0 m. tt_alias m = tt_alias m0
    \<and> tt_request_count m = tt_request_count m0 + count_if (\<lambda>a. a = tt_alias m0) (lg_counted st)
        - dropped_for (lg_dropped st) (tt_alias m0) - (if lg_resident st = Some (tt_alias m0) then lg_delta st else 0))
    models (ct_models (lg_db st)) \<and> 0 \<le> lg_delta st \<and> list_all (\<lambda>x. 0 \<le> snd x) (lg_dropped st)"
proof -
  have inv: "counts_inv models st" by (rule rc.inv_reach [OF assms])
  then have "counts_rel (charged st) models (ct_models (lg_db st))" by (simp add: counts_inv_def)
  then have "list_all2 (\<lambda>m0 m. tt_alias m = tt_alias m0
    \<and> tt_request_count m = tt_request_count m0 + count_if (\<lambda>a. a = tt_alias m0) (lg_counted st)
        - dropped_for (lg_dropped st) (tt_alias m0) - (if lg_resident st = Some (tt_alias m0) then lg_delta st else 0))
    models (ct_models (lg_db st))"
    unfolding counts_rel_def by (rule list_all2_mono) (simp add: charged_def)
  then show ?thesis using inv by (simp add: counts_inv_def)
qed

theorem request_counts_exact_witness:
  "map tt_request_count (ct_models (lg_db demo_ledger)) = [2] \<and> 0 \<le> lg_delta demo_ledger"
proof -
  have "map tt_request_count (ct_models (lg_db demo_ledger)) = [2]" by code_simp
  then show ?thesis using request_counts_exact [OF reach_run [OF reach_init demo_ledger_run(2)]] by simp
qed

section \<open>The CUDA outbox is bounded by its writer only\<close>

lemma outbox_bounded_by_flush:
  assumes "ledger_reach cfg True models st" and "0 \<le> ts_max_outbox_rows cfg"
    and "ledger_step cfg True PgFlushStart st = Some st'"
  shows "count_outbox (dl_outbox (lg_delivery st')) \<le> ts_max_outbox_rows cfg"
proof -
  have "outbox_ok (dl_outbox (lg_delivery st))"
    using ledger_invD(3) [OF ul.inv_reach [OF assms(1)]] by (simp add: delivery_inv_def)
  then show ?thesis using assms(2,3) prune_bounded [of "dl_outbox (lg_delivery st)" "ts_max_outbox_rows cfg"]
    by (auto simp: pg_flush_start_def begin_flush_def prune_delivery_def Let_def split: if_splits)
qed

text \<open>
  Without a writer (the sidecar is enabled but its DSN is unset) a flush returns before it prunes, so the
  outbox grows with every request.
\<close>

lemma outbox_unbounded_without_writer:
  "\<exists>st. ledger_reach demo_sidecar False [demo_usage_model] st \<and> count_outbox (dl_outbox (lg_delivery st)) = int n
     \<and> set (map en_event_id (lg_offered st)) = (\<lambda>i. replicate (Suc i) (CHR ''a'')) ` {..<n}
     \<and> ledger_step demo_sidecar False PgFlushStart st = Some st"
proof (induction n)
  case 0
  show ?case by (rule exI [of _ "ledger_start [demo_usage_model]"])
    (auto simp: ledger_start_def empty_delivery_def empty_outbox_def count_outbox_def intro: reach_init)
next
  case (Suc n)
  then obtain st where r: "ledger_reach demo_sidecar False [demo_usage_model] st"
    and c: "count_outbox (dl_outbox (lg_delivery st)) = int n"
    and ids: "set (map en_event_id (lg_offered st)) = (\<lambda>i. replicate (Suc i) (CHR ''a'')) ` {..<n}" by blast
  let ?uid = "replicate (Suc n) (CHR ''a'')"
  have fresh: "?uid \<notin> set (map en_event_id (lg_offered st))"
    unfolding ids by (auto simp del: replicate_Suc simp: replicate_eq_replicate)
  have off: "set (outbox_events (dl_outbox (lg_delivery st))) \<subseteq> set (map en_event_id (lg_offered st))"
    using ledger_invD(3) [OF ul.inv_reach [OF r]]
    by (force simp: delivery_inv_def outbox_events_def sent_rows_def demo_sidecar_def outbox_row_of_def)
  obtain e where e: "make_usage_entry demo_report 0 ?uid = Some e" by (simp add: make_usage_entry_def demo_report_def)
  have id: "en_event_id e = ?uid" by (rule make_usage_entry_id [OF e])
  define st' where "st' = persist True [e] (st\<lparr>lg_offered := lg_offered st @ [e], lg_working := lg_working st @ [(e, True)]\<rparr>)"
  have step: "ledger_step demo_sidecar False (PersistEntry demo_report 0 ?uid True) st = Some st'"
    using fresh e by (simp add: st'_def demo_sidecar_def Let_def del: replicate_Suc)
  have "count_outbox (dl_outbox (lg_delivery st')) = int (Suc n)"
    using c fresh off id by (auto simp: st'_def persist_eq enqueue_delivery_def enqueue_outbox_def outbox_insert_def
      outbox_row_of_def count_outbox_def simp del: replicate_Suc)
  moreover have "set (map en_event_id (lg_offered st')) = (\<lambda>i. replicate (Suc i) (CHR ''a'')) ` {..<Suc n}"
    using ids id by (simp add: st'_def lessThan_Suc del: replicate_Suc)
  ultimately show ?case using reach_step [OF r step] by (intro exI [of _ st']) simp
qed

section \<open>The invariant of the macOS service's accounting\<close>

definition mac_rows :: "usage_event list \<Rightarrow> usage_entry list" where
  "mac_rows recorded = filter checks_ok (map mac_entry recorded)"

definition mac_inv :: "mac_sidecar \<Rightarrow> string \<Rightarrow> mac_state \<Rightarrow> bool" where
  "mac_inv cfg node_id st =
     (inj_on ue_event_id (set (mu_recorded st)) \<and> distinct (map en_event_id (mu_usage st))
      \<and> set (mu_usage st) = set (mac_rows (mu_recorded st))
      \<and> delivery_inv node_id (if sc_enabled cfg then map outbox_row_of (mac_rows (mu_recorded st)) else []) (mu_delivery st)
      \<and> 0 \<le> mu_unpruned st
      \<and> (if sc_enabled cfg then count_outbox (dl_outbox (mu_delivery st)) \<le> max 0 (sc_max_outbox_rows cfg) + mu_unpruned st
         else bx_rows (dl_outbox (mu_delivery st)) = []))"

lemma mac_entry_id [simp]: "en_event_id (mac_entry ev) = ue_event_id ev"
  by (simp add: mac_entry_def)

lemma mac_rows_snoc: "mac_rows (rs @ [ev]) = mac_rows rs @ (if checks_ok (mac_entry ev) then [mac_entry ev] else [])"
  by (simp add: mac_rows_def)

lemma record_one:
  "fst (record_batch enqueue [ev] (t, b)) = (insert_usage (mac_entry ev) t,
     if enqueue \<and> checks_ok (mac_entry ev) then outbox_insert (outbox_row_of (mac_entry ev)) b else b)"
  by (simp add: Let_def)

lemma mac_record_inv:
  assumes inv: "mac_inv cfg node_id st"
    and ok: "ue_event_id ev \<in> ue_event_id ` set (mu_recorded st) \<longrightarrow> ev \<in> set (mu_recorded st)"
    and tb: "fst (record_batch (sc_enabled cfg) [ev] (mu_usage st, dl_outbox (mu_delivery st))) = (t, b)"
  shows "mac_inv cfg node_id (st\<lparr>mu_usage := t, mu_delivery := (mu_delivery st)\<lparr>dl_outbox := b\<rparr>,
      mu_unpruned := mu_unpruned st + 1, mu_recorded := mu_recorded st @ [ev]\<rparr>)"
proof -
  let ?e = "mac_entry ev" and ?d = "mu_delivery st"
  let ?rows = "if sc_enabled cfg \<and> checks_ok ?e then [outbox_row_of ?e] else []"
  have t: "t = insert_usage ?e (mu_usage st)"
    and b: "(?d\<lparr>dl_outbox := b\<rparr>) = enqueue_delivery ?rows ?d"
    using tb unfolding record_one by (auto simp: enqueue_delivery_def enqueue_outbox_def)
  have inj: "inj_on ue_event_id (set (mu_recorded st @ [ev]))"
  proof (cases "ev \<in> set (mu_recorded st)")
    case True
    then show ?thesis using inv by (simp add: mac_inv_def insert_absorb)
  next
    case False
    then show ?thesis using inv ok unfolding mac_inv_def set_append list.set Un_insert_right Un_empty_right inj_on_insert
      by blast
  qed
  have used: "?e \<in> set (mu_usage st)" if "ue_event_id ev \<in> en_event_id ` set (mu_usage st)" "checks_ok ?e"
  proof -
    have "ue_event_id ev \<in> ue_event_id ` set (mu_recorded st)" using that(1) inv by (auto simp: mac_inv_def mac_rows_def)
    then show ?thesis using ok that(2) inv by (auto simp: mac_inv_def mac_rows_def)
  qed
  have "distinct (map en_event_id t)" using inv by (simp add: t insert_usage_def mac_inv_def)
  moreover have "set t = set (mac_rows (mu_recorded st @ [ev]))"
    using inv used by (auto simp: t insert_usage_def mac_inv_def mac_rows_snoc)
  moreover have "delivery_inv node_id (if sc_enabled cfg then map outbox_row_of (mac_rows (mu_recorded st @ [ev])) else [])
      (?d\<lparr>dl_outbox := b\<rparr>)"
    using inv enqueue_delivery_inv [of node_id _ ?d ?rows] unfolding b
    by (cases "sc_enabled cfg"; cases "checks_ok ?e") (auto simp: mac_inv_def mac_rows_snoc)
  moreover have "if sc_enabled cfg then count_outbox b \<le> max 0 (sc_max_outbox_rows cfg) + (mu_unpruned st + 1) else bx_rows b = []"
    using inv tb count_insert [of "outbox_row_of ?e" "dl_outbox ?d"] unfolding record_one
    by (auto simp: mac_inv_def split: if_splits)
  ultimately show ?thesis using inj inv by (cases "sc_enabled cfg") (simp_all add: mac_inv_def)
qed

lemma mac_step_inv:
  assumes "mac_inv cfg node_id st" and "mac_step cfg node_id writer ev st = Some st'"
  shows "mac_inv cfg node_id st'"
proof (cases ev)
  case (MacRecord e commits)
  show ?thesis
  proof (cases commits)
    case True
    obtain t b c where tb: "record_batch (sc_enabled cfg) [e] (mu_usage st, dl_outbox (mu_delivery st)) = ((t, b), c)"
      by (metis prod.exhaust)
    then show ?thesis using mac_record_inv [OF assms(1), of e t b] assms(2) MacRecord True
      by (auto simp del: record_batch.simps split: if_splits)
  qed (use assms MacRecord in \<open>auto split: if_splits\<close>)
next
  case MacPrune
  have ok: "outbox_ok (dl_outbox (mu_delivery st))" using assms(1) by (simp add: mac_inv_def delivery_inv_def)
  show ?thesis using assms MacPrune prune_delivery_inv prune_bounded [OF ok, of "sc_max_outbox_rows cfg"]
    by (auto simp: mac_inv_def prune_delivery_def Let_def split: if_splits)
next
  case MacFlushStart
  then show ?thesis using assms begin_flush_inv
    by (auto simp: mac_inv_def begin_flush_def split: if_splits)
next
  case (MacFlushEnd out)
  have "bx_rows (dl_outbox (end_flush out node_id d)) = []" if "bx_rows (dl_outbox d) = []" for d
    using that by (cases out) (simp_all add: end_flush_def Let_def delete_outbox_def)
  moreover have "st' = st\<lparr>mu_delivery := end_flush out node_id (mu_delivery st)\<rparr>"
    using assms(2) MacFlushEnd by (simp split: if_splits)
  ultimately show ?thesis using assms(1) end_flush_inv [of node_id _ "mu_delivery st" out]
      count_end_flush [of out node_id "mu_delivery st"]
    by (cases "sc_enabled cfg") (simp_all add: mac_inv_def)
qed

lemma mac_start_inv: "mac_inv cfg node_id mac_start"
  using empty_delivery_inv by (simp add: mac_inv_def mac_start_def mac_rows_def empty_delivery_def empty_outbox_def count_outbox_def)

interpretation mu: inductive_invariant "\<lambda>st. st = mac_start" "mac_step cfg node_id writer" "mac_inv cfg node_id"
  by unfold_locales (auto simp: mac_start_inv intro: mac_step_inv)

section \<open>Properties of the macOS service's accounting\<close>

abbreviation mac_reach :: "mac_sidecar \<Rightarrow> string \<Rightarrow> bool \<Rightarrow> mac_state \<Rightarrow> bool" where
  "mac_reach cfg node_id writer \<equiv> reach (\<lambda>st. st = mac_start) (mac_step cfg node_id writer)"

definition demo_mac_sidecar :: mac_sidecar where
  "demo_mac_sidecar = \<lparr>sc_enabled = True, sc_batch_size = 1, sc_max_outbox_rows = 2\<rparr>"

definition demo_event :: "string \<Rightarrow> usage_event" where
  "demo_event i = \<lparr>ue_usage = \<lparr>us_prompt_tokens = 3, us_completion_tokens = 4, us_total_tokens = 7, us_raw = []\<rparr>,
     ue_endpoint = ''v1/messages'', ue_engine = ''omlx'', ue_requested_model = Some ''m'', ue_alias = None, ue_streamed = False,
     ue_response_ms = Fin 5, ue_status_code = 200, ue_event_id = i, ue_timestamp = Fin 1\<rparr>"

text \<open>The first event is recorded twice, and three events pass through an outbox of two rows.\<close>

definition demo_mac_events :: "mac_event list" where
  "demo_mac_events =
     [MacRecord (demo_event ''a'') True, MacRecord (demo_event ''a'') True, MacRecord (demo_event ''b'') False,
      MacRecord (demo_event ''b'') True, MacRecord (demo_event ''c'') True, MacFlushStart, MacPrune,
      MacFlushEnd Written]"

definition demo_mac :: mac_state where
  "demo_mac = the (run (mac_step demo_mac_sidecar ''n2'' True) demo_mac_events mac_start)"

lemma demo_mac_run: "run (mac_step demo_mac_sidecar ''n2'' True) demo_mac_events mac_start = Some demo_mac"
  by code_simp

lemma demo_mac_reach: "mac_reach demo_mac_sidecar ''n2'' True demo_mac"
  by (rule reach_run [OF reach_init demo_mac_run]) simp

text \<open>
  C20: However often events are recorded, each that satisfies the table's checks is stored once, and with the
  sidecar enabled it is in the outbox, in the ledger or among the pruned rows; the ledger has no event
  twice and only rows of stored events.
\<close>

theorem mac_usage_recorded_once:
  assumes "mac_reach cfg node_id writer st"
  shows "distinct (map en_event_id (mu_usage st)) \<and> set (mu_usage st) = {e \<in> mac_entry ` set (mu_recorded st). checks_ok e}
    \<and> distinct (map lr_event_id (dl_ledger (mu_delivery st)))
    \<and> set (dl_ledger (mu_delivery st)) \<subseteq> ledger_params node_id ` outbox_row_of ` set (mu_usage st)
    \<and> (\<forall>e \<in> set (mu_usage st). sc_enabled cfg \<longrightarrow>
         en_event_id e \<in> set (outbox_events (dl_outbox (mu_delivery st)))
           \<union> lr_event_id ` set (dl_ledger (mu_delivery st)) \<union> set (dl_pruned (mu_delivery st)))"
proof -
  have inv: "mac_inv cfg node_id st" by (rule mu.inv_reach [OF assms])
  then have used: "set (mu_usage st) = set (mac_rows (mu_recorded st))" by (simp add: mac_inv_def)
  have d: "delivery_inv node_id (if sc_enabled cfg then map outbox_row_of (mac_rows (mu_recorded st)) else []) (mu_delivery st)"
    using inv by (simp add: mac_inv_def)
  have "set (mac_rows (mu_recorded st)) = {e \<in> mac_entry ` set (mu_recorded st). checks_ok e}" by (auto simp: mac_rows_def)
  moreover have "set (dl_ledger (mu_delivery st)) \<subseteq> ledger_params node_id ` outbox_row_of ` set (mu_usage st)"
    using delivery_invD(6) [OF d] unfolding used by (auto split: if_splits)
  moreover have "ob_event_id (outbox_row_of e) = en_event_id e" for e by (simp add: outbox_row_of_def)
  ultimately show ?thesis using inv d used unfolding mac_inv_def
    by (cases "sc_enabled cfg") (simp_all add: delivery_inv_def list_all_iff disj_assoc)
qed

theorem mac_usage_recorded_once_witness:
  "map en_event_id (mu_usage demo_mac) = [''a'', ''b'', ''c''] \<and> dl_pruned (mu_delivery demo_mac) = [''a'']
   \<and> map lr_event_id (dl_ledger (mu_delivery demo_mac)) = [''a''] \<and> distinct (map en_event_id (mu_usage demo_mac))"
proof -
  have "map en_event_id (mu_usage demo_mac) = [''a'', ''b'', ''c'']" "dl_pruned (mu_delivery demo_mac) = [''a'']"
    "map lr_event_id (dl_ledger (mu_delivery demo_mac)) = [''a'']" by code_simp+
  then show ?thesis using mac_usage_recorded_once [OF demo_mac_reach] by simp
qed

text \<open>
  The macOS outbox holds at most the configured number of rows, plus one for each event recorded
  since the last pruning, whether or not the ledger can be reached.
\<close>

theorem mac_outbox_bounded:
  assumes "mac_reach cfg node_id writer st" and "0 \<le> sc_max_outbox_rows cfg"
  shows "count_outbox (dl_outbox (mu_delivery st)) \<le> sc_max_outbox_rows cfg + mu_unpruned st"
  using mu.inv_reach [OF assms(1)] assms(2) by (auto simp: mac_inv_def count_outbox_def split: if_splits)

theorem mac_outbox_bounded_witness:
  "count_outbox (dl_outbox (mu_delivery demo_mac)) = 2 \<and> mu_unpruned demo_mac = 0
   \<and> count_outbox (dl_outbox (mu_delivery demo_mac)) \<le> 2 + mu_unpruned demo_mac"
proof -
  have "count_outbox (dl_outbox (mu_delivery demo_mac)) = 2" "mu_unpruned demo_mac = 0" by code_simp+
  then show ?thesis using mac_outbox_bounded [OF demo_mac_reach] by (simp add: demo_mac_sidecar_def)
qed

text \<open>The flushes that empty an outbox of \<open>n\<close> rows.\<close>

definition drain_events :: "int \<Rightarrow> nat \<Rightarrow> mac_event list" where
  "drain_events batch n = concat (replicate (nat ((int n + batch - 1) div batch)) [MacFlushStart, MacFlushEnd Written])"

lemma drain_events_step:
  assumes "0 < n" and "0 < batch"
  shows "drain_events batch n = [MacFlushStart, MacFlushEnd Written] @ drain_events batch (n - nat batch)"
proof (cases "int n \<le> batch")
  case True
  then have "(int n + batch - 1) div batch = 1" using assms by (simp add: div_pos_pos_trivial int_div_pos_eq)
  moreover have "n - nat batch = 0" using True by simp
  ultimately show ?thesis using assms by (simp add: drain_events_def div_pos_pos_trivial)
next
  case False
  then have "(int n + batch - 1) div batch = (int (n - nat batch) + batch - 1) div batch + 1"
    using assms div_add_self2 [of batch "int n - 1"] by (simp add: of_nat_diff algebra_simps)
  moreover have "0 \<le> (int (n - nat batch) + batch - 1) div batch" using assms by (simp add: pos_imp_zdiv_nonneg_iff)
  ultimately show ?thesis by (simp add: drain_events_def nat_add_distrib)
qed

lemma drain_run:
  assumes "outbox_ok (dl_outbox (mu_delivery st))" and "dl_pending (mu_delivery st) = []" and "0 < sc_batch_size cfg"
  shows "\<exists>st'. run (mac_step cfg node_id True) (drain_events (sc_batch_size cfg) (length (bx_rows (dl_outbox (mu_delivery st))))) st = Some st'
    \<and> bx_rows (dl_outbox (mu_delivery st')) = [] \<and> mu_usage st' = mu_usage st"
  using assms(1,2)
proof (induction "length (bx_rows (dl_outbox (mu_delivery st)))" arbitrary: st rule: less_induct)
  case less
  let ?d = "mu_delivery st" and ?rows = "bx_rows (dl_outbox (mu_delivery st))" and ?batch = "sc_batch_size cfg"
  show ?case
  proof (cases "?rows = []")
    case True
    then show ?thesis using assms(3) by (simp add: drain_events_def div_pos_pos_trivial)
  next
    case False
    define d' where "d' = end_flush Written node_id (begin_flush ?batch ?d)"
    define st' where "st' = st\<lparr>mu_delivery := d'\<rparr>"
    have rows: "bx_rows (dl_outbox d') = drop (nat ?batch) ?rows"
      unfolding d'_def by (rule flush_written [OF less.prems(1) assms(3)])
    have ok: "outbox_ok (dl_outbox d')" unfolding d'_def end_flush_def begin_flush_def
      by (simp add: Let_def delete_outbox_def filter_outbox_ok less.prems(1))
    have pend: "dl_pending d' = []" by (simp add: d'_def end_flush_def Let_def)
    have "dl_pending (begin_flush ?batch ?d) \<noteq> []"
      using False assms(3) by (simp add: begin_flush_def peek_outbox_def)
    then have flush: "run (mac_step cfg node_id True) [MacFlushStart, MacFlushEnd Written] st = Some st'"
      using less.prems(2) by (simp add: st'_def d'_def)
    have "length (bx_rows (dl_outbox (mu_delivery st'))) < length ?rows"
      using rows False assms(3) by (simp add: st'_def)
    from less.hyps [OF this] ok pend obtain st2
      where "run (mac_step cfg node_id True) (drain_events ?batch (length (drop (nat ?batch) ?rows))) st' = Some st2"
        "bx_rows (dl_outbox (mu_delivery st2)) = []" "mu_usage st2 = mu_usage st"
      by (auto simp: st'_def rows)
    moreover have "drain_events ?batch (length ?rows)
        = [MacFlushStart, MacFlushEnd Written] @ drain_events ?batch (length (drop (nat ?batch) ?rows))"
      using drain_events_step [of "length ?rows" ?batch] False assms(3) by simp
    ultimately show ?thesis unfolding run_append flush by (metis append_Cons append_Nil flush option.simps(5) run_append)
  qed
qed

text \<open>
  C40: Once the ledger can be reached, flushing drains the outbox: from every state that is reachable with a
  writer configured and in which no flush is under way, and for a positive batch size, one flush per batch
  empties the outbox if every write succeeds; with the sidecar enabled, every stored event is then in the
  ledger or among the pruned rows.
\<close>

theorem mac_outbox_drains:
  assumes "mac_reach cfg node_id True st" and "dl_pending (mu_delivery st) = []" and "0 < sc_batch_size cfg"
  shows "\<exists>st'. run (mac_step cfg node_id True) (drain_events (sc_batch_size cfg) (length (bx_rows (dl_outbox (mu_delivery st))))) st = Some st'
    \<and> bx_rows (dl_outbox (mu_delivery st')) = []
    \<and> (sc_enabled cfg \<longrightarrow> (\<forall>e \<in> set (mu_usage st).
         en_event_id e \<in> lr_event_id ` set (dl_ledger (mu_delivery st')) \<union> set (dl_pruned (mu_delivery st'))))"
proof -
  have inv: "mac_inv cfg node_id st" by (rule mu.inv_reach [OF assms(1)])
  then have "outbox_ok (dl_outbox (mu_delivery st))" by (simp add: mac_inv_def delivery_inv_def)
  from drain_run [OF this assms(2,3), of node_id] obtain st' where
    r: "run (mac_step cfg node_id True) (drain_events (sc_batch_size cfg) (length (bx_rows (dl_outbox (mu_delivery st))))) st = Some st'"
    and e: "bx_rows (dl_outbox (mu_delivery st')) = []" "mu_usage st' = mu_usage st" by blast
  have "mac_inv cfg node_id st'" by (rule mu.inv_run [OF inv r])
  then have "\<forall>e \<in> set (mu_usage st'). en_event_id e \<in> lr_event_id ` set (dl_ledger (mu_delivery st')) \<union> set (dl_pruned (mu_delivery st'))"
    if "sc_enabled cfg" using that e(1)
    by (auto simp: mac_inv_def delivery_inv_def list_all_iff outbox_events_def outbox_row_of_def)
  then show ?thesis using r e by auto
qed

theorem mac_outbox_drains_witness:
  "\<exists>st'. run (mac_step demo_mac_sidecar ''n2'' True) (drain_events 1 2) demo_mac = Some st'
    \<and> bx_rows (dl_outbox (mu_delivery st')) = []"
proof -
  have "length (bx_rows (dl_outbox (mu_delivery demo_mac))) = 2" "dl_pending (mu_delivery demo_mac) = []" by code_simp+
  then show ?thesis using mac_outbox_drains [OF demo_mac_reach] by (auto simp: demo_mac_sidecar_def)
qed

end
