(* ===== verification/Spec2Isabelle.thy ===== *)
theory Spec2Isabelle
  imports Node_Fleet Node_Proxy Fleet_Proxy Mac_Fleet Mac_Residency_Properties Usage_Ledger
begin

text \<open>
  Mnemosyne Inference: a verification development for its inference nodes and its fleet gateway.

  The program. A node keeps at most one model resident and serves it over an OpenAI-style interface; the
  CUDA node manager is \<open>src/vllm_manager.py\<close> with its libraries under \<open>src/\<close>, the Apple Silicon service is
  \<open>src/macos/service/\<close>. The fleet gateway, \<open>src/fleet/\<close>, polls a snapshot from every enrolled node,
  routes each request to a node that has the deployment and free capacity, and keeps a history of routes.
  A request passes the gateway's proxy, the scheduler (which reads the registry's snapshots), the node's
  proxy and the node's residency coordinator, which admits it under a lease, loading the model first
  where it is not resident. The answer comes back through both proxies; the node accounts its tokens.

  Python's world. \<open>Prelude\<close> (reachability of step functions, the locales for invariants and simulations,
  ordered dictionaries, counting), \<open>Py_Values\<close> (numbers, doubles as rationals, strings as lists of code
  points below 256, white space), \<open>Py_Regex\<close> (the regular expressions the sources use), \<open>Py_Text\<close> (string
  methods, \<open>json.dumps\<close>) and \<open>Json_Canonical\<close> (the canonical JSON text of identities, with its
  injectivity).

  The CUDA node.
  \<^item> \<open>Cuda_Residency\<close>: \<open>src/cuda_residency.py\<close>. The state is one record (\<open>coord\<close>); every atomic section of
    every coroutine (what runs between two suspension points while holding the condition) is a
    function on it, and \<open>coord_step\<close> composes them over the events of all interleavings.
    \<open>Cuda_Residency_Safety\<close> proves the invariants by induction over the steps and
    \<open>Cuda_Residency_Properties\<close> the properties: the active count is the number of outstanding permits,
    engine callbacks exclude each other, an engine is never stopped under a live lease, admission is
    bounded and first-in first-out. Where a property needs it, runs are guarded: without the step by which
    a failed load reopens admission under a waiting maintenance operation (\<open>barrier_lost\<close> is a run with it).
  \<^item> \<open>Node_Config\<close> (\<open>src/config.py\<close>), \<open>Node_Profiles\<close> (\<open>src/profiles.py\<close>, the alias lookups of \<open>src/catalog.py\<close>
    and the request resolution of the manager), \<open>Node_Identity\<close> (\<open>src/fleet_protocol.py\<close> and the
    manager's deployment identity and capacity): what configuration is accepted, what a name resolves to,
    and that an identity has exactly the semantic part of a profile.
  \<^item> \<open>Node_Snapshot\<close> and \<open>Node_Fleet\<close>: the snapshot a node publishes, and the proof that in the states of
    guarded runs it conforms to the wire schema and passes the gateway's validation, or which settings
    break that.
  \<^item> \<open>Token_Usage\<close>: \<open>src/usage_normalization.py\<close> and the service's \<open>usage.py\<close>; the incremental parser computes
    what the whole stream means, however it is cut.
  \<^item> \<open>Image_Requests\<close>: both \<open>image_api.py\<close> files, their bounds and their agreement.
  \<^item> \<open>Node_Proxy\<close>: the manager's request handler; a run is a function of what the engine and the client do
    (\<open>proxy_env\<close>) and yields the answer and the list of effects in order. Exceptions that no clause of the
    handler catches (\<open>RecursionError\<close> of a deeply nested image request, \<open>OverflowError\<close>, \<open>ValueError\<close> for a
    \<open>NaN\<close> in the answer) are answers of their own.

  The macOS node.
  \<^item> \<open>Mac_Models\<close>: the runtime types of \<open>models.py\<close>, every check of a model profile and its resolution
    (\<open>config.py\<close>), the adapters' capacity hints and the derived capacity. \<open>Mac_Identity\<close>: the deployment identity
    (\<open>fleet_protocol.py\<close>, the provenance of installs in \<open>runtime.py\<close>), which the gateway accepts and which agrees with
    the CUDA node's for the same model. \<open>Mac_Fleet\<close>: which of its capacities the gateway accepts.
  \<^item> \<open>Mac_Residency\<close>: \<open>coordinator.py\<close>. Calls, driver tasks and lifecycle operations carry program counters, and
    \<open>resid_step\<close> is one section of one of them. \<open>Mac_Residency_Safety\<close> has the invariants: queue, claims and
    operation lock for all runs; the exact count and the quiescence of the engines for orderly ones (\<open>solo\<close>:
    operations do not overlap, initialization starts on an idle coordinator, no shutdown gives up waiting).
    \<open>Mac_Residency_Properties\<close> has the properties and a run for each restriction that shows why it is there:
    overlapping operations, a shutdown that gives up on a lease, one that meets the driver's cleanup.

  Usage.
  \<^item> \<open>Usage_Outbox\<close>: the outbox tables of \<open>src/catalog.py\<close> and \<open>usage_store.py\<close>, the rows and conflicts of
    \<open>src/pg_writer.py\<close>, and one delivery: peek, write, acknowledge, with every point at which it fails.
  \<^item> \<open>Usage_Ledger\<close>: the accounting of both platforms over all interleavings of their transactions; every
    finished request is stored once or kept for retry, totals match the rows, and nothing stored is lost on
    its way to the central ledger but what pruning drops.

  The gateway.
  \<^item> \<open>Fleet_Schema\<close> (\<open>schemas/snapshot.schema.json\<close>, one predicate per entry, over combinators with the meaning of
    JSON Schema's keywords) and \<open>Fleet_Wire\<close>: the document a snapshot stands for, and that it conforms.
  \<^item> \<open>Fleet_Protocol\<close> (\<open>protocol.py\<close>), \<open>Fleet_Config\<close> (\<open>config.py\<close>), \<open>Fleet_Registry\<close> (\<open>registry.py\<close>): validation
    of snapshots and configuration, and the polling loop with its fences against replays.
  \<^item> \<open>Fleet_Scheduler\<close>, \<open>Fleet_Scheduler_Safety\<close>: \<open>scheduler.py\<close> as one state machine with the registry;
    reservations stay within what nodes advertise, selection is optimal by an order stated on its own
    (\<open>preferred\<close>), the operator's matrix shows what selection does, the queues are bounded and fair.
  \<^item> \<open>Fleet_Store\<close> (\<open>store.py\<close>) and \<open>Fleet_Proxy\<close> (\<open>proxy.py\<close>): the route history, and the retry loop with the
    exactly-once settlement of a route. The loop relies on the scheduler through the locale
    \<open>route_source\<close>, which the scheduler's model satisfies.
  \<^item> This theory composes the two proxies: of the nodes tried for a request at most one does any work.

  Parameters. SHA-256, \<open>json.loads\<close>, pydantic's decoding of a snapshot, UTF-8 decoding, the engines, HTTP transports, clocks and timeouts are
  arguments or event outcomes, never definitions; a theorem that needs a law of one of them names it as a
  hypothesis, and its witness instantiates it. Identity theorems say what they show up to a collision of
  SHA-256.

  Bounds. Loops are structural recursions, or have a measure (the length of the unread buffer). Where a
  loop of the source is not bounded by its data, the model is a step relation and the theorems speak of all
  reachable states. No theorem assumes enough fuel.

  Not modelled. Processes and containers (engine start, probes, logs), HTTP wiring, downloads, the library of
  local models, updates of the runtimes, storage scopes, benchmark measurement, the embedded pages, packaging
  and release tooling: input and output around the decisions modelled here. Of the macOS service the
  whole configuration with its migrations, the HTTP application and the engine drivers are left out for
  the same reason.
\<close>

section \<open>The gateway and the nodes together\<close>

text \<open>
  How an attempt of the gateway and a run of a node's request handler belong together: the response
  carries the node's proof header, or its absence, and a connection that was never established had no
  effect on the node.
\<close>

definition same_exchange :: "send_result \<Rightarrow> answer \<times> proxy_effect list \<Rightarrow> bool" where
  "same_exchange sent work =
     (case sent of
        Headers status hs \<Rightarrow>
          header_get ''x-mnemosyne-error'' hs = header_get ''x-mnemosyne-error'' (answer_headers (fst work))
      | ConnectFailed \<Rightarrow> snd work = []
      | _ \<Rightarrow> True)"

lemma header_get_in: "header_get name hs = Some v \<Longrightarrow> \<exists>k. (k, v) \<in> set hs \<and> py_lower k = name"
  unfolding header_get_def by (auto dest!: find_SomeD)

lemma no_work_on_node:
  assumes "no_work_proved env" and "same_exchange (ae_send env) (proxy penv path body)"
  shows "snd (proxy penv path body) = []"
proof -
  obtain ans effects where p: "proxy penv path body = (ans, effects)" by fastforce
  show ?thesis
  proof (cases "ae_send env")
    case (Headers status hs)
    with assms have "header_get ''x-mnemosyne-error'' (answer_headers ans) = Some ''node_busy''"
      by (auto simp: no_work_proved_def is_node_busy_def same_exchange_def p)
    then obtain k where "(k, ''node_busy'') \<in> set (answer_headers ans)" "py_lower k = ''x-mnemosyne-error''"
      using header_get_in by blast
    with busy_no_effects [OF p] show ?thesis by (simp add: p)
  qed (use assms in \<open>auto simp: no_work_proved_def same_exchange_def\<close>)
qed

text \<open>
  C2: at most one node works on a request. Of all the nodes that the gateway tries for one request,
  every one but the last has taken no admission lease and has sent nothing to its engine.
\<close>

theorem at_most_one_node_works:
  assumes "handle loads limit nodes env chunks = (a, logs)"
    and "\<And>l. l \<in> set logs \<Longrightarrow>
      same_exchange (ae_send (al_env l)) (proxy (penv l) (path l) (body l))"
  shows "list_all (\<lambda>l. snd (proxy (penv l) (path l) (body l)) = []) (butlast logs)"
proof -
  from handle_logs [OF assms(1)] have "\<forall>l \<in> set (butlast logs). no_work_proved (al_env l)"
  proof
    assume "\<exists>payload. retry_loop env payload 0 (max 1 nodes) [] True = (a, logs)"
    then obtain payload where "retry_loop env payload 0 (max 1 nodes) [] True = (a, logs)" ..
    from loop_logs [OF this] show ?thesis using retried_no_work by (meson in_set_butlastD)
  qed simp
  then show ?thesis using no_work_on_node assms(2) in_set_butlastD unfolding list_all_iff by metis
qed

subsection \<open>A concrete request\<close>

text \<open>The first node's queue is full; the second one answers.\<close>

definition demo_reservation :: "string \<Rightarrow> reservation" where
  "demo_reservation nid =
     \<lparr>rv_route_id = nid, rv_public_model = ''flux'', rv_capability = ''images/generations'', rv_node_id = nid,
      rv_instance_id = ''i'', rv_deployment_id = ''d'', rv_local_alias = ''m'', rv_reserved_at = 0, rv_queue_ms = 0,
      rv_admitted_at = None\<rparr>"

definition demo_attempt :: "string \<Rightarrow> attempt_env" where
  "demo_attempt nid =
     \<lparr>ae_start_ok = True, ae_start_cancelled = False, ae_request_built = True,
      ae_send = (if nid = ''a'' then Headers 429 [(''X-Mnemosyne-Error'', ''node_busy'')] else Headers 200 []),
      ae_consume = NotConsumed, ae_response_built = True, ae_delivery = Delivered\<rparr>"

definition demo_gateway :: gateway_env where
  "demo_gateway =
     \<lparr>gw_acquire = (\<lambda>i excluded. Reserved (demo_reservation (if i = 0 then ''a'' else ''b''))),
      gw_attempt = (\<lambda>i rv. demo_attempt (rv_node_id rv))\<rparr>"

definition demo_node_env :: "attempt_log \<Rightarrow> proxy_env" where
  "demo_node_env l =
     (demo_proxy_env demo_image_request)
       \<lparr>pe_acquire := (if rv_node_id (al_reservation l) = ''a'' then (\<lambda>_. Inl QueueFull) else (\<lambda>_. Inr demo_image_profile)),
        pe_send := (\<lambda>_. Inr \<lparr>ur_status = 200, ur_headers = [], ur_content_type = ''application/json''\<rparr>)\<rparr>"

lemma demo_image_wire: "\<exists>out. image_payload (pf_served_model_name demo_image_profile) [] 4194304 demo_image_request = Inr out"
proof -
  have "case image_payload (pf_served_model_name demo_image_profile) [] 4194304 demo_image_request of Inl _ \<Rightarrow> False | Inr _ \<Rightarrow> True"
    by code_simp
  then show ?thesis by (auto split: sum.splits)
qed

lemma demo_node_runs:
  "rv_node_id (al_reservation l) = ''a'' \<Longrightarrow>
     proxy (demo_node_env l) ''v1/images/generations'' ''{}'' = (HttpError (admission_http_exception QueueFull), [])"
  "rv_node_id (al_reservation l) = ''b'' \<Longrightarrow>
     \<exists>effects. proxy (demo_node_env l) ''v1/images/generations'' ''{}'' = (JsonAnswer 200 (JObj demo_image_request), AcquireLease # effects)"
proof -
  obtain i ident auth where d: "profile_deployment demo_sha demo_image_profile = Inr (i, ident, auth)"
    using demo_image_deployment by auto
  have m: "dict_get demo_image_request ''model'' = Some (JStr ''flux'')" by (simp add: demo_image_request_def dict_get_Cons)
  have cap: "required_capability ''v1/images/generations'' = ''images.generations''" by (simp add: required_capability_def)
  obtain out where out: "image_payload (pf_served_model_name demo_image_profile) [] 4194304 demo_image_request = Inr out"
    using demo_image_wire by blast
  have sse: "contains ''text/event-stream'' ''application/json'' = False" and fin: "list_all (\<lambda>kv. json_finite (snd kv)) demo_image_request" by code_simp+
  note run = proxy_def peek_model_field_def demo_node_env_def demo_proxy_env_def m requested_profile_def unsupported_def cap
    demo_image_fields acquire_lease_def lease_error_def d upstream_body_def normalize_image_request_def request_object_def out
    exchange_def answer_body_def Let_def sse fin
  show "rv_node_id (al_reservation l) = ''a'' \<Longrightarrow>
     proxy (demo_node_env l) ''v1/images/generations'' ''{}'' = (HttpError (admission_http_exception QueueFull), [])"
    by (simp add: run)
  show "rv_node_id (al_reservation l) = ''b'' \<Longrightarrow>
     \<exists>effects. proxy (demo_node_env l) ''v1/images/generations'' ''{}'' = (JsonAnswer 200 (JObj demo_image_request), AcquireLease # effects)"
    by (simp add: run)
qed

definition demo_handled :: "gateway_answer \<times> attempt_log list" where
  "demo_handled = handle (\<lambda>_. Some (JObj demo_image_request)) 1000 2 demo_gateway [''{}'']"

theorem at_most_one_node_works_witness:
  "map (\<lambda>l. rv_node_id (al_reservation l)) (snd demo_handled) = [''a'', ''b'']
   \<and> list_all (\<lambda>l. snd (proxy (demo_node_env l) ''v1/images/generations'' ''{}'') = []) (butlast (snd demo_handled))
   \<and> (\<exists>effects. snd (proxy (demo_node_env (last (snd demo_handled))) ''v1/images/generations'' ''{}'') = AcquireLease # effects)"
proof -
  have nodes: "map (\<lambda>l. (rv_node_id (al_reservation l), ae_send (al_env l))) (snd demo_handled)
      = [(''a'', Headers 429 [(''X-Mnemosyne-Error'', ''node_busy'')]), (''b'', Headers 200 [])]" by code_simp
  then obtain l1 l2 where logs: "snd demo_handled = [l1, l2]" "rv_node_id (al_reservation l1) = ''a''"
      "rv_node_id (al_reservation l2) = ''b''" "ae_send (al_env l1) = Headers 429 [(''X-Mnemosyne-Error'', ''node_busy'')]"
      "ae_send (al_env l2) = Headers 200 []"
    by (auto simp: map_eq_Cons_conv)
  have h: "header_get ''x-mnemosyne-error'' [(''X-Mnemosyne-Error'', ''node_busy'')]
      = header_get ''x-mnemosyne-error'' (answer_headers (HttpError (admission_http_exception QueueFull)))"
    "header_get ''x-mnemosyne-error'' [] = header_get ''x-mnemosyne-error'' (answer_headers (JsonAnswer 200 (JObj demo_image_request)))" by code_simp+
  obtain effects where b: "proxy (demo_node_env l2) ''v1/images/generations'' ''{}'' = (JsonAnswer 200 (JObj demo_image_request), AcquireLease # effects)"
    using demo_node_runs(2) [OF logs(3)] by blast
  have "same_exchange (ae_send (al_env l)) (proxy (demo_node_env l) ''v1/images/generations'' ''{}'')" if "l \<in> set (snd demo_handled)" for l
    using that h by (auto simp: logs same_exchange_def demo_node_runs(1) [OF logs(2)] b)
  from at_most_one_node_works [of "\<lambda>_. Some (JObj demo_image_request)" 1000 2 demo_gateway "[''{}'']" "fst demo_handled"
      "snd demo_handled" demo_node_env "\<lambda>_. ''v1/images/generations''" "\<lambda>_. ''{}''"] this
  have "list_all (\<lambda>l. snd (proxy (demo_node_env l) ''v1/images/generations'' ''{}'') = []) (butlast (snd demo_handled))"
    by (simp add: demo_handled_def)
  then show ?thesis using logs b by simp
qed

end
